(* ===== verification/Prelude.thy ===== *)
theory Prelude
  imports Main "HOL-Library.Word" "HOL-Library.AList" "HOL-Library.Sublist" "HOL-Library.Multiset"
begin

text \<open>
  Shared vocabulary of the development: the integer widths of the Rust code, strings as lists of
  characters (the bytes of a Rust \<^verbatim>\<open>String\<close>), the string operations of the standard library that the
  code calls (\<^verbatim>\<open>trim\<close>, \<^verbatim>\<open>split\<close>, \<^verbatim>\<open>join\<close>, \<^verbatim>\<open>strip_prefix\<close>, \<^verbatim>\<open>to_string\<close> and \<^verbatim>\<open>parse\<close> on unsigned
  integers), results as sums with the error on the left, the "comes before" relation on lists, and
  the facts about them that the component theories share.
\<close>

section \<open>Integer widths, strings, results\<close>

type_synonym u8 = "8 word"
type_synonym u16 = "16 word"
type_synonym u32 = "32 word"
type_synonym u64 = "64 word"

text \<open>
  A Rust \<^verbatim>\<open>Result<T, E>\<close> is \<open>E + T\<close>: \<open>Inl\<close> is \<^verbatim>\<open>Err\<close>, \<open>Inr\<close> is \<^verbatim>\<open>Ok\<close>. A Rust \<^verbatim>\<open>HashMap\<close> is an
  association list with distinct keys where the code iterates over it, a partial function where it
  only looks keys up. The order in which a \<^verbatim>\<open>HashMap\<close> is iterated is unspecified: it is a parameter
  \<open>ord\<close> of the model, of which only \<open>hash_order\<close> is known.
\<close>

definition hash_order :: "('k list \<Rightarrow> 'k list) \<Rightarrow> bool" where
  "hash_order ord \<longleftrightarrow> (\<forall>ks. set (ord ks) = set ks \<and> distinct (ord ks))"

lemma hash_order_set: "hash_order ord \<Longrightarrow> set (ord ks) = set ks"
  by (simp add: hash_order_def)

lemma hash_order_distinct: "hash_order ord \<Longrightarrow> distinct (ord ks)"
  by (simp add: hash_order_def)

lemma hash_order_remdups [simp]: "hash_order remdups"
  by (simp add: hash_order_def)

lemma hash_order_rev_remdups [simp]: "hash_order (\<lambda>ks. rev (remdups ks))"
  by (simp add: hash_order_def)

definition bind_res :: "'e + 'a \<Rightarrow> ('a \<Rightarrow> 'e + 'b) \<Rightarrow> 'e + 'b" where
  "bind_res r f = (case r of Inl e \<Rightarrow> Inl e | Inr x \<Rightarrow> f x)"

lemma bind_res_simps [simp]:
  "bind_res (Inl e) f = Inl e"
  "bind_res (Inr x) f = f x"
  by (simp_all add: bind_res_def)

lemma bind_res_Inr_iff: "bind_res r f = Inr y \<longleftrightarrow> (\<exists>x. r = Inr x \<and> f x = Inr y)"
  by (cases r) auto

section \<open>String operations of the standard library\<close>

abbreviation quote_char :: char where "quote_char \<equiv> CHR 0x27"

text \<open>ASCII white space, the part of Rust's \<^verbatim>\<open>char::is_whitespace\<close> within one byte.\<close>

definition is_ws :: "char \<Rightarrow> bool" where
  "is_ws c \<longleftrightarrow> c \<in> {CHR 0x20, CHR 0x09, CHR 0x0A, CHR 0x0B, CHR 0x0C, CHR 0x0D}"

definition trim :: "string \<Rightarrow> string" where
  "trim s = rev (dropWhile is_ws (rev (dropWhile is_ws s)))"

fun strip_prefix :: "'a list \<Rightarrow> 'a list \<Rightarrow> 'a list option" where
  "strip_prefix [] s = Some s"
| "strip_prefix (p # ps) [] = None"
| "strip_prefix (p # ps) (c # cs) = (if p = c then strip_prefix ps cs else None)"

fun starts_with :: "'a list \<Rightarrow> 'a list \<Rightarrow> bool" where
  "starts_with [] s = True"
| "starts_with (p # ps) [] = False"
| "starts_with (p # ps) (c # cs) = (p = c \<and> starts_with ps cs)"

text \<open>\<^verbatim>\<open>to_ascii_lowercase\<close> of one byte.\<close>

definition lower_char :: "char \<Rightarrow> char" where
  "lower_char c = (let n = of_char c :: nat in if 65 \<le> n \<and> n \<le> 90 then char_of (n + 32) else c)"

text \<open>\<^verbatim>\<open>str::split(sep)\<close>: one more piece than separators, so the empty string has one empty piece.\<close>

fun split_on :: "'a \<Rightarrow> 'a list \<Rightarrow> 'a list list" where
  "split_on sep [] = [[]]"
| "split_on sep (c # cs) =
     (if c = sep then [] # split_on sep cs
      else (case split_on sep cs of [] \<Rightarrow> [[c]] | w # ws \<Rightarrow> (c # w) # ws))"

fun join_with :: "'a \<Rightarrow> 'a list list \<Rightarrow> 'a list" where
  "join_with sep [] = []"
| "join_with sep [w] = w"
| "join_with sep (w # ws) = w @ sep # join_with sep ws"

lemma strip_prefix_append [simp]: "strip_prefix p (p @ s) = Some s"
  by (induction p) auto

lemma strip_prefix_Some_iff: "strip_prefix p s = Some r \<longleftrightarrow> s = p @ r"
  by (induction p s rule: strip_prefix.induct) auto

lemma strip_prefix_None_iff: "strip_prefix p s = None \<longleftrightarrow> \<not> starts_with p s"
  by (induction p s rule: strip_prefix.induct) auto

lemma starts_with_iff: "starts_with p s \<longleftrightarrow> (\<exists>r. s = p @ r)"
  by (induction p s rule: starts_with.induct) auto

lemma starts_with_append [simp]: "starts_with p (p @ s)"
  by (auto simp: starts_with_iff)

lemma split_on_not_Nil [simp]: "split_on sep s \<noteq> []"
  by (induction s) (auto split: list.splits)

lemma split_on_no_sep: "sep \<notin> set w \<Longrightarrow> split_on sep w = [w]"
  by (induction w) auto

lemma split_on_append_sep:
  "sep \<notin> set w \<Longrightarrow> split_on sep (w @ sep # s) = w # split_on sep s"
  by (induction w) auto

text \<open>Splitting undoes joining when no piece contains the separator and there is a piece.\<close>

lemma split_on_join_with:
  "ws \<noteq> [] \<Longrightarrow> \<forall>w \<in> set ws. sep \<notin> set w \<Longrightarrow> split_on sep (join_with sep ws) = ws"
proof (induction sep ws rule: join_with.induct)
  case (3 sep w v vs)
  then have "sep \<notin> set w" and "split_on sep (join_with sep (v # vs)) = v # vs" by simp_all
  then show ?case by (simp add: split_on_append_sep del: split_on.simps)
qed (simp_all add: split_on_no_sep)

lemma split_on_pieces_free: "w \<in> set (split_on sep s) \<Longrightarrow> sep \<notin> set w"
  by (induction s arbitrary: w) (auto split: if_splits list.splits)

lemma dropWhile_hd_not: "xs = [] \<or> \<not> P (hd xs) \<Longrightarrow> dropWhile P xs = xs"
  by (cases xs) auto

lemma trim_no_ws: "s \<noteq> [] \<Longrightarrow> \<not> is_ws (hd s) \<Longrightarrow> \<not> is_ws (last s) \<Longrightarrow> trim s = s"
  by (simp add: trim_def dropWhile_hd_not hd_rev)

lemma trim_Nil [simp]: "trim [] = []"
  by (simp add: trim_def)

section \<open>Decimal printing and parsing of unsigned integers\<close>

definition digit_char :: "nat \<Rightarrow> char" where
  "digit_char d = char_of (48 + d)"

definition digit_val :: "char \<Rightarrow> nat option" where
  "digit_val c = (let n = of_char c in if 48 \<le> n \<and> n \<le> 57 then Some (n - 48) else None)"

fun show_nat :: "nat \<Rightarrow> string" where
  "show_nat n = (if n < 10 then [digit_char n] else show_nat (n div 10) @ [digit_char (n mod 10)])"

declare show_nat.simps [simp del]

fun parse_digits :: "nat \<Rightarrow> string \<Rightarrow> nat option" where
  "parse_digits acc [] = Some acc"
| "parse_digits acc (c # cs) =
     (case digit_val c of None \<Rightarrow> None | Some d \<Rightarrow> parse_digits (10 * acc + d) cs)"

text \<open>
  \<^verbatim>\<open>str::parse\<close> for an unsigned type of \<open>w\<close> bits: an optional plus sign, at least one digit, digits
  only, and a value below \<open>2 ^ w\<close>.
\<close>

definition parse_unsigned :: "nat \<Rightarrow> string \<Rightarrow> nat option" where
  "parse_unsigned w s =
     (let ds = (case s of c # cs \<Rightarrow> if c = CHR ''+'' then cs else s | [] \<Rightarrow> [])
      in if ds = [] then None
         else (case parse_digits 0 ds of None \<Rightarrow> None | Some n \<Rightarrow> if n < 2 ^ w then Some n else None))"

lemma digit_val_digit_char [simp]: "d < 10 \<Longrightarrow> digit_val (digit_char d) = Some d"
  by (simp add: digit_val_def digit_char_def Let_def)

lemma digit_char_not_plus: "d < 10 \<Longrightarrow> digit_char d \<noteq> CHR ''+''"
proof
  assume d: "d < 10" and eq: "digit_char d = CHR ''+''"
  have "digit_val (digit_char d) = Some d" using d by simp
  moreover have "digit_val (CHR ''+'') = None" by (simp add: digit_val_def)
  ultimately show False using eq by simp
qed

lemma show_nat_not_Nil [simp]: "show_nat n \<noteq> []"
  by (subst show_nat.simps) simp

lemma parse_digits_append:
  "parse_digits acc (xs @ ys) =
     (case parse_digits acc xs of None \<Rightarrow> None | Some a \<Rightarrow> parse_digits a ys)"
  by (induction acc xs rule: parse_digits.induct) (auto split: option.splits)

lemma parse_digits_show_nat: "parse_digits 0 (show_nat n) = Some n"
proof (induction n rule: show_nat.induct)
  case (1 n)
  show ?case
  proof (cases "n < 10")
    case True
    then show ?thesis by (simp add: show_nat.simps [of n])
  next
    case False
    with 1 have "parse_digits 0 (show_nat (n div 10)) = Some (n div 10)" by simp
    with False show ?thesis by (simp add: show_nat.simps [of n] parse_digits_append)
  qed
qed

lemma hd_show_nat: "\<exists>d < 10. hd (show_nat n) = digit_char d"
proof (induction n rule: show_nat.induct)
  case (1 n)
  show ?case
  proof (cases "n < 10")
    case True
    then show ?thesis by (auto simp: show_nat.simps [of n])
  next
    case False
    with 1 show ?thesis by (simp add: show_nat.simps [of n])
  qed
qed

lemma parse_unsigned_show_nat: "n < 2 ^ w \<Longrightarrow> parse_unsigned w (show_nat n) = Some n"
proof -
  assume n: "n < 2 ^ w"
  obtain c cs where s: "show_nat n = c # cs" by (cases "show_nat n") auto
  with hd_show_nat [of n] have "c \<noteq> CHR ''+''" by (auto simp: digit_char_not_plus)
  with s n parse_digits_show_nat [of n] show ?thesis by (simp add: parse_unsigned_def Let_def)
qed

lemma parse_unsigned_bound: "parse_unsigned w s = Some n \<Longrightarrow> n < 2 ^ w"
  by (auto simp: parse_unsigned_def Let_def split: if_splits option.splits)

definition show_word :: "'a::len word \<Rightarrow> string" where
  "show_word x = show_nat (unat x)"

definition parse_u32 :: "string \<Rightarrow> u32 option" where
  "parse_u32 s = map_option of_nat (parse_unsigned 32 s)"

definition parse_u64 :: "string \<Rightarrow> u64 option" where
  "parse_u64 s = map_option of_nat (parse_unsigned 64 s)"

lemma parse_u32_show [simp]: "parse_u32 (show_word x) = Some x"
proof -
  have "unat x < 2 ^ 32" using unsigned_less [of x] by simp
  then show ?thesis by (simp add: parse_u32_def show_word_def parse_unsigned_show_nat)
qed

lemma parse_u64_show [simp]: "parse_u64 (show_word x) = Some x"
proof -
  have "unat x < 2 ^ 64" using unsigned_less [of x] by simp
  then show ?thesis by (simp add: parse_u64_def show_word_def parse_unsigned_show_nat)
qed

text \<open>Signed integers: a sign, then digits; \<^verbatim>\<open>parse\<close> for a signed type of \<open>w\<close> bits.\<close>

definition show_int :: "int \<Rightarrow> string" where
  "show_int i = (if i < 0 then CHR ''-'' # show_nat (nat (- i)) else show_nat (nat i))"

definition parse_signed :: "nat \<Rightarrow> string \<Rightarrow> int option" where
  "parse_signed w s =
     (case s of
        [] \<Rightarrow> None
      | c # ds \<Rightarrow>
          if c = CHR ''-'' then
            (if ds = [] then None
             else (case parse_digits 0 ds of
                     None \<Rightarrow> None
                   | Some n \<Rightarrow> if n \<le> 2 ^ (w - 1) then Some (- int n) else None))
          else map_option int (parse_unsigned (w - 1) s))"

lemma digit_char_not_minus: "d < 10 \<Longrightarrow> digit_char d \<noteq> CHR ''-''"
proof
  assume d: "d < 10" and eq: "digit_char d = CHR ''-''"
  have "digit_val (digit_char d) = Some d" using d by simp
  moreover have "digit_val (CHR ''-'') = None" by (simp add: digit_val_def)
  ultimately show False using eq by simp
qed

lemma parse_signed_show_int:
  "- (2 ^ (w - 1)) \<le> i \<Longrightarrow> i < 2 ^ (w - 1) \<Longrightarrow> parse_signed w (show_int i) = Some i"
proof (cases "i < 0")
  case True
  assume "- (2 ^ (w - 1)) \<le> i"
  with True have "int (nat (- i)) \<le> int (2 ^ (w - 1))" by simp
  then have "nat (- i) \<le> 2 ^ (w - 1)" by (simp only: of_nat_le_iff)
  with True show ?thesis by (simp add: parse_signed_def show_int_def parse_digits_show_nat)
next
  case False
  assume "i < 2 ^ (w - 1)"
  with False have "int (nat i) < int (2 ^ (w - 1))" by simp
  then have n: "nat i < 2 ^ (w - 1)" by (simp only: of_nat_less_iff)
  obtain c cs where s: "show_nat (nat i) = c # cs" by (cases "show_nat (nat i)") auto
  with hd_show_nat [of "nat i"] have "c \<noteq> CHR ''-''" by (auto simp: digit_char_not_minus)
  with s n False parse_unsigned_show_nat [of "nat i" "w - 1"] show ?thesis
    by (simp add: parse_signed_def show_int_def)
qed

section \<open>Order of elements in a list\<close>

text \<open>\<open>before xs a b\<close>: the list has \<open>a\<close> at an earlier place than \<open>b\<close>.\<close>

definition before :: "'a list \<Rightarrow> 'a \<Rightarrow> 'a \<Rightarrow> bool" where
  "before xs a b \<longleftrightarrow> (\<exists>us vs ws. xs = us @ a # vs @ b # ws)"

lemma before_snoc: "before xs a b \<Longrightarrow> before (xs @ ys) a b"
proof -
  assume "before xs a b"
  then obtain us vs ws where "xs = us @ a # vs @ b # ws" by (auto simp: before_def)
  then have "xs @ ys = us @ a # vs @ b # (ws @ ys)" by simp
  then show ?thesis unfolding before_def by blast
qed

lemma before_last: "a \<in> set xs \<Longrightarrow> before (xs @ [b]) a b"
proof -
  assume "a \<in> set xs"
  then obtain us vs where "xs = us @ a # vs" by (auto dest: split_list)
  then have "xs @ [b] = us @ a # vs @ b # []" by simp
  then show ?thesis unfolding before_def by blast
qed

text \<open>In a list without repetitions the elements before an element of a prefix are in the prefix.\<close>

lemma before_prefix:
  assumes "before (xs @ ys) a b" and "b \<in> set xs" and "distinct (xs @ ys)"
  shows "before xs a b"
proof -
  from assms(1) obtain us vs ws where eq: "xs @ ys = us @ a # vs @ b # ws" by (auto simp: before_def)
  from assms(2) obtain ps qs where xs: "xs = ps @ b # qs" by (auto dest: split_list)
  have "ps @ b # (qs @ ys) = (us @ a # vs) @ b # ws" using eq xs by simp
  moreover have "distinct (ps @ b # (qs @ ys))" using assms(3) xs by simp
  ultimately have "ps = us @ a # vs"
    by (subst (asm) append_Cons_eq_iff) auto
  with xs show ?thesis unfolding before_def by auto
qed

lemma mset_filter_split: "mset (filter P xs) + mset (filter (\<lambda>x. \<not> P x) xs) = mset xs"
  by (induction xs) auto

section \<open>Association lists as hash maps\<close>

lemma map_of_map_const: "map_of (map (\<lambda>k. (k, f k)) ks) x = (if x \<in> set ks then Some (f x) else None)"
  by (induction ks) auto

lemma map_of_update [simp]: "map_of (AList.update k v al) = (map_of al)(k \<mapsto> v)"
  by (rule AList.update_conv')

lemma map_of_delete [simp]: "map_of (AList.delete k al) = (map_of al)(k := None)"
  by (rule AList.delete_conv')

lemma AList_update_new: "k \<notin> fst ` set al \<Longrightarrow> AList.update k v al = al @ [(k, v)]"
  by (induction al) auto

lemma set_fst_update: "fst ` set (AList.update k v al) = insert k (fst ` set al)"
  by (induction al) auto

section \<open>Saturating and clamped arithmetic on machine words\<close>

definition sat_add :: "'a::len word \<Rightarrow> 'a word \<Rightarrow> 'a word" where
  "sat_add x y = (if unat x + unat y < 2 ^ LENGTH('a) then x + y else - 1)"

lemma unat_sat_add: "unat (sat_add x y) = min (unat x + unat y) (2 ^ LENGTH('a) - 1)"
  for x y :: "'a::len word"
proof (cases "unat x + unat y < 2 ^ LENGTH('a)")
  case True
  then show ?thesis by (simp add: sat_add_def unat_word_ariths)
next
  case False
  then show ?thesis by (simp add: sat_add_def unsigned_minus_1_eq_mask mask_eq_exp_minus_1)
qed

lemma sat_add_ge: "x \<le> sat_add x y"
  for x y :: "'a::len word"
proof -
  have "unat x < 2 ^ LENGTH('a)" by (rule unsigned_less)
  then have "unat x \<le> 2 ^ LENGTH('a) - 1" by linarith
  then show ?thesis unfolding word_le_nat_alt unat_sat_add by simp
qed

section \<open>Texts with their lengths\<close>

text \<open>
  A prefix-free encoding of texts and integers, from which the concrete encoders and decoders of the
  witnesses are made.
\<close>

definition encode_text :: "string \<Rightarrow> string" where
  "encode_text s = replicate (length s) CHR ''x'' @ CHR ''.'' # s"

definition decode_text :: "string \<Rightarrow> string \<times> string" where
  "decode_text b =
     (let n = length (takeWhile (\<lambda>c. c = CHR ''x'') b); r = drop (Suc n) b in (take n r, drop n r))"

definition unary_int :: "int \<Rightarrow> string" where
  "unary_int i = (if i < 0 then CHR ''-'' else CHR ''+'') # replicate (nat \<bar>i\<bar>) CHR ''1''"

definition int_of_unary :: "string \<Rightarrow> int" where
  "int_of_unary s = (if hd s = CHR ''-'' then - int (length (tl s)) else int (length (tl s)))"

lemma decode_encode_text [simp]: "decode_text (encode_text s @ r) = (s, r)"
  by (simp add: decode_text_def encode_text_def takeWhile_tail)

lemma decode_encode_last [simp]: "decode_text (encode_text s) = (s, [])"
  using decode_encode_text [of s "[]"] by simp

lemma int_of_unary_int [simp]: "int_of_unary (unary_int i) = i"
  by (simp add: int_of_unary_def unary_int_def)

section \<open>Runs of failures\<close>

text \<open>The length of the run of failures at the end of a history, oldest entry first.\<close>

definition trailing_failures :: "bool list \<Rightarrow> nat" where
  "trailing_failures hist = length (takeWhile (\<lambda>ok. \<not> ok) (rev hist))"

lemma trailing_failures_snoc [simp]:
  "trailing_failures (hist @ [True]) = 0"
  "trailing_failures (hist @ [False]) = Suc (trailing_failures hist)"
  by (simp_all add: trailing_failures_def)

lemma trailing_failures_Nil [simp]: "trailing_failures [] = 0"
  by (simp add: trailing_failures_def)

lemma trailing_failures_le: "trailing_failures hist \<le> length hist"
  unfolding trailing_failures_def by (metis length_rev length_takeWhile_le)

end
