(* ===== verification/Topology.thy ===== *)
theory Topology
  imports Prelude
begin

text \<open>
  \<^verbatim>\<open>flare-core-runtime/src/utils/topology.rs\<close>: Kahn's algorithm over named items with dependency
  lists, used to fix the start order of tasks. The two hash maps of the code are an association
  list (\<open>dependents\<close>, which is searched and updated) and a partial function (\<open>in_degree\<close>). The
  order in which the code iterates \<^verbatim>\<open>in_degree\<close> is the parameter \<open>ord\<close>. A panic (an \<^verbatim>\<open>unwrap\<close> of a
  missing key, a subtraction below zero) is the result \<open>None\<close>; it is shown never to happen.
\<close>

section \<open>The graph and how it is built\<close>

type_synonym item = "string \<times> string list"

record graph =
  dependents :: "(string \<times> string list) list"
  in_degree :: "string \<rightharpoonup> nat"

text \<open>\<^verbatim>\<open>item_map.insert(name, deps)\<close> for every item: a later item of the same name wins.\<close>

definition item_map :: "item list \<Rightarrow> (string \<rightharpoonup> string list)" where
  "item_map items = foldl (\<lambda>m (n, ds). m(n \<mapsto> ds)) Map.empty items"

definition init_graph :: "string list \<Rightarrow> graph" where
  "init_graph names =
     foldl (\<lambda>g n. g\<lparr>dependents := AList.update n [] (dependents g),
                     in_degree := (in_degree g)(n \<mapsto> 0)\<rparr>)
       \<lparr>dependents = [], in_degree = Map.empty\<rparr> names"

definition missing_msg :: "string \<Rightarrow> string \<Rightarrow> string" where
  "missing_msg name dep =
     ''Item '' @ quote_char # name @ quote_char # '' depends on '' @ quote_char # dep
       @ quote_char # '', but '' @ quote_char # dep @ quote_char # '' is not registered''"

text \<open>
  The inner loop over the dependencies of one item. The result is a panic (\<open>None\<close>), the error
  for an unregistered dependency, or the extended graph.
\<close>

fun link_deps ::
  "(string \<rightharpoonup> string list) \<Rightarrow> string \<Rightarrow> string list \<Rightarrow> graph \<Rightarrow> (string list + graph) option" where
  "link_deps m name [] g = Some (Inr g)"
| "link_deps m name (dep # deps) g =
     (if m dep = None then Some (Inl [missing_msg name dep])
      else (case (in_degree g name, map_of (dependents g) dep) of
        (Some k, Some ns) \<Rightarrow>
          link_deps m name deps
            (g\<lparr>in_degree := (in_degree g)(name \<mapsto> k + 1),
               dependents := AList.update dep (ns @ [name]) (dependents g)\<rparr>)
      | _ \<Rightarrow> None))"

fun link_items ::
  "(string \<rightharpoonup> string list) \<Rightarrow> string list \<Rightarrow> graph \<Rightarrow> (string list + graph) option" where
  "link_items m [] g = Some (Inr g)"
| "link_items m (name # names) g =
     (case m name of
        None \<Rightarrow> None
      | Some deps \<Rightarrow>
          (case link_deps m name deps g of
             None \<Rightarrow> None
           | Some (Inl e) \<Rightarrow> Some (Inl e)
           | Some (Inr g') \<Rightarrow> link_items m names g'))"

section \<open>The work list loop\<close>

text \<open>Updating the in-degrees of the items that depend on the one just emitted.\<close>

fun relax ::
  "string list \<Rightarrow> (string \<rightharpoonup> nat) \<Rightarrow> string list \<Rightarrow> ((string \<rightharpoonup> nat) \<times> string list) option" where
  "relax [] deg queue = Some (deg, queue)"
| "relax (d # ds) deg queue =
     (case deg d of
        Some (Suc k) \<Rightarrow> relax ds (deg(d \<mapsto> k)) (if k = 0 then queue @ [d] else queue)
      | _ \<Rightarrow> None)"

definition unprocessed :: "(string \<times> string list) list \<Rightarrow> string list \<Rightarrow> nat" where
  "unprocessed dps processed = length (filter (\<lambda>k. k \<notin> set processed) (map fst dps))"

lemma unprocessed_le: "unprocessed dps (c # processed) \<le> unprocessed dps processed"
  unfolding unprocessed_def by (induction dps) auto

lemma unprocessed_less:
  assumes "map_of dps c = Some ns" and "c \<notin> set processed"
  shows "unprocessed dps (c # processed) < unprocessed dps processed"
  using assms
proof (induction dps)
  case (Cons kv dps)
  show ?case
  proof (cases "fst kv = c")
    case True
    then show ?thesis
      using Cons.prems unprocessed_le [of dps c processed] by (simp add: unprocessed_def)
  next
    case False
    with Cons show ?thesis by (auto simp: unprocessed_def)
  qed
qed simp

text \<open>
  \<^verbatim>\<open>while let Some(current) = queue.pop_front()\<close>. \<open>processed\<close> and \<open>sorted\<close> grow together: the
  set is kept as the list of its elements. Each round removes an element from the queue, and only
  a round that processes a new key of \<open>dependents\<close> adds any.
\<close>

function kahn ::
  "(string \<times> string list) list \<Rightarrow> string list \<Rightarrow> string list \<Rightarrow> string list \<Rightarrow> (string \<rightharpoonup> nat) \<Rightarrow>
   (string list \<times> string list) option" where
  "kahn dps queue srt processed deg =
     (case queue of
        [] \<Rightarrow> Some (srt, processed)
      | current # queue' \<Rightarrow>
          if current \<in> set processed then kahn dps queue' srt processed deg
          else
            (case map_of dps current of
               None \<Rightarrow> kahn dps queue' (srt @ [current]) (current # processed) deg
             | Some ns \<Rightarrow>
                 (case relax ns deg queue' of
                    None \<Rightarrow> None
                  | Some (deg', queue'') \<Rightarrow>
                      kahn dps queue'' (srt @ [current]) (current # processed) deg')))"
  by pat_completeness auto
termination
  by (relation "measures [\<lambda>(dps, queue, srt, processed, deg). unprocessed dps processed,
                          \<lambda>(dps, queue, srt, processed, deg). length queue]")
    (auto simp: unprocessed_less, metis unprocessed_le le_imp_less_or_eq)

declare kahn.simps [simp del]

text \<open>\<^verbatim>\<open>topological_sort\<close>; \<open>None\<close> is a panic.\<close>

definition topological_sort ::
  "(string list \<Rightarrow> string list) \<Rightarrow> item list \<Rightarrow> (string list + string list) option" where
  "topological_sort ord items =
     (let names = map fst items; m = item_map items
      in case link_items m names (init_graph names) of
           None \<Rightarrow> None
         | Some (Inl e) \<Rightarrow> Some (Inl e)
         | Some (Inr g) \<Rightarrow>
             (let queue = filter (\<lambda>n. in_degree g n = Some 0) (ord names)
              in case kahn (dependents g) queue [] [] (in_degree g) of
                   None \<Rightarrow> None
                 | Some (srt, processed) \<Rightarrow>
                     (if length srt \<noteq> length names
                      then Some (Inl (filter (\<lambda>n. n \<notin> set processed) names))
                      else Some (Inr srt))))"

section \<open>The graph built from the items\<close>

text \<open>
  The two maps of the code are determined by the list of edges (dependency, item) they were built
  from: the in-degree of an item counts the edges into it, its dependents are the targets of the
  edges out of it.
\<close>

definition graph_of :: "string list \<Rightarrow> (string \<times> string) list \<Rightarrow> graph \<Rightarrow> bool" where
  "graph_of names es g \<longleftrightarrow>
     (\<forall>n. in_degree g n =
        (if n \<in> set names then Some (length (filter (\<lambda>e. snd e = n) es)) else None)) \<and>
     (\<forall>d. map_of (dependents g) d =
        (if d \<in> set names then Some (map snd (filter (\<lambda>e. fst e = d) es)) else None))"

definition item_edges :: "(string \<rightharpoonup> string list) \<Rightarrow> string list \<Rightarrow> (string \<times> string) list" where
  "item_edges m names = concat (map (\<lambda>n. map (\<lambda>d. (d, n)) (the (m n))) names)"

lemma item_map_snoc [simp]:
  "item_map (items @ [(n, ds)]) = (item_map items)(n \<mapsto> ds)"
  by (simp add: item_map_def)

lemma item_map_Nil [simp]: "item_map [] = Map.empty"
  by (simp add: item_map_def)

lemma dom_item_map: "dom (item_map items) = fst ` set items"
proof (induction items rule: rev_induct)
  case (snoc x xs)
  then show ?case by (cases x) (simp del: fun_upd_apply)
qed simp

lemma item_map_in: "item_map items n = Some ds \<Longrightarrow> (n, ds) \<in> set items"
  by (induction items rule: rev_induct) (auto split: if_splits)

lemma item_map_distinct:
  "distinct (map fst items) \<Longrightarrow> (n, ds) \<in> set items \<Longrightarrow> item_map items n = Some ds"
  by (induction items rule: rev_induct) (auto, force)

lemma graph_of_init: "graph_of names [] (init_graph names)"
proof -
  have "in_degree (init_graph names) n = (if n \<in> set names then Some 0 else None)
      \<and> map_of (dependents (init_graph names)) n = (if n \<in> set names then Some [] else None)" for n
    unfolding init_graph_def by (induction names rule: rev_induct) auto
  then show ?thesis by (simp add: graph_of_def)
qed

lemma link_deps_graph_of:
  assumes "graph_of names es g" and "name \<in> set names" and "dom m = set names"
  shows "(set deps \<subseteq> set names \<and>
            (\<exists>g'. link_deps m name deps g = Some (Inr g') \<and>
                  graph_of names (es @ map (\<lambda>d. (d, name)) deps) g')) \<or>
         (\<exists>d \<in> set deps. d \<notin> set names \<and> link_deps m name deps g = Some (Inl [missing_msg name d]))"
  using assms
proof (induction deps arbitrary: g es)
  case (Cons dep deps)
  show ?case
  proof (cases "dep \<in> set names")
    case False
    with Cons.prems have "m dep = None" by (auto simp: dom_def)
    with False show ?thesis by simp
  next
    case True
    with Cons.prems have some: "m dep \<noteq> None" by (auto simp: dom_def)
    define g1 where "g1 = g\<lparr>
      in_degree := (in_degree g)(name \<mapsto> length (filter (\<lambda>e. snd e = name) es) + 1),
      dependents := AList.update dep (map snd (filter (\<lambda>e. fst e = dep) es) @ [name]) (dependents g)\<rparr>"
    have "graph_of names (es @ [(dep, name)]) g1"
      using Cons.prems True by (auto simp: graph_of_def g1_def)
    moreover have "link_deps m name (dep # deps) g = link_deps m name deps g1"
      using Cons.prems True some by (auto simp: graph_of_def g1_def)
    ultimately show ?thesis
      using Cons.IH [of "es @ [(dep, name)]" g1] Cons.prems True by simp
  qed
qed simp

lemma link_items_graph_of:
  assumes "graph_of names es g" and "set ns \<subseteq> set names" and "dom m = set names"
  shows "((\<forall>n \<in> set ns. set (the (m n)) \<subseteq> set names) \<and>
            (\<exists>g'. link_items m ns g = Some (Inr g') \<and> graph_of names (es @ item_edges m ns) g')) \<or>
         (\<exists>n \<in> set ns. \<exists>d \<in> set (the (m n)). d \<notin> set names \<and>
            link_items m ns g = Some (Inl [missing_msg n d]))"
  using assms
proof (induction ns arbitrary: g es)
  case Nil
  then show ?case by (simp add: item_edges_def)
next
  case (Cons n ns)
  then have "n \<in> dom m" by simp
  then obtain deps where m: "m n = Some deps" by blast
  consider (err) d where "d \<in> set deps" "d \<notin> set names"
      "link_deps m n deps g = Some (Inl [missing_msg n d])"
    | (ok) g' where "set deps \<subseteq> set names" "link_deps m n deps g = Some (Inr g')"
      "graph_of names (es @ map (\<lambda>d. (d, n)) deps) g'"
    using link_deps_graph_of [of names es g n m deps] Cons.prems by fastforce
  then show ?case
  proof cases
    case err
    with m show ?thesis by auto
  next
    case ok
    with Cons.IH [OF ok(3)] Cons.prems m show ?thesis by (simp add: item_edges_def) blast
  qed
qed

section \<open>The loop invariant\<close>

lemma count_list_pos: "0 < count_list xs x \<longleftrightarrow> x \<in> set xs"
  by (metis count_list_0_iff gr_zeroI less_irrefl)

lemma relax_spec:
  assumes "\<And>n. n \<in> set ns \<Longrightarrow> \<exists>k. deg n = Some k \<and> count_list ns n \<le> k"
  shows "\<exists>queue'. relax ns deg queue =
           Some (\<lambda>n. map_option (\<lambda>k. k - count_list ns n) (deg n), queue') \<and>
         set queue' = set queue \<union> {n \<in> set ns. deg n = Some (count_list ns n)}"
  using assms
proof (induction ns arbitrary: deg queue)
  case Nil
  then show ?case by (simp add: option.map_ident)
next
  case (Cons d ds)
  obtain k0 where k0: "deg d = Some k0" "count_list (d # ds) d \<le> k0"
    using Cons.prems [of d] by auto
  then obtain k where k: "deg d = Some (Suc k)" "count_list ds d \<le> k"
    by (cases k0) auto
  let ?deg = "deg(d \<mapsto> k)" and ?queue = "if k = 0 then queue @ [d] else queue"
  have "\<exists>j. ?deg n = Some j \<and> count_list ds n \<le> j" if "n \<in> set ds" for n
    using Cons.prems [of n] that k by (auto split: if_splits)
  from Cons.IH [OF this] obtain queue' where
    r: "relax ds ?deg ?queue =
          Some (\<lambda>n. map_option (\<lambda>k. k - count_list ds n) (?deg n), queue')"
      "set queue' = set ?queue \<union> {n \<in> set ds. ?deg n = Some (count_list ds n)}" by blast
  have "(\<lambda>n. map_option (\<lambda>k. k - count_list ds n) (?deg n))
      = (\<lambda>n. map_option (\<lambda>k. k - count_list (d # ds) n) (deg n))"
    using k by (auto simp: fun_eq_iff)
  moreover have "set ?queue \<union> {n \<in> set ds. ?deg n = Some (count_list ds n)}
      = set queue \<union> {n \<in> set (d # ds). deg n = Some (count_list (d # ds) n)}"
    using k by (auto split: if_splits simp: count_list_pos)
  ultimately show ?case using k r by simp
qed

definition open_edges :: "(string \<times> string) list \<Rightarrow> string list \<Rightarrow> string \<Rightarrow> nat" where
  "open_edges es processed n = length (filter (\<lambda>e. snd e = n \<and> fst e \<notin> set processed) es)"

definition kahn_inv ::
  "string list \<Rightarrow> (string \<times> string) list \<Rightarrow> string list \<Rightarrow> string list \<Rightarrow> string list \<Rightarrow>
   (string \<rightharpoonup> nat) \<Rightarrow> bool" where
  "kahn_inv names es queue srt processed deg \<longleftrightarrow>
     set srt = set processed \<and> distinct srt \<and> set srt \<subseteq> set names \<and> set queue \<subseteq> set names \<and>
     (\<forall>n \<in> set names. deg n = Some (open_edges es processed n)) \<and>
     (\<forall>n \<in> set queue. open_edges es processed n = 0) \<and>
     (\<forall>n \<in> set names. n \<notin> set processed \<longrightarrow> open_edges es processed n = 0 \<longrightarrow> n \<in> set queue) \<and>
     (\<forall>(d, n) \<in> set es. n \<in> set srt \<longrightarrow> before srt d n)"

definition kahn_final :: "string list \<Rightarrow> (string \<times> string) list \<Rightarrow> string list \<Rightarrow> string list \<Rightarrow> bool" where
  "kahn_final names es srt processed \<longleftrightarrow>
     set srt = set processed \<and> distinct srt \<and> set srt \<subseteq> set names \<and>
     (\<forall>(d, n) \<in> set es. n \<in> set srt \<longrightarrow> before srt d n) \<and>
     (\<forall>n \<in> set names. n \<notin> set processed \<longrightarrow> (\<exists>d. (d, n) \<in> set es \<and> d \<notin> set processed))"

lemma open_edges_Cons:
  assumes "c \<notin> set processed"
  shows "open_edges es (c # processed) n + count_list (map snd (filter (\<lambda>e. fst e = c) es)) n
       = open_edges es processed n"
  using assms unfolding open_edges_def by (induction es) auto

lemma open_edges_pos: "open_edges es processed n \<noteq> 0 \<longleftrightarrow> (\<exists>d. (d, n) \<in> set es \<and> d \<notin> set processed)"
  unfolding open_edges_def by (induction es) auto

lemma kahn_inv_Nil: "kahn_inv names es [] srt processed deg \<Longrightarrow> kahn_final names es srt processed"
  unfolding kahn_inv_def kahn_final_def by (metis empty_iff list.set(1) open_edges_pos)

lemma kahn_inv_skip:
  "kahn_inv names es (c # queue) srt processed deg \<Longrightarrow> c \<in> set processed \<Longrightarrow>
   kahn_inv names es queue srt processed deg"
  unfolding kahn_inv_def by auto

text \<open>One round that emits \<open>c\<close>: the relaxed degrees are the counts of the remaining open edges.\<close>

lemma kahn_inv_emit:
  assumes inv: "kahn_inv names es (c # queue) srt processed deg" and c: "c \<notin> set processed"
    and es: "\<forall>(d, n) \<in> set es. d \<in> set names \<and> n \<in> set names"
  defines "ns \<equiv> map snd (filter (\<lambda>e. fst e = c) es)"
  shows "\<exists>deg' queue'. relax ns deg queue = Some (deg', queue') \<and>
           kahn_inv names es queue' (srt @ [c]) (c # processed) deg'"
proof -
  have deg: "deg n = Some (open_edges es processed n)" if "n \<in> set names" for n
    using inv that by (simp add: kahn_inv_def)
  have ns: "set ns \<subseteq> set names" using es by (auto simp: ns_def)
  have split: "open_edges es (c # processed) n + count_list ns n = open_edges es processed n" for n
    using c by (simp add: ns_def open_edges_Cons)
  have "\<exists>k. deg n = Some k \<and> count_list ns n \<le> k" if "n \<in> set ns" for n
    using deg [of n] ns that split [of n] by (metis le_add2 subsetD)
  from relax_spec [of ns deg queue, OF this] obtain queue' where
    r: "relax ns deg queue = Some (\<lambda>n. map_option (\<lambda>k. k - count_list ns n) (deg n), queue')"
      "set queue' = set queue \<union> {n \<in> set ns. deg n = Some (count_list ns n)}" by blast
  let ?deg = "\<lambda>n. map_option (\<lambda>k. k - count_list ns n) (deg n)"
  have deg': "?deg n = Some (open_edges es (c # processed) n)" if "n \<in> set names" for n
    using deg [OF that] split [of n] by simp
  have new: "n \<in> set ns \<Longrightarrow> deg n = Some (count_list ns n) \<longleftrightarrow> open_edges es (c # processed) n = 0" for n
    using deg [of n] ns split [of n] by auto
  have zero: "open_edges es (c # processed) n = 0" if "n \<in> set queue'" for n
    using that r(2) new inv split [of n] by (auto simp: kahn_inv_def)
  have mem: "n \<in> set queue'"
    if "n \<in> set names" "n \<notin> set (c # processed)" "open_edges es (c # processed) n = 0" for n
  proof (cases "n \<in> set ns")
    case True
    with that new r(2) show ?thesis by auto
  next
    case False
    then have "count_list ns n = 0" by (simp add: count_list_0_iff)
    with split [of n] that have "open_edges es processed n = 0" by simp
    with that inv r(2) show ?thesis by (auto simp: kahn_inv_def)
  qed
  have ord: "before (srt @ [c]) d n" if "(d, n) \<in> set es" "n \<in> set (srt @ [c])" for d n
  proof (cases "n \<in> set srt")
    case True
    with inv that have "before srt d n" by (auto simp: kahn_inv_def)
    then show ?thesis by (rule before_snoc)
  next
    case False
    with that have "n = c" by simp
    moreover have "open_edges es processed c = 0" using inv by (simp add: kahn_inv_def)
    ultimately have "d \<in> set processed" using that open_edges_pos [of es processed c] by auto
    with inv \<open>n = c\<close> show ?thesis by (simp add: before_last kahn_inv_def)
  qed
  have "kahn_inv names es queue' (srt @ [c]) (c # processed) ?deg"
    unfolding kahn_inv_def
    using inv c ns r(2) deg' zero mem ord by (auto simp: kahn_inv_def)
  with r show ?thesis by blast
qed

lemma kahn_correct:
  assumes "kahn_inv names es queue srt processed deg"
    and "\<And>d. map_of dps d =
           (if d \<in> set names then Some (map snd (filter (\<lambda>e. fst e = d) es)) else None)"
    and "\<forall>(d, n) \<in> set es. d \<in> set names \<and> n \<in> set names"
  shows "\<exists>srt' processed'. kahn dps queue srt processed deg = Some (srt', processed') \<and>
           kahn_final names es srt' processed'"
  using assms
proof (induction dps queue srt processed deg rule: kahn.induct)
  case (1 dps queue srt processed deg)
  show ?case
  proof (cases queue)
    case Nil
    with 1 show ?thesis by (simp add: kahn.simps [of dps "[]"] kahn_inv_Nil)
  next
    case (Cons c queue')
    show ?thesis
    proof (cases "c \<in> set processed")
      case True
      with Cons 1 kahn_inv_skip show ?thesis by (simp add: kahn.simps [of dps "c # queue'"])
    next
      case False
      let ?ns = "map snd (filter (\<lambda>e. fst e = c) es)"
      from "1.prems"(1) Cons have "c \<in> set names" by (simp add: kahn_inv_def)
      with "1.prems"(2) have dps: "map_of dps c = Some ?ns" by simp
      obtain deg' queue'' where r: "relax ?ns deg queue' = Some (deg', queue'')"
          "kahn_inv names es queue'' (srt @ [c]) (c # processed) deg'"
        using kahn_inv_emit [of names es c queue' srt processed deg] "1.prems" False Cons by blast
      with "1.IH"(3) [OF Cons False dps] "1.prems" Cons False dps show ?thesis
        by (simp add: kahn.simps [of dps "c # queue'"])
    qed
  qed
qed

section \<open>What the sort returns\<close>

text \<open>\<open>(d, n)\<close> is in the relation when some registered item \<open>n\<close> lists \<open>d\<close> as a dependency.\<close>

definition depends :: "item list \<Rightarrow> (string \<times> string) set" where
  "depends items = {(d, n). \<exists>ds. (n, ds) \<in> set items \<and> d \<in> set ds}"

definition registered :: "item list \<Rightarrow> bool" where
  "registered items \<longleftrightarrow> (\<forall>(n, ds) \<in> set items. set ds \<subseteq> fst ` set items)"

lemma in_item_edges:
  "(d, n) \<in> set (item_edges (item_map items) (map fst items)) \<longleftrightarrow>
     (\<exists>ds. item_map items n = Some ds \<and> d \<in> set ds)"
proof -
  have "(d, n) \<in> set (item_edges (item_map items) (map fst items)) \<longleftrightarrow>
      n \<in> dom (item_map items) \<and> d \<in> set (the (item_map items n))"
    unfolding dom_item_map item_edges_def by auto
  then show ?thesis by auto
qed

lemma item_edges_depends:
  assumes "distinct (map fst items)"
  shows "set (item_edges (item_map items) (map fst items)) = depends items"
proof -
  have "item_map items n = Some ds \<longleftrightarrow> (n, ds) \<in> set items" for n ds
    using item_map_distinct [OF assms] item_map_in by blast
  then show ?thesis by (auto simp: in_item_edges depends_def)
qed

text \<open>The three ways a call ends; there is no fourth, so no call panics.\<close>

lemma topological_sort_cases:
  fixes items :: "item list"
  assumes "hash_order ord"
  defines "names \<equiv> map fst items"
  defines "es \<equiv> item_edges (item_map items) names"
  obtains (missing) n ds d where "item_map items n = Some ds" "d \<in> set ds" "d \<notin> set names"
      "topological_sort ord items = Some (Inl [missing_msg n d])"
  | (stuck) srt where "\<forall>(d, n) \<in> set es. d \<in> set names" "kahn_final names es srt srt"
      "length srt \<noteq> length names"
      "topological_sort ord items = Some (Inl (filter (\<lambda>n. n \<notin> set srt) names))"
  | (sorted) srt where "\<forall>(d, n) \<in> set es. d \<in> set names" "kahn_final names es srt srt"
      "length srt = length names" "topological_sort ord items = Some (Inr srt)"
proof -
  let ?m = "item_map items"
  have dom: "dom ?m = set names" by (simp add: dom_item_map names_def)
  consider (m) n d where "n \<in> set names" "d \<in> set (the (?m n))" "d \<notin> set names"
      "link_items ?m names (init_graph names) = Some (Inl [missing_msg n d])"
    | (g) g where "\<forall>n \<in> set names. set (the (?m n)) \<subseteq> set names"
      "link_items ?m names (init_graph names) = Some (Inr g)" "graph_of names es g"
    using link_items_graph_of [OF graph_of_init, of names names ?m] dom by (auto simp: es_def)
  then show thesis
  proof cases
    case m
    from m(1) dom obtain ds where "?m n = Some ds" by blast
    with m show thesis
      by (intro missing [of n ds d]) (simp_all add: topological_sort_def Let_def names_def)
  next
    case g
    let ?q = "filter (\<lambda>n. in_degree g n = Some 0) (ord names)"
    have es: "\<forall>(d, n) \<in> set es. d \<in> set names \<and> n \<in> set names"
      using g(1) by (auto simp: es_def item_edges_def)
    have deg: "in_degree g n = Some (open_edges es [] n)" if "n \<in> set names" for n
      using g(3) that by (simp add: graph_of_def open_edges_def)
    have "kahn_inv names es ?q [] [] (in_degree g)"
      using deg hash_order_set [OF assms(1), of names] by (auto simp: kahn_inv_def)
    from kahn_correct [OF this _ es, of "dependents g"] g(3) obtain srt processed where
      k: "kahn (dependents g) ?q [] [] (in_degree g) = Some (srt, processed)"
        "kahn_final names es srt processed" by (auto simp: graph_of_def)
    have eq: "set srt = set processed" using k(2) by (simp add: kahn_final_def)
    then have fin: "kahn_final names es srt srt" using k(2) by (simp add: kahn_final_def)
    have res: "topological_sort ord items =
        (if length srt \<noteq> length names then Some (Inl (filter (\<lambda>n. n \<notin> set srt) names))
         else Some (Inr srt))"
      using g(2) k(1) eq by (simp add: topological_sort_def Let_def names_def)
    show thesis
      using stuck [OF _ fin] sorted [OF _ fin] res es by (cases "length srt = length names") auto
  qed
qed

lemma kahn_final_complete:
  assumes "kahn_final names es srt srt" and "length srt = length names"
  shows "distinct names" and "set srt = set names"
proof -
  have "distinct srt" "set srt \<subseteq> set names" using assms(1) by (simp_all add: kahn_final_def)
  then have "card (set srt) = length names" using assms(2) by (simp add: distinct_card)
  moreover have "card (set srt) \<le> card (set names)" using \<open>set srt \<subseteq> set names\<close> by (simp add: card_mono)
  moreover have "card (set names) \<le> length names" by (rule card_length)
  ultimately have "card (set names) = length names" "card (set srt) = card (set names)" by simp_all
  then show "distinct names" "set srt = set names"
    using \<open>set srt \<subseteq> set names\<close> by (simp_all add: card_distinct card_subset_eq)
qed

text \<open>Items left over feed each other: from each there is an endless walk backwards.\<close>

lemma kahn_final_left_over:
  assumes "kahn_final names es srt srt" and "\<forall>(d, n) \<in> set es. d \<in> set names"
    and "n \<in> set names" and "n \<notin> set srt"
  shows "\<exists>d \<in> set names. d \<notin> set srt \<and> (d, n) \<in> set es"
  using assms unfolding kahn_final_def by blast

lemma acyclic_no_edges [simp]: "acyclic {}"
  by (simp add: acyclic_def)

lemma left_over_cyclic:
  assumes "finite R" and "N \<noteq> {}" and "\<And>n. n \<in> N \<Longrightarrow> \<exists>d \<in> N. (d, n) \<in> R"
  shows "\<not> acyclic R"
proof
  assume "acyclic R"
  with assms(1) have "wf R" by (simp add: finite_acyclic_wf)
  with assms(2) obtain z where "z \<in> N" "\<And>y. (y, z) \<in> R \<Longrightarrow> y \<notin> N" 
    using wfE_min [of R] by (metis equals0I)
  with assms(3) show False by blast
qed

section \<open>Properties\<close>

lemma topological_sort_no_panic: "hash_order ord \<Longrightarrow> topological_sort ord items \<noteq> None"
  by (erule topological_sort_cases [of ord items]) simp_all

lemma topological_sort_Inr:
  assumes "hash_order ord" and "topological_sort ord items = Some (Inr srt)"
  shows "distinct srt \<and> set srt = fst ` set items \<and> length srt = length items \<and>
         (\<forall>(n, ds) \<in> set items. \<forall>d \<in> set ds. before srt d n)"
  using assms(1)
proof (cases rule: topological_sort_cases [of ord items])
  case (sorted srt')
  then have eq: "srt' = srt" using assms(2) by simp
  note fin = sorted(2,3) [unfolded eq]
  have dist: "distinct (map fst items)" and all: "set srt = set (map fst items)"
    using kahn_final_complete [OF fin] by simp_all
  have ord: "before srt d n" if "(n, ds) \<in> set items" "d \<in> set ds" for n ds d
  proof -
    have "item_map items n = Some ds" using item_map_distinct [OF dist that(1)] .
    then have "(d, n) \<in> set (item_edges (item_map items) (map fst items))"
      using that(2) by (auto simp: in_item_edges)
    moreover have "n \<in> set srt" using that(1) all by force
    ultimately show ?thesis using fin(1) unfolding kahn_final_def by blast
  qed
  show ?thesis
    using all fin ord by (auto simp: kahn_final_def)
qed (use assms(2) in simp_all)

text \<open>
  Claim C10. A successful sort lists every registered name exactly once, and every dependency of
  every item stands before the item.
\<close>

theorem topological_sort_sound:
  assumes "hash_order ord" and "topological_sort ord items = Some (Inr srt)"
  shows "distinct srt \<and> set srt = fst ` set items \<and> length srt = length items \<and>
         (\<forall>(n, ds) \<in> set items. \<forall>d \<in> set ds. before srt d n)"
  by (rule topological_sort_Inr [OF assms])

theorem topological_sort_sound_witness:
  "before [''db'', ''cache'', ''grpc''] ''db'' ''grpc''"
proof -
  let ?items = "[(''grpc'', [''cache'', ''db'']), (''cache'', [''db'']), (''db'', [])]"
  have "topological_sort remdups ?items = Some (Inr [''db'', ''cache'', ''grpc''])" by code_simp
  from topological_sort_sound [OF hash_order_remdups this] show ?thesis by simp
qed

lemma acyclic_not_stuck:
  assumes "kahn_final names es srt srt" and "\<forall>(d, n) \<in> set es. d \<in> set names"
    and "acyclic R" and "set es \<subseteq> R"
  shows "filter (\<lambda>n. n \<notin> set srt) names = []"
proof (rule ccontr)
  assume "filter (\<lambda>n. n \<notin> set srt) names \<noteq> []"
  then have "{n \<in> set names. n \<notin> set srt} \<noteq> {}" by (auto simp: filter_empty_conv)
  then have "\<not> acyclic (set es)"
    using kahn_final_left_over [OF assms(1,2)]
    by (intro left_over_cyclic [of "set es" "{n \<in> set names. n \<notin> set srt}"]) auto
  with assms(3,4) show False by (meson acyclic_subset)
qed

lemma registered_not_missing:
  assumes "registered items" "item_map items n = Some ds" "d \<in> set ds"
  shows "d \<in> set (map fst items)"
  using assms item_map_in [OF assms(2)] by (force simp: registered_def)

lemma topological_sort_succeeds:
  assumes "hash_order ord" and "distinct (map fst items)" and "registered items"
    and "acyclic (depends items)"
  shows "\<exists>srt. topological_sort ord items = Some (Inr srt)"
  using assms(1)
proof (cases rule: topological_sort_cases [of ord items])
  case (missing n ds d)
  with registered_not_missing [OF assms(3)] show ?thesis by auto
next
  case (stuck srt)
  have "filter (\<lambda>n. n \<notin> set srt) (map fst items) = []"
    using acyclic_not_stuck [OF stuck(2,1) assms(4)] item_edges_depends [OF assms(2)] by simp
  then have "set (map fst items) = set srt"
    using stuck(2) by (auto simp: filter_empty_conv kahn_final_def)
  then have "length srt = length (map fst items)"
    using stuck(2) assms(2) by (metis distinct_card kahn_final_def)
  with stuck(3) show ?thesis by simp
qed simp

text \<open>
  Claim C27. When the names are distinct, every dependency is registered and the dependencies have
  no cycle, the sort succeeds.
\<close>

theorem topological_sort_complete:
  assumes "hash_order ord" and "distinct (map fst items)" and "registered items"
    and "acyclic (depends items)"
  shows "\<exists>srt. topological_sort ord items = Some (Inr srt)"
  by (rule topological_sort_succeeds [OF assms])

theorem topological_sort_complete_witness:
  "\<exists>srt. topological_sort (\<lambda>ks. rev (remdups ks)) [(''b'', [''a'']), (''a'', [])] = Some (Inr srt)"
proof -
  have dep: "depends [(''b'', [''a'']), (''a'', [])] = {(''a'', ''b'')}" by (auto simp: depends_def)
  have "acyclic {(''a'', ''b'')}" by (simp add: acyclic_insert)
  then show ?thesis
    by (intro topological_sort_complete) (simp_all add: dep registered_def)
qed

text \<open>
  An error for items with distinct names and registered dependencies names a real
  cycle: the reported list is not empty, each reported item depends on a reported item, and the
  dependency relation is cyclic.
\<close>

theorem topological_sort_cycle:
  assumes "hash_order ord" and "distinct (map fst items)" and "registered items"
    and "topological_sort ord items = Some (Inl left)"
  shows "left \<noteq> [] \<and> (\<forall>n \<in> set left. \<exists>d \<in> set left. (d, n) \<in> depends items) \<and>
         \<not> acyclic (depends items)"
  using assms(1)
proof (cases rule: topological_sort_cases [of ord items])
  case (missing n ds d)
  with registered_not_missing [OF assms(3)] show ?thesis by auto
next
  case (stuck srt)
  have left: "left = filter (\<lambda>n. n \<notin> set srt) (map fst items)" using stuck(4) assms(4) by simp
  have walk: "\<forall>n \<in> set left. \<exists>d \<in> set left. (d, n) \<in> depends items"
    using kahn_final_left_over [OF stuck(2,1)] item_edges_depends [OF assms(2)]
    unfolding left by (auto simp del: set_map)
  have "\<not> acyclic (depends items)"
    using topological_sort_succeeds [OF assms(1,2,3)] assms(4) by auto
  moreover have "left \<noteq> []"
  proof
    assume "left = []"
    then have "set (map fst items) = set srt"
      using stuck(2) by (auto simp: left filter_empty_conv kahn_final_def)
    then have "length srt = length (map fst items)"
      using stuck(2) assms(2) by (metis distinct_card kahn_final_def)
    with stuck(3) show False by simp
  qed
  ultimately show ?thesis using walk by blast
qed (use assms(4) in simp_all)

theorem topological_sort_cycle_witness:
  "\<not> acyclic (depends [(''a'', [''b'']), (''b'', [''a'']), (''c'', [])])"
proof -
  let ?items = "[(''a'', [''b'']), (''b'', [''a'']), (''c'', [])]"
  have "topological_sort remdups ?items = Some (Inl [''a'', ''b''])" by code_simp
  from topological_sort_cycle [OF hash_order_remdups _ _ this] show ?thesis
    by (simp add: registered_def)
qed

text \<open>
  Two items of the same name make the sort fail although nothing is cyclic, and the list
  of the reported cycle is then empty: the length test of the code compares the distinct sorted
  names with the names as given.
\<close>

theorem topological_sort_duplicate_names:
  assumes "hash_order ord" and "\<not> distinct (map fst items)" and "registered items"
    and "acyclic (depends items)"
  shows "topological_sort ord items = Some (Inl [])"
  using assms(1)
proof (cases rule: topological_sort_cases [of ord items])
  case (missing n ds d)
  with registered_not_missing [OF assms(3)] show ?thesis by auto
next
  case (stuck srt)
  have "set (item_edges (item_map items) (map fst items)) \<subseteq> depends items"
    using item_map_in by (fastforce simp: in_item_edges depends_def)
  with stuck acyclic_not_stuck [OF stuck(2,1) assms(4)] show ?thesis by simp
next
  case (sorted srt)
  with kahn_final_complete(1) assms(2) show ?thesis by blast
qed

theorem topological_sort_duplicate_names_witness:
  "topological_sort remdups [(''worker'', []), (''worker'', [])] = Some (Inl [])"
proof (rule topological_sort_duplicate_names)
  show "acyclic (depends [(''worker'', []), (''worker'', [])])" by (simp add: depends_def)
qed (simp_all add: registered_def)

end
