(* ===== verification/Task_State.thy ===== *)
theory Task_State
  imports Prelude
begin

text \<open>
  \<^verbatim>\<open>flare-core-runtime/src/task/state.rs\<close>, \<^verbatim>\<open>state/event.rs\<close>, \<^verbatim>\<open>state/tracker.rs\<close>: the life cycle of a
  task, the tracker that records the state of every task and accepts valid transitions only, and
  the events it publishes. A point in time is a \<open>nat\<close> read from a monotonic clock and passed to the
  operations that read it. The tracker's map is an association list, since several operations
  iterate it; its broadcast channel is the list of the events sent.
\<close>

section \<open>Task states\<close>

datatype task_state = Pending | Starting | Running | Stopping | Stopped | Failed

fun is_terminal :: "task_state \<Rightarrow> bool" where
  "is_terminal Stopped = True"
| "is_terminal Failed = True"
| "is_terminal _ = False"

fun can_transition_to :: "task_state \<Rightarrow> task_state \<Rightarrow> bool" where
  "can_transition_to Pending Starting = True"
| "can_transition_to Starting Running = True"
| "can_transition_to Starting Failed = True"
| "can_transition_to Running Stopping = True"
| "can_transition_to Running Failed = True"
| "can_transition_to Stopping Stopped = True"
| "can_transition_to Stopping Failed = True"
| "can_transition_to Stopped _ = False"
| "can_transition_to Failed _ = False"
| "can_transition_to _ _ = False"

fun task_state_display :: "task_state \<Rightarrow> string" where
  "task_state_display Pending = ''Pending''"
| "task_state_display Starting = ''Starting''"
| "task_state_display Running = ''Running''"
| "task_state_display Stopping = ''Stopping''"
| "task_state_display Stopped = ''Stopped''"
| "task_state_display Failed = ''Failed''"

text \<open>A rank that every valid transition raises, so that no task changes state more than four times.\<close>

fun state_rank :: "task_state \<Rightarrow> nat" where
  "state_rank Pending = 0"
| "state_rank Starting = 1"
| "state_rank Running = 2"
| "state_rank Stopping = 3"
| "state_rank Stopped = 4"
| "state_rank Failed = 4"

lemma can_transition_rank: "can_transition_to a b \<Longrightarrow> state_rank a < state_rank b"
  by (cases a; cases b) simp_all

lemma state_rank_le: "state_rank a \<le> 4"
  by (cases a) simp_all

lemma can_transition_terminal: "is_terminal a \<Longrightarrow> \<not> can_transition_to a b"
  by (cases a) simp_all

lemma can_transition_progress: "\<not> is_terminal a \<Longrightarrow> \<exists>b. can_transition_to a b"
  by (cases a) (auto intro: exI [of _ Starting] exI [of _ Running] exI [of _ Failed])

text \<open>The states from which \<open>Stopped\<close> can be entered in one transition.\<close>

lemma to_Stopped_iff: "can_transition_to a Stopped \<longleftrightarrow> a = Stopping"
  by (cases a) simp_all

section \<open>Events\<close>

record state_event =
  ev_task :: string
  ev_old :: task_state
  ev_new :: task_state
  ev_time :: nat
  ev_error :: "string option"

definition state_event_new :: "nat \<Rightarrow> string \<Rightarrow> task_state \<Rightarrow> task_state \<Rightarrow> state_event" where
  "state_event_new now n old new =
     \<lparr>ev_task = n, ev_old = old, ev_new = new, ev_time = now, ev_error = None\<rparr>"

definition event_with_error :: "string \<Rightarrow> state_event \<Rightarrow> state_event" where
  "event_with_error err ev = ev\<lparr>ev_error := Some err\<rparr>"

definition event_is_failure :: "state_event \<Rightarrow> bool" where
  "event_is_failure ev \<longleftrightarrow> ev_new ev = Failed"

definition event_is_terminal :: "state_event \<Rightarrow> bool" where
  "event_is_terminal ev \<longleftrightarrow> is_terminal (ev_new ev)"

datatype runtime_event =
    Startup string nat
  | Shutdown_event string nat
  | TaskStateChanged state_event
  | HealthCheckFailed_event string string nat
  | ServiceRegistered string string nat
  | ServiceDeregistered string string nat

fun runtime_event_timestamp :: "runtime_event \<Rightarrow> nat" where
  "runtime_event_timestamp (Startup _ t) = t"
| "runtime_event_timestamp (Shutdown_event _ t) = t"
| "runtime_event_timestamp (TaskStateChanged ev) = ev_time ev"
| "runtime_event_timestamp (HealthCheckFailed_event _ _ t) = t"
| "runtime_event_timestamp (ServiceRegistered _ _ t) = t"
| "runtime_event_timestamp (ServiceDeregistered _ _ t) = t"

section \<open>The tracker\<close>

record task_state_info =
  info_name :: string
  info_state :: task_state
  state_changed_at :: nat
  started_at :: "nat option"
  running_duration :: "nat option"

definition info_new :: "nat \<Rightarrow> string \<Rightarrow> task_state \<Rightarrow> task_state_info" where
  "info_new now n st =
     \<lparr>info_name = n, info_state = st, state_changed_at = now, started_at = None,
      running_duration = None\<rparr>"

definition info_update :: "nat \<Rightarrow> task_state \<Rightarrow> task_state_info \<Rightarrow> task_state_info" where
  "info_update now new info =
     (let started = (if new = Running \<and> started_at info = None then Some now else started_at info);
          running = (if new = Running then map_option (\<lambda>t. now - t) started else None)
      in info\<lparr>started_at := started, running_duration := running, info_state := new,
              state_changed_at := now\<rparr>)"

record state_tracker =
  tracked :: "(string \<times> task_state_info) list"
  published :: "state_event list"

definition tracker_new :: state_tracker where
  "tracker_new = \<lparr>tracked = [], published = []\<rparr>"

definition register_task :: "nat \<Rightarrow> string \<Rightarrow> task_state \<Rightarrow> state_tracker \<Rightarrow> state_tracker" where
  "register_task now n st tr = tr\<lparr>tracked := AList.update n (info_new now n st) (tracked tr)\<rparr>"

definition get_state :: "state_tracker \<Rightarrow> string \<Rightarrow> task_state_info option" where
  "get_state tr n = map_of (tracked tr) n"

text \<open>
  \<^verbatim>\<open>update_state\<close>: an unknown task or an invalid transition changes nothing and publishes nothing.
\<close>

definition update_state ::
  "nat \<Rightarrow> string \<Rightarrow> task_state \<Rightarrow> state_tracker \<Rightarrow> state_tracker \<times> state_event option" where
  "update_state now n new tr =
     (case map_of (tracked tr) n of
        None \<Rightarrow> (tr, None)
      | Some info \<Rightarrow>
          if \<not> can_transition_to (info_state info) new then (tr, None)
          else
            (let ev = state_event_new now n (info_state info) new
             in (tr\<lparr>tracked := AList.update n (info_update now new info) (tracked tr),
                    published := published tr @ [ev]\<rparr>, Some ev)))"

definition update_state_with_error ::
  "nat \<Rightarrow> string \<Rightarrow> task_state \<Rightarrow> string \<Rightarrow> state_tracker \<Rightarrow>
   state_tracker \<times> state_event option" where
  "update_state_with_error now n new err tr =
     (case map_of (tracked tr) n of
        None \<Rightarrow> (tr, None)
      | Some info \<Rightarrow>
          if \<not> can_transition_to (info_state info) new then (tr, None)
          else
            (let ev = event_with_error err (state_event_new now n (info_state info) new)
             in (tr\<lparr>tracked := AList.update n (info_update now new info) (tracked tr),
                    published := published tr @ [ev]\<rparr>, Some ev)))"

text \<open>
  \<^verbatim>\<open>subscribe\<close>: a receiver starts behind the last event sent. While it does not fall behind the buffer of
  the channel it gets what is sent from there on, \<open>seen_since\<close>.
\<close>

definition tracker_subscribe :: "state_tracker \<Rightarrow> nat" where
  "tracker_subscribe tr = length (published tr)"

definition seen_since :: "nat \<Rightarrow> state_tracker \<Rightarrow> state_event list" where
  "seen_since pos tr = drop pos (published tr)"

definition tracked_values :: "state_tracker \<Rightarrow> task_state_info list" where
  "tracked_values tr = map snd (tracked tr)"

definition all_ready :: "state_tracker \<Rightarrow> bool" where
  "all_ready tr \<longleftrightarrow> (\<forall>info \<in> set (tracked_values tr). info_state info = Running)"

definition has_failures :: "state_tracker \<Rightarrow> bool" where
  "has_failures tr \<longleftrightarrow> (\<exists>info \<in> set (tracked_values tr). info_state info = Failed)"

definition get_failed_tasks :: "state_tracker \<Rightarrow> string list" where
  "get_failed_tasks tr =
     map info_name (filter (\<lambda>info. info_state info = Failed) (tracked_values tr))"

definition running_count :: "state_tracker \<Rightarrow> nat" where
  "running_count tr = length (filter (\<lambda>info. info_state info = Running) (tracked_values tr))"

section \<open>Invariant of the tracker\<close>

text \<open>
  Keys are distinct and agree with the names inside; a task has a recorded start exactly when it
  has been running, and a running duration exactly while it runs.
\<close>

definition info_ok :: "task_state_info \<Rightarrow> bool" where
  "info_ok info \<longleftrightarrow>
     (running_duration info \<noteq> None \<longleftrightarrow> info_state info = Running \<and> started_at info \<noteq> None)"

definition tracker_inv :: "state_tracker \<Rightarrow> bool" where
  "tracker_inv tr \<longleftrightarrow>
     distinct (map fst (tracked tr)) \<and>
     (\<forall>(n, info) \<in> set (tracked tr). info_name info = n \<and> info_ok info)"

definition lookup_state :: "state_tracker \<Rightarrow> string \<Rightarrow> task_state option" where
  "lookup_state tr n = map_option info_state (get_state tr n)"

lemma info_ok_update [simp]: "info_ok (info_update now new info)"
  by (auto simp: info_ok_def info_update_def Let_def)

lemma info_update_simps [simp]:
  "info_name (info_update now new info) = info_name info"
  "info_state (info_update now new info) = new"
  "state_changed_at (info_update now new info) = now"
  by (simp_all add: info_update_def Let_def)

lemma set_AList_update:
  "(k, v) \<in> set (AList.update n x al) \<Longrightarrow> (k, v) = (n, x) \<or> (k, v) \<in> set al"
  by (induction al) (auto split: if_splits)

lemma tracker_inv_new: "tracker_inv tracker_new"
  by (simp add: tracker_inv_def tracker_new_def)

lemma tracker_inv_AList_update:
  assumes "tracker_inv tr" and "info_name info = n" and "info_ok info"
  shows "tracker_inv (tr\<lparr>tracked := AList.update n info (tracked tr), published := evs\<rparr>)"
  using assms set_AList_update [of _ _ n info "tracked tr"]
  by (fastforce simp: tracker_inv_def intro: AList.distinct_update)

lemma register_task_inv: "tracker_inv tr \<Longrightarrow> tracker_inv (register_task now n st tr)"
  using tracker_inv_AList_update [of tr "info_new now n st" n "published tr"]
  by (simp add: register_task_def info_new_def info_ok_def)

lemma tracked_name:
  "tracker_inv tr \<Longrightarrow> map_of (tracked tr) n = Some info \<Longrightarrow> info_name info = n"
  by (auto simp: tracker_inv_def dest!: map_of_SomeD)

lemma update_state_inv: "tracker_inv tr \<Longrightarrow> tracker_inv (fst (update_state now n new tr))"
  by (auto simp: update_state_def Let_def tracked_name intro!: tracker_inv_AList_update
      split: option.splits)

lemma update_state_with_error_inv:
  "tracker_inv tr \<Longrightarrow> tracker_inv (fst (update_state_with_error now n new err tr))"
  by (auto simp: update_state_with_error_def Let_def tracked_name intro!: tracker_inv_AList_update
      split: option.splits)

lemma lookup_state_register [simp]:
  "lookup_state (register_task now n st tr) = (lookup_state tr)(n \<mapsto> st)"
  by (auto simp: lookup_state_def get_state_def register_task_def info_new_def fun_eq_iff)

lemma lookup_state_update:
  "lookup_state (fst (update_state now n new tr)) =
     (case lookup_state tr n of
        Some old \<Rightarrow> if can_transition_to old new then (lookup_state tr)(n \<mapsto> new) else lookup_state tr
      | None \<Rightarrow> lookup_state tr)"
  by (auto simp: lookup_state_def get_state_def update_state_def Let_def fun_eq_iff
      split: option.splits)

lemma lookup_state_update_with_error:
  "lookup_state (fst (update_state_with_error now n new err tr)) =
     lookup_state (fst (update_state now n new tr))"
  by (auto simp: lookup_state_def get_state_def update_state_def update_state_with_error_def
      Let_def fun_eq_iff split: option.splits)

lemma all_ready_iff:
  "tracker_inv tr \<Longrightarrow> all_ready tr \<longleftrightarrow> (\<forall>n st. lookup_state tr n = Some st \<longrightarrow> st = Running)"
  by (force simp: all_ready_def tracked_values_def lookup_state_def get_state_def tracker_inv_def
      map_of_eq_Some_iff dest: map_of_SomeD)

lemma has_failures_iff:
  "tracker_inv tr \<Longrightarrow> has_failures tr \<longleftrightarrow> (\<exists>n. lookup_state tr n = Some Failed)"
  by (force simp: has_failures_def tracked_values_def lookup_state_def get_state_def tracker_inv_def
      map_of_eq_Some_iff)

section \<open>The contract of a store of task states\<close>

text \<open>
  What the task manager relies on: registering sets the state, an update is accepted exactly when
  the transition is valid. The client facts below hold for any such store.
\<close>

locale state_store =
  fixes register :: "string \<Rightarrow> task_state \<Rightarrow> 's \<Rightarrow> 's"
    and update :: "string \<Rightarrow> task_state \<Rightarrow> 's \<Rightarrow> 's"
    and state_of :: "'s \<Rightarrow> string \<Rightarrow> task_state option"
  assumes state_of_register: "state_of (register n st s) = (state_of s)(n \<mapsto> st)"
    and state_of_update: "state_of (update n new s) =
      (case state_of s n of
         Some old \<Rightarrow> if can_transition_to old new then (state_of s)(n \<mapsto> new) else state_of s
       | None \<Rightarrow> state_of s)"
begin

lemma update_other: "m \<noteq> n \<Longrightarrow> state_of (update n new s) m = state_of s m"
  by (auto simp: state_of_update split: option.splits)

lemma update_valid:
  "state_of s n = Some old \<Longrightarrow> can_transition_to old new \<Longrightarrow> state_of (update n new s) n = Some new"
  by (simp add: state_of_update)

lemma update_rejected:
  "state_of s n = Some old \<Longrightarrow> \<not> can_transition_to old new \<Longrightarrow> state_of (update n new s) = state_of s"
  by (simp add: state_of_update)

lemma update_dom: "dom (state_of (update n new s)) = dom (state_of s)"
  by (auto simp: state_of_update split: option.splits if_splits)

lemma updates_rank:
  "state_of s n = Some old \<Longrightarrow>
   \<exists>new. state_of (foldl (\<lambda>s (m, st). update m st s) s us) n = Some new \<and>
         (new = old \<or> state_rank old < state_rank new)"
proof (induction us arbitrary: s old)
  case (Cons u us)
  obtain m st where u: "u = (m, st)" by (cases u)
  have "\<exists>mid. state_of (update m st s) n = Some mid \<and> (mid = old \<or> state_rank old < state_rank mid)"
    using Cons.prems can_transition_rank by (auto simp: state_of_update split: option.splits)
  then obtain mid where mid: "state_of (update m st s) n = Some mid"
      "mid = old \<or> state_rank old < state_rank mid" by blast
  from Cons.IH [OF mid(1)] obtain new where
    "state_of (foldl (\<lambda>s (m, st). update m st s) (update m st s) us) n = Some new"
      "new = mid \<or> state_rank mid < state_rank new" by blast
  with mid(2) u show ?case by auto
qed simp

end

text \<open>The tracker is such a store, with the time of each call fixed.\<close>

interpretation tracker_store: state_store
  "register_task now" "\<lambda>n new tr. fst (update_state now n new tr)" lookup_state
  for now
  by unfold_locales (simp_all add: lookup_state_update)

section \<open>Properties\<close>

text \<open>The run of a tracker over a list of timed updates, with or without an error text.\<close>

fun tracker_run ::
  "(nat \<times> string \<times> task_state \<times> string option) list \<Rightarrow> state_tracker \<Rightarrow> state_tracker" where
  "tracker_run [] tr = tr"
| "tracker_run ((now, n, new, None) # us) tr = tracker_run us (fst (update_state now n new tr))"
| "tracker_run ((now, n, new, Some err) # us) tr =
     tracker_run us (fst (update_state_with_error now n new err tr))"

lemma lookup_state_run:
  "lookup_state (tracker_run us tr) n =
     foldl (\<lambda>st (now, m, new, err).
       if m = n then (case st of Some old \<Rightarrow> if can_transition_to old new then Some new else Some old
                      | None \<Rightarrow> None) else st) (lookup_state tr n) us"
  by (induction us tr rule: tracker_run.induct)
    (auto simp: lookup_state_update lookup_state_update_with_error split: option.splits)

lemma tracker_run_inv: "tracker_inv tr \<Longrightarrow> tracker_inv (tracker_run us tr)"
  by (induction us tr rule: tracker_run.induct)
    (simp_all add: update_state_inv update_state_with_error_inv)

lemma published_update_state:
  "published (fst (update_state now n new tr)) =
     published tr @ (case snd (update_state now n new tr) of None \<Rightarrow> [] | Some ev \<Rightarrow> [ev])"
  by (auto simp: update_state_def Let_def split: option.splits)

lemma published_update_state_with_error:
  "published (fst (update_state_with_error now n new err tr)) =
     published tr @ (case snd (update_state_with_error now n new err tr) of None \<Rightarrow> [] | Some ev \<Rightarrow> [ev])"
  by (auto simp: update_state_with_error_def Let_def split: option.splits)

definition chained :: "task_state \<Rightarrow> state_event list \<Rightarrow> task_state \<Rightarrow> bool" where
  "chained a evs b \<longleftrightarrow>
     foldl (\<lambda>st ev. case st of None \<Rightarrow> None
                    | Some s \<Rightarrow> if ev_old ev = s \<and> can_transition_to s (ev_new ev)
                               then Some (ev_new ev) else None) (Some a) evs = Some b"

lemma chained_snoc:
  "chained a (evs @ [ev]) b \<longleftrightarrow>
     chained a evs (ev_old ev) \<and> can_transition_to (ev_old ev) (ev_new ev) \<and> b = ev_new ev"
  by (auto simp: chained_def split: option.splits)

lemma chained_Nil [simp]: "chained a [] b \<longleftrightarrow> a = b"
  by (auto simp: chained_def)

lemma chained_rank: "chained a evs b \<Longrightarrow> state_rank a + length evs \<le> state_rank b"
proof (induction evs arbitrary: b rule: rev_induct)
  case (snoc ev evs)
  from snoc.prems have c: "chained a evs (ev_old ev)" "state_rank (ev_old ev) < state_rank b"
    by (auto simp: chained_snoc can_transition_rank)
  from snoc.IH [OF c(1)] c(2) show ?case by simp
qed simp

definition events_of :: "string \<Rightarrow> state_tracker \<Rightarrow> state_event list" where
  "events_of n tr = filter (\<lambda>ev. ev_task ev = n) (published tr)"

lemma events_of_update_state:
  "lookup_state tr n = Some b \<Longrightarrow> chained a (events_of n tr) b \<Longrightarrow>
   \<exists>c. lookup_state (fst (update_state now m new tr)) n = Some c \<and>
       chained a (events_of n (fst (update_state now m new tr))) c"
  by (auto simp: lookup_state_def get_state_def update_state_def events_of_def Let_def chained_snoc
      state_event_new_def split: option.splits)

lemma events_of_update_state_with_error:
  "lookup_state tr n = Some b \<Longrightarrow> chained a (events_of n tr) b \<Longrightarrow>
   \<exists>c. lookup_state (fst (update_state_with_error now m new err tr)) n = Some c \<and>
       chained a (events_of n (fst (update_state_with_error now m new err tr))) c"
  by (auto simp: lookup_state_def get_state_def update_state_with_error_def events_of_def Let_def
      chained_snoc state_event_new_def event_with_error_def split: option.splits)

lemma tracker_run_chained:
  "lookup_state tr n = Some b \<Longrightarrow> chained a (events_of n tr) b \<Longrightarrow>
   \<exists>c. lookup_state (tracker_run us tr) n = Some c \<and> chained a (events_of n (tracker_run us tr)) c"
proof (induction us tr arbitrary: b rule: tracker_run.induct)
  case (2 now m new us tr)
  with events_of_update_state [OF "2.prems"] show ?case by fastforce
next
  case (3 now m new err us tr)
  with events_of_update_state_with_error [OF "3.prems"] show ?case by fastforce
qed auto

lemma tracker_run_log:
  "tracker_run us (tr\<lparr>published := log @ published tr\<rparr>) =
   (tracker_run us tr)\<lparr>published := log @ published (tracker_run us tr)\<rparr>"
proof (induction us tr rule: tracker_run.induct)
  case (2 now n new us tr)
  have "fst (update_state now n new (tr\<lparr>published := log @ published tr\<rparr>)) =
        (fst (update_state now n new tr))\<lparr>published := log @ published (fst (update_state now n new tr))\<rparr>"
    by (simp add: update_state_def Let_def split: option.split)
  with 2 show ?case by simp
next
  case (3 now n new err us tr)
  have "fst (update_state_with_error now n new err (tr\<lparr>published := log @ published tr\<rparr>)) =
        (fst (update_state_with_error now n new err tr))
          \<lparr>published := log @ published (fst (update_state_with_error now n new err tr))\<rparr>"
    by (simp add: update_state_with_error_def Let_def split: option.split)
  with 3 show ?case by simp
qed simp

text \<open>
  A subscriber that keeps up sees of a task a chain of valid transitions from the state it had at the
  subscription to its present state.
\<close>

lemma subscriber_sees_chain:
  assumes "lookup_state tr n = Some a"
  shows "\<exists>b. lookup_state (tracker_run us tr) n = Some b \<and>
             chained a (filter (\<lambda>ev. ev_task ev = n) (seen_since (tracker_subscribe tr) (tracker_run us tr))) b"
proof -
  let ?fresh = "tr\<lparr>published := []\<rparr>"
  have "lookup_state ?fresh n = Some a" "chained a (events_of n ?fresh) a"
    using assms by (simp_all add: lookup_state_def get_state_def events_of_def)
  from tracker_run_chained [OF this] obtain b where
    b: "lookup_state (tracker_run us ?fresh) n = Some b" "chained a (events_of n (tracker_run us ?fresh)) b"
    by blast
  have run: "tracker_run us tr =
      (tracker_run us ?fresh)\<lparr>published := published tr @ published (tracker_run us ?fresh)\<rparr>"
    using tracker_run_log [of us "published tr" ?fresh] by simp
  have "lookup_state (tracker_run us tr) n = Some b"
    using b(1) by (simp add: run lookup_state_def get_state_def)
  moreover have "filter (\<lambda>ev. ev_task ev = n) (seen_since (tracker_subscribe tr) (tracker_run us tr)) =
      events_of n (tracker_run us ?fresh)"
    unfolding run by (simp add: seen_since_def tracker_subscribe_def events_of_def)
  ultimately show ?thesis using b(2) by auto
qed

text \<open>
  Claim C31. Whatever updates are applied to a tracker in whatever order, the events published for
  a task form a chain of valid transitions from its registered state to its present state, and
  there are at most four of them.
\<close>

theorem tracker_events_chain:
  assumes "published tr = []" and "lookup_state tr n = Some a"
  shows "\<exists>b. lookup_state (tracker_run us tr) n = Some b \<and>
             chained a (events_of n (tracker_run us tr)) b \<and>
             length (events_of n (tracker_run us tr)) \<le> 4"
proof -
  have "chained a (events_of n tr) a" using assms(1) by (simp add: events_of_def)
  from tracker_run_chained [OF assms(2) this] obtain b where
    b: "lookup_state (tracker_run us tr) n = Some b" "chained a (events_of n (tracker_run us tr)) b"
    by blast
  have "length (events_of n (tracker_run us tr)) \<le> 4"
    using chained_rank [OF b(2)] state_rank_le [of b] by linarith
  with b show ?thesis by blast
qed

theorem tracker_events_chain_witness:
  "length (events_of ''grpc'' (tracker_run
     [(1, ''grpc'', Starting, None), (2, ''grpc'', Stopped, None), (3, ''grpc'', Running, None),
      (4, ''grpc'', Failed, Some ''io'')] (register_task 0 ''grpc'' Pending tracker_new))) \<le> 4"
proof -
  have "published (register_task 0 ''grpc'' Pending tracker_new) = []"
    and "lookup_state (register_task 0 ''grpc'' Pending tracker_new) ''grpc'' = Some Pending"
    by (simp_all add: register_task_def tracker_new_def lookup_state_def get_state_def info_new_def)
  from tracker_events_chain [OF this] show ?thesis by blast
qed

end
