(* ===== verification/Runtime_Config.thy ===== *)
theory Runtime_Config
  imports Prelude
begin

text \<open>
  \<^verbatim>\<open>flare-core-runtime/src/config.rs\<close> and \<^verbatim>\<open>error.rs\<close>: the configuration of the runtime with its
  builders, defaults and validation, and the error types. A \<^verbatim>\<open>Duration\<close> is a number of milliseconds
  (every duration of the code is built from seconds or milliseconds); a \<^verbatim>\<open>usize\<close> is 64 bits wide.
  The number of processors, which the code asks a library for, is a parameter.
\<close>

type_synonym millis = nat

section \<open>Errors\<close>

datatype registry_error =
    ConnectionFailed string
  | RegistrationFailed string string
  | DeregistrationFailed string string
  | HeartbeatFailed string string
  | ServiceNotFound string
  | RegistryTimeout millis

datatype health_error =
    CheckFailed string string
  | HealthTimeout string millis
  | Unhealthy string string
  | ExceededThreshold u32 u32

datatype plugin_error =
    InitFailed string string
  | PluginExecutionFailed string string
  | PluginNotFound string
  | HookFailed string string string

datatype middleware_error =
    MwExecutionFailed string string
  | ChainInterrupted string string
  | MwNotFound string

datatype runtime_error =
    TaskFailed string string
  | CircularDependency "string list"
  | MissingDependency string string
  | StartupTimeout string millis
  | ShutdownTimeout string millis
  | RtHealthCheckFailed string health_error
  | RtRegistrationFailed registry_error
  | PluginInitFailed string plugin_error
  | InvalidConfig string
  | AlreadyRunning
  | NotRunning

section \<open>Configuration\<close>

record poll_worker_config =
  pw_concurrency :: u64
  idle_backoff :: millis
  error_backoff :: millis

definition poll_worker_default :: poll_worker_config where
  "poll_worker_default = \<lparr>pw_concurrency = 4, idle_backoff = 100, error_backoff = 1000\<rparr>"

definition pw_with_concurrency :: "u64 \<Rightarrow> poll_worker_config \<Rightarrow> poll_worker_config" where
  "pw_with_concurrency c cfg = cfg\<lparr>pw_concurrency := c\<rparr>"

definition pw_with_idle_backoff :: "millis \<Rightarrow> poll_worker_config \<Rightarrow> poll_worker_config" where
  "pw_with_idle_backoff d cfg = cfg\<lparr>idle_backoff := d\<rparr>"

definition pw_with_error_backoff :: "millis \<Rightarrow> poll_worker_config \<Rightarrow> poll_worker_config" where
  "pw_with_error_backoff d cfg = cfg\<lparr>error_backoff := d\<rparr>"

record task_startup_config =
  ts_concurrency :: u64
  ts_timeout :: millis
  enable_ready_check :: bool
  ready_check_timeout :: millis

definition task_startup_default :: "u64 \<Rightarrow> task_startup_config" where
  "task_startup_default num_cpus =
     \<lparr>ts_concurrency = num_cpus, ts_timeout = 30000, enable_ready_check = True,
      ready_check_timeout = 30000\<rparr>"

definition ts_with_concurrency :: "u64 \<Rightarrow> task_startup_config \<Rightarrow> task_startup_config" where
  "ts_with_concurrency c cfg = cfg\<lparr>ts_concurrency := c\<rparr>"

definition ts_with_timeout :: "millis \<Rightarrow> task_startup_config \<Rightarrow> task_startup_config" where
  "ts_with_timeout t cfg = cfg\<lparr>ts_timeout := t\<rparr>"

definition ts_with_ready_check :: "bool \<Rightarrow> task_startup_config \<Rightarrow> task_startup_config" where
  "ts_with_ready_check b cfg = cfg\<lparr>enable_ready_check := b\<rparr>"

definition ts_with_ready_check_timeout :: "millis \<Rightarrow> task_startup_config \<Rightarrow> task_startup_config" where
  "ts_with_ready_check_timeout t cfg = cfg\<lparr>ready_check_timeout := t\<rparr>"

record health_check_config =
  hc_interval :: millis
  hc_timeout :: millis
  hc_failure_threshold :: u32
  hc_enabled :: bool

definition health_check_default :: health_check_config where
  "health_check_default =
     \<lparr>hc_interval = 10000, hc_timeout = 5000, hc_failure_threshold = 3, hc_enabled = True\<rparr>"

definition hc_with_interval :: "millis \<Rightarrow> health_check_config \<Rightarrow> health_check_config" where
  "hc_with_interval d cfg = cfg\<lparr>hc_interval := d\<rparr>"

definition hc_with_timeout :: "millis \<Rightarrow> health_check_config \<Rightarrow> health_check_config" where
  "hc_with_timeout d cfg = cfg\<lparr>hc_timeout := d\<rparr>"

definition hc_with_failure_threshold :: "u32 \<Rightarrow> health_check_config \<Rightarrow> health_check_config" where
  "hc_with_failure_threshold k cfg = cfg\<lparr>hc_failure_threshold := k\<rparr>"

definition hc_with_enabled :: "bool \<Rightarrow> health_check_config \<Rightarrow> health_check_config" where
  "hc_with_enabled b cfg = cfg\<lparr>hc_enabled := b\<rparr>"

record metrics_config =
  mc_enabled :: bool
  mc_port :: u16
  mc_path :: string

definition metrics_default :: metrics_config where
  "metrics_default = \<lparr>mc_enabled = True, mc_port = 9090, mc_path = ''/metrics''\<rparr>"

definition mc_with_enabled :: "bool \<Rightarrow> metrics_config \<Rightarrow> metrics_config" where
  "mc_with_enabled b cfg = cfg\<lparr>mc_enabled := b\<rparr>"

definition mc_with_port :: "u16 \<Rightarrow> metrics_config \<Rightarrow> metrics_config" where
  "mc_with_port p cfg = cfg\<lparr>mc_port := p\<rparr>"

definition mc_with_path :: "string \<Rightarrow> metrics_config \<Rightarrow> metrics_config" where
  "mc_with_path p cfg = cfg\<lparr>mc_path := p\<rparr>"

record runtime_config =
  shutdown_timeout :: millis
  task_startup :: task_startup_config
  health_check :: health_check_config
  metrics :: metrics_config
  default_poll_worker :: poll_worker_config

definition runtime_config_default :: "u64 \<Rightarrow> runtime_config" where
  "runtime_config_default num_cpus =
     \<lparr>shutdown_timeout = 5000, task_startup = task_startup_default num_cpus,
      health_check = health_check_default, metrics = metrics_default,
      default_poll_worker = poll_worker_default\<rparr>"

definition with_shutdown_timeout :: "millis \<Rightarrow> runtime_config \<Rightarrow> runtime_config" where
  "with_shutdown_timeout t cfg = cfg\<lparr>shutdown_timeout := t\<rparr>"

definition with_task_startup :: "task_startup_config \<Rightarrow> runtime_config \<Rightarrow> runtime_config" where
  "with_task_startup c cfg = cfg\<lparr>task_startup := c\<rparr>"

definition with_health_check :: "health_check_config \<Rightarrow> runtime_config \<Rightarrow> runtime_config" where
  "with_health_check c cfg = cfg\<lparr>health_check := c\<rparr>"

definition with_metrics :: "metrics_config \<Rightarrow> runtime_config \<Rightarrow> runtime_config" where
  "with_metrics c cfg = cfg\<lparr>metrics := c\<rparr>"

definition with_default_poll_worker :: "poll_worker_config \<Rightarrow> runtime_config \<Rightarrow> runtime_config" where
  "with_default_poll_worker c cfg = cfg\<lparr>default_poll_worker := c\<rparr>"

definition validate :: "runtime_config \<Rightarrow> string + unit" where
  "validate cfg =
     (if shutdown_timeout cfg = 0 then Inl ''shutdown_timeout must be greater than zero''
      else if ts_concurrency (task_startup cfg) = 0
        then Inl ''task_startup.concurrency must be greater than zero''
      else if hc_failure_threshold (health_check cfg) = 0
        then Inl ''health_check.failure_threshold must be greater than zero''
      else Inr ())"

section \<open>Facts\<close>

lemma validate_ok_iff:
  "validate cfg = Inr () \<longleftrightarrow>
     0 < shutdown_timeout cfg \<and> ts_concurrency (task_startup cfg) \<noteq> 0 \<and>
     hc_failure_threshold (health_check cfg) \<noteq> 0"
  by (simp add: validate_def)

lemma validate_default: "num_cpus \<noteq> 0 \<Longrightarrow> validate (runtime_config_default num_cpus) = Inr ()"
  by (simp add: validate_ok_iff runtime_config_default_def task_startup_default_def
      health_check_default_def)

lemmas runtime_config_defs =
  poll_worker_default_def pw_with_concurrency_def pw_with_idle_backoff_def pw_with_error_backoff_def
  task_startup_default_def ts_with_concurrency_def ts_with_timeout_def ts_with_ready_check_def
  ts_with_ready_check_timeout_def health_check_default_def hc_with_interval_def hc_with_timeout_def
  hc_with_failure_threshold_def hc_with_enabled_def metrics_default_def mc_with_enabled_def
  mc_with_port_def mc_with_path_def runtime_config_default_def with_shutdown_timeout_def
  with_task_startup_def with_health_check_def with_metrics_def with_default_poll_worker_def

end
