(* ===== verification/Task_Manager.thy ===== *)
theory Task_Manager
  imports Topology Task_State Runtime_Config
begin

text \<open>
  \<^verbatim>\<open>flare-core-runtime/src/task/manager.rs\<close>, \<^verbatim>\<open>task/trait.rs\<close>, \<^verbatim>\<open>task/spawn.rs\<close>: ordering the tasks,
  starting them, waiting until they are ready and stopping them. The body of a task is unknown
  code: a task is its name, its dependencies and its flags, and the end of its body (success, or an
  error text) is chosen by the environment. Starting is a system of steps, because the body of an
  already spawned task runs concurrently with the loop that starts the rest.
\<close>

section \<open>Tasks\<close>

record task =
  task_name :: string
  task_dependencies :: "string list"
  task_priority :: int
  task_critical :: bool

definition spawn_task :: "string \<Rightarrow> task" where
  "spawn_task n = \<lparr>task_name = n, task_dependencies = [], task_priority = 0, task_critical = False\<rparr>"

definition with_dependencies :: "string list \<Rightarrow> task \<Rightarrow> task" where
  "with_dependencies ds t = t\<lparr>task_dependencies := ds\<rparr>"

definition with_priority :: "int \<Rightarrow> task \<Rightarrow> task" where
  "with_priority p t = t\<lparr>task_priority := p\<rparr>"

definition with_critical :: "bool \<Rightarrow> task \<Rightarrow> task" where
  "with_critical c t = t\<lparr>task_critical := c\<rparr>"

record task_manager =
  tasks :: "task list"
  tracker :: state_tracker
  tm_config :: runtime_config

definition task_manager_with_config :: "runtime_config \<Rightarrow> task_manager" where
  "task_manager_with_config cfg = \<lparr>tasks = [], tracker = tracker_new, tm_config = cfg\<rparr>"

definition task_manager_new :: "u64 \<Rightarrow> task_manager" where
  "task_manager_new num_cpus = task_manager_with_config (runtime_config_default num_cpus)"

definition set_config :: "runtime_config \<Rightarrow> task_manager \<Rightarrow> task_manager" where
  "set_config cfg tm = tm\<lparr>tm_config := cfg\<rparr>"

definition add_task :: "task \<Rightarrow> task_manager \<Rightarrow> task_manager" where
  "add_task t tm = tm\<lparr>tasks := tasks tm @ [t]\<rparr>"

definition task_count :: "task_manager \<Rightarrow> nat" where
  "task_count tm = length (tasks tm)"

section \<open>Sorting\<close>

text \<open>
  \<^verbatim>\<open>by_name.remove(&name)\<close> for every sorted name; the tasks still in the map are appended in the
  iteration order of the map.
\<close>

fun take_by_name :: "string list \<Rightarrow> (string \<times> task) list \<Rightarrow> task list \<times> (string \<times> task) list" where
  "take_by_name [] m = ([], m)"
| "take_by_name (n # ns) m =
     (case map_of m n of
        None \<Rightarrow> take_by_name ns m
      | Some t \<Rightarrow> (let (ts, m') = take_by_name ns (AList.delete n m) in (t # ts, m')))"

definition task_items :: "task list \<Rightarrow> item list" where
  "task_items ts = map (\<lambda>t. (task_name t, task_dependencies t)) ts"

definition index_by_name :: "task list \<Rightarrow> (string \<times> task) list" where
  "index_by_name ts = foldl (\<lambda>m t. AList.update (task_name t) t m) [] ts"

definition sort_tasks ::
  "(string list \<Rightarrow> string list) \<Rightarrow> task list \<Rightarrow> (runtime_error + task list) option" where
  "sort_tasks ord ts =
     (case topological_sort ord (task_items ts) of
        None \<Rightarrow> None
      | Some (Inl cycle) \<Rightarrow> Some (Inl (CircularDependency cycle))
      | Some (Inr names) \<Rightarrow>
          (let (srt, rest) = take_by_name names (index_by_name ts)
           in Some (Inr (srt @ map (\<lambda>n. the (map_of rest n)) (ord (map fst rest))))))"

lemma index_by_name_snoc:
  "index_by_name (ts @ [t]) = AList.update (task_name t) t (index_by_name ts)"
  by (simp add: index_by_name_def)

lemma index_by_name_distinct:
  "distinct (map task_name ts) \<Longrightarrow> index_by_name ts = map (\<lambda>t. (task_name t, t)) ts"
proof (induction ts rule: rev_induct)
  case (snoc t ts)
  have "AList.update (task_name t) t (map (\<lambda>t. (task_name t, t)) ts)
      = map (\<lambda>t. (task_name t, t)) ts @ [(task_name t, t)]"
    using snoc.prems by (intro AList_update_new) (simp add: image_image)
  with snoc show ?case by (simp add: index_by_name_snoc)
qed (simp add: index_by_name_def)

lemma take_by_name_spec:
  assumes "distinct ns" and "set ns \<subseteq> fst ` set m" and "distinct (map fst m)"
  shows "fst (take_by_name ns m) = map (\<lambda>n. the (map_of m n)) ns \<and>
         fst ` set (snd (take_by_name ns m)) = fst ` set m - set ns"
  using assms
proof (induction ns arbitrary: m)
  case (Cons n ns)
  then obtain t where t: "map_of m n = Some t"
    by (metis dom_map_of_conv_image_fst domD insert_subset list.simps(15))
  have "fst ` set (AList.delete n m) = fst ` set m - {n}"
    by (auto simp: AList.delete_eq)
  moreover have "distinct (map fst (AList.delete n m))"
    using Cons.prems by (simp add: AList.distinct_delete)
  moreover have "set ns \<subseteq> fst ` set m - {n}" using Cons.prems by auto
  ultimately have "fst (take_by_name ns (AList.delete n m))
        = map (\<lambda>n'. the (map_of (AList.delete n m) n')) ns \<and>
      fst ` set (snd (take_by_name ns (AList.delete n m))) = fst ` set m - {n} - set ns"
    using Cons.IH [of "AList.delete n m"] Cons.prems by simp
  moreover have "map (\<lambda>n'. the (map_of (AList.delete n m) n')) ns = map (\<lambda>n. the (map_of m n)) ns"
    using Cons.prems by (intro map_cong) auto
  ultimately show ?case using t by (auto simp: case_prod_beta)
qed simp

lemma map_of_task_index:
  "distinct (map task_name ts) \<Longrightarrow> t \<in> set ts \<Longrightarrow>
   map_of (map (\<lambda>t. (task_name t, t)) ts) (task_name t) = Some t"
  by (induction ts) (auto simp: rev_image_eqI)

lemma fst_set_task_items: "fst ` set (task_items ts) = task_name ` set ts"
  by (force simp: task_items_def)

lemma map_fst_task_items: "map fst (task_items ts) = map task_name ts"
  by (simp add: task_items_def)

text \<open>On success the sorted tasks are a rearrangement of the given ones, in the order of the names.\<close>

lemma sort_tasks_success:
  assumes ord: "hash_order ord" and s: "sort_tasks ord ts = Some (Inr srt)"
  shows "topological_sort ord (task_items ts) = Some (Inr (map task_name srt))"
    and "distinct (map task_name ts)" and "set srt = set ts" and "length srt = length ts"
proof -
  obtain names where n: "topological_sort ord (task_items ts) = Some (Inr names)"
    using s by (auto simp: sort_tasks_def split: option.splits sum.splits)
  have sound: "distinct names" "set names = task_name ` set ts" "length names = length ts"
    using topological_sort_Inr [OF ord n] fst_set_task_items [of ts]
    by (simp_all add: task_items_def)
  then have "card (task_name ` set ts) = length ts" by (metis distinct_card)
  then have d: "distinct (map task_name ts)" by (simp add: card_distinct)
  let ?m = "map (\<lambda>t. (task_name t, t)) ts"
  have m: "fst ` set ?m = task_name ` set ts" by (simp add: image_image)
  have "distinct (map fst ?m)" using d by (simp add: comp_def)
  from take_by_name_spec [OF sound(1) _ this] sound(2) m
  have tk: "fst (take_by_name names ?m) = map (\<lambda>n. the (map_of ?m n)) names"
      "fst ` set (snd (take_by_name names ?m)) = {}" by auto
  then have "snd (take_by_name names ?m) = []" by simp
  moreover have "ord [] = []" using hash_order_set [OF ord, of "[]"] by simp
  ultimately have srt: "srt = map (\<lambda>n. the (map_of ?m n)) names"
    using s n tk(1) index_by_name_distinct [OF d]
    by (simp add: sort_tasks_def case_prod_beta)
  have named: "task_name (the (map_of ?m n)) = n \<and> the (map_of ?m n) \<in> set ts" if "n \<in> set names" for n
    using that sound(2) map_of_task_index [OF d] by auto
  then have names: "map task_name srt = names" by (simp add: srt map_idI)
  show "topological_sort ord (task_items ts) = Some (Inr (map task_name srt))" using n names by simp
  show "distinct (map task_name ts)" by (rule d)
  show "length srt = length ts" using sound(3) names by (metis length_map)
  from srt have "set srt \<subseteq> set ts" using named by (auto simp: srt)
  moreover have "t \<in> set srt" if "t \<in> set ts" for t
    using that sound(2) map_of_task_index [OF d that] by (force simp: srt)
  ultimately show "set srt = set ts" by blast
qed

section \<open>Starting\<close>

text \<open>
  \<^verbatim>\<open>start_all\<close> registers the sorted tasks as pending and then launches them one by one; a launched
  task runs on its own: it marks itself running, runs its body, and reports how the body ended.
  \<open>phase\<close> is where each launched task stands; \<open>shutdown_txs\<close> are the senders of the shutdown
  signals, in the order in which they were created, each named by its task.
\<close>

type_synonym task_result = "string + unit"

datatype phase = Spawned | InBody | Done task_result

record start_state =
  to_start :: "task list"
  phase :: "string \<rightharpoonup> phase"
  shutdown_txs :: "string list"
  st_tracker :: state_tracker

definition register_all :: "nat \<Rightarrow> task list \<Rightarrow> state_tracker \<Rightarrow> state_tracker" where
  "register_all now ts tr = foldl (\<lambda>tr t. register_task now (task_name t) Pending tr) tr ts"

text \<open>\<^verbatim>\<open>None\<close> is a panic. A failed sort leaves the manager as it was; a successful one drains its list.\<close>

definition start_all ::
  "(string list \<Rightarrow> string list) \<Rightarrow> nat \<Rightarrow> task_manager \<Rightarrow>
   (task_manager \<times> (runtime_error + start_state)) option" where
  "start_all ord now tm =
     (case sort_tasks ord (tasks tm) of
        None \<Rightarrow> None
      | Some (Inl e) \<Rightarrow> Some (tm, Inl e)
      | Some (Inr srt) \<Rightarrow>
          (let tr = register_all now srt (tracker tm)
           in Some (tm\<lparr>tasks := [], tracker := tr\<rparr>,
                    Inr \<lparr>to_start = srt, phase = Map.empty, shutdown_txs = [], st_tracker = tr\<rparr>)))"

inductive start_step :: "start_state \<Rightarrow> start_state \<Rightarrow> bool" where
  launch: "to_start s = t # ts \<Longrightarrow>
     start_step s (s\<lparr>to_start := ts,
       shutdown_txs := shutdown_txs s @ [task_name t],
       phase := (phase s)(task_name t \<mapsto> Spawned),
       st_tracker := fst (update_state now (task_name t) Starting (st_tracker s))\<rparr>)"
| enter_body: "phase s n = Some Spawned \<Longrightarrow>
     start_step s (s\<lparr>phase := (phase s)(n \<mapsto> InBody),
       st_tracker := fst (update_state now n Running (st_tracker s))\<rparr>)"
| body_ok: "phase s n = Some InBody \<Longrightarrow>
     start_step s (s\<lparr>phase := (phase s)(n \<mapsto> Done (Inr ())),
       st_tracker := fst (update_state now n Stopped (st_tracker s))\<rparr>)"
| body_err: "phase s n = Some InBody \<Longrightarrow>
     start_step s (s\<lparr>phase := (phase s)(n \<mapsto> Done (Inl e)),
       st_tracker := fst (update_state_with_error now n Failed e (st_tracker s))\<rparr>)"

text \<open>
  The state the tracker shows for a task in each phase. The report of a successful end is the
  transition from running to stopped, which the tracker does not accept.
\<close>

fun shown_state :: "phase option \<Rightarrow> task_state" where
  "shown_state None = Pending"
| "shown_state (Some Spawned) = Starting"
| "shown_state (Some InBody) = Running"
| "shown_state (Some (Done (Inr _))) = Running"
| "shown_state (Some (Done (Inl _))) = Failed"

definition start_inv :: "task list \<Rightarrow> start_state \<Rightarrow> bool" where
  "start_inv srt s \<longleftrightarrow>
     map task_name srt = shutdown_txs s @ map task_name (to_start s) \<and>
     dom (phase s) = set (shutdown_txs s) \<and>
     (\<forall>t \<in> set srt. lookup_state (st_tracker s) (task_name t) = Some (shown_state (phase s (task_name t))))"

lemma register_all_lookup:
  "lookup_state (register_all now ts tr) n =
     (if n \<in> task_name ` set ts then Some Pending else lookup_state tr n)"
  unfolding register_all_def by (induction ts rule: rev_induct) auto

lemma register_all_inv: "tracker_inv tr \<Longrightarrow> tracker_inv (register_all now ts tr)"
  unfolding register_all_def by (induction ts rule: rev_induct) (auto simp: register_task_inv)

lemma start_inv_init:
  "start_inv srt \<lparr>to_start = srt, phase = Map.empty, shutdown_txs = [],
     st_tracker = register_all now srt tr\<rparr>"
  by (simp add: start_inv_def register_all_lookup)

text \<open>One task changes phase; the tracker changes its entry only.\<close>

lemma start_inv_move:
  assumes "start_inv srt s" and "n \<in> dom (phase s)"
    and "\<And>m. m \<noteq> n \<Longrightarrow> lookup_state tr m = lookup_state (st_tracker s) m"
    and "lookup_state tr n = Some (shown_state (Some p))"
  shows "start_inv srt (s\<lparr>phase := (phase s)(n \<mapsto> p), st_tracker := tr\<rparr>)"
  using assms unfolding start_inv_def by (auto simp: insert_absorb)

lemma start_inv_phase:
  "start_inv srt s \<Longrightarrow> phase s n = Some p \<Longrightarrow>
   lookup_state (st_tracker s) n = Some (shown_state (Some p))"
proof -
  assume inv: "start_inv srt s" and p: "phase s n = Some p"
  then have "n \<in> set (shutdown_txs s)" by (auto simp: start_inv_def)
  then have "n \<in> set (map task_name srt)" using inv by (simp only: start_inv_def) simp
  then obtain t where "t \<in> set srt" "n = task_name t" by auto
  with inv p show ?thesis by (simp add: start_inv_def)
qed

lemma start_step_inv:
  assumes "start_step s s'" and "start_inv srt s" and "distinct (map task_name srt)"
  shows "start_inv srt s'"
  using assms
proof (induction rule: start_step.induct)
  case (launch s t ts now)
  have fresh: "task_name t \<notin> set (shutdown_txs s)" "task_name t \<in> set (map task_name srt)"
    using launch by (auto simp: start_inv_def)
  then have ph: "phase s (task_name t) = None" using launch by (auto simp: start_inv_def)
  from fresh(2) obtain u where u: "u \<in> set srt" "task_name t = task_name u" by auto
  with launch ph have "lookup_state (st_tracker s) (task_name t) = Some Pending"
    by (simp add: start_inv_def)
  then have "lookup_state (fst (update_state now (task_name t) Starting (st_tracker s)))
      = (lookup_state (st_tracker s))(task_name t \<mapsto> Starting)"
    by (simp add: lookup_state_update)
  with launch show ?case by (auto simp: start_inv_def)
next
  case (enter_body s n now)
  from start_inv_phase [OF this(2,1)] enter_body show ?case
    by (intro start_inv_move) (auto simp: tracker_store.update_other tracker_store.update_valid)
next
  case (body_ok s n now)
  from start_inv_phase [OF this(2,1)] body_ok show ?case
    by (intro start_inv_move) (auto simp: tracker_store.update_other tracker_store.update_rejected)
next
  case (body_err s n e now)
  from start_inv_phase [OF this(2,1)] body_err show ?case
    by (intro start_inv_move)
      (auto simp: lookup_state_update_with_error tracker_store.update_other tracker_store.update_valid)
qed

lemma start_reach_inv:
  "start_step\<^sup>*\<^sup>* s s' \<Longrightarrow> start_inv srt s \<Longrightarrow> distinct (map task_name srt) \<Longrightarrow> start_inv srt s'"
  by (induction rule: rtranclp_induct) (auto intro: start_step_inv)

lemma start_all_success:
  assumes "hash_order ord" and "start_all ord now tm = Some (tm', Inr s0)"
  shows "sort_tasks ord (tasks tm) = Some (Inr (to_start s0))" and "start_inv (to_start s0) s0"
    and "tasks tm' = []" and "distinct (map task_name (to_start s0))"
proof -
  show s: "sort_tasks ord (tasks tm) = Some (Inr (to_start s0))"
    and "tasks tm' = []" and "start_inv (to_start s0) s0"
    using assms(2) start_inv_init
    by (auto simp: start_all_def Let_def split: option.splits sum.splits)
  have "topological_sort ord (task_items (tasks tm)) = Some (Inr (map task_name (to_start s0)))"
    by (rule sort_tasks_success(1) [OF assms(1) s])
  from topological_sort_Inr [OF assms(1) this]
  show "distinct (map task_name (to_start s0))" by simp
qed

section \<open>Waiting until ready\<close>

text \<open>
  The loop of \<^verbatim>\<open>wait_for_ready\<close>: \<open>ready k\<close> is what \<^verbatim>\<open>all_ready\<close> says at the \<open>k\<close>-th round, \<open>elapsed k\<close> the
  time since the start at that round. \<open>None\<close> is running out of fuel.
\<close>

fun ready_loop ::
  "nat \<Rightarrow> (nat \<Rightarrow> bool) \<Rightarrow> (nat \<Rightarrow> millis) \<Rightarrow> millis \<Rightarrow> nat \<Rightarrow> (runtime_error + unit) option" where
  "ready_loop 0 ready elapsed timeout k = None"
| "ready_loop (Suc fuel) ready elapsed timeout k =
     (if ready k then Some (Inr ())
      else if timeout < elapsed k then Some (Inl (StartupTimeout ''all tasks'' timeout))
      else ready_loop fuel ready elapsed timeout (Suc k))"

definition wait_for_ready ::
  "nat \<Rightarrow> (nat \<Rightarrow> bool) \<Rightarrow> (nat \<Rightarrow> millis) \<Rightarrow> task_manager \<Rightarrow> (runtime_error + unit) option" where
  "wait_for_ready fuel ready elapsed tm =
     (if \<not> enable_ready_check (task_startup (tm_config tm)) then Some (Inr ())
      else ready_loop fuel ready elapsed (ready_check_timeout (task_startup (tm_config tm))) 0)"

text \<open>Each round sleeps for at least a hundred milliseconds.\<close>

definition paced :: "(nat \<Rightarrow> millis) \<Rightarrow> bool" where
  "paced elapsed \<longleftrightarrow> (\<forall>k. elapsed k + 100 \<le> elapsed (Suc k))"

lemma paced_ge: "paced elapsed \<Longrightarrow> 100 * k \<le> elapsed k"
proof (induction k)
  case (Suc k)
  then have "100 * k \<le> elapsed k" "elapsed k + 100 \<le> elapsed (Suc k)" by (simp_all add: paced_def)
  then show ?case by simp
qed simp

lemma ready_loop_decides:
  assumes "paced elapsed" and "timeout + 100 < 100 * (k + fuel)" and "0 < fuel"
  shows "\<exists>j \<ge> k. ready_loop fuel ready elapsed timeout k =
           Some (if ready j then Inr () else Inl (StartupTimeout ''all tasks'' timeout)) \<and>
         (\<forall>i. k \<le> i \<and> i < j \<longrightarrow> \<not> ready i \<and> elapsed i \<le> timeout) \<and> (ready j \<or> timeout < elapsed j)"
  using assms
proof (induction fuel arbitrary: k)
  case (Suc fuel)
  show ?case
  proof (cases "ready k \<or> timeout < elapsed k")
    case True
    then show ?thesis by (intro exI [of _ k]) auto
  next
    case False
    then have "100 * k \<le> timeout" using paced_ge [OF Suc.prems(1), of k] by simp
    then have "0 < fuel" using Suc.prems(2) by (cases fuel) (use False paced_ge [OF Suc.prems(1), of k] in auto)
    with Suc.IH [of "Suc k"] Suc.prems obtain j where j: "Suc k \<le> j"
        "ready_loop fuel ready elapsed timeout (Suc k) =
           Some (if ready j then Inr () else Inl (StartupTimeout ''all tasks'' timeout))"
        "\<forall>i. Suc k \<le> i \<and> i < j \<longrightarrow> \<not> ready i \<and> elapsed i \<le> timeout" "ready j \<or> timeout < elapsed j"
      by auto
    have "\<not> ready i \<and> elapsed i \<le> timeout" if "k \<le> i" "i < j" for i
      using that j(3) False by (cases "i = k") auto
    with j False show ?thesis by (intro exI [of _ j]) auto
  qed
qed simp

section \<open>Stopping\<close>

text \<open>
  \<^verbatim>\<open>stop_all\<close> sends every shutdown signal, then joins the tasks until all are done or the shutdown
  timeout has passed, and then aborts the rest. \<open>ends t\<close> is the time after the signals at which
  the task ends, \<open>None\<close> if it never does.
\<close>

record stop_report =
  signalled :: "string list"
  joined :: "string list"
  aborted :: "string list"
  stop_elapsed :: millis

definition stop_all ::
  "(string \<Rightarrow> millis option) \<Rightarrow> string list \<Rightarrow> string list \<Rightarrow> task_manager \<Rightarrow> stop_report" where
  "stop_all ends live txs tm =
     (let limit = shutdown_timeout (tm_config tm);
          in_time = (\<lambda>n. case ends n of None \<Rightarrow> False | Some t \<Rightarrow> t \<le> limit)
      in \<lparr>signalled = txs, joined = filter in_time live, aborted = filter (\<lambda>n. \<not> in_time n) live,
          stop_elapsed = (if \<forall>n \<in> set live. in_time n
                          then foldl max 0 (map (\<lambda>n. the (ends n)) live) else limit)\<rparr>)"

lemma foldl_max_le: "foldl max (a :: nat) xs \<le> b \<longleftrightarrow> a \<le> b \<and> (\<forall>x \<in> set xs. x \<le> b)"
  by (induction xs arbitrary: a) auto

section \<open>Properties\<close>


text \<open>A manager with two tasks, the second depending on the first, used as the example below.\<close>

definition example_manager :: task_manager where
  "example_manager = add_task (with_dependencies [''db''] (spawn_task ''grpc''))
     (add_task (spawn_task ''db'') (task_manager_new 4))"

lemma example_start:
  obtains tm' s0 where "start_all remdups 0 example_manager = Some (tm', Inr s0)"
    and "to_start s0 = [spawn_task ''db'', with_dependencies [''db''] (spawn_task ''grpc'')]"
    and "phase s0 = Map.empty"
proof -
  have "sort_tasks remdups (tasks example_manager)
      = Some (Inr [spawn_task ''db'', with_dependencies [''db''] (spawn_task ''grpc'')])"
    by code_simp
  then show thesis using that by (auto simp: start_all_def Let_def)
qed

lemma start_steps_launch:
  assumes "start_step\<^sup>*\<^sup>* s0 s" and "to_start s = t # ts"
  shows "\<exists>s'. start_step\<^sup>*\<^sup>* s0 s' \<and> to_start s' = ts \<and>
              phase s' = (phase s)(task_name t \<mapsto> Spawned)"
proof -
  obtain s' where s': "start_step s s'" "to_start s' = ts"
      "phase s' = (phase s)(task_name t \<mapsto> Spawned)"
    using start_step.launch [OF assms(2), of 0] by fastforce
  from rtranclp.rtrancl_into_rtrancl [OF assms(1) s'(1)] s'(2,3) show ?thesis by blast
qed

lemma start_steps_body_ok:
  assumes "start_step\<^sup>*\<^sup>* s0 s" and "phase s n = Some Spawned"
  shows "\<exists>s'. start_step\<^sup>*\<^sup>* s0 s' \<and> phase s' n = Some (Done (Inr ()))"
proof -
  obtain s1 where s1: "start_step s s1" "phase s1 n = Some InBody"
    using start_step.enter_body [OF assms(2)] by fastforce
  obtain s2 where "start_step s1 s2" "phase s2 n = Some (Done (Inr ()))"
    using start_step.body_ok [OF s1(2)] by fastforce
  with s1 assms(1) show ?thesis by (meson rtranclp.rtrancl_into_rtrancl)
qed


text \<open>
  The tracker never shows a started task as stopping or stopped: a task whose body has
  ended successfully is shown as running, because the manager reports the end as a transition from
  running to stopped and the tracker accepts stopped after stopping only. A failed body is shown.
\<close>

theorem finished_task_still_running:
  assumes "hash_order ord" and "start_all ord now tm = Some (tm', Inr s0)" and "start_step\<^sup>*\<^sup>* s0 s"
    and "phase s n = Some (Done r)"
  shows "lookup_state (st_tracker s) n = Some (if r = Inr () then Running else Failed) \<and>
         (\<forall>m \<in> dom (phase s). lookup_state (st_tracker s) m \<notin> {Some Stopping, Some Stopped})"
proof -
  note ok = start_all_success [OF assms(1,2)]
  have inv: "start_inv (to_start s0) s" using start_reach_inv [OF assms(3) ok(2,4)] .
  have shown: "shown_state (Some p) \<notin> {Stopping, Stopped}" for p
    by (cases "Some p" rule: shown_state.cases) auto
  have "\<forall>m \<in> dom (phase s). lookup_state (st_tracker s) m \<notin> {Some Stopping, Some Stopped}"
    using start_inv_phase [OF inv] shown by fastforce
  then show ?thesis using start_inv_phase [OF inv assms(4)] by (cases r) simp_all
qed

theorem finished_task_still_running_witness:
  "\<exists>s :: start_state. phase s ''db'' = Some (Done (Inr ())) \<and> lookup_state (st_tracker s) ''db'' = Some Running"
proof -
  obtain tm' s0 where s0: "start_all remdups 0 example_manager = Some (tm', Inr s0)"
      "to_start s0 = [spawn_task ''db'', with_dependencies [''db''] (spawn_task ''grpc'')]"
      "phase s0 = Map.empty" by (rule example_start)
  obtain s1 where s1: "start_step\<^sup>*\<^sup>* s0 s1" "phase s1 ''db'' = Some Spawned"
    using start_steps_launch [OF rtranclp.rtrancl_refl s0(2)] by (auto simp: spawn_task_def)
  obtain s2 where s2: "start_step\<^sup>*\<^sup>* s0 s2" "phase s2 ''db'' = Some (Done (Inr ()))"
    using start_steps_body_ok [OF s1] by blast
  from finished_task_still_running [OF hash_order_remdups s0(1) s2] s2(2) show ?thesis by auto
qed

text \<open>
  Claim C40. \<^verbatim>\<open>wait_for_ready\<close> always decides, within \<open>timeout / 100 + 2\<close> rounds: it succeeds at the
  first round at which all tasks are ready if the time before it is within the timeout, and fails
  with the startup timeout otherwise.
\<close>

theorem wait_for_ready_decides:
  assumes "paced elapsed" and "enable_ready_check (task_startup (tm_config tm))"
    and "timeout = ready_check_timeout (task_startup (tm_config tm))" and "timeout div 100 + 2 \<le> fuel"
  shows "\<exists>j. wait_for_ready fuel ready elapsed tm =
           Some (if ready j then Inr () else Inl (StartupTimeout ''all tasks'' timeout)) \<and>
         (\<forall>i < j. \<not> ready i \<and> elapsed i \<le> timeout) \<and> (ready j \<or> timeout < elapsed j)"
proof -
  have "timeout + 100 < 100 * (0 + fuel)" "0 < fuel" using assms(4) by simp_all
  from ready_loop_decides [OF assms(1) this, of ready] show ?thesis
    using assms(2,3) by (auto simp: wait_for_ready_def)
qed

theorem wait_for_ready_decides_witness:
  "\<exists>j. wait_for_ready 302 (\<lambda>k. 3 \<le> k) (\<lambda>k. 100 * k) example_manager =
        Some (if (3 :: nat) \<le> j then Inr () else Inl (StartupTimeout ''all tasks'' 30000))"
proof -
  have "paced (\<lambda>k. 100 * k)" by (simp add: paced_def)
  moreover have "enable_ready_check (task_startup (tm_config example_manager))"
    and "ready_check_timeout (task_startup (tm_config example_manager)) = 30000"
    by (simp_all add: example_manager_def add_task_def task_manager_new_def
        task_manager_with_config_def runtime_config_defs)
  ultimately show ?thesis
    using wait_for_ready_decides [of "\<lambda>k. 100 * k" example_manager 30000 302 "\<lambda>k. 3 \<le> k"] by auto
qed

text \<open>
  Stopping signals every task once, accounts for every live task exactly once as joined or
  aborted, and takes no longer than the shutdown timeout.
\<close>

theorem stop_all_bounded:
  "signalled (stop_all ends live txs tm) = txs \<and>
   mset (joined (stop_all ends live txs tm)) + mset (aborted (stop_all ends live txs tm)) = mset live \<and>
   stop_elapsed (stop_all ends live txs tm) \<le> shutdown_timeout (tm_config tm) \<and>
   (aborted (stop_all ends live txs tm) \<noteq> [] \<longleftrightarrow>
      (\<exists>n \<in> set live. case ends n of None \<Rightarrow> True | Some t \<Rightarrow> shutdown_timeout (tm_config tm) < t))"
proof -
  let ?in_time = "\<lambda>n. case ends n of None \<Rightarrow> False | Some t \<Rightarrow> t \<le> shutdown_timeout (tm_config tm)"
  have "stop_elapsed (stop_all ends live txs tm) \<le> shutdown_timeout (tm_config tm)"
    by (auto simp: stop_all_def Let_def foldl_max_le split: option.splits)
  moreover have "aborted (stop_all ends live txs tm) \<noteq> [] \<longleftrightarrow> (\<exists>n \<in> set live. \<not> ?in_time n)"
    by (simp add: stop_all_def Let_def filter_empty_conv)
  moreover have "\<not> ?in_time n \<longleftrightarrow>
      (case ends n of None \<Rightarrow> True | Some t \<Rightarrow> shutdown_timeout (tm_config tm) < t)" for n
    by (auto split: option.splits)
  moreover have "mset (joined (stop_all ends live txs tm)) + mset (aborted (stop_all ends live txs tm))
      = mset live"
    by (simp only: stop_all_def Let_def stop_report.select_convs mset_filter_split)
  moreover have "signalled (stop_all ends live txs tm) = txs" by (simp add: stop_all_def Let_def)
  ultimately show ?thesis by simp
qed

end
