(* ===== verification/Health.thy ===== *)
theory Health
  imports Runtime_Config
begin

text \<open>
  \<^verbatim>\<open>flare-core-runtime/src/health/checker.rs\<close>, \<^verbatim>\<open>health/trait.rs\<close> and the monitor loop of
  \<^verbatim>\<open>runtime.rs\<close> (\<^verbatim>\<open>start_health_monitor\<close>): named checks, a counter of consecutive failures per
  name, a callback once the threshold is reached, and rounds of checks under a time limit. The
  checks are unknown code: what each returns is part of a round's input. A check that has not
  returned when the limit passes is \<open>Hangs\<close>: the round is cancelled there. The calls of the
  callback are recorded in the order in which they are made.
\<close>

section \<open>The checker\<close>

record health_checker =
  checks :: "string list"
  failure_counts :: "string \<rightharpoonup> u32"
  failure_threshold :: u32
  has_callback :: bool
  fired :: "string list"

record health_check_result =
  hr_name :: string
  healthy :: bool
  hr_error :: "string option"

definition health_checker_new :: health_checker where
  "health_checker_new =
     \<lparr>checks = [], failure_counts = Map.empty, failure_threshold = 3, has_callback = False, fired = []\<rparr>"

definition with_failure_threshold :: "u32 \<Rightarrow> health_checker \<Rightarrow> health_checker" where
  "with_failure_threshold k hc = hc\<lparr>failure_threshold := k\<rparr>"

definition with_on_failure :: "health_checker \<Rightarrow> health_checker" where
  "with_on_failure hc = hc\<lparr>has_callback := True\<rparr>"

definition add_check :: "string \<Rightarrow> health_checker \<Rightarrow> health_checker" where
  "add_check n hc = hc\<lparr>checks := checks hc @ [n]\<rparr>"

definition check_count :: "health_checker \<Rightarrow> nat" where
  "check_count hc = length (checks hc)"

text \<open>\<^verbatim>\<open>check_one\<close>: the outcome is success, or the text of the error. The counter wraps at 32 bits.\<close>

definition check_one ::
  "string \<Rightarrow> string + unit \<Rightarrow> health_checker \<Rightarrow> health_checker \<times> health_check_result" where
  "check_one n outcome hc =
     (case outcome of
        Inr _ \<Rightarrow>
          (hc\<lparr>failure_counts := (failure_counts hc)(n \<mapsto> 0)\<rparr>,
           \<lparr>hr_name = n, healthy = True, hr_error = None\<rparr>)
      | Inl e \<Rightarrow>
          (let old = (case failure_counts hc n of None \<Rightarrow> 0 | Some c \<Rightarrow> c); count = old + 1;
               hc1 = hc\<lparr>failure_counts := (failure_counts hc)(n \<mapsto> count)\<rparr>;
               hc2 = (if failure_threshold hc \<le> count \<and> has_callback hc
                      then hc1\<lparr>fired := fired hc1 @ [n]\<rparr> else hc1)
           in (hc2, \<lparr>hr_name = n, healthy = False, hr_error = Some e\<rparr>)))"

datatype outcome = Returns "string + unit" | Hangs

text \<open>
  \<^verbatim>\<open>check_all\<close> runs the checks in order. Under the time limit of the monitor it may be cancelled at
  a check that hangs: the checks before it have taken effect, and no results are returned.
\<close>

fun check_list ::
  "(string \<times> outcome) list \<Rightarrow> health_checker \<Rightarrow> health_checker \<times> health_check_result list option" where
  "check_list [] hc = (hc, Some [])"
| "check_list ((n, Hangs) # cs) hc = (hc, None)"
| "check_list ((n, Returns r) # cs) hc =
     (let (hc1, res) = check_one n r hc; (hc2, rest) = check_list cs hc1
      in (hc2, map_option (\<lambda>rs. res # rs) rest))"

definition check_all ::
  "(nat \<Rightarrow> outcome) \<Rightarrow> health_checker \<Rightarrow> health_checker \<times> health_check_result list option" where
  "check_all outs hc = check_list (zip (checks hc) (map outs [0..<length (checks hc)])) hc"

definition is_healthy :: "(nat \<Rightarrow> outcome) \<Rightarrow> health_checker \<Rightarrow> health_checker \<times> bool option" where
  "is_healthy outs hc =
     (let (hc', rs) = check_all outs hc in (hc', map_option (\<lambda>rs. \<forall>r \<in> set rs. healthy r) rs))"

text \<open>
  The monitor: one \<^verbatim>\<open>check_all\<close> per tick until it is told to stop; it warns about the names of the
  unhealthy checks of a finished round, and about a round that timed out.
\<close>

datatype monitor_log = UnhealthyRound "string list" | RoundTimedOut

definition monitor_round :: "(nat \<Rightarrow> outcome) \<Rightarrow> health_checker \<Rightarrow> health_checker \<times> monitor_log list" where
  "monitor_round outs hc =
     (case check_all outs hc of
        (hc', None) \<Rightarrow> (hc', [RoundTimedOut])
      | (hc', Some rs) \<Rightarrow>
          (let bad = filter (\<lambda>r. \<not> healthy r) rs
           in (hc', if bad = [] then [] else [UnhealthyRound (map hr_name bad)])))"

fun monitor_rounds :: "(nat \<Rightarrow> outcome) list \<Rightarrow> health_checker \<Rightarrow> health_checker \<times> monitor_log list" where
  "monitor_rounds [] hc = (hc, [])"
| "monitor_rounds (o1 # os) hc =
     (let (hc1, l1) = monitor_round o1 hc; (hc2, l2) = monitor_rounds os hc1 in (hc2, l1 @ l2))"

section \<open>Counters as runs of failures\<close>

text \<open>
  The abstract contract: the counter of a check is the length of the run of failures at the end of
  its history. A history is the list of the outcomes of one check, oldest first.
\<close>

text \<open>One check, called again and again with the given outcomes.\<close>

fun check_history :: "string \<Rightarrow> (string + unit) list \<Rightarrow> health_checker \<Rightarrow> health_checker" where
  "check_history n [] hc = hc"
| "check_history n (r # rs) hc = check_history n rs (fst (check_one n r hc))"

definition count_of :: "health_checker \<Rightarrow> string \<Rightarrow> nat" where
  "count_of hc n = (case failure_counts hc n of None \<Rightarrow> 0 | Some c \<Rightarrow> unat c)"

lemma check_one_frame [simp]:
  "checks (fst (check_one n r hc)) = checks hc"
  "failure_threshold (fst (check_one n r hc)) = failure_threshold hc"
  "has_callback (fst (check_one n r hc)) = has_callback hc"
  by (auto simp: check_one_def Let_def split: sum.splits)

lemma count_of_other [simp]: "m \<noteq> n \<Longrightarrow> count_of (fst (check_one n r hc)) m = count_of hc m"
  by (auto simp: check_one_def count_of_def Let_def split: sum.splits)

lemma count_of_success [simp]: "count_of (fst (check_one n (Inr u) hc)) n = 0"
  by (simp add: check_one_def count_of_def)

lemma unat_Suc_32: "unat c + 1 < 2 ^ 32 \<Longrightarrow> unat (c + 1) = Suc (unat c)" for c :: u32
  by (simp add: unat_word_ariths)

lemma count_of_failure:
  "count_of hc n + 1 < 2 ^ 32 \<Longrightarrow> count_of (fst (check_one n (Inl e) hc)) n = Suc (count_of hc n)"
  by (auto simp: check_one_def count_of_def Let_def unat_Suc_32 split: option.splits)

lemma fired_check_one:
  "fired (fst (check_one n r hc)) =
     fired hc @ (if r \<in> range Inl \<and> has_callback hc \<and>
                    failure_threshold hc \<le> the (failure_counts (fst (check_one n r hc)) n)
                 then [n] else [])"
  by (auto simp: check_one_def Let_def split: sum.splits)

lemma check_history_snoc:
  "check_history n (rs @ [r]) hc = fst (check_one n r (check_history n rs hc))"
  by (induction rs arbitrary: hc) simp_all

lemma check_history_frame [simp]:
  "checks (check_history n rs hc) = checks hc"
  "failure_threshold (check_history n rs hc) = failure_threshold hc"
  "has_callback (check_history n rs hc) = has_callback hc"
  by (induction rs arbitrary: hc) simp_all

abbreviation is_ok :: "string + unit \<Rightarrow> bool" where
  "is_ok r \<equiv> (case r of Inr _ \<Rightarrow> True | Inl _ \<Rightarrow> False)"

lemma count_of_history:
  assumes "length rs < 2 ^ 32" and "failure_counts hc n = None"
  shows "count_of (check_history n rs hc) n = trailing_failures (map is_ok rs)"
  using assms
proof (induction rs rule: rev_induct)
  case Nil
  then show ?case by (simp add: count_of_def)
next
  case (snoc r rs)
  then have IH: "count_of (check_history n rs hc) n = trailing_failures (map is_ok rs)" by simp
  moreover have "trailing_failures (map is_ok rs) + 1 < 2 ^ 32"
    using snoc.prems trailing_failures_le [of "map is_ok rs"] by simp
  ultimately show ?case by (cases r) (simp_all add: check_history_snoc count_of_failure)
qed

lemma callback_fires_on_run_aux:
  assumes "length rs + 1 < 2 ^ 32" and "failure_counts hc n = None"
  shows "let before_it = check_history n rs hc; after_it = check_history n (rs @ [r]) hc;
             run = trailing_failures (map is_ok (rs @ [r]))
         in count_of after_it n = run \<and>
            fired after_it = fired before_it @
              (if has_callback hc \<and> \<not> is_ok r \<and> unat (failure_threshold hc) \<le> run then [n] else [])"
proof -
  have c: "count_of (check_history n (rs @ [r]) hc) n = trailing_failures (map is_ok (rs @ [r]))"
    using assms by (intro count_of_history) simp_all
  have s: "failure_counts (fst (check_one n r hc')) n \<noteq> None" for hc'
    by (auto simp: check_one_def Let_def split: sum.splits)
  let ?h = "check_history n rs hc"
  obtain w where w: "failure_counts (fst (check_one n r ?h)) n = Some w" using s by blast
  then have u: "unat w = trailing_failures (map is_ok (rs @ [r]))"
    using c by (simp add: check_history_snoc count_of_def)
  have "(failure_threshold hc \<le> w) = (unat (failure_threshold hc) \<le> trailing_failures (map is_ok (rs @ [r])))"
    unfolding word_le_nat_alt u ..
  moreover have "r \<in> range Inl \<longleftrightarrow> \<not> is_ok r" by (cases r) auto
  ultimately show ?thesis
    using c w by (cases r) (simp_all add: Let_def check_history_snoc fired_check_one)
qed

section \<open>Rounds of checks\<close>

lemma check_list_Returns:
  "fst (check_list ((n, Returns r) # cs) hc) = fst (check_list cs (fst (check_one n r hc)))"
  "snd (check_list ((n, Returns r) # cs) hc) =
     map_option (\<lambda>rs. snd (check_one n r hc) # rs) (snd (check_list cs (fst (check_one n r hc))))"
  by (simp_all add: case_prod_beta)

text \<open>The names a round reaches: those before the first check that hangs.\<close>

fun reached :: "(string \<times> outcome) list \<Rightarrow> string list" where
  "reached [] = []"
| "reached ((n, Hangs) # cs) = []"
| "reached ((n, Returns r) # cs) = n # reached cs"

lemmas round_simps = check_list.simps(1,2) check_list_Returns

lemma round_cases:
  assumes "P []" and "\<And>(n :: string) cs. P ((n, Hangs) # cs)" and "\<And>n r cs. P cs \<Longrightarrow> P ((n, Returns r) # cs)"
  shows "P cs"
  using assms by (rule reached.induct)

lemma check_list_frame [simp]:
  "checks (fst (check_list cs hc)) = checks hc \<and>
   failure_threshold (fst (check_list cs hc)) = failure_threshold hc \<and>
   has_callback (fst (check_list cs hc)) = has_callback hc"
  by (induction cs arbitrary: hc rule: round_cases) (simp_all add: round_simps del: check_list.simps(3))

lemma check_list_untouched:
  "m \<notin> set (reached cs) \<Longrightarrow> count_of (fst (check_list cs hc)) m = count_of hc m"
  by (induction cs arbitrary: hc rule: round_cases) (simp_all add: round_simps del: check_list.simps(3))

lemma check_list_fired:
  "set (fired (fst (check_list cs hc))) \<subseteq> set (fired hc) \<union> set (reached cs)"
proof (induction cs arbitrary: hc rule: round_cases)
  case (3 n r cs)
  have "set (fired (fst (check_one n r hc))) \<subseteq> insert n (set (fired hc))"
    by (auto simp: fired_check_one)
  with 3 [of "fst (check_one n r hc)"] show ?case
    by (auto simp: round_simps simp del: check_list.simps(3))
qed (simp_all add: round_simps)

lemma reached_prefix: "prefix (reached cs) (map fst cs)"
  by (induction cs rule: round_cases) simp_all

lemma reached_before_hang:
  "i < length cs \<Longrightarrow> snd (cs ! i) = Hangs \<Longrightarrow> length (reached cs) \<le> i"
proof (induction cs arbitrary: i rule: round_cases)
  case (3 n r cs)
  then show ?case by (cases i) auto
qed simp_all

lemma check_all_frame [simp]:
  "checks (fst (check_all outs hc)) = checks hc"
  by (simp add: check_all_def)

lemma fst_monitor_round [simp]: "fst (monitor_round outs hc) = fst (check_all outs hc)"
  by (auto simp: monitor_round_def Let_def split: prod.splits option.splits)

lemma fst_monitor_rounds_Cons [simp]:
  "fst (monitor_rounds (o1 # os) hc) = fst (monitor_rounds os (fst (check_all o1 hc)))"
  by (simp add: case_prod_beta)

text \<open>A name at place \<open>i\<close> or later is not reached when the check at place \<open>i\<close> hangs.\<close>

lemma not_reached:
  assumes "outs i = Hangs" and "i \<le> j" and "j < length ns" and "distinct ns"
  shows "ns ! j \<notin> set (reached (zip ns (map outs [0..<length ns])))"
proof
  let ?z = "zip ns (map outs [0..<length ns])"
  assume "ns ! j \<in> set (reached ?z)"
  then obtain k where k: "k < length (reached ?z)" and eq: "reached ?z ! k = ns ! j"
    by (metis in_set_conv_nth)
  have le: "length (reached ?z) \<le> i" using assms by (intro reached_before_hang) simp_all
  obtain zs where zs: "map fst ?z = reached ?z @ zs" using reached_prefix [of ?z] unfolding prefix_def by blast
  have "reached ?z ! k = map fst ?z ! k"
    using k zs by (simp only: nth_append if_True)
  with k le eq assms have "ns ! k = ns ! j" and "k < j" by simp_all
  with assms show False by (simp add: nth_eq_iff_index_eq)
qed

lemma hanging_round:
  assumes "outs i = Hangs" and "i \<le> j" and "j < length (checks hc)" and "distinct (checks hc)"
  shows "count_of (fst (check_all outs hc)) (checks hc ! j) = count_of hc (checks hc ! j)"
    and "checks hc ! j \<notin> set (fired hc) \<Longrightarrow> checks hc ! j \<notin> set (fired (fst (check_all outs hc)))"
proof -
  have nr: "checks hc ! j \<notin> set (reached (zip (checks hc) (map outs [0..<length (checks hc)])))"
    using assms by (rule not_reached)
  then show "count_of (fst (check_all outs hc)) (checks hc ! j) = count_of hc (checks hc ! j)"
    unfolding check_all_def by (rule check_list_untouched)
  show "checks hc ! j \<notin> set (fired hc) \<Longrightarrow> checks hc ! j \<notin> set (fired (fst (check_all outs hc)))"
    using nr check_list_fired [of "zip (checks hc) (map outs [0..<length (checks hc)])" hc]
    unfolding check_all_def by blast
qed

lemma hanging_rounds:
  assumes "\<forall>outs \<in> set rounds. outs i = Hangs" and "i \<le> j" and "j < length (checks hc)"
    and "distinct (checks hc)" and "checks hc ! j \<notin> set (fired hc)"
  shows "count_of (fst (monitor_rounds rounds hc)) (checks hc ! j) = count_of hc (checks hc ! j) \<and>
         checks hc ! j \<notin> set (fired (fst (monitor_rounds rounds hc)))"
  using assms
proof (induction rounds arbitrary: hc)
  case Nil
  then show ?case by simp
next
  case (Cons outs rounds)
  have fr: "checks (fst (check_all outs hc)) = checks hc" by simp
  have "outs i = Hangs" using Cons.prems(1) by simp
  from hanging_round [of outs i j hc, OF this Cons.prems(2-4)] Cons.prems(5)
  have "count_of (fst (check_all outs hc)) (checks hc ! j) = count_of hc (checks hc ! j)"
    and "checks hc ! j \<notin> set (fired (fst (check_all outs hc)))" by simp_all
  then show ?case
    using Cons.IH [of "fst (check_all outs hc)"] Cons.prems fr by (simp del: monitor_rounds.simps(2))
qed

section \<open>Properties\<close>

text \<open>
  Refinement of the failure counter: after any sequence of outcomes of a check that had no
  counter yet, one more outcome calls the failure callback exactly when a callback is registered,
  the outcome is a failure, and the run of failures that ends with it is at least as long as the
  threshold; the counter is the length of that run (for fewer than \<open>2 ^ 32\<close> outcomes, past which
  the 32-bit counter wraps). So the callback fires again for each further failure, and one success
  resets it.
\<close>

theorem callback_fires_on_run:
  assumes "length rs + 1 < 2 ^ 32" and "failure_counts hc n = None"
  shows "let before_it = check_history n rs hc; after_it = check_history n (rs @ [r]) hc;
             run = trailing_failures (map is_ok (rs @ [r]))
         in count_of after_it n = run \<and>
            fired after_it = fired before_it @
              (if has_callback hc \<and> \<not> is_ok r \<and> unat (failure_threshold hc) \<le> run then [n] else [])"
  by (rule callback_fires_on_run_aux [OF assms])

theorem callback_fires_on_run_witness:
  "fired (check_history ''db'' [Inl ''e'', Inl ''e'', Inr (), Inl ''e'', Inl ''e'', Inl ''e'']
            (with_on_failure health_checker_new)) =
   fired (check_history ''db'' [Inl ''e'', Inl ''e'', Inr (), Inl ''e'', Inl ''e'']
            (with_on_failure health_checker_new)) @ [''db'']"
  using callback_fires_on_run [of "[Inl ''e'', Inl ''e'', Inr (), Inl ''e'', Inl ''e'']"
      "with_on_failure health_checker_new" "''db''" "Inl ''e''"]
  by (simp add: Let_def health_checker_new_def with_on_failure_def trailing_failures_def
      del: check_history.simps)

text \<open>
  A check that never returns is never reported: however many rounds the monitor runs with the
  check at place \<open>i\<close> hanging, neither its counter nor that of any check registered after it changes,
  and the failure callback is never called for them. (Every such round is logged as timed out only.)
\<close>

theorem hanging_check_never_reported:
  assumes "\<forall>outs \<in> set rounds. outs i = Hangs" and "i \<le> j" and "j < length (checks hc)"
    and "distinct (checks hc)" and "checks hc ! j \<notin> set (fired hc)"
  shows "count_of (fst (monitor_rounds rounds hc)) (checks hc ! j) = count_of hc (checks hc ! j) \<and>
         checks hc ! j \<notin> set (fired (fst (monitor_rounds rounds hc)))"
  by (rule hanging_rounds [OF assms])

theorem hanging_check_never_reported_witness:
  "let hc = add_check ''b'' (add_check ''a'' (with_on_failure health_checker_new));
       out = (\<lambda>i. if i = 0 then Hangs else Returns (Inl ''down''))
   in ''b'' \<notin> set (fired (fst (monitor_rounds [out, out, out, out] hc)))"
  using hanging_check_never_reported [of
      "[\<lambda>i. if i = 0 then Hangs else Returns (Inl ''down''), \<lambda>i. if i = 0 then Hangs else Returns (Inl ''down''),
        \<lambda>i. if i = 0 then Hangs else Returns (Inl ''down''), \<lambda>i. if i = 0 then Hangs else Returns (Inl ''down'')]"
      0 1 "add_check ''b'' (add_check ''a'' (with_on_failure health_checker_new))"]
  by (simp add: add_check_def health_checker_new_def with_on_failure_def Let_def del: monitor_rounds.simps)

end
