(* ===== verification/Hooks.thy ===== *)
theory Hooks
  imports Task_Manager
begin

text \<open>
  \<^verbatim>\<open>flare-core-runtime/src/middleware/chain.rs\<close>, \<^verbatim>\<open>middleware/trait.rs\<close>, \<^verbatim>\<open>plugin/manager.rs\<close> and
  \<^verbatim>\<open>plugin/trait.rs\<close>: the hooks around tasks. A middleware or a plugin is its name and what its hooks
  return; the trait's default hooks succeed. Every operation also returns the names of the hooks it
  called, in the order of the calls.
\<close>

section \<open>Middleware chain\<close>

record middleware =
  mw_name :: string
  mw_before :: "string \<Rightarrow> middleware_error + unit"
  mw_after :: "string \<Rightarrow> task_result \<Rightarrow> middleware_error + unit"

definition middleware_default :: "string \<Rightarrow> middleware" where
  "middleware_default n = \<lparr>mw_name = n, mw_before = (\<lambda>_. Inr ()), mw_after = (\<lambda>_ _. Inr ())\<rparr>"

type_synonym middleware_chain = "middleware list"

definition chain_add :: "middleware \<Rightarrow> middleware_chain \<Rightarrow> middleware_chain" where
  "chain_add m ms = ms @ [m]"

definition middleware_count :: "middleware_chain \<Rightarrow> nat" where
  "middleware_count ms = length ms"

fun chain_before :: "middleware_chain \<Rightarrow> string \<Rightarrow> string list \<times> (middleware_error + unit)" where
  "chain_before [] t = ([], Inr ())"
| "chain_before (m # ms) t =
     (case mw_before m t of
        Inl e \<Rightarrow> ([mw_name m], Inl e)
      | Inr _ \<Rightarrow> (mw_name m # fst (chain_before ms t), snd (chain_before ms t)))"

fun after_loop ::
  "middleware_chain \<Rightarrow> string \<Rightarrow> task_result \<Rightarrow> bool \<Rightarrow> string list \<times> bool" where
  "after_loop [] t r has_error = ([], has_error)"
| "after_loop (m # ms) t r has_error =
     (let rest = after_loop ms t r (has_error \<or> mw_after m t r \<noteq> Inr ())
      in (mw_name m # fst rest, snd rest))"

definition chain_after ::
  "middleware_chain \<Rightarrow> string \<Rightarrow> task_result \<Rightarrow> string list \<times> (middleware_error + unit)" where
  "chain_after ms t r =
     (let (called, has_error) = after_loop ms t r False
      in (called, if has_error
                  then Inl (MwExecutionFailed ''middleware-chain'' ''One or more middlewares failed'')
                  else Inr ()))"

lemma after_loop_spec:
  "after_loop ms t r b = (map mw_name ms, b \<or> (\<exists>m \<in> set ms. mw_after m t r \<noteq> Inr ()))"
  by (induction ms arbitrary: b) (auto simp: Let_def)

lemma chain_before_spec:
  "(snd (chain_before ms t) = Inr () \<and> (\<forall>m \<in> set ms. mw_before m t = Inr ()) \<and>
    fst (chain_before ms t) = map mw_name ms) \<or>
   (\<exists>us m vs e. ms = us @ m # vs \<and> (\<forall>u \<in> set us. mw_before u t = Inr ()) \<and> mw_before m t = Inl e \<and>
      chain_before ms t = (map mw_name (us @ [m]), Inl e))"
proof (induction ms)
  case (Cons m ms)
  show ?case
  proof (cases "mw_before m t")
    case (Inl e)
    then have "m # ms = [] @ m # ms \<and> chain_before (m # ms) t = (map mw_name ([] @ [m]), Inl e)" by simp
    with Inl show ?thesis by (metis empty_iff empty_set)
  next
    case (Inr u)
    from Cons consider
      (ok) "snd (chain_before ms t) = Inr ()" "\<forall>m \<in> set ms. mw_before m t = Inr ()"
        "fst (chain_before ms t) = map mw_name ms"
      | (err) us m' vs e where "ms = us @ m' # vs" "\<forall>u \<in> set us. mw_before u t = Inr ()"
        "mw_before m' t = Inl e" "chain_before ms t = (map mw_name (us @ [m']), Inl e)"
      by blast
    then show ?thesis
    proof cases
      case ok
      with Inr show ?thesis by simp
    next
      case err
      then have "m # ms = (m # us) @ m' # vs \<and> (\<forall>u \<in> set (m # us). mw_before u t = Inr ()) \<and>
          chain_before (m # ms) t = (map mw_name ((m # us) @ [m']), Inl e)"
        using Inr by simp
      with err(3) show ?thesis by blast
    qed
  qed
qed simp

section \<open>Plugin manager\<close>

record plugin_context =
  runtime_name :: string
  pc_task_name :: "string option"
  pc_task_state :: "task_state option"

definition plugin_context_new :: "string \<Rightarrow> plugin_context" where
  "plugin_context_new n = \<lparr>runtime_name = n, pc_task_name = None, pc_task_state = None\<rparr>"

definition with_task :: "string \<Rightarrow> task_state \<Rightarrow> plugin_context \<Rightarrow> plugin_context" where
  "with_task n st ctx = ctx\<lparr>pc_task_name := Some n, pc_task_state := Some st\<rparr>"

record plugin =
  plugin_name :: string
  on_startup :: "plugin_context \<Rightarrow> plugin_error + unit"
  on_task_start :: "plugin_context \<Rightarrow> plugin_error + unit"
  on_task_stop :: "plugin_context \<Rightarrow> plugin_error + unit"
  on_shutdown :: "plugin_context \<Rightarrow> plugin_error + unit"
  on_error :: "plugin_context \<Rightarrow> string \<Rightarrow> plugin_error + unit"

definition plugin_default :: "string \<Rightarrow> plugin" where
  "plugin_default n =
     \<lparr>plugin_name = n, on_startup = (\<lambda>_. Inr ()), on_task_start = (\<lambda>_. Inr ()),
      on_task_stop = (\<lambda>_. Inr ()), on_shutdown = (\<lambda>_. Inr ()), on_error = (\<lambda>_ _. Inr ())\<rparr>"

type_synonym plugin_manager = "plugin list"

definition register_plugin :: "plugin \<Rightarrow> plugin_manager \<Rightarrow> plugin_manager" where
  "register_plugin p pm = pm @ [p]"

definition plugin_count :: "plugin_manager \<Rightarrow> nat" where
  "plugin_count pm = length pm"

text \<open>The loop the five hooks share: call every plugin, log the failures, return success.\<close>

fun call_plugins ::
  "(plugin \<Rightarrow> plugin_error + unit) \<Rightarrow> plugin_manager \<Rightarrow>
   (string \<times> plugin_error option) list \<times> (plugin_error + unit)" where
  "call_plugins hook [] = ([], Inr ())"
| "call_plugins hook (p # ps) =
     (let rest = call_plugins hook ps
      in ((plugin_name p, case hook p of Inl e \<Rightarrow> Some e | Inr _ \<Rightarrow> None) # fst rest, snd rest))"

definition pm_on_startup ::
  "plugin_context \<Rightarrow> plugin_manager \<Rightarrow> (string \<times> plugin_error option) list \<times> (plugin_error + unit)" where
  "pm_on_startup ctx pm = call_plugins (\<lambda>p. on_startup p ctx) pm"

definition pm_on_task_start ::
  "plugin_context \<Rightarrow> plugin_manager \<Rightarrow> (string \<times> plugin_error option) list \<times> (plugin_error + unit)" where
  "pm_on_task_start ctx pm = call_plugins (\<lambda>p. on_task_start p ctx) pm"

definition pm_on_task_stop ::
  "plugin_context \<Rightarrow> plugin_manager \<Rightarrow> (string \<times> plugin_error option) list \<times> (plugin_error + unit)" where
  "pm_on_task_stop ctx pm = call_plugins (\<lambda>p. on_task_stop p ctx) pm"

definition pm_on_shutdown ::
  "plugin_context \<Rightarrow> plugin_manager \<Rightarrow> (string \<times> plugin_error option) list \<times> (plugin_error + unit)" where
  "pm_on_shutdown ctx pm = call_plugins (\<lambda>p. on_shutdown p ctx) pm"

definition pm_on_error ::
  "plugin_context \<Rightarrow> string \<Rightarrow> plugin_manager \<Rightarrow>
   (string \<times> plugin_error option) list \<times> (plugin_error + unit)" where
  "pm_on_error ctx e pm = call_plugins (\<lambda>p. on_error p ctx e) pm"

lemma call_plugins_all: "map fst (fst (call_plugins hook pm)) = map plugin_name pm"
  by (induction pm) (auto simp: Let_def)

lemma call_plugins_ok: "snd (call_plugins hook pm) = Inr ()"
  by (induction pm) (auto simp: Let_def)

section \<open>Properties\<close>

text \<open>
  The two passes of the middleware chain: the pass before a task calls the middlewares in
  the order of registration up to and including the first one that fails, and returns that one's
  error (it succeeds exactly when none fails); the pass after a task calls every middleware whatever
  fails, and reports one error of the chain's own exactly when some middleware failed.
\<close>

theorem middleware_chain_passes:
  "((snd (chain_before ms t) = Inr () \<and> (\<forall>m \<in> set ms. mw_before m t = Inr ()) \<and>
     fst (chain_before ms t) = map mw_name ms) \<or>
    (\<exists>us m vs e. ms = us @ m # vs \<and> (\<forall>u \<in> set us. mw_before u t = Inr ()) \<and> mw_before m t = Inl e \<and>
       chain_before ms t = (map mw_name (us @ [m]), Inl e))) \<and>
   fst (chain_after ms t r) = map mw_name ms \<and>
   (snd (chain_after ms t r) = Inr () \<longleftrightarrow> (\<forall>m \<in> set ms. mw_after m t r = Inr ()))"
  using chain_before_spec [of ms t] by (simp add: chain_after_def after_loop_spec)

theorem middleware_chain_passes_witness:
  "let bad = \<lparr>mw_name = ''bad'', mw_before = (\<lambda>t. Inl (MwNotFound t)), mw_after = (\<lambda>_ _. Inl (MwNotFound ''x''))\<rparr>;
       ms = [middleware_default ''a'', bad, middleware_default ''c'']
   in chain_before ms ''t'' = ([''a'', ''bad''], Inl (MwNotFound ''t'')) \<and>
      fst (chain_after ms ''t'' (Inr ())) = [''a'', ''bad'', ''c''] \<and>
      snd (chain_after ms ''t'' (Inr ())) \<noteq> Inr ()"
  using middleware_chain_passes [of "[middleware_default ''a'',
      \<lparr>mw_name = ''bad'', mw_before = (\<lambda>t. Inl (MwNotFound t)), mw_after = (\<lambda>_ _. Inl (MwNotFound ''x''))\<rparr>,
      middleware_default ''c'']" "''t''" "Inr ()"]
  by (simp add: Let_def middleware_default_def chain_after_def)

end
