(* ===== verification/Service_Runtime.thy ===== *)
theory Service_Runtime
  imports Task_Manager Health
begin

text \<open>
  \<^verbatim>\<open>flare-core-runtime/src/runtime.rs\<close> and \<^verbatim>\<open>signal/\<close>: the shutdown signals, the builder of the
  runtime, the default health check, and the two ways to run a service. A run is the list of the
  phases it goes through and its result; what the outside world does (the operating system's
  signals, the registration function, the outcomes of the health checks, the clock) is a parameter.
\<close>

section \<open>Shutdown signals\<close>

datatype unix_signal_kind = Terminate | Interrupt

datatype os_event = OsCtrlC | OsUnix unix_signal_kind

text \<open>
  A channel signal holds its receiver until somebody waits on it: \<open>Some t\<close> says when the receiver
  resolves (the sender sends, or is dropped: the code ignores the difference), \<open>Some None\<close> that it
  never does, \<open>None\<close> that it has been taken.
\<close>

datatype shutdown_signal =
    ChannelSignal string "millis option option"
  | CtrlCSignal
  | UnixSignal unix_signal_kind
  | CompositeSignal string "shutdown_signal list"

fun signal_name :: "shutdown_signal \<Rightarrow> string" where
  "signal_name (ChannelSignal n _) = n"
| "signal_name CtrlCSignal = ''ctrl_c''"
| "signal_name (UnixSignal Terminate) = ''sigterm''"
| "signal_name (UnixSignal Interrupt) = ''sigint''"
| "signal_name (CompositeSignal n _) = n"

definition channel_signal_new :: "string \<Rightarrow> millis option \<Rightarrow> shutdown_signal" where
  "channel_signal_new n rx = ChannelSignal n (Some rx)"

definition from_signals :: "shutdown_signal list \<Rightarrow> shutdown_signal" where
  "from_signals ss = CompositeSignal ''composite'' ss"

fun composite_add :: "shutdown_signal \<Rightarrow> shutdown_signal \<Rightarrow> shutdown_signal" where
  "composite_add s (CompositeSignal n ss) = CompositeSignal n (ss @ [s])"
| "composite_add s other = other"

text \<open>The earliest of the times at which the futures resolve; \<open>None\<close> is a future that never does.\<close>

fun earliest :: "millis option list \<Rightarrow> millis option" where
  "earliest [] = None"
| "earliest (None # ts) = earliest ts"
| "earliest (Some t # ts) = (case earliest ts of None \<Rightarrow> Some t | Some u \<Rightarrow> Some (min t u))"

text \<open>\<^verbatim>\<open>wait\<close>: when the signal fires, and the signal afterwards (a waited channel has no receiver).\<close>

fun wait_time :: "(os_event \<Rightarrow> millis option) \<Rightarrow> shutdown_signal \<Rightarrow> millis option" where
  "wait_time os (ChannelSignal n (Some rx)) = rx"
| "wait_time os (ChannelSignal n None) = None"
| "wait_time os CtrlCSignal = os OsCtrlC"
| "wait_time os (UnixSignal k) = os (OsUnix k)"
| "wait_time os (CompositeSignal n ss) = earliest (map (wait_time os) ss)"

fun after_wait :: "shutdown_signal \<Rightarrow> shutdown_signal" where
  "after_wait (ChannelSignal n rx) = ChannelSignal n None"
| "after_wait (CompositeSignal n ss) = CompositeSignal n (map after_wait ss)"
| "after_wait s = s"

lemma earliest_None_iff: "earliest ts = None \<longleftrightarrow> (\<forall>t \<in> set ts. t = None)"
  by (induction ts rule: earliest.induct) (auto split: option.splits)

lemma earliest_sound: "earliest ts = Some t \<Longrightarrow> Some t \<in> set ts"
  by (induction ts arbitrary: t rule: earliest.induct) (auto simp: min_def split: option.splits if_splits)

lemma earliest_least: "earliest ts = Some t \<Longrightarrow> Some u \<in> set ts \<Longrightarrow> t \<le> u"
proof (induction ts arbitrary: t u rule: earliest.induct)
  case (3 t0 ts)
  then show ?case
    using earliest_None_iff [of ts] by (cases "earliest ts") (fastforce simp: min_le_iff_disj)+
qed simp_all

lemma earliest_Some_iff:
  "earliest ts = Some t \<longleftrightarrow> Some t \<in> set ts \<and> (\<forall>u. Some u \<in> set ts \<longrightarrow> t \<le> u)"
proof
  assume "earliest ts = Some t"
  then show "Some t \<in> set ts \<and> (\<forall>u. Some u \<in> set ts \<longrightarrow> t \<le> u)"
    using earliest_sound earliest_least by blast
next
  assume *: "Some t \<in> set ts \<and> (\<forall>u. Some u \<in> set ts \<longrightarrow> t \<le> u)"
  then obtain u where "earliest ts = Some u" using earliest_None_iff [of ts] by fastforce
  with * show "earliest ts = Some t"
    using earliest_sound [of ts u] earliest_least [of ts u t] by fastforce
qed

section \<open>The runtime and its builder\<close>

datatype health_failure_action = LogOnly | GracefulShutdown

record 'reg service_runtime =
  service_name :: string
  service_address :: "string option"
  task_mgr :: task_manager
  registry :: "'reg option"
  rt_config :: runtime_config
  health_checker :: "health_checker option"
  failure_action :: health_failure_action

definition runtime_new :: "u64 \<Rightarrow> string \<Rightarrow> 'reg service_runtime" where
  "runtime_new num_cpus n =
     \<lparr>service_name = n, service_address = None, task_mgr = task_manager_new num_cpus, registry = None,
      rt_config = runtime_config_default num_cpus, health_checker = None, failure_action = LogOnly\<rparr>"

definition runtime_simple :: "u64 \<Rightarrow> 'reg service_runtime" where
  "runtime_simple num_cpus = runtime_new num_cpus ''simple-runtime''"

definition runtime_mq_consumer :: "u64 \<Rightarrow> 'reg service_runtime" where
  "runtime_mq_consumer = runtime_simple"

definition runtime_tasks :: "u64 \<Rightarrow> 'reg service_runtime" where
  "runtime_tasks = runtime_simple"

definition with_address :: "string \<Rightarrow> 'reg service_runtime \<Rightarrow> 'reg service_runtime" where
  "with_address a rt = rt\<lparr>service_address := Some a\<rparr>"

definition with_config :: "runtime_config \<Rightarrow> 'reg service_runtime \<Rightarrow> 'reg service_runtime" where
  "with_config cfg rt = rt\<lparr>task_mgr := set_config cfg (task_mgr rt), rt_config := cfg\<rparr>"

definition with_registry :: "'reg \<Rightarrow> 'reg service_runtime \<Rightarrow> 'reg service_runtime" where
  "with_registry r rt = rt\<lparr>registry := Some r\<rparr>"

definition with_health_checker :: "health_checker \<Rightarrow> 'reg service_runtime \<Rightarrow> 'reg service_runtime" where
  "with_health_checker hc rt = rt\<lparr>health_checker := Some hc\<rparr>"

definition add_health_check :: "string \<Rightarrow> 'reg service_runtime \<Rightarrow> 'reg service_runtime" where
  "add_health_check n rt =
     rt\<lparr>health_checker := Some (case health_checker rt of
          Some hc \<Rightarrow> add_check n hc
        | None \<Rightarrow> add_check n (with_failure_threshold
                     (hc_failure_threshold (health_check (rt_config rt))) health_checker_new))\<rparr>"

definition with_health_failure_action ::
  "health_failure_action \<Rightarrow> 'reg service_runtime \<Rightarrow> 'reg service_runtime" where
  "with_health_failure_action a rt = rt\<lparr>failure_action := a\<rparr>"

definition rt_add_task :: "task \<Rightarrow> 'reg service_runtime \<Rightarrow> 'reg service_runtime" where
  "rt_add_task t rt = rt\<lparr>task_mgr := add_task t (task_mgr rt)\<rparr>"

definition add_spawn :: "string \<Rightarrow> 'reg service_runtime \<Rightarrow> 'reg service_runtime" where
  "add_spawn n rt = rt_add_task (spawn_task n) rt"

definition add_spawn_with_deps ::
  "string \<Rightarrow> string list \<Rightarrow> 'reg service_runtime \<Rightarrow> 'reg service_runtime" where
  "add_spawn_with_deps n ds rt = rt_add_task (with_dependencies ds (spawn_task n)) rt"

section \<open>The health monitor\<close>

abbreviation task_failure_monitor :: string where
  "task_failure_monitor \<equiv> ''task-failure-monitor''"

text \<open>\<^verbatim>\<open>TaskFailureHealthCheck::check\<close>; \<open>debug_list\<close> stands for the \<^verbatim>\<open>{:?}\<close> rendering of the names.\<close>

definition task_failure_check ::
  "(string list \<Rightarrow> string) \<Rightarrow> state_tracker \<Rightarrow> health_error + unit" where
  "task_failure_check debug_list tr =
     (if has_failures tr
      then Inl (CheckFailed task_failure_monitor (''failed tasks detected: '' @ debug_list (get_failed_tasks tr)))
      else Inr ())"

text \<open>
  \<^verbatim>\<open>start_health_monitor\<close>: the checker is taken out of the runtime; the flag says whether the
  runtime listens to the failure callback, which then replaces any callback set before.
\<close>

definition start_health_monitor ::
  "'reg service_runtime \<Rightarrow> 'reg service_runtime \<times> (health_checker \<times> bool) option" where
  "start_health_monitor rt =
     (if \<not> hc_enabled (health_check (rt_config rt)) then (rt, None)
      else
        (let hc0 = (case health_checker rt of
                      Some hc \<Rightarrow> hc
                    | None \<Rightarrow> add_check task_failure_monitor
                        (with_failure_threshold (hc_failure_threshold (health_check (rt_config rt)))
                           health_checker_new));
             hc1 = (if check_count hc0 = 0 then add_check task_failure_monitor hc0 else hc0);
             listens = (failure_action rt = GracefulShutdown);
             hc2 = (if listens then with_on_failure hc1 else hc1)
         in (rt\<lparr>health_checker := None\<rparr>, Some (hc2, listens))))"

datatype shutdown_cause = BySignal millis | ByHealth string

text \<open>
  Waiting for the end of the service while the monitor runs: \<open>outs k\<close> is what the checks return in
  round \<open>k\<close>, which is over at \<open>round_at k\<close>. The wait ends at the signal, or when the callback sends
  the first name if the runtime listens. \<open>None\<close>: still waiting after the rounds looked at.
\<close>

fun await_shutdown ::
  "nat \<Rightarrow> millis option \<Rightarrow> bool \<Rightarrow> (nat \<Rightarrow> nat \<Rightarrow> outcome) \<Rightarrow> (nat \<Rightarrow> millis) \<Rightarrow> nat \<Rightarrow>
   health_checker \<Rightarrow> health_checker \<times> shutdown_cause option" where
  "await_shutdown 0 sig listens outs round_at k hc = (hc, None)"
| "await_shutdown (Suc fuel) sig listens outs round_at k hc =
     (if (case sig of None \<Rightarrow> False | Some t \<Rightarrow> t \<le> round_at k) then (hc, Some (BySignal (the sig)))
      else
        (let hc' = fst (monitor_round (outs k) hc); new = drop (length (fired hc)) (fired hc')
         in if listens \<and> new \<noteq> [] then (hc', Some (ByHealth (hd new)))
            else await_shutdown fuel sig listens outs round_at (Suc k) hc'))"

section \<open>Running\<close>

text \<open>
  The phases of a run. \<open>Registered b\<close>: the registration function succeeded and returned a registry
  (\<open>b\<close>) or none. \<open>Deregistered b\<close>: the registry was shut down, without error if \<open>b\<close>.
\<close>

datatype run_phase =
    TasksStarted "string list" | TasksReady | RegistrationDone bool | MonitorStarted nat
  | ShutdownBy shutdown_cause | MonitorStopped | Deregistered bool | TasksStopped

record run_env =
  hash_ord :: "string list \<Rightarrow> string list"
  os_signals :: "os_event \<Rightarrow> millis option"
  ready_at :: "nat \<Rightarrow> bool"
  elapsed_at :: "nat \<Rightarrow> millis"
  ready_fuel :: nat
  check_outcomes :: "nat \<Rightarrow> nat \<Rightarrow> outcome"
  round_times :: "nat \<Rightarrow> millis"
  rounds_seen :: nat

definition default_signals :: "shutdown_signal list" where
  "default_signals = [CtrlCSignal, UnixSignal Terminate]"

definition shutdown_signal_of :: "shutdown_signal list \<Rightarrow> shutdown_signal" where
  "shutdown_signal_of signals = from_signals (if signals = [] then default_signals else signals)"

text \<open>Steps 4.1 to 6: start the monitor, wait, stop the monitor. \<^verbatim>\<open>None\<close> as cause: still waiting.\<close>

definition serve ::
  "run_env \<Rightarrow> shutdown_signal \<Rightarrow> 'reg service_runtime \<Rightarrow> run_phase list \<times> shutdown_cause option" where
  "serve env sig rt =
     (case snd (start_health_monitor rt) of
        None \<Rightarrow>
          (case wait_time (os_signals env) sig of
             None \<Rightarrow> ([], None)
           | Some t \<Rightarrow> ([ShutdownBy (BySignal t)], Some (BySignal t)))
      | Some (hc, listens) \<Rightarrow>
          (case snd (await_shutdown (rounds_seen env) (wait_time (os_signals env) sig) listens
                       (check_outcomes env) (round_times env) 0 hc) of
             None \<Rightarrow> ([MonitorStarted (check_count hc)], None)
           | Some c \<Rightarrow> ([MonitorStarted (check_count hc), ShutdownBy c, MonitorStopped], Some c)))"

text \<open>
  The common beginning, steps 1 to 3: \<^verbatim>\<open>Inl\<close> is the early return with its error. \<^verbatim>\<open>None\<close> is a panic
  of the sort or the loop of \<^verbatim>\<open>wait_for_ready\<close> going on.
\<close>

definition start_and_wait ::
  "run_env \<Rightarrow> 'reg service_runtime \<Rightarrow> (run_phase list \<times> (string \<times> runtime_error + unit)) option" where
  "start_and_wait env rt =
     (case start_all (hash_ord env) 0 (task_mgr rt) of
        None \<Rightarrow> None
      | Some (_, Inl e) \<Rightarrow> Some ([], Inl (''Failed to start tasks: '', e))
      | Some (tm, Inr st) \<Rightarrow>
          (let started = TasksStarted (map task_name (to_start st))
           in case wait_for_ready (ready_fuel env) (ready_at env) (elapsed_at env) tm of
                None \<Rightarrow> None
              | Some (Inl e) \<Rightarrow> Some ([started], Inl (''Failed to wait for tasks ready: '', e))
              | Some (Inr _) \<Rightarrow> Some ([started, TasksReady], Inr ())))"

datatype run_result =
    RunOk
  | RunWaiting
  | StartFailed string runtime_error
  | RegisterFailed string
  | AddressMissing

definition run_with_signals ::
  "run_env \<Rightarrow> shutdown_signal list \<Rightarrow> 'reg service_runtime \<Rightarrow> (run_phase list \<times> run_result) option" where
  "run_with_signals env signals rt =
     (case start_and_wait env rt of
        None \<Rightarrow> None
      | Some (tr, Inl (msg, e)) \<Rightarrow> Some (tr, StartFailed msg e)
      | Some (tr, Inr _) \<Rightarrow>
          (case serve env (shutdown_signal_of signals) rt of
             (ph, None) \<Rightarrow> Some (tr @ ph, RunWaiting)
           | (ph, Some _) \<Rightarrow> Some (tr @ ph @ [TasksStopped], RunOk)))"

definition run :: "run_env \<Rightarrow> 'reg service_runtime \<Rightarrow> (run_phase list \<times> run_result) option" where
  "run env rt = run_with_signals env [] rt"

text \<open>
  \<open>reg\<close> is what the registration function returns for the address: an error, no registry, or a
  registry given by whether its \<^verbatim>\<open>shutdown\<close> will succeed. The registry stored in the runtime by
  \<^verbatim>\<open>with_registry\<close> is not used.
\<close>

definition run_with_registration_and_signals ::
  "run_env \<Rightarrow> (string \<Rightarrow> string + bool option) \<Rightarrow> shutdown_signal list \<Rightarrow> 'reg service_runtime \<Rightarrow>
   (run_phase list \<times> run_result) option" where
  "run_with_registration_and_signals env reg signals rt =
     (case service_address rt of
        None \<Rightarrow> Some ([], AddressMissing)
      | Some addr \<Rightarrow>
          (case start_and_wait env rt of
             None \<Rightarrow> None
           | Some (tr, Inl (msg, e)) \<Rightarrow> Some (tr, StartFailed msg e)
           | Some (tr, Inr _) \<Rightarrow>
               (case reg addr of
                  Inl e \<Rightarrow> Some (tr @ [TasksStopped], RegisterFailed e)
                | Inr r \<Rightarrow>
                    (case serve env (shutdown_signal_of signals) rt of
                       (ph, None) \<Rightarrow> Some (tr @ RegistrationDone (r \<noteq> None) # ph, RunWaiting)
                     | (ph, Some _) \<Rightarrow>
                         Some (tr @ RegistrationDone (r \<noteq> None) # ph @
                               (case r of None \<Rightarrow> [] | Some ok \<Rightarrow> [Deregistered ok]) @ [TasksStopped],
                               RunOk)))))"

definition run_with_registration ::
  "run_env \<Rightarrow> (string \<Rightarrow> string + bool option) \<Rightarrow> 'reg service_runtime \<Rightarrow>
   (run_phase list \<times> run_result) option" where
  "run_with_registration env reg rt = run_with_registration_and_signals env reg [] rt"

section \<open>Facts\<close>

lemma start_and_wait_cases:
  assumes "start_and_wait env rt = Some (tr, r)"
  shows "(\<exists>ns. r = Inr () \<and> tr = [TasksStarted ns, TasksReady]) \<or>
         (\<exists>msg e. r = Inl (msg, e) \<and> (tr = [] \<or> (\<exists>ns. tr = [TasksStarted ns])))"
  using assms by (auto simp: start_and_wait_def Let_def split: option.splits sum.splits prod.splits)

lemma serve_cases:
  assumes "serve env sig rt = (ph, c)"
  shows "set ph \<subseteq> insert MonitorStopped (range MonitorStarted \<union> range ShutdownBy)"
  using assms by (auto simp: serve_def split: option.splits)

lemma serve_done:
  assumes "serve env sig rt = (ph, Some c)"
  shows "ShutdownBy c \<in> set ph"
  using assms by (auto simp: serve_def split: option.splits)

lemma registered_run_cases:
  assumes "run_with_registration_and_signals env reg signals rt = Some (tr, res)"
  shows "(res = RunOk \<longrightarrow>
            (\<exists>ns ph r c addr. service_address rt = Some addr \<and> reg addr = Inr r \<and>
               ShutdownBy c \<in> set ph \<and> (\<forall>b. Deregistered b \<notin> set ph \<and> RegistrationDone b \<notin> set ph) \<and>
               tr = [TasksStarted ns, TasksReady, RegistrationDone (r \<noteq> None)] @ ph @
                    (case r of None \<Rightarrow> [] | Some ok \<Rightarrow> [Deregistered ok]) @ [TasksStopped])) \<and>
         (\<forall>e. res = RegisterFailed e \<longrightarrow>
            (\<exists>ns. tr = [TasksStarted ns, TasksReady, TasksStopped])) \<and>
         (\<forall>msg e. res = StartFailed msg e \<longrightarrow> TasksStopped \<notin> set tr)"
proof (cases "service_address rt")
  case None
  with assms show ?thesis by (auto simp: run_with_registration_and_signals_def)
next
  case (Some addr)
  then obtain tr0 r0 where sw: "start_and_wait env rt = Some (tr0, r0)"
    using assms by (auto simp: run_with_registration_and_signals_def split: option.splits)
  show ?thesis
  proof (cases r0)
    case (Inl x)
    with sw Some assms start_and_wait_cases [OF sw] show ?thesis
      by (cases x) (auto simp: run_with_registration_and_signals_def)
  next
    case r0: (Inr u)
    then obtain ns where tr0: "tr0 = [TasksStarted ns, TasksReady]"
      using start_and_wait_cases [OF sw] by auto
    obtain ph c where sv: "serve env (shutdown_signal_of signals) rt = (ph, c)" by fastforce
    have ph: "Deregistered b \<notin> set ph \<and> RegistrationDone b \<notin> set ph" for b
      using serve_cases [OF sv] by auto
    show ?thesis
    proof (cases "reg addr")
      case (Inl e)
      with Some sw r0 tr0 assms show ?thesis
        by (auto simp: run_with_registration_and_signals_def)
    next
      case reg: (Inr r)
      show ?thesis
      proof (cases c)
        case None
        with Some sw r0 reg sv assms show ?thesis
          by (auto simp: run_with_registration_and_signals_def)
      next
        case c: (Some c')
        then have "tr = [TasksStarted ns, TasksReady, RegistrationDone (r \<noteq> None)] @ ph @
            (case r of None \<Rightarrow> [] | Some ok \<Rightarrow> [Deregistered ok]) @ [TasksStopped]" and "res = RunOk"
          using Some sw r0 reg sv tr0 assms
          by (auto simp: run_with_registration_and_signals_def)
        moreover have "ShutdownBy c' \<in> set ph" using sv c by (simp add: serve_done)
        ultimately show ?thesis using Some reg ph by blast
      qed
    qed
  qed
qed

text \<open>A check that fails in every round reaches the threshold and calls the callback.\<close>

lemma single_check_round:
  assumes "checks hc = [n]" and "outs = (\<lambda>_. Returns r)"
  shows "fst (monitor_round outs hc) = fst (check_one n r hc)"
  using assms by (simp add: check_all_def case_prod_beta)

lemma drop_fired_check_one:
  "drop (length (fired hc)) (fired (fst (check_one n (Inl e) hc))) =
     (if has_callback hc \<and> unat (failure_threshold hc) \<le> Suc (count_of hc n) then [n] else [])"
  if "Suc (count_of hc n) < 2 ^ 32"
proof -
  have "count_of (fst (check_one n (Inl e) hc)) n = Suc (count_of hc n)"
    using that by (intro count_of_failure) simp
  moreover have "failure_counts (fst (check_one n (Inl e) hc)) n \<noteq> None"
    by (simp add: check_one_def Let_def)
  then obtain w where w: "failure_counts (fst (check_one n (Inl e) hc)) n = Some w" by blast
  ultimately have "unat w = Suc (count_of hc n)" by (simp add: count_of_def)
  with w show ?thesis by (simp add: fired_check_one word_le_nat_alt)
qed

lemma await_failing_check:
  assumes "checks hc = [n]" and "has_callback hc"
    and "\<And>j. k \<le> j \<Longrightarrow> j < k + fuel \<Longrightarrow> \<exists>e. outs j = (\<lambda>_. Returns (Inl e))"
    and "unat (failure_threshold hc) \<le> count_of hc n + fuel" and "count_of hc n + fuel < 2 ^ 32"
    and "0 < fuel"
  shows "\<exists>hc'. await_shutdown fuel None True outs round_at k hc = (hc', Some (ByHealth n))"
  using assms
proof (induction fuel arbitrary: k hc)
  case 0
  then show ?case by simp
next
  case (Suc fuel)
  obtain e where e: "outs k = (\<lambda>_. Returns (Inl e))" using Suc.prems(3) [of k] by auto
  let ?hc' = "fst (check_one n (Inl e) hc)"
  have c: "count_of ?hc' n = Suc (count_of hc n)" using Suc.prems(5) by (intro count_of_failure) simp
  have d: "drop (length (fired hc)) (fired ?hc') =
      (if unat (failure_threshold hc) \<le> Suc (count_of hc n) then [n] else [])"
    using Suc.prems(2,5) drop_fired_check_one [of hc n e] by simp
  have m: "fst (monitor_round (outs k) hc) = ?hc'" by (rule single_check_round [OF Suc.prems(1) e])
  show ?case
  proof (cases "unat (failure_threshold hc) \<le> Suc (count_of hc n)")
    case True
    with d have "drop (length (fired hc)) (fired ?hc') = [n]" by simp
    with m show ?thesis
      by (auto simp: Let_def simp del: fst_monitor_round drop_eq_Nil drop_eq_Nil2)
  next
    case False
    with Suc.prems(4) have f: "0 < fuel" by (cases fuel) simp_all
    have "\<exists>hc2. await_shutdown fuel None True outs round_at (Suc k) ?hc' = (hc2, Some (ByHealth n))"
      using Suc.prems c f by (intro Suc.IH) auto
    with False m d show ?thesis by (simp add: Let_def del: fst_monitor_round)
  qed
qed

lemmas health_monitor_defs =
  with_on_failure_def add_check_def with_failure_threshold_def health_checker_new_def

lemmas runtime_defs =
  runtime_new_def runtime_simple_def add_spawn_def rt_add_task_def with_health_failure_action_def
  runtime_config_default_def health_check_default_def

lemma task_failure_check_fails:
  "has_failures tr \<Longrightarrow> \<exists>e. task_failure_check dbg tr = Inl e"
  by (simp add: task_failure_check_def)

definition monitored_outcome ::
  "(string list \<Rightarrow> string) \<Rightarrow> (health_error \<Rightarrow> string) \<Rightarrow> state_tracker \<Rightarrow> nat \<Rightarrow> outcome" where
  "monitored_outcome dbg display tr _ =
     Returns (case task_failure_check dbg tr of Inl e \<Rightarrow> Inl (display e) | Inr u \<Rightarrow> Inr u)"

section \<open>Properties\<close>

text \<open>
  A composite signal fires exactly at the earliest of the times at which its sources
  fire, and never when it has no source or when none of them fires; a channel that has been waited
  for once never fires again.
\<close>

theorem composite_signal_earliest:
  "(wait_time os (CompositeSignal n ss) = None \<longleftrightarrow> (\<forall>s \<in> set ss. wait_time os s = None)) \<and>
   (wait_time os (CompositeSignal n ss) = Some t \<longleftrightarrow>
      (\<exists>s \<in> set ss. wait_time os s = Some t) \<and>
      (\<forall>s \<in> set ss. \<forall>u. wait_time os s = Some u \<longrightarrow> t \<le> u)) \<and>
   wait_time os (after_wait (ChannelSignal m rx)) = None"
proof -
  have "Some u \<in> wait_time os ` set ss \<longleftrightarrow> (\<exists>s \<in> set ss. wait_time os s = Some u)" for u
    by (metis imageE imageI)
  then show ?thesis by (auto simp: earliest_None_iff earliest_Some_iff)
qed

theorem composite_signal_earliest_witness:
  "wait_time (\<lambda>_. None) (from_signals [ChannelSignal ''a'' (Some (Some 7)), ChannelSignal ''b'' (Some (Some 4))])
     = Some 4"
  using composite_signal_earliest [of "\<lambda>_. None" "''composite''"
      "[ChannelSignal ''a'' (Some (Some 7)), ChannelSignal ''b'' (Some (Some 4))]" 4 "''a''" None]
  by (simp add: from_signals_def)


definition example_env :: run_env where
  "example_env =
     \<lparr>hash_ord = remdups, os_signals = (\<lambda>e. if e = OsCtrlC then Some 5 else None),
      ready_at = (\<lambda>k. True), elapsed_at = (\<lambda>k. 100 * k), ready_fuel = 5,
      check_outcomes = (\<lambda>k i. Returns (Inr ())), round_times = (\<lambda>k. 10 * k + 5), rounds_seen = Suc 8\<rparr>"

definition example_runtime :: "unit service_runtime" where
  "example_runtime =
     with_address ''host:1'' (add_spawn_with_deps ''b'' [''a''] (add_spawn ''a'' (runtime_new 4 ''svc'')))"

lemma example_runtime_fields:
  "hc_enabled (health_check (rt_config example_runtime))" "health_checker example_runtime = None"
  "failure_action example_runtime = LogOnly"
  by (simp_all add: example_runtime_def with_address_def add_spawn_with_deps_def runtime_defs)

lemma example_wait: "wait_time (os_signals example_env) (shutdown_signal_of []) = Some 5"
  by (simp add: example_env_def shutdown_signal_of_def default_signals_def from_signals_def)

lemma await_signal_now:
  "t \<le> round_at k \<Longrightarrow>
   await_shutdown (Suc fuel) (Some t) listens outs round_at k hc = (hc, Some (BySignal t))"
  by simp

lemma succeeded:
  assumes "map_option (\<lambda>(tm, r). case r of Inl _ \<Rightarrow> False | Inr _ \<Rightarrow> True) x = Some True"
    and "\<And>tm st. x = Some (tm, Inr st) \<Longrightarrow> thesis"
  shows thesis
  using assms by (cases x) (auto split: sum.split_asm)

lemma example_start_and_wait:
  "\<exists>ns. start_and_wait example_env example_runtime = Some ([TasksStarted ns, TasksReady], Inr ())"
proof -
  have m: "task_mgr example_runtime = add_task (with_dependencies [''a''] (spawn_task ''b''))
      (add_task (spawn_task ''a'') (task_manager_new 4))"
    by (simp add: example_runtime_def with_address_def add_spawn_with_deps_def runtime_defs)
  have "map_option (\<lambda>(tm, r). case r of Inl _ \<Rightarrow> False | Inr _ \<Rightarrow> True)
      (start_all remdups 0 (task_mgr example_runtime)) = Some True"
    unfolding m by code_simp
  then obtain tm st where "start_all remdups 0 (task_mgr example_runtime) = Some (tm, Inr st)"
    by (rule succeeded)
  moreover from this have "tm_config tm = tm_config (task_mgr example_runtime)"
    by (auto simp: start_all_def Let_def split: option.splits sum.splits)
  then have "wait_for_ready 5 (\<lambda>k. True) (\<lambda>k. 100 * k) tm = Some (Inr ())"
    by (simp add: wait_for_ready_def eval_nat_numeral)
  ultimately show ?thesis by (simp add: start_and_wait_def example_env_def Let_def)
qed

lemma example_serve:
  "\<exists>ph. serve example_env (shutdown_signal_of []) example_runtime = (ph, Some (BySignal 5))"
proof -
  have "snd (serve example_env (shutdown_signal_of []) example_runtime) = Some (BySignal 5)"
    using example_runtime_fields example_wait await_signal_now [of 5 "round_times example_env" 0 8]
    by (auto simp: serve_def start_health_monitor_def Let_def example_env_def)
  then show ?thesis by (metis prod.collapse)
qed


text \<open>
  Claim C38. A failed task brings the service down: with the default monitor and the graceful
  shutdown action, if no signal ever arrives but the tracker shows a failed task in every round,
  the wait ends by the health check after at most as many rounds as the configured threshold.
\<close>

theorem failed_task_shuts_down:
  assumes "health_checker rt = None" and "hc_enabled (health_check (rt_config rt))"
    and "failure_action rt = GracefulShutdown" and "wait_time (os_signals env) sig = None"
    and "\<forall>j < rounds_seen env. has_failures (tracker_at j) \<and>
           check_outcomes env j = monitored_outcome dbg display (tracker_at j)"
    and "unat (hc_failure_threshold (health_check (rt_config rt))) \<le> rounds_seen env"
    and "0 < rounds_seen env" and "rounds_seen env < 2 ^ 32"
  shows "snd (serve env sig rt) = Some (ByHealth task_failure_monitor)"
proof -
  let ?hc = "with_on_failure (add_check task_failure_monitor (with_failure_threshold
      (hc_failure_threshold (health_check (rt_config rt))) health_checker_new))"
  have "\<exists>hc'. await_shutdown (rounds_seen env) None True (check_outcomes env) (round_times env) 0 ?hc
      = (hc', Some (ByHealth task_failure_monitor))"
  proof (rule await_failing_check)
    fix j assume "0 \<le> j" "j < 0 + rounds_seen env"
    then have "has_failures (tracker_at j)" "check_outcomes env j = monitored_outcome dbg display (tracker_at j)"
      using assms(5) by simp_all
    with task_failure_check_fails [of "tracker_at j" dbg]
    show "\<exists>e. check_outcomes env j = (\<lambda>_. Returns (Inl e))"
      by (auto simp: monitored_outcome_def fun_eq_iff)
  qed (use assms in \<open>simp_all add: health_monitor_defs count_of_def\<close>)
  moreover have "snd (start_health_monitor rt) = Some (?hc, True)"
    using assms by (simp add: start_health_monitor_def Let_def health_monitor_defs check_count_def)
  ultimately show ?thesis using assms(4) by (auto simp: serve_def)
qed

theorem failed_task_shuts_down_witness:
  "let tr = fst (update_state_with_error 0 ''a'' Failed ''boom'' (register_task 0 ''a'' Starting tracker_new));
       env = example_env\<lparr>os_signals := (\<lambda>_. None),
         check_outcomes := (\<lambda>_. monitored_outcome concat (\<lambda>_. ''failed'') tr)\<rparr>;
       rt = with_health_failure_action GracefulShutdown (add_spawn ''a'' (runtime_simple 4 :: unit service_runtime))
   in snd (serve env (shutdown_signal_of []) rt) = Some (ByHealth task_failure_monitor)"
proof -
  let ?tr = "fst (update_state_with_error 0 ''a'' Failed ''boom'' (register_task 0 ''a'' Starting tracker_new))"
  let ?rt = "with_health_failure_action GracefulShutdown (add_spawn ''a'' (runtime_simple 4 :: unit service_runtime))"
  have f: "has_failures ?tr" by code_simp
  have c: "health_checker ?rt = None" "hc_enabled (health_check (rt_config ?rt))"
    "failure_action ?rt = GracefulShutdown" "hc_failure_threshold (health_check (rt_config ?rt)) = 3"
    by (simp_all add: runtime_defs)
  show ?thesis
    unfolding Let_def
    by (rule failed_task_shuts_down [where tracker_at = "\<lambda>_. ?tr" and dbg = concat and display = "\<lambda>_. ''failed''"])
      (use f c in \<open>simp_all add: example_env_def shutdown_signal_of_def default_signals_def from_signals_def\<close>)
qed

end
