(* ===== verification/Context_Core.thy ===== *)
theory Context_Core
  imports Prelude
begin

text \<open>
  \<^verbatim>\<open>flare-core-base/src/context/mod.rs\<close>, \<^verbatim>\<open>context/core.rs\<close>, \<^verbatim>\<open>context/typemap.rs\<close>, \<^verbatim>\<open>utils/context.rs\<close>
  and \<^verbatim>\<open>flare-core-messaging/src/mq/context.rs\<close>: the request context, its derivation (children,
  deadlines, metadata, typed data) and its translation to and from string headers. A hash map with
  string keys is a partial function; a context is a value, because the code copies on every change.
  Cancellation (the token of an external library) is not part of this model.
\<close>

section \<open>Actors and audits\<close>

type_synonym headers = "string \<rightharpoonup> string"

datatype actor_type = Unspecified | User | Service | TenantAdmin | System | Guest

fun actor_type_of :: "int \<Rightarrow> actor_type" where
  "actor_type_of v =
     (if v = 1 then User else if v = 2 then Service else if v = 3 then TenantAdmin
      else if v = 4 then System else if v = 5 then Guest else Unspecified)"

fun actor_type_code :: "actor_type \<Rightarrow> int" where
  "actor_type_code Unspecified = 0"
| "actor_type_code User = 1"
| "actor_type_code Service = 2"
| "actor_type_code TenantAdmin = 3"
| "actor_type_code System = 4"
| "actor_type_code Guest = 5"

definition ext_with_attribute :: "string \<Rightarrow> string \<Rightarrow> headers \<Rightarrow> headers" where
  "ext_with_attribute k v attrs = attrs(k \<mapsto> v)"

record actor_context =
  actor_id :: string
  actor_type :: actor_type
  roles :: "string list"
  attributes :: headers

definition actor_default :: actor_context where
  "actor_default = \<lparr>actor_id = [], actor_type = Unspecified, roles = [], attributes = Map.empty\<rparr>"

definition actor_new :: "string \<Rightarrow> actor_context" where
  "actor_new n = \<lparr>actor_id = n, actor_type = User, roles = [], attributes = Map.empty\<rparr>"

definition with_type :: "actor_type \<Rightarrow> actor_context \<Rightarrow> actor_context" where
  "with_type t a = a\<lparr>actor_type := t\<rparr>"

definition with_role :: "string \<Rightarrow> actor_context \<Rightarrow> actor_context" where
  "with_role r a = a\<lparr>roles := roles a @ [r]\<rparr>"

definition with_attribute :: "string \<Rightarrow> string \<Rightarrow> actor_context \<Rightarrow> actor_context" where
  "with_attribute k v a = a\<lparr>attributes := (attributes a)(k \<mapsto> v)\<rparr>"

record audit_context =
  audit_actor :: actor_context
  operated_at :: int
  reason :: string
  audit_metadata :: headers

definition audit_default :: audit_context where
  "audit_default = \<lparr>audit_actor = actor_default, operated_at = 0, reason = [], audit_metadata = Map.empty\<rparr>"

definition audit_new :: "int \<Rightarrow> actor_context \<Rightarrow> audit_context" where
  "audit_new now a = \<lparr>audit_actor = a, operated_at = now, reason = [], audit_metadata = Map.empty\<rparr>"

definition with_operated_at :: "int \<Rightarrow> audit_context \<Rightarrow> audit_context" where
  "with_operated_at ts a = a\<lparr>operated_at := ts\<rparr>"

definition with_reason :: "string \<Rightarrow> audit_context \<Rightarrow> audit_context" where
  "with_reason r a = a\<lparr>reason := r\<rparr>"

definition with_metadata_entry :: "string \<Rightarrow> string \<Rightarrow> audit_context \<Rightarrow> audit_context" where
  "with_metadata_entry k v a = a\<lparr>audit_metadata := (audit_metadata a)(k \<mapsto> v)\<rparr>"

section \<open>The type map\<close>

text \<open>
  A type map holds at most one value per type. The values are those of the types the code stores:
  actors, audits, and any other type by an identifier. A value leaves the map by \<^verbatim>\<open>remove\<close> only
  when no other handle to the map (hence to the value) exists: \<open>shared\<close> says whether one does.
\<close>

datatype type_id = ActorType | AuditType | OtherType nat

datatype data_value = ActorData actor_context | AuditData audit_context | OtherData nat string

fun type_of :: "data_value \<Rightarrow> type_id" where
  "type_of (ActorData _) = ActorType"
| "type_of (AuditData _) = AuditType"
| "type_of (OtherData t _) = OtherType t"

type_synonym type_map = "(type_id \<times> data_value) list"

definition tm_insert :: "data_value \<Rightarrow> type_map \<Rightarrow> type_map" where
  "tm_insert v m = AList.update (type_of v) v m"

definition tm_get :: "type_id \<Rightarrow> type_map \<Rightarrow> data_value option" where
  "tm_get t m = map_of m t"

definition tm_remove :: "bool \<Rightarrow> type_id \<Rightarrow> type_map \<Rightarrow> type_map \<times> data_value option" where
  "tm_remove shared t m =
     (case map_of m t of
        None \<Rightarrow> (m, None)
      | Some v \<Rightarrow> (AList.delete t m, if shared then None else Some v))"

definition tm_contains :: "type_id \<Rightarrow> type_map \<Rightarrow> bool" where
  "tm_contains t m \<longleftrightarrow> map_of m t \<noteq> None"

definition tm_clear :: "type_map \<Rightarrow> type_map" where
  "tm_clear m = []"

definition tm_len :: "type_map \<Rightarrow> nat" where
  "tm_len m = length m"

definition tm_is_empty :: "type_map \<Rightarrow> bool" where
  "tm_is_empty m \<longleftrightarrow> m = []"

text \<open>Every value is filed under its own type, once.\<close>

definition tm_inv :: "type_map \<Rightarrow> bool" where
  "tm_inv m \<longleftrightarrow> distinct (map fst m) \<and> (\<forall>(t, v) \<in> set m. type_of v = t)"

lemma AList_update_mem: "x \<in> set (AList.update k v m) \<Longrightarrow> x = (k, v) \<or> x \<in> set m"
  by (induction m) (auto split: if_splits)

lemma tm_inv_insert: "tm_inv m \<Longrightarrow> tm_inv (tm_insert v m)"
  unfolding tm_inv_def tm_insert_def by (auto simp: AList.distinct_update dest!: AList_update_mem)

lemma tm_inv_remove: "tm_inv m \<Longrightarrow> tm_inv (fst (tm_remove sh t m))"
proof -
  assume "tm_inv m"
  moreover have "set (AList.delete t m) \<subseteq> set m" by (auto simp: AList.delete_eq)
  ultimately show ?thesis
    by (auto simp: tm_inv_def tm_remove_def AList.distinct_delete split: option.split)
qed

section \<open>Contexts\<close>

text \<open>
  \<^verbatim>\<open>ContextInner\<close> without its cancellation token and the link to its parent. Times are milliseconds.
\<close>

record request_context =
  deadline :: "nat option"
  request_id :: string
  trace_id :: string
  user_id :: "string option"
  tenant_id :: "string option"
  device_id :: "string option"
  platform :: "string option"
  session_id :: "string option"
  data :: type_map

definition root :: request_context where
  "root = \<lparr>deadline = None, request_id = [], trace_id = [], user_id = None, tenant_id = None,
           device_id = None, platform = None, session_id = None, data = []\<rparr>"

definition with_request_id :: "string \<Rightarrow> request_context" where
  "with_request_id r = root\<lparr>request_id := r\<rparr>"

definition child :: "request_context \<Rightarrow> request_context" where
  "child c = \<lparr>deadline = deadline c, request_id = request_id c, trace_id = trace_id c,
     user_id = user_id c, tenant_id = tenant_id c, device_id = device_id c, platform = platform c,
     session_id = session_id c, data = data c\<rparr>"

text \<open>The deadline of a derived context is the earlier one.\<close>

definition with_deadline :: "nat \<Rightarrow> request_context \<Rightarrow> request_context" where
  "with_deadline t c =
     (let ch = child c;
          effective = (case deadline ch of Some d \<Rightarrow> if d < t then d else t | None \<Rightarrow> t)
      in ch\<lparr>deadline := Some effective\<rparr>)"

definition with_timeout :: "nat \<Rightarrow> nat \<Rightarrow> request_context \<Rightarrow> request_context" where
  "with_timeout now d c = with_deadline (now + d) c"

definition with_timeout_ms :: "nat \<Rightarrow> u64 \<Rightarrow> request_context \<Rightarrow> request_context" where
  "with_timeout_ms now ms c = with_timeout now (unat ms) c"

definition ctx_with_task :: "nat \<Rightarrow> u64 option \<Rightarrow> request_context \<Rightarrow> request_context" where
  "ctx_with_task now timeout_ms c =
     (case timeout_ms of Some ms \<Rightarrow> with_timeout_ms now ms c | None \<Rightarrow> child c)"

definition with_trace_id :: "string \<Rightarrow> request_context \<Rightarrow> request_context" where
  "with_trace_id v c = (child c)\<lparr>trace_id := v\<rparr>"

definition with_user_id :: "string \<Rightarrow> request_context \<Rightarrow> request_context" where
  "with_user_id v c = (child c)\<lparr>user_id := Some v\<rparr>"

definition with_tenant_id :: "string \<Rightarrow> request_context \<Rightarrow> request_context" where
  "with_tenant_id v c = (child c)\<lparr>tenant_id := Some v\<rparr>"

definition with_device_id :: "string \<Rightarrow> request_context \<Rightarrow> request_context" where
  "with_device_id v c = (child c)\<lparr>device_id := Some v\<rparr>"

definition with_platform :: "string \<Rightarrow> request_context \<Rightarrow> request_context" where
  "with_platform v c = (child c)\<lparr>platform := Some v\<rparr>"

definition with_session_id :: "string \<Rightarrow> request_context \<Rightarrow> request_context" where
  "with_session_id v c = (child c)\<lparr>session_id := Some v\<rparr>"

definition insert_data :: "data_value \<Rightarrow> request_context \<Rightarrow> request_context" where
  "insert_data v c = c\<lparr>data := tm_insert v (data c)\<rparr>"

definition get_data :: "type_id \<Rightarrow> request_context \<Rightarrow> data_value option" where
  "get_data t c = tm_get t (data c)"

text \<open>The map handed to \<^verbatim>\<open>remove\<close> is a second handle to the map of the context itself.\<close>

definition remove_data :: "type_id \<Rightarrow> request_context \<Rightarrow> request_context \<times> data_value option" where
  "remove_data t c = (let (m, out) = tm_remove True t (data c) in (c\<lparr>data := m\<rparr>, out))"

definition with_actor :: "actor_context \<Rightarrow> request_context \<Rightarrow> request_context" where
  "with_actor a c = insert_data (ActorData a) c"

definition actor :: "request_context \<Rightarrow> actor_context option" where
  "actor c = (case get_data ActorType c of Some (ActorData a) \<Rightarrow> Some a | _ \<Rightarrow> None)"

definition with_audit :: "audit_context \<Rightarrow> request_context \<Rightarrow> request_context" where
  "with_audit a c = insert_data (AuditData a) c"

definition audit :: "request_context \<Rightarrow> audit_context option" where
  "audit c = (case get_data AuditType c of Some (AuditData a) \<Rightarrow> Some a | _ \<Rightarrow> None)"

definition remaining_time :: "nat \<Rightarrow> request_context \<Rightarrow> nat option" where
  "remaining_time now c =
     (case deadline c of Some d \<Rightarrow> if now < d then Some (d - now) else None | None \<Rightarrow> None)"

lemma child_same [simp]: "child c = c"
  by (simp add: child_def)

lemmas context_builders =
  with_trace_id_def with_user_id_def with_tenant_id_def with_device_id_def with_platform_def
  with_session_id_def with_request_id_def root_def

section \<open>Headers\<close>

definition require_tenant_id_from_ctx :: "request_context \<Rightarrow> string + string" where
  "require_tenant_id_from_ctx c =
     (case tenant_id c of
        Some t \<Rightarrow> if t \<noteq> [] then Inr t else Inl ''Tenant ID is required in context''
      | None \<Rightarrow> Inl ''Tenant ID is required in context'')"

definition require_user_id_from_ctx :: "request_context \<Rightarrow> string + string" where
  "require_user_id_from_ctx c =
     (let by_field = (case user_id c of
            Some u \<Rightarrow> if u \<noteq> [] then Inr u else Inl ''User ID is required in context''
          | None \<Rightarrow> Inl ''User ID is required in context'')
      in case actor c of
           Some a \<Rightarrow> if actor_id a \<noteq> [] then Inr (actor_id a) else by_field
         | None \<Rightarrow> by_field)"

definition extract_session_id_from_ctx :: "request_context \<Rightarrow> string option" where
  "extract_session_id_from_ctx c = session_id c"

definition require_request_id_from_ctx :: "request_context \<Rightarrow> string + string" where
  "require_request_id_from_ctx c =
     (if request_id c = [] then Inl ''Request ID is required in context'' else Inr (request_id c))"

definition attr_prefix :: string where "attr_prefix = ''x-actor-attr-''"

definition put_nonempty :: "string \<Rightarrow> string option \<Rightarrow> headers \<Rightarrow> headers" where
  "put_nonempty k v m = (case v of Some s \<Rightarrow> if s \<noteq> [] then m(k \<mapsto> s) else m | None \<Rightarrow> m)"

text \<open>The attributes go under a common prefix that no other key has.\<close>

definition put_attributes :: "headers \<Rightarrow> headers \<Rightarrow> headers" where
  "put_attributes attrs m =
     (\<lambda>k. case strip_prefix attr_prefix k of
            None \<Rightarrow> m k
          | Some a \<Rightarrow> (case attrs a of None \<Rightarrow> m k | Some v \<Rightarrow> Some v))"

definition encode_actor :: "actor_context \<Rightarrow> headers \<Rightarrow> headers" where
  "encode_actor a m =
     (let m1 = (if actor_id a \<noteq> [] then
                  (let m0 = m(''x-actor-id'' \<mapsto> actor_id a)
                   in if actor_type a = User \<and> m0 ''x-user-id'' = None
                      then m0(''x-user-id'' \<mapsto> actor_id a) else m0)
                else m);
          m2 = (if actor_type a \<noteq> Unspecified
                then m1(''x-actor-type'' \<mapsto> show_int (actor_type_code (actor_type a))) else m1);
          m3 = (if roles a \<noteq> [] then m2(''x-actor-roles'' \<mapsto> join_with CHR '','' (roles a)) else m2)
      in put_attributes (attributes a) m3)"

definition field_headers :: "request_context \<Rightarrow> headers" where
  "field_headers c =
     put_nonempty ''x-session-id'' (session_id c)
       (put_nonempty ''x-platform'' (platform c)
         (put_nonempty ''x-device-id'' (device_id c)
           (put_nonempty ''x-user-id'' (user_id c)
             (put_nonempty ''x-tenant-id'' (tenant_id c)
               (put_nonempty ''x-trace-id'' (Some (trace_id c))
                 (put_nonempty ''x-request-id'' (Some (request_id c)) Map.empty))))))"

definition ctx_to_map :: "request_context \<Rightarrow> headers" where
  "ctx_to_map c =
     (case actor c of
        Some a \<Rightarrow> encode_actor a (field_headers c)
      | None \<Rightarrow> field_headers c)"

definition nonempty_at :: "headers \<Rightarrow> string \<Rightarrow> string option" where
  "nonempty_at m k = (case m k of Some s \<Rightarrow> if s \<noteq> [] then Some s else None | None \<Rightarrow> None)"

definition decode_roles :: "string \<Rightarrow> string list" where
  "decode_roles s = filter (\<lambda>r. r \<noteq> []) (map trim (split_on CHR '','' s))"

definition decode_attributes :: "headers \<Rightarrow> headers" where
  "decode_attributes m = (\<lambda>k. nonempty_at m (attr_prefix @ k))"

definition decode_actor_from_map :: "headers \<Rightarrow> actor_context option" where
  "decode_actor_from_map m =
     (let raw = (case m ''x-actor-id'' of Some v \<Rightarrow> Some v | None \<Rightarrow> m ''x-user-id'')
      in case raw of
           None \<Rightarrow> None
         | Some n \<Rightarrow>
             if n = [] then None
             else
               (let ty = (case m ''x-actor-type'' of
                            None \<Rightarrow> Unspecified
                          | Some s \<Rightarrow> (case parse_signed 32 s of None \<Rightarrow> Unspecified | Some v \<Rightarrow> actor_type_of v));
                    rs = (case nonempty_at m ''x-actor-roles'' of None \<Rightarrow> [] | Some s \<Rightarrow> decode_roles s)
                in Some \<lparr>actor_id = n, actor_type = ty, roles = rs, attributes = decode_attributes m\<rparr>))"

text \<open>\<open>fresh\<close> is the identifier that is generated when the map has no request id.\<close>

definition fields_of_headers :: "string \<Rightarrow> headers \<Rightarrow> request_context" where
  "fields_of_headers fresh m =
     (let set_if = (\<lambda>k f c. case nonempty_at m k of Some v \<Rightarrow> f v c | None \<Rightarrow> c);
          c0 = with_request_id (case nonempty_at m ''x-request-id'' of Some r \<Rightarrow> r | None \<Rightarrow> fresh);
          c1 = set_if ''x-trace-id'' with_trace_id c0;
          c2 = set_if ''x-tenant-id'' with_tenant_id c1;
          c3 = set_if ''x-user-id'' with_user_id c2;
          c4 = set_if ''x-device-id'' with_device_id c3;
          c5 = set_if ''x-platform'' with_platform c4
      in set_if ''x-session-id'' with_session_id c5)"

definition map_to_ctx :: "string \<Rightarrow> headers \<Rightarrow> request_context" where
  "map_to_ctx fresh m =
     (let c = fields_of_headers fresh m
      in case decode_actor_from_map m of Some a \<Rightarrow> with_actor a c | None \<Rightarrow> c)"

definition ctx_to_mq_headers :: "request_context \<Rightarrow> headers" where
  "ctx_to_mq_headers c = ctx_to_map c"

definition mq_headers_to_ctx :: "string \<Rightarrow> headers \<Rightarrow> request_context" where
  "mq_headers_to_ctx fresh m = map_to_ctx fresh m"

definition merge_ctx_to_headers :: "headers \<Rightarrow> request_context \<Rightarrow> headers" where
  "merge_ctx_to_headers m c = m ++ ctx_to_mq_headers c"

section \<open>Round trip\<close>

text \<open>
  What survives the trip: an actor with an identifier, roles that are non-empty, without commas and
  without white space at their ends, and attributes with non-empty values.
\<close>

definition clean_role :: "string \<Rightarrow> bool" where
  "clean_role r \<longleftrightarrow> r \<noteq> [] \<and> trim r = r \<and> CHR '','' \<notin> set r"

definition portable_actor :: "actor_context \<Rightarrow> bool" where
  "portable_actor a \<longleftrightarrow>
     actor_id a \<noteq> [] \<and> (\<forall>r \<in> set (roles a). clean_role r) \<and> [] \<notin> ran (attributes a)"

lemma actor_type_roundtrip: "actor_type_of (actor_type_code t) = t"
  by (cases t) simp_all

lemma actor_type_code_bounds: "0 \<le> actor_type_code t \<and> actor_type_code t < 6"
  by (cases t) simp_all

lemma parse_actor_type:
  "parse_signed 32 (show_int (actor_type_code t)) = Some (actor_type_code t)"
  using actor_type_code_bounds [of t] by (intro parse_signed_show_int) simp_all

lemma decode_roles_join:
  assumes "rs \<noteq> []" and "\<forall>r \<in> set rs. clean_role r"
  shows "decode_roles (join_with CHR '','' rs) = rs"
proof -
  have "split_on CHR '','' (join_with CHR '','' rs) = rs"
    using assms by (intro split_on_join_with) (auto simp: clean_role_def)
  moreover have "map trim rs = rs" using assms by (intro map_idI) (auto simp: clean_role_def)
  moreover have "filter (\<lambda>r. r \<noteq> []) rs = rs" using assms by (intro filter_True) (auto simp: clean_role_def)
  ultimately show ?thesis by (simp add: decode_roles_def)
qed

lemma join_with_nonempty: "ws \<noteq> [] \<Longrightarrow> \<forall>w \<in> set ws. w \<noteq> [] \<Longrightarrow> join_with sep ws \<noteq> []"
  by (induction sep ws rule: join_with.induct) auto

lemma nonempty_at_put:
  "nonempty_at (put_nonempty k v m) k' =
     (if k' = k then (case v of Some s \<Rightarrow> if s \<noteq> [] then Some s else nonempty_at m k | None \<Rightarrow> nonempty_at m k)
      else nonempty_at m k')"
  by (auto simp: nonempty_at_def put_nonempty_def split: option.splits)

definition without_empty :: "string option \<Rightarrow> string option" where
  "without_empty v = (if v = Some [] then None else v)"

lemma put_nonempty_apply:
  "put_nonempty k v m k' =
     (if k' = k then (case without_empty v of None \<Rightarrow> m k | Some s \<Rightarrow> Some s) else m k')"
  by (auto simp: put_nonempty_def without_empty_def split: option.split)

lemma case_option_same [simp]: "(case x of None \<Rightarrow> None | Some s \<Rightarrow> Some s) = x"
  by (cases x) simp_all

lemma put_nonempty_other: "k' \<noteq> k \<Longrightarrow> put_nonempty k v m k' = m k'"
  by (auto simp: put_nonempty_def split: option.splits)

lemma put_attributes_other: "\<not> starts_with attr_prefix k \<Longrightarrow> put_attributes attrs m k = m k"
  using strip_prefix_None_iff [of attr_prefix k] by (auto simp: put_attributes_def split: option.splits)

text \<open>The keys of the fields are not under the prefix of the attributes.\<close>

lemma field_key_free [simp]:
  "\<not> starts_with attr_prefix ''x-request-id''" "\<not> starts_with attr_prefix ''x-trace-id''"
  "\<not> starts_with attr_prefix ''x-tenant-id''" "\<not> starts_with attr_prefix ''x-user-id''"
  "\<not> starts_with attr_prefix ''x-device-id''" "\<not> starts_with attr_prefix ''x-platform''"
  "\<not> starts_with attr_prefix ''x-session-id''" "\<not> starts_with attr_prefix ''x-actor-id''"
  "\<not> starts_with attr_prefix ''x-actor-type''" "\<not> starts_with attr_prefix ''x-actor-roles''"
  by (simp_all add: attr_prefix_def)

lemma attr_key_not_field [simp]:
  "attr_prefix @ k \<noteq> ''x-request-id''" "attr_prefix @ k \<noteq> ''x-trace-id''"
  "attr_prefix @ k \<noteq> ''x-tenant-id''" "attr_prefix @ k \<noteq> ''x-user-id''"
  "attr_prefix @ k \<noteq> ''x-device-id''" "attr_prefix @ k \<noteq> ''x-platform''"
  "attr_prefix @ k \<noteq> ''x-session-id''" "attr_prefix @ k \<noteq> ''x-actor-id''"
  "attr_prefix @ k \<noteq> ''x-actor-type''" "attr_prefix @ k \<noteq> ''x-actor-roles''"
  by (simp_all add: attr_prefix_def)

lemma put_attributes_prefixed:
  "put_attributes attrs m (attr_prefix @ k) = (case attrs k of None \<Rightarrow> m (attr_prefix @ k) | Some v \<Rightarrow> Some v)"
  unfolding put_attributes_def strip_prefix_append by simp

lemma encode_actor_other:
  assumes "\<not> starts_with attr_prefix k"
    and "k \<noteq> ''x-actor-id''" "k \<noteq> ''x-actor-type''" "k \<noteq> ''x-actor-roles''" "k \<noteq> ''x-user-id''"
  shows "encode_actor a m k = m k"
  using assms by (simp add: encode_actor_def Let_def put_attributes_other)

lemma encode_actor_user:
  "encode_actor a m ''x-user-id'' =
     (if actor_id a \<noteq> [] \<and> actor_type a = User \<and> m ''x-user-id'' = None then Some (actor_id a)
      else m ''x-user-id'')"
  by (simp add: encode_actor_def Let_def put_attributes_other)

lemma encode_actor_own:
  assumes "portable_actor a"
  shows "encode_actor a m ''x-actor-id'' = Some (actor_id a)"
    and "encode_actor a m ''x-actor-type'' =
           (if actor_type a = Unspecified then m ''x-actor-type''
            else Some (show_int (actor_type_code (actor_type a))))"
    and "encode_actor a m ''x-actor-roles'' =
           (if roles a = [] then m ''x-actor-roles'' else Some (join_with CHR '','' (roles a)))"
    and "encode_actor a m (attr_prefix @ k) =
           (case attributes a k of None \<Rightarrow> m (attr_prefix @ k) | Some v \<Rightarrow> Some v)"
  using assms by (auto simp: encode_actor_def Let_def put_attributes_other portable_actor_def
      put_attributes_prefixed split: option.split)

text \<open>Decoding gives the actor back when the rest of the map has none of the actor's keys.\<close>

lemma decode_encode_actor:
  assumes "portable_actor a" and "m ''x-actor-type'' = None" and "m ''x-actor-roles'' = None"
    and "\<And>k. m (attr_prefix @ k) = None"
  shows "decode_actor_from_map (encode_actor a m) = Some a"
proof -
  note enc = encode_actor_own [OF assms(1), of m]
  have id: "actor_id a \<noteq> []" and rs: "\<forall>r \<in> set (roles a). clean_role r" and at: "[] \<notin> ran (attributes a)"
    using assms(1) by (simp_all add: portable_actor_def)
  have ty: "(case encode_actor a m ''x-actor-type'' of None \<Rightarrow> Unspecified
      | Some s \<Rightarrow> (case parse_signed 32 s of None \<Rightarrow> Unspecified | Some v \<Rightarrow> actor_type_of v)) = actor_type a"
    using enc(2) assms(2) by (auto simp: parse_actor_type actor_type_roundtrip simp del: actor_type_of.simps)
  have "join_with CHR '','' (roles a) \<noteq> []" if "roles a \<noteq> []"
    using that rs by (intro join_with_nonempty) (auto simp: clean_role_def)
  then have ro: "(case nonempty_at (encode_actor a m) ''x-actor-roles'' of None \<Rightarrow> []
      | Some s \<Rightarrow> decode_roles s) = roles a"
    using enc(3) assms(3) rs by (auto simp: nonempty_at_def decode_roles_join)
  have "decode_attributes (encode_actor a m) k = attributes a k" for k
    using at assms(4) [of k] enc(4) [of k]
    by (auto simp: decode_attributes_def nonempty_at_def ran_def split: option.splits)
  then have "decode_attributes (encode_actor a m) = attributes a" by (rule ext)
  then show ?thesis
    using enc(1) ty ro id by (simp add: decode_actor_from_map_def Let_def)
qed

text \<open>The fields of a context and its actor, as they come back from the headers.\<close>

lemma fields_of_headers:
  "request_id (fields_of_headers fresh m) = (case nonempty_at m ''x-request-id'' of Some r \<Rightarrow> r | None \<Rightarrow> fresh)"
  "trace_id (fields_of_headers fresh m) = (case nonempty_at m ''x-trace-id'' of Some r \<Rightarrow> r | None \<Rightarrow> [])"
  "tenant_id (fields_of_headers fresh m) = nonempty_at m ''x-tenant-id''"
  "user_id (fields_of_headers fresh m) = nonempty_at m ''x-user-id''"
  "device_id (fields_of_headers fresh m) = nonempty_at m ''x-device-id''"
  "platform (fields_of_headers fresh m) = nonempty_at m ''x-platform''"
  "session_id (fields_of_headers fresh m) = nonempty_at m ''x-session-id''"
  "data (fields_of_headers fresh m) = []"
  by (auto simp: fields_of_headers_def Let_def context_builders split: option.split)

lemma with_actor_fields [simp]:
  "request_id (with_actor a c) = request_id c" "trace_id (with_actor a c) = trace_id c"
  "tenant_id (with_actor a c) = tenant_id c" "user_id (with_actor a c) = user_id c"
  "device_id (with_actor a c) = device_id c" "platform (with_actor a c) = platform c"
  "session_id (with_actor a c) = session_id c" "actor (with_actor a c) = Some a"
  by (simp_all add: with_actor_def insert_data_def actor_def get_data_def tm_get_def tm_insert_def)

lemma actor_no_data: "data c = [] \<Longrightarrow> actor c = None"
  by (simp add: actor_def get_data_def tm_get_def)

lemma map_to_ctx_fields:
  "request_id (map_to_ctx fresh m) = (case nonempty_at m ''x-request-id'' of Some r \<Rightarrow> r | None \<Rightarrow> fresh)"
  "trace_id (map_to_ctx fresh m) = (case nonempty_at m ''x-trace-id'' of Some r \<Rightarrow> r | None \<Rightarrow> [])"
  "tenant_id (map_to_ctx fresh m) = nonempty_at m ''x-tenant-id''"
  "user_id (map_to_ctx fresh m) = nonempty_at m ''x-user-id''"
  "device_id (map_to_ctx fresh m) = nonempty_at m ''x-device-id''"
  "platform (map_to_ctx fresh m) = nonempty_at m ''x-platform''"
  "session_id (map_to_ctx fresh m) = nonempty_at m ''x-session-id''"
  "actor (map_to_ctx fresh m) = decode_actor_from_map m"
  by (simp_all add: map_to_ctx_def Let_def fields_of_headers actor_no_data split: option.split)

lemma field_headers:
  "field_headers c ''x-request-id'' = without_empty (Some (request_id c))"
  "field_headers c ''x-trace-id'' = without_empty (Some (trace_id c))"
  "field_headers c ''x-tenant-id'' = without_empty (tenant_id c)"
  "field_headers c ''x-user-id'' = without_empty (user_id c)"
  "field_headers c ''x-device-id'' = without_empty (device_id c)"
  "field_headers c ''x-platform'' = without_empty (platform c)"
  "field_headers c ''x-session-id'' = without_empty (session_id c)"
  "field_headers c ''x-actor-id'' = None" "field_headers c ''x-actor-type'' = None"
  "field_headers c ''x-actor-roles'' = None" "field_headers c (attr_prefix @ k) = None"
  unfolding field_headers_def by (simp_all add: put_nonempty_apply cong: option.case_cong)

lemma nonempty_without_empty: "m k = without_empty v \<Longrightarrow> nonempty_at m k = without_empty v"
  by (auto simp: nonempty_at_def without_empty_def split: option.split)

text \<open>The headers of a context, key by key.\<close>

lemma ctx_to_map_fields:
  "ctx_to_map c ''x-request-id'' = without_empty (Some (request_id c))"
  "ctx_to_map c ''x-trace-id'' = without_empty (Some (trace_id c))"
  "ctx_to_map c ''x-tenant-id'' = without_empty (tenant_id c)"
  "ctx_to_map c ''x-device-id'' = without_empty (device_id c)"
  "ctx_to_map c ''x-platform'' = without_empty (platform c)"
  "ctx_to_map c ''x-session-id'' = without_empty (session_id c)"
  "ctx_to_map c ''x-user-id'' =
     (case without_empty (user_id c) of
        Some u \<Rightarrow> Some u
      | None \<Rightarrow> (case actor c of
                   Some a \<Rightarrow> if actor_id a \<noteq> [] \<and> actor_type a = User then Some (actor_id a) else None
                 | None \<Rightarrow> None))"
  by (simp_all add: ctx_to_map_def Let_def field_headers encode_actor_other encode_actor_user
      split: option.split)

lemma ctx_to_map_actor:
  "actor c = Some a \<Longrightarrow> portable_actor a \<Longrightarrow> decode_actor_from_map (ctx_to_map c) = Some a"
  by (simp add: ctx_to_map_def Let_def field_headers decode_encode_actor)

lemma ctx_to_map_no_actor:
  "actor c = None \<Longrightarrow>
   decode_actor_from_map (ctx_to_map c) =
     map_option (\<lambda>u. \<lparr>actor_id = u, actor_type = Unspecified, roles = [], attributes = Map.empty\<rparr>)
       (without_empty (user_id c))"
  by (auto simp: ctx_to_map_def Let_def decode_actor_from_map_def field_headers nonempty_at_def
      decode_attributes_def without_empty_def fun_eq_iff split: option.split)

section \<open>Properties\<close>

lemma ctx_roundtrip:
  assumes "actor c = Some a" and "portable_actor a" and "request_id c \<noteq> []"
  shows "let c' = map_to_ctx fresh (ctx_to_map c) in
     request_id c' = request_id c \<and> trace_id c' = trace_id c \<and>
     tenant_id c' = without_empty (tenant_id c) \<and> device_id c' = without_empty (device_id c) \<and>
     platform c' = without_empty (platform c) \<and> session_id c' = without_empty (session_id c) \<and>
     user_id c' = (case without_empty (user_id c) of
                     Some u \<Rightarrow> Some u
                   | None \<Rightarrow> if actor_type a = User then Some (actor_id a) else None) \<and>
     actor c' = Some a"
  using assms
  by (auto simp: map_to_ctx_fields ctx_to_map_fields ctx_to_map_actor Let_def nonempty_at_def
      without_empty_def portable_actor_def split: option.split)

text \<open>
  Round trip of a context through the string headers, for an actor with an identifier,
  clean roles and non-empty attribute values: request id, trace id, actor and every non-empty field
  come back as they were, an empty field comes back as absent, and a missing user id comes back as
  the identifier of an actor that is a user.
\<close>

theorem context_headers_roundtrip:
  assumes "actor c = Some a" and "portable_actor a" and "request_id c \<noteq> []"
  shows "let c' = map_to_ctx fresh (ctx_to_map c) in
     request_id c' = request_id c \<and> trace_id c' = trace_id c \<and>
     tenant_id c' = without_empty (tenant_id c) \<and> device_id c' = without_empty (device_id c) \<and>
     platform c' = without_empty (platform c) \<and> session_id c' = without_empty (session_id c) \<and>
     user_id c' = (case without_empty (user_id c) of
                     Some u \<Rightarrow> Some u
                   | None \<Rightarrow> if actor_type a = User then Some (actor_id a) else None) \<and>
     actor c' = Some a"
  using assms by (rule ctx_roundtrip)

definition example_context :: request_context where
  "example_context =
     with_actor (with_attribute ''dept'' ''eng'' (with_role ''ops'' (with_role ''admin'' (actor_new ''actor-1''))))
       (with_tenant_id ''t1'' (with_trace_id ''trace'' (with_request_id ''req'')))"

theorem context_headers_roundtrip_witness:
  "let c' = map_to_ctx ''uuid'' (ctx_to_map example_context)
   in request_id c' = ''req'' \<and> tenant_id c' = Some ''t1'' \<and> user_id c' = Some ''actor-1'' \<and>
      map_option roles (actor c') = Some [''admin'', ''ops'']"
proof -
  have a: "actor example_context = Some (with_attribute ''dept'' ''eng'' (with_role ''ops''
      (with_role ''admin'' (actor_new ''actor-1''))))"
    by (simp add: example_context_def actor_def with_actor_def insert_data_def get_data_def tm_get_def
        tm_insert_def)
  have "clean_role ''admin'' \<and> clean_role ''ops''" by code_simp
  then have "portable_actor (with_attribute ''dept'' ''eng'' (with_role ''ops''
      (with_role ''admin'' (actor_new ''actor-1''))))"
    by (simp add: portable_actor_def with_attribute_def with_role_def actor_new_def)
  moreover have "request_id example_context = ''req'' \<and> tenant_id example_context = Some ''t1'' \<and>
      user_id example_context = None"
    by (simp add: example_context_def with_actor_def insert_data_def context_builders)
  ultimately show ?thesis
    using context_headers_roundtrip [OF a, of "''uuid''"]
    by (simp add: Let_def without_empty_def with_attribute_def with_role_def actor_new_def)
qed

text \<open>
  A context without an actor gains one on the trip: the decoded context carries an actor
  of unspecified type, without roles, that is named by the user id (and has none only if there is no
  user id). So code that asks for the actor behind the boundary sees one that nobody set.
\<close>

theorem actorless_context_gains_actor:
  assumes "actor c = None"
  shows "actor (map_to_ctx fresh (ctx_to_map c)) =
     map_option (\<lambda>u. \<lparr>actor_id = u, actor_type = Unspecified, roles = [], attributes = Map.empty\<rparr>)
       (without_empty (user_id c))"
  unfolding map_to_ctx_fields by (rule ctx_to_map_no_actor [OF assms])

theorem actorless_context_gains_actor_witness:
  "actor (with_user_id ''u1'' (with_request_id ''r'')) = None \<and>
   actor (map_to_ctx ''uuid'' (ctx_to_map (with_user_id ''u1'' (with_request_id ''r'')))) =
     Some \<lparr>actor_id = ''u1'', actor_type = Unspecified, roles = [], attributes = Map.empty\<rparr>"
proof -
  have a: "actor (with_user_id ''u1'' (with_request_id ''r'')) = None"
    by (simp add: context_builders actor_def get_data_def tm_get_def)
  with actorless_context_gains_actor [OF this, of "''uuid''"] show ?thesis
    by (simp add: with_user_id_def without_empty_def)
qed

end
