(* ===== verification/Mq_Types.thy ===== *)
theory Mq_Types
  imports Context_Core
begin

text \<open>
  \<^verbatim>\<open>flare-core-messaging/src/mq/consumer/types.rs\<close>: messages, results and errors of the consumer side,
  and \<^verbatim>\<open>mq/producer.rs\<close>: messages, errors and configuration of the producer side. The handle by which
  a message is settled at the broker is a number and whether it supports native retry. Payloads are
  byte strings; the decoders of external formats are not modelled.
\<close>

section \<open>Errors\<close>

datatype consumer_error =
    CHandler string
  | CSerialization string
  | CDeserialization string
  | CConnection string
  | CTimeout string
  | CDeadLetter string
  | CRetry string
  | CShutdown
  | CConfiguration string
  | CIdempotency string
  | CNoHandler string

fun consumer_error_display :: "consumer_error \<Rightarrow> string" where
  "consumer_error_display (CHandler s) = ''Handler error: '' @ s"
| "consumer_error_display (CSerialization s) = ''Serialization error: '' @ s"
| "consumer_error_display (CDeserialization s) = ''Deserialization error: '' @ s"
| "consumer_error_display (CConnection s) = ''Connection error: '' @ s"
| "consumer_error_display (CTimeout s) = ''Timeout error: '' @ s"
| "consumer_error_display (CDeadLetter s) = ''DLQ error: '' @ s"
| "consumer_error_display (CRetry s) = ''Retry error: '' @ s"
| "consumer_error_display CShutdown = ''Shutdown requested''"
| "consumer_error_display (CConfiguration s) = ''Configuration error: '' @ s"
| "consumer_error_display (CIdempotency s) = ''Idempotency error: '' @ s"
| "consumer_error_display (CNoHandler s) = ''No handler found for topic: '' @ s"

fun is_retryable :: "consumer_error \<Rightarrow> bool" where
  "is_retryable (CHandler _) = True"
| "is_retryable (CConnection _) = True"
| "is_retryable (CTimeout _) = True"
| "is_retryable (CRetry _) = True"
| "is_retryable (CIdempotency _) = True"
| "is_retryable _ = False"

definition should_dead_letter :: "consumer_error \<Rightarrow> bool" where
  "should_dead_letter e \<longleftrightarrow> \<not> is_retryable e \<and> e \<noteq> CShutdown"

section \<open>Messages\<close>

datatype message_result = Ack | Nack | DeadLetter

definition should_ack :: "message_result \<Rightarrow> bool" where
  "should_ack r \<longleftrightarrow> r = Ack"

datatype content_type = Json | Protobuf | Avro | Raw

fun to_mime :: "content_type \<Rightarrow> string" where
  "to_mime Json = ''application/json''"
| "to_mime Protobuf = ''application/protobuf''"
| "to_mime Avro = ''application/avro''"
| "to_mime Raw = ''application/octet-stream''"

text \<open>\<^verbatim>\<open>to_lowercase\<close> on the ASCII letters; every key compared against is lower-case ASCII.\<close>

definition content_type_from_str :: "string \<Rightarrow> content_type option" where
  "content_type_from_str s =
     (let l = map lower_char s
      in if l = ''application/json'' \<or> l = ''json'' then Some Json
         else if l = ''application/protobuf'' \<or> l = ''protobuf'' then Some Protobuf
         else if l = ''application/avro'' \<or> l = ''avro'' then Some Avro
         else if l = ''application/octet-stream'' \<or> l = ''raw'' then Some Raw
         else None)"

record message_context =
  msg_ctx :: request_context
  message_id :: string
  topic :: string
  msg_partition :: int
  msg_offset :: int
  msg_key :: "string option"
  msg_headers :: headers
  started :: nat
  retry_count :: u32
  metadata :: headers

definition message_context_new :: "string \<Rightarrow> nat \<Rightarrow> request_context \<Rightarrow> string \<Rightarrow> message_context" where
  "message_context_new uuid now c t =
     \<lparr>msg_ctx = c, message_id = uuid, topic = t, msg_partition = 0, msg_offset = 0, msg_key = None,
      msg_headers = Map.empty, started = now, retry_count = 0, metadata = Map.empty\<rparr>"

definition elapsed_ms :: "nat \<Rightarrow> message_context \<Rightarrow> nat" where
  "elapsed_ms now mc = now - started mc"

definition with_key :: "string \<Rightarrow> message_context \<Rightarrow> message_context" where
  "with_key k mc = mc\<lparr>msg_key := Some k\<rparr>"

definition with_header :: "string \<Rightarrow> string \<Rightarrow> message_context \<Rightarrow> message_context" where
  "with_header k v mc = mc\<lparr>msg_headers := (msg_headers mc)(k \<mapsto> v)\<rparr>"

definition with_metadata :: "string \<Rightarrow> string \<Rightarrow> message_context \<Rightarrow> message_context" where
  "with_metadata k v mc = mc\<lparr>metadata := (metadata mc)(k \<mapsto> v)\<rparr>"

definition increment_retry :: "message_context \<Rightarrow> message_context" where
  "increment_retry mc = mc\<lparr>retry_count := retry_count mc + 1\<rparr>"

record ack_handle =
  handle_id :: nat
  native_retry :: bool

record message =
  payload :: string
  msg_content_type :: content_type
  mctx :: message_context
  ack :: "ack_handle option"

definition message_new :: "string \<Rightarrow> content_type \<Rightarrow> message_context \<Rightarrow> message" where
  "message_new p ct mc = \<lparr>payload = p, msg_content_type = ct, mctx = mc, ack = None\<rparr>"

definition with_ack_handle :: "ack_handle \<Rightarrow> message \<Rightarrow> message" where
  "with_ack_handle h m = m\<lparr>ack := Some h\<rparr>"

section \<open>Producer side\<close>

record producer_message =
  pm_topic :: string
  pm_key :: "string option"
  pm_payload :: string
  pm_headers :: headers

definition producer_message_new :: "string \<Rightarrow> string \<Rightarrow> producer_message" where
  "producer_message_new t p = \<lparr>pm_topic = t, pm_key = None, pm_payload = p, pm_headers = Map.empty\<rparr>"

definition pm_with_key :: "string \<Rightarrow> producer_message \<Rightarrow> producer_message" where
  "pm_with_key k pm = pm\<lparr>pm_key := Some k\<rparr>"

definition pm_with_header :: "string \<Rightarrow> string \<Rightarrow> producer_message \<Rightarrow> producer_message" where
  "pm_with_header k v pm = pm\<lparr>pm_headers := (pm_headers pm)(k \<mapsto> v)\<rparr>"

definition pm_with_headers :: "headers \<Rightarrow> producer_message \<Rightarrow> producer_message" where
  "pm_with_headers h pm = pm\<lparr>pm_headers := h\<rparr>"

datatype producer_error =
    PConnection string | PSerialization string | PTimeout string | PConfiguration string
  | PSend string | PBatch string

fun producer_error_display :: "producer_error \<Rightarrow> string" where
  "producer_error_display (PConnection s) = ''Connection error: '' @ s"
| "producer_error_display (PSerialization s) = ''Serialization error: '' @ s"
| "producer_error_display (PTimeout s) = ''Timeout error: '' @ s"
| "producer_error_display (PConfiguration s) = ''Configuration error: '' @ s"
| "producer_error_display (PSend s) = ''Send error: '' @ s"
| "producer_error_display (PBatch s) = ''Batch error: '' @ s"

fun producer_error_kind :: "producer_error \<Rightarrow> string" where
  "producer_error_kind (PConnection _) = ''connection''"
| "producer_error_kind (PSerialization _) = ''serialization''"
| "producer_error_kind (PTimeout _) = ''timeout''"
| "producer_error_kind (PConfiguration _) = ''configuration''"
| "producer_error_kind (PSend _) = ''send''"
| "producer_error_kind (PBatch _) = ''batch''"

section \<open>Facts\<close>

lemma content_type_roundtrip: "content_type_from_str (to_mime ct) = Some ct"
  by (cases ct) (simp_all add: content_type_from_str_def lower_char_def Let_def)

text \<open>A shutdown error is neither retryable nor meant for the dead letters.\<close>

lemma error_classes: "is_retryable e \<or> should_dead_letter e \<or> e = CShutdown"
  by (auto simp: should_dead_letter_def)

end
