(* ===== verification/Mq_Failure.thy ===== *)
theory Mq_Failure
  imports Mq_Types
begin

text \<open>
  \<^verbatim>\<open>flare-core-messaging/src/mq/consumer/failure.rs\<close>: what happens to a message whose handler failed.
  The retry policy, the headers of a republished message, the publishers over a producer and the
  handler that forwards retry messages back to their topic. The producer is a parameter: it is a
  function from what is sent to success or its error. Republished messages are values, so what is
  sent can be stated and decoded again.
\<close>

section \<open>Policy\<close>

definition HEADER_RETRY_COUNT :: string where "HEADER_RETRY_COUNT = ''x-flare-retry-count''"
definition HEADER_FAILURE_REASON :: string where "HEADER_FAILURE_REASON = ''x-flare-failure-reason''"
definition HEADER_FAILURE_ERROR :: string where "HEADER_FAILURE_ERROR = ''x-flare-failure-error''"
definition HEADER_ORIGINAL_TOPIC :: string where "HEADER_ORIGINAL_TOPIC = ''x-flare-original-topic''"
definition HEADER_ORIGINAL_MESSAGE_ID :: string where
  "HEADER_ORIGINAL_MESSAGE_ID = ''x-flare-original-message-id''"
definition HEADER_ORIGINAL_PARTITION :: string where
  "HEADER_ORIGINAL_PARTITION = ''x-flare-original-partition''"
definition HEADER_ORIGINAL_OFFSET :: string where "HEADER_ORIGINAL_OFFSET = ''x-flare-original-offset''"
definition HEADER_RETRY_NOT_BEFORE_UNIX_MS :: string where
  "HEADER_RETRY_NOT_BEFORE_UNIX_MS = ''x-flare-retry-not-before-unix-ms''"

lemmas header_defs =
  HEADER_RETRY_COUNT_def HEADER_FAILURE_REASON_def HEADER_FAILURE_ERROR_def HEADER_ORIGINAL_TOPIC_def
  HEADER_ORIGINAL_MESSAGE_ID_def HEADER_ORIGINAL_PARTITION_def HEADER_ORIGINAL_OFFSET_def
  HEADER_RETRY_NOT_BEFORE_UNIX_MS_def

datatype failure_action_kind = DoRetry | DoDeadLetter

record failure_context =
  fc_reason :: string
  fc_error :: "string option"
  fc_retry_count :: u32

definition failure_from_error :: "string \<Rightarrow> consumer_error \<Rightarrow> u32 \<Rightarrow> failure_context" where
  "failure_from_error r e n =
     \<lparr>fc_reason = r, fc_error = Some (consumer_error_display e), fc_retry_count = n\<rparr>"

record retry_policy =
  max_retries :: u32
  enable_dlq :: bool

definition retry_or_dead_letter :: "retry_policy \<Rightarrow> u32 \<Rightarrow> failure_action_kind" where
  "retry_or_dead_letter p n =
     (if n < max_retries p then DoRetry
      else if enable_dlq p then DoDeadLetter
      else DoRetry)"

definition action_for_nack :: "retry_policy \<Rightarrow> u32 \<Rightarrow> failure_action_kind" where
  "action_for_nack p n = retry_or_dead_letter p n"

definition action_for_error :: "retry_policy \<Rightarrow> consumer_error \<Rightarrow> u32 \<Rightarrow> failure_action_kind" where
  "action_for_error p e n =
     (if is_retryable e then retry_or_dead_letter p n
      else if enable_dlq p then DoDeadLetter
      else DoRetry)"

definition action_for_dead_letter :: "retry_policy \<Rightarrow> failure_action_kind" where
  "action_for_dead_letter p = (if enable_dlq p then DoDeadLetter else DoRetry)"

lemmas policy_defs =
  retry_or_dead_letter_def action_for_nack_def action_for_error_def action_for_dead_letter_def

datatype failure_topic = Original | Fixed string | Suffix string

fun resolve_topic :: "failure_topic \<Rightarrow> string \<Rightarrow> string" where
  "resolve_topic Original t = t"
| "resolve_topic (Fixed f) t = f"
| "resolve_topic (Suffix s) t = t @ s"

section \<open>Headers\<close>

definition retry_count_from_headers :: "headers \<Rightarrow> u32" where
  "retry_count_from_headers h =
     (case h HEADER_RETRY_COUNT of
        None \<Rightarrow> 0
      | Some s \<Rightarrow> (case parse_u32 s of None \<Rightarrow> 0 | Some n \<Rightarrow> n))"

definition failure_headers :: "message \<Rightarrow> failure_context \<Rightarrow> u32 \<Rightarrow> headers" where
  "failure_headers m f n =
     (let h = (msg_headers (mctx m))
            (HEADER_RETRY_COUNT \<mapsto> show_word n,
             HEADER_FAILURE_REASON \<mapsto> fc_reason f,
             HEADER_ORIGINAL_TOPIC \<mapsto> topic (mctx m),
             HEADER_ORIGINAL_MESSAGE_ID \<mapsto> message_id (mctx m),
             HEADER_ORIGINAL_PARTITION \<mapsto> show_int (msg_partition (mctx m)),
             HEADER_ORIGINAL_OFFSET \<mapsto> show_int (msg_offset (mctx m)));
          h = (case fc_error f of Some e \<Rightarrow> h(HEADER_FAILURE_ERROR \<mapsto> e) | None \<Rightarrow> h)
      in if h ''content-type'' = None
         then h(''content-type'' \<mapsto> to_mime (msg_content_type m)) else h)"

section \<open>Publishers\<close>

text \<open>What a producer is asked to send.\<close>

record send_request =
  sr_ctx :: request_context
  sr_topic :: string
  sr_key :: "string option"
  sr_payload :: string
  sr_headers :: headers

type_synonym producer = "send_request \<Rightarrow> producer_error + unit"

record retry_publisher =
  rp_topic :: failure_topic
  not_before_delay :: "u64 option"

definition retry_publisher_new :: "failure_topic \<Rightarrow> retry_publisher" where
  "retry_publisher_new t = \<lparr>rp_topic = t, not_before_delay = None\<rparr>"

definition with_not_before_delay :: "u64 \<Rightarrow> retry_publisher \<Rightarrow> retry_publisher" where
  "with_not_before_delay d p = p\<lparr>not_before_delay := Some d\<rparr>"

definition republish :: "string \<Rightarrow> message \<Rightarrow> headers \<Rightarrow> send_request" where
  "republish t m h =
     \<lparr>sr_ctx = msg_ctx (mctx m), sr_topic = t, sr_key = msg_key (mctx m), sr_payload = payload m,
      sr_headers = h\<rparr>"

definition retry_request :: "u64 \<Rightarrow> retry_publisher \<Rightarrow> message \<Rightarrow> failure_context \<Rightarrow> send_request" where
  "retry_request now p m f =
     (let h = failure_headers m f (sat_add (fc_retry_count f) 1);
          h = (case not_before_delay p of
                 Some d \<Rightarrow> h(HEADER_RETRY_NOT_BEFORE_UNIX_MS \<mapsto> show_word (sat_add now d))
               | None \<Rightarrow> h)
      in republish (resolve_topic (rp_topic p) (topic (mctx m))) m h)"

definition publish_retry ::
  "producer \<Rightarrow> u64 \<Rightarrow> retry_publisher \<Rightarrow> message \<Rightarrow> failure_context \<Rightarrow> consumer_error + unit" where
  "publish_retry send now p m f =
     (case send (retry_request now p m f) of
        Inl e \<Rightarrow> Inl (CRetry (producer_error_display e)) | Inr u \<Rightarrow> Inr u)"

definition dead_letter_request :: "failure_topic \<Rightarrow> message \<Rightarrow> failure_context \<Rightarrow> send_request" where
  "dead_letter_request t m f =
     republish (resolve_topic t (topic (mctx m))) m (failure_headers m f (fc_retry_count f))"

definition publish_dead_letter ::
  "producer \<Rightarrow> failure_topic \<Rightarrow> message \<Rightarrow> failure_context \<Rightarrow> consumer_error + unit" where
  "publish_dead_letter send t m f =
     (case send (dead_letter_request t m f) of
        Inl e \<Rightarrow> Inl (CDeadLetter (producer_error_display e)) | Inr u \<Rightarrow> Inr u)"

section \<open>The retry forwarder\<close>

text \<open>How long \<^verbatim>\<open>wait_until_not_before\<close> sleeps.\<close>

definition wait_until_not_before :: "u64 \<Rightarrow> message \<Rightarrow> nat" where
  "wait_until_not_before now m =
     (case msg_headers (mctx m) HEADER_RETRY_NOT_BEFORE_UNIX_MS of
        None \<Rightarrow> 0
      | Some s \<Rightarrow>
          (case parse_u64 s of
             None \<Rightarrow> 0
           | Some t \<Rightarrow> if now < t then unat (t - now) else 0))"

definition forward_request :: "string \<Rightarrow> message \<Rightarrow> send_request" where
  "forward_request t m =
     republish t m ((msg_headers (mctx m))(HEADER_RETRY_NOT_BEFORE_UNIX_MS := None))"

definition forwarder_handle :: "producer \<Rightarrow> message \<Rightarrow> consumer_error + message_result" where
  "forwarder_handle send m =
     (case msg_headers (mctx m) HEADER_ORIGINAL_TOPIC of
        Some t \<Rightarrow>
          if trim t \<noteq> [] then
            (case send (forward_request t m) of
               Inl e \<Rightarrow> Inl (CRetry (producer_error_display e))
             | Inr _ \<Rightarrow> Inr Ack)
          else Inl (CDeadLetter (''retry message '' @ message_id (mctx m) @ '' missing '' @ HEADER_ORIGINAL_TOPIC))
      | None \<Rightarrow>
          Inl (CDeadLetter (''retry message '' @ message_id (mctx m) @ '' missing '' @ HEADER_ORIGINAL_TOPIC)))"

record failure_publishers =
  fp_retry :: "retry_publisher option"
  fp_dead_letter :: "failure_topic option"

definition failure_publishers_new :: failure_publishers where
  "failure_publishers_new = \<lparr>fp_retry = None, fp_dead_letter = None\<rparr>"

definition fp_with_retry :: "retry_publisher \<Rightarrow> failure_publishers \<Rightarrow> failure_publishers" where
  "fp_with_retry p fp = fp\<lparr>fp_retry := Some p\<rparr>"

definition fp_with_dead_letter :: "failure_topic \<Rightarrow> failure_publishers \<Rightarrow> failure_publishers" where
  "fp_with_dead_letter t fp = fp\<lparr>fp_dead_letter := Some t\<rparr>"

definition fp_is_empty :: "failure_publishers \<Rightarrow> bool" where
  "fp_is_empty fp \<longleftrightarrow> fp_retry fp = None \<and> fp_dead_letter fp = None"

section \<open>Facts\<close>

lemma failure_headers_lookup:
  "failure_headers m f n HEADER_RETRY_COUNT = Some (show_word n)"
  "failure_headers m f n HEADER_FAILURE_REASON = Some (fc_reason f)"
  "failure_headers m f n HEADER_ORIGINAL_TOPIC = Some (topic (mctx m))"
  "failure_headers m f n HEADER_ORIGINAL_MESSAGE_ID = Some (message_id (mctx m))"
  "failure_headers m f n HEADER_ORIGINAL_PARTITION = Some (show_int (msg_partition (mctx m)))"
  "failure_headers m f n HEADER_ORIGINAL_OFFSET = Some (show_int (msg_offset (mctx m)))"
  "failure_headers m f n HEADER_RETRY_NOT_BEFORE_UNIX_MS =
     msg_headers (mctx m) HEADER_RETRY_NOT_BEFORE_UNIX_MS"
  by (simp_all add: failure_headers_def header_defs Let_def split: option.split)

lemma failure_headers_other:
  "k \<notin> {HEADER_RETRY_COUNT, HEADER_FAILURE_REASON, HEADER_ORIGINAL_TOPIC, HEADER_ORIGINAL_MESSAGE_ID,
        HEADER_ORIGINAL_PARTITION, HEADER_ORIGINAL_OFFSET, HEADER_FAILURE_ERROR, ''content-type''} \<Longrightarrow>
   failure_headers m f n k = msg_headers (mctx m) k"
  by (simp add: failure_headers_def Let_def split: option.split)

lemma retry_request_count:
  "retry_count_from_headers (sr_headers (retry_request now p m f)) = sat_add (fc_retry_count f) 1"
proof -
  have "HEADER_RETRY_NOT_BEFORE_UNIX_MS \<noteq> HEADER_RETRY_COUNT" by (simp add: header_defs)
  then show ?thesis
    by (simp add: retry_request_def republish_def retry_count_from_headers_def failure_headers_lookup
        Let_def split: option.split)
qed

lemma sat_add_one: "unat n + 1 < 2 ^ 32 \<Longrightarrow> unat (sat_add n (1 :: u32)) = Suc (unat n)"
  by (simp add: unat_sat_add)

section \<open>Chains of retries\<close>

text \<open>
  A request as the broker delivers it to a consumer: same topic, key, payload and headers, with the
  retry count read from the headers.
\<close>

definition delivers :: "send_request \<Rightarrow> message \<Rightarrow> bool" where
  "delivers r m \<longleftrightarrow>
     topic (mctx m) = sr_topic r \<and> msg_key (mctx m) = sr_key r \<and> payload m = sr_payload r \<and>
     msg_headers (mctx m) = sr_headers r \<and> retry_count (mctx m) = retry_count_from_headers (sr_headers r)"

text \<open>\<open>retried p rp k m m'\<close>: \<open>m'\<close> is the delivery after \<open>k\<close> failed attempts that were each retried.\<close>

inductive retried :: "retry_policy \<Rightarrow> retry_publisher \<Rightarrow> nat \<Rightarrow> message \<Rightarrow> message \<Rightarrow> bool"
  for p :: retry_policy and rp :: retry_publisher where
  retried_0: "retried p rp 0 m m"
| retried_Suc: "retried p rp k m m' \<Longrightarrow> is_retryable e \<Longrightarrow>
     action_for_error p e (retry_count (mctx m')) = DoRetry \<Longrightarrow>
     delivers (retry_request now rp m' (failure_from_error r e (retry_count (mctx m')))) m'' \<Longrightarrow>
     retried p rp (Suc k) m m''"

inductive_cases retried_SucE: "retried p rp (Suc k) m m''"

lemma word_less_max: "n < k \<Longrightarrow> unat n + 1 < 2 ^ 32" for n k :: u32
proof -
  assume "n < k"
  then have "unat n < unat k" by (simp add: word_less_nat_alt)
  moreover have "unat k < 2 ^ 32" using unsigned_less [of k] by simp
  ultimately show ?thesis by simp
qed

lemma retried_count:
  assumes "retried p rp k m m'" and "enable_dlq p" and "retry_count (mctx m) \<le> max_retries p"
  shows "unat (retry_count (mctx m')) = unat (retry_count (mctx m)) + k \<and>
         retry_count (mctx m') \<le> max_retries p"
  using assms
proof (induction rule: retried.induct)
  case (retried_Suc k m m' e now r m'')
  then have lt: "retry_count (mctx m') < max_retries p"
    by (auto simp: policy_defs split: if_splits)
  then have "unat (retry_count (mctx m'')) = Suc (unat (retry_count (mctx m')))"
    using retried_Suc.hyps(4) word_less_max [OF lt]
    by (simp add: delivers_def retry_request_count failure_from_error_def sat_add_one)
  moreover have "unat (retry_count (mctx m')) < unat (max_retries p)"
    using lt by (simp add: word_less_nat_alt)
  ultimately show ?case using retried_Suc by (simp add: word_le_nat_alt)
qed simp

lemma no_dlq_always_retries:
  "\<not> enable_dlq p \<Longrightarrow> action_for_error p e n = DoRetry \<and> action_for_nack p n = DoRetry \<and>
     action_for_dead_letter p = DoRetry"
  by (simp add: policy_defs)

section \<open>Properties\<close>

text \<open>
  Claim C32. Retries through republished messages are bounded: with the dead-letter queue enabled, a
  message that starts at count zero and fails retryably every time is at count \<open>k\<close> after \<open>k\<close>
  republications (the count travels in the headers), is republished at most \<open>max_retries\<close> times, and
  goes to the dead letters at exactly the attempt after the last allowed retry.
\<close>

theorem retries_bounded:
  assumes "retried p rp k m m'" and "enable_dlq p" and "retry_count (mctx m) = 0" and "is_retryable e"
  shows "unat (retry_count (mctx m')) = k \<and> k \<le> unat (max_retries p) \<and>
         (action_for_error p e (retry_count (mctx m')) = DoDeadLetter \<longleftrightarrow> k = unat (max_retries p))"
proof -
  have c: "unat (retry_count (mctx m')) = k" "retry_count (mctx m') \<le> max_retries p"
    using retried_count [OF assms(1,2)] assms(3) by simp_all
  then have "k \<le> unat (max_retries p)" by (simp add: word_le_nat_alt)
  then show ?thesis
    using c assms by (auto simp: policy_defs word_less_nat_alt)
qed

definition example_message :: message where
  "example_message =
     with_ack_handle \<lparr>handle_id = 7, native_retry = True\<rparr>
       (message_new ''data'' Raw (with_key ''k1'' (message_context_new ''m-1'' 0 root ''orders'')))"

definition redeliver :: "send_request \<Rightarrow> message" where
  "redeliver r =
     message_new (sr_payload r) Raw
       \<lparr>msg_ctx = sr_ctx r, message_id = ''m-2'', topic = sr_topic r, msg_partition = 0, msg_offset = 0,
        msg_key = sr_key r, msg_headers = sr_headers r, started = 0,
        retry_count = retry_count_from_headers (sr_headers r), metadata = Map.empty\<rparr>"

lemma delivers_redeliver: "delivers r (redeliver r)"
  by (simp add: delivers_def redeliver_def message_new_def)

theorem retries_bounded_witness:
  "\<exists>m'. retried \<lparr>max_retries = 1, enable_dlq = True\<rparr> (retry_publisher_new Original) 1 example_message m' \<and>
     unat (retry_count (mctx m')) = 1 \<and>
     action_for_error \<lparr>max_retries = 1, enable_dlq = True\<rparr> (CTimeout ''slow'') (retry_count (mctx m')) = DoDeadLetter"
proof -
  let ?p = "\<lparr>max_retries = 1, enable_dlq = True\<rparr>"
  let ?r = "retry_request 0 (retry_publisher_new Original) example_message
      (failure_from_error ''handler_error'' (CTimeout ''slow'') (retry_count (mctx example_message)))"
  have z: "retry_count (mctx example_message) = 0"
    by (simp add: example_message_def with_ack_handle_def message_new_def with_key_def message_context_new_def)
  have "retried ?p (retry_publisher_new Original) (Suc 0) example_message (redeliver ?r)"
    using delivers_redeliver z
    by (intro retried_Suc [OF retried_0]) (auto simp: policy_defs)
  with retries_bounded [OF this _ z, of "CTimeout ''slow''"] show ?thesis by auto
qed

text \<open>
  A retry message comes home: the request published for a failed message of a topic with a
  name, delivered on the retry topic and handled by the forwarder, is sent to the topic the message
  came from with the same key and payload, the count raised by one and the delay header removed, and
  the forwarder acknowledges it.
\<close>

theorem retry_forwarded_home:
  assumes "trim (topic (mctx m)) \<noteq> []" and "delivers (retry_request now rp m f) m'"
    and "send (forward_request (topic (mctx m)) m') = Inr ()"
  shows "forwarder_handle send m' = Inr Ack \<and>
         sr_topic (forward_request (topic (mctx m)) m') = topic (mctx m) \<and>
         sr_key (forward_request (topic (mctx m)) m') = msg_key (mctx m) \<and>
         sr_payload (forward_request (topic (mctx m)) m') = payload m \<and>
         sr_headers (forward_request (topic (mctx m)) m') HEADER_RETRY_NOT_BEFORE_UNIX_MS = None \<and>
         retry_count_from_headers (sr_headers (forward_request (topic (mctx m)) m')) =
           sat_add (fc_retry_count f) 1"
proof -
  have d: "msg_headers (mctx m') = sr_headers (retry_request now rp m f)"
      "msg_key (mctx m') = msg_key (mctx m)" "payload m' = payload m"
    using assms(2) by (simp_all add: delivers_def retry_request_def republish_def Let_def)
  have "HEADER_ORIGINAL_TOPIC \<noteq> HEADER_RETRY_NOT_BEFORE_UNIX_MS" by (simp add: header_defs)
  then have o: "msg_headers (mctx m') HEADER_ORIGINAL_TOPIC = Some (topic (mctx m))"
    by (simp add: d retry_request_def republish_def failure_headers_lookup Let_def split: option.split)
  have "HEADER_RETRY_COUNT \<noteq> HEADER_RETRY_NOT_BEFORE_UNIX_MS" by (simp add: header_defs)
  then have "retry_count_from_headers (sr_headers (forward_request (topic (mctx m)) m')) =
      sat_add (fc_retry_count f) 1"
    using retry_request_count [of now rp m f] d
    by (simp add: forward_request_def republish_def retry_count_from_headers_def)
  with o d assms show ?thesis
    by (simp add: forwarder_handle_def forward_request_def republish_def)
qed

theorem retry_forwarded_home_witness:
  "let f = failure_from_error ''handler_error'' (CTimeout ''slow'') 0;
       r = retry_request 100 (with_not_before_delay 5 (retry_publisher_new (Fixed ''retry.5s''))) example_message f
   in sr_topic r = ''retry.5s'' \<and> forwarder_handle (\<lambda>_. Inr ()) (redeliver r) = Inr Ack"
proof -
  have "topic (mctx example_message) = ''orders''"
    by (simp add: example_message_def with_ack_handle_def message_new_def with_key_def message_context_new_def)
  moreover have "trim ''orders'' = ''orders''" by code_simp
  ultimately have "forwarder_handle (\<lambda>_. Inr ()) (redeliver (retry_request now rp example_message f)) = Inr Ack"
    for now rp f
    using retry_forwarded_home [OF _ delivers_redeliver, where send = "\<lambda>_. Inr ()" and m = example_message]
    by simp
  then show ?thesis
    by (simp add: Let_def)
      (simp add: retry_request_def with_not_before_delay_def retry_publisher_new_def republish_def Let_def)
qed

text \<open>
  Failing on the retry topic loses the way home: when the forwarding itself fails and the
  failed retry message is republished to the retry topic, its header of origin is the retry topic,
  and the next forwarding sends the message to the retry topic instead of its own.
\<close>

theorem failed_forward_loses_origin:
  assumes "rp_topic rp = Fixed rt" and "trim rt \<noteq> []"
    and "delivers (retry_request now rp m f) m'" and "delivers (retry_request now' rp m' f') m''"
    and "send (forward_request rt m'') = Inr ()"
  shows "forwarder_handle send m'' = Inr Ack \<and>
         msg_headers (mctx m'') HEADER_ORIGINAL_TOPIC = Some rt \<and>
         sr_topic (forward_request rt m'') = rt"
proof -
  have "topic (mctx m') = rt"
    using assms(1,3) by (simp add: delivers_def retry_request_def republish_def Let_def)
  moreover have "HEADER_ORIGINAL_TOPIC \<noteq> HEADER_RETRY_NOT_BEFORE_UNIX_MS" by (simp add: header_defs)
  ultimately have "msg_headers (mctx m'') HEADER_ORIGINAL_TOPIC = Some rt"
    using assms(4) by (simp add: delivers_def retry_request_def republish_def failure_headers_lookup Let_def
        split: option.split)
  with assms(2,5) show ?thesis by (simp add: forwarder_handle_def forward_request_def republish_def)
qed

theorem failed_forward_loses_origin_witness:
  "let f = failure_from_error ''handler_error'' (CTimeout ''slow'') 0;
       rp = retry_publisher_new (Fixed ''retry'');
       m' = redeliver (retry_request 100 rp example_message f);
       m'' = redeliver (retry_request 200 rp m' f)
   in forwarder_handle (\<lambda>_. Inr ()) m'' = Inr Ack \<and>
      msg_headers (mctx m'') HEADER_ORIGINAL_TOPIC = Some ''retry''"
proof -
  have "trim ''retry'' = ''retry''" by code_simp
  then show ?thesis
    using failed_forward_loses_origin [OF _ _ delivers_redeliver delivers_redeliver,
        where send = "\<lambda>_. Inr ()" and rt = "''retry''" and rp = "retry_publisher_new (Fixed ''retry'')"]
    by (simp add: Let_def retry_publisher_new_def)
qed

end
