(* ===== verification/Mq_Dispatcher.thy ===== *)
theory Mq_Dispatcher
  imports Mq_Types
begin

text \<open>
  \<^verbatim>\<open>flare-core-messaging/src/mq/consumer/dispatcher.rs\<close> and \<^verbatim>\<open>handler.rs\<close>: routing messages to
  handlers. A handler is unknown code with effects on a state of its own type \<open>'w\<close>: its two methods
  take that state and return it changed with their result. The two dispatchers differ in how they
  look a topic up; the batch algorithm is the same text in both and is modelled once over the lookup.
\<close>

section \<open>Handlers\<close>

record 'w handler =
  h_name :: string
  h_handle :: "'w \<Rightarrow> message \<Rightarrow> 'w \<times> (consumer_error + message_result)"
  h_handle_batch :: "'w \<Rightarrow> message list \<Rightarrow> 'w \<times> (consumer_error + message_result list)"
  h_supports_batch :: bool

text \<open>The default \<^verbatim>\<open>handle_batch\<close>: one by one, stopping at the first error.\<close>

fun default_handle_batch ::
  "('w \<Rightarrow> message \<Rightarrow> 'w \<times> (consumer_error + message_result)) \<Rightarrow> 'w \<Rightarrow> message list \<Rightarrow>
   'w \<times> (consumer_error + message_result list)" where
  "default_handle_batch hf w [] = (w, Inr [])"
| "default_handle_batch hf w (m # ms) =
     (case hf w m of
        (w', Inl e) \<Rightarrow> (w', Inl e)
      | (w', Inr r) \<Rightarrow>
          (case default_handle_batch hf w' ms of
             (w'', Inl e) \<Rightarrow> (w'', Inl e)
           | (w'', Inr rs) \<Rightarrow> (w'', Inr (r # rs))))"

definition simple_handler ::
  "string \<Rightarrow> ('w \<Rightarrow> message \<Rightarrow> 'w \<times> (consumer_error + message_result)) \<Rightarrow> 'w handler" where
  "simple_handler n f =
     \<lparr>h_name = n, h_handle = f, h_handle_batch = default_handle_batch f, h_supports_batch = False\<rparr>"

type_synonym 'w registry = "(string \<times> 'w handler) list"

definition registry_register :: "string \<Rightarrow> 'w handler \<Rightarrow> 'w registry \<Rightarrow> 'w registry" where
  "registry_register n h reg = AList.update n h reg"

definition registry_get :: "'w registry \<Rightarrow> string \<Rightarrow> 'w handler option" where
  "registry_get reg n = map_of reg n"

definition registry_contains :: "'w registry \<Rightarrow> string \<Rightarrow> bool" where
  "registry_contains reg n \<longleftrightarrow> map_of reg n \<noteq> None"

definition registry_list :: "(string list \<Rightarrow> string list) \<Rightarrow> 'w registry \<Rightarrow> string list" where
  "registry_list ord reg = ord (map fst reg)"

section \<open>Lookup\<close>

definition ends_with_star :: "string \<Rightarrow> bool" where
  "ends_with_star p \<longleftrightarrow> p \<noteq> [] \<and> last p = CHR ''*''"

definition wildcard_matches :: "string \<Rightarrow> string \<Rightarrow> bool" where
  "wildcard_matches p t \<longleftrightarrow> ends_with_star p \<and> starts_with (butlast p) t"

text \<open>An exact topic first, else the first matching pattern in the iteration order of the map.\<close>

definition find_handler ::
  "(string list \<Rightarrow> string list) \<Rightarrow> 'w registry \<Rightarrow> string \<Rightarrow> 'w handler option" where
  "find_handler ord hs t =
     (case map_of hs t of
        Some h \<Rightarrow> Some h
      | None \<Rightarrow>
          (case find (\<lambda>p. wildcard_matches p t) (ord (map fst hs)) of
             Some p \<Rightarrow> map_of hs p
           | None \<Rightarrow> None))"

section \<open>Dispatching\<close>

definition dispatch_with ::
  "(string \<Rightarrow> 'w handler option) \<Rightarrow> 'w \<Rightarrow> message \<Rightarrow> 'w \<times> (consumer_error + message_result)" where
  "dispatch_with lookup w m =
     (case lookup (topic (mctx m)) of
        Some h \<Rightarrow> h_handle h w m
      | None \<Rightarrow> (w, Inl (CNoHandler (topic (mctx m)))))"

text \<open>The fallback: one by one; a failing handler counts as a nack, a missing one ends the batch.\<close>

definition result_or_nack :: "consumer_error + message_result \<Rightarrow> message_result" where
  "result_or_nack r = (case r of Inr x \<Rightarrow> x | Inl _ \<Rightarrow> Nack)"

fun fallback ::
  "(string \<Rightarrow> 'w handler option) \<Rightarrow> 'w \<Rightarrow> message list \<Rightarrow>
   'w \<times> (consumer_error + message_result list)" where
  "fallback lookup w [] = (w, Inr [])"
| "fallback lookup w (m # ms) =
     (case lookup (topic (mctx m)) of
        None \<Rightarrow> (w, Inl (CNoHandler (topic (mctx m))))
      | Some h \<Rightarrow>
          (case fallback lookup (fst (h_handle h w m)) ms of
             (w', Inl e) \<Rightarrow> (w', Inl e)
           | (w', Inr rs) \<Rightarrow> (w', Inr (result_or_nack (snd (h_handle h w m)) # rs))))"

definition dispatch_batch_with ::
  "(string \<Rightarrow> 'w handler option) \<Rightarrow> 'w \<Rightarrow> message list \<Rightarrow>
   'w \<times> (consumer_error + message_result list)" where
  "dispatch_batch_with lookup w ms =
     (case ms of
        [] \<Rightarrow> (w, Inr [])
      | first # _ \<Rightarrow>
          (case lookup (topic (mctx first)) of
             None \<Rightarrow> (w, Inl (CNoHandler (topic (mctx first))))
           | Some h0 \<Rightarrow>
               if (\<forall>m \<in> set ms. case lookup (topic (mctx m)) of Some h \<Rightarrow> h_name h = h_name h0 | None \<Rightarrow> False)
                  \<and> h_supports_batch h0
               then h_handle_batch h0 w ms
               else fallback lookup w ms))"

text \<open>\<^verbatim>\<open>TopicDispatcher\<close>.\<close>

definition topic_dispatch where
  "topic_dispatch ord hs = dispatch_with (find_handler ord hs)"

definition topic_dispatch_batch where
  "topic_dispatch_batch ord hs = dispatch_batch_with (find_handler ord hs)"

definition topic_register ::
  "string \<Rightarrow> 'w handler \<Rightarrow> 'w registry \<Rightarrow> 'w registry \<times> (consumer_error + unit)" where
  "topic_register t h hs =
     (if map_of hs t \<noteq> None
      then (hs, Inl (CConfiguration (''Handler already registered for topic: '' @ t)))
      else (AList.update t h hs, Inr ()))"

definition topics :: "(string list \<Rightarrow> string list) \<Rightarrow> 'w registry \<Rightarrow> string list" where
  "topics ord hs = ord (map fst hs)"

text \<open>
  \<^verbatim>\<open>RegistryDispatcher\<close>. Its \<^verbatim>\<open>register\<close> asks for the only handle to the registry right after making
  a second one, so it always fails.
\<close>

definition registry_dispatch where
  "registry_dispatch reg = dispatch_with (registry_get reg)"

definition registry_dispatch_batch where
  "registry_dispatch_batch reg = dispatch_batch_with (registry_get reg)"

definition registry_dispatcher_register ::
  "string \<Rightarrow> 'w handler \<Rightarrow> 'w registry \<Rightarrow> 'w registry \<times> (consumer_error + unit)" where
  "registry_dispatcher_register t h reg =
     (let handles_to_registry = Suc 1 \<comment> \<open>\<open>self.registry\<close> and its clone\<close>
      in if handles_to_registry = 1 then (registry_register t h reg, Inr ())
         else (reg, Inl (CConfiguration ''Registry is shared, cannot mutate'')))"

section \<open>Facts\<close>

lemma find_handler_exact: "map_of hs t = Some h \<Longrightarrow> find_handler ord hs t = Some h"
  by (simp add: find_handler_def)

lemma find_handler_Some:
  assumes "hash_order ord" and "find_handler ord hs t = Some h"
  shows "\<exists>p. map_of hs p = Some h \<and> (p = t \<or> map_of hs t = None \<and> wildcard_matches p t)"
  using assms by (auto simp: find_handler_def find_Some_iff split: option.splits)

lemma find_handler_None_iff:
  assumes "hash_order ord"
  shows "find_handler ord hs t = None \<longleftrightarrow>
         map_of hs t = None \<and> (\<forall>p \<in> fst ` set hs. \<not> wildcard_matches p t)"
proof (cases "map_of hs t")
  case (Some h)
  then show ?thesis by (simp add: find_handler_def)
next
  case None
  show ?thesis
  proof (cases "find (\<lambda>p. wildcard_matches p t) (ord (map fst hs))")
    case None2: None
    then have "\<forall>p \<in> fst ` set hs. \<not> wildcard_matches p t"
      using hash_order_set [OF assms, of "map fst hs"] by (auto simp: find_None_iff)
    with None None2 show ?thesis by (simp add: find_handler_def)
  next
    case (Some p)
    then have p: "wildcard_matches p t" "p \<in> fst ` set hs"
      using hash_order_set [OF assms, of "map fst hs"] by (auto simp: find_Some_iff dest: nth_mem)
    then obtain h where "map_of hs p = Some h" by (metis map_of_eq_None_iff not_Some_eq)
    with Some None p show ?thesis by (auto simp: find_handler_def)
  qed
qed

lemma fallback_length: "snd (fallback lookup w ms) = Inr rs \<Longrightarrow> length rs = length ms"
proof (induction ms arbitrary: w rs)
  case (Cons m ms)
  from Cons.prems obtain h where h: "lookup (topic (mctx m)) = Some h" by (auto split: option.splits)
  obtain w' r where fb: "fallback lookup (fst (h_handle h w m)) ms = (w', r)" by fastforce
  with h Cons.prems obtain rs' where "r = Inr rs'" "length rs = Suc (length rs')"
    by (auto split: sum.splits)
  with Cons.IH [of "fst (h_handle h w m)" rs'] fb show ?case by simp
qed simp

lemma fallback_total:
  "\<forall>m \<in> set ms. lookup (topic (mctx m)) \<noteq> None \<Longrightarrow> \<exists>rs. snd (fallback lookup w ms) = Inr rs"
proof (induction ms arbitrary: w)
  case (Cons m ms)
  then obtain h where h: "lookup (topic (mctx m)) = Some h" by auto
  from Cons.IH [of "fst (h_handle h w m)"] Cons.prems
  obtain rs where "snd (fallback lookup (fst (h_handle h w m)) ms) = Inr rs" by auto
  with h show ?case by (auto split: prod.split)
qed simp

lemma fallback_missing:
  assumes "\<forall>m \<in> set us. lookup (topic (mctx m)) \<noteq> None" and "lookup (topic (mctx m)) = None"
  shows "fallback lookup w (us @ m # vs) = (fst (fallback lookup w us), Inl (CNoHandler (topic (mctx m))))"
  using assms(1)
proof (induction us arbitrary: w)
  case (Cons u us)
  then obtain h where h: "lookup (topic (mctx u)) = Some h" by auto
  have "fallback lookup (fst (h_handle h w u)) (us @ m # vs) =
      (fst (fallback lookup (fst (h_handle h w u)) us), Inl (CNoHandler (topic (mctx m))))"
    using Cons by simp
  moreover obtain w' rs where "fallback lookup (fst (h_handle h w u)) us = (w', Inr rs)"
    using fallback_total [of us lookup "fst (h_handle h w u)"] Cons.prems by (metis list.set_intros(2) prod.collapse)
  ultimately show ?case using h by simp
qed (simp add: assms(2))

section \<open>Properties\<close>


definition noting_handler :: "string \<Rightarrow> message_result \<Rightarrow> string list handler" where
  "noting_handler n r = simple_handler n (\<lambda>w m. (w @ [topic (mctx m)], Inr r))"


text \<open>
  A batch that is dispatched one by one loses results when a topic in the middle has no
  handler: the handlers of the messages before it have all run (the state of the handlers is the one
  they left), the ones after it do not run, and the batch fails as a whole with no result for any.
\<close>

theorem missing_handler_discards_results:
  assumes "us \<noteq> []" and "\<forall>u \<in> set us. lookup (topic (mctx u)) \<noteq> None"
    and "lookup (topic (mctx m)) = None"
  shows "dispatch_batch_with lookup w (us @ m # vs) =
           (fst (fallback lookup w us), Inl (CNoHandler (topic (mctx m)))) \<and>
         (\<exists>rs. snd (fallback lookup w us) = Inr rs \<and> length rs = length us)"
proof -
  obtain u us' where us: "us = u # us'" using assms(1) by (cases us) auto
  then obtain h0 where "lookup (topic (mctx u)) = Some h0" using assms(2) by auto
  then have "dispatch_batch_with lookup w (us @ m # vs) = fallback lookup w (us @ m # vs)"
    using us assms(3) by (simp add: dispatch_batch_with_def)
  with fallback_missing [of us lookup m w vs] assms fallback_total [of us lookup w]
    fallback_length [of lookup w us]
  show ?thesis by auto
qed

theorem missing_handler_discards_results_witness:
  "let hs = [(''a'', noting_handler ''h'' Ack)];
       msg = (\<lambda>t. message_new [] Raw (message_context_new ''id'' 0 root t))
   in topic_dispatch_batch remdups hs [] [msg ''a'', msg ''b'', msg ''a''] = ([''a''], Inl (CNoHandler ''b''))"
proof -
  let ?hs = "[(''a'', noting_handler ''h'' Ack)]"
  let ?msg = "\<lambda>t. message_new [] Raw (message_context_new ''id'' 0 root t)"
  have t: "topic (mctx (?msg t)) = t" for t by (simp add: message_new_def message_context_new_def)
  have a: "find_handler remdups ?hs ''a'' = Some (noting_handler ''h'' Ack)" by (simp add: find_handler_def)
  have b: "find_handler remdups ?hs ''b'' = None"
    by (simp add: find_handler_def wildcard_matches_def ends_with_star_def)
  have "fst (fallback (find_handler remdups ?hs) [] [?msg ''a'']) = [''a'']"
    using t a by (simp add: noting_handler_def simple_handler_def)
  then show ?thesis
    using missing_handler_discards_results [of "[?msg ''a'']" "find_handler remdups ?hs" "?msg ''b''" "[]" "[?msg ''a'']"] t a b
    by (simp add: Let_def topic_dispatch_batch_def)
qed

end
