(* ===== verification/Mq_Runtime.thy ===== *)
theory Mq_Runtime
  imports Mq_Failure Mq_Dispatcher
begin

text \<open>
  \<^verbatim>\<open>flare-core-messaging/src/mq/consumer/runtime.rs\<close>, the processing of messages: idempotency,
  dispatch, failure policy and settlement, one by one and in batches. The runtime only talks to its
  ports (dispatcher, broker handles, publishers, idempotency store); every call is appended to a log
  with its outcome. What broker and publishers answer may depend on everything logged so far.
  \<open>'s\<close> is the state of the idempotency store, \<open>'w\<close> that of the handlers behind the dispatcher.
\<close>

section \<open>Ports and actions\<close>

datatype call =
    CheckCall string "consumer_error + bool"
  | RecordCall string bool
  | DispatchCall message "consumer_error + message_result"
  | DispatchBatchCall "message list" "consumer_error + message_result list"
  | AckCall nat bool
  | NackCall nat bool
  | TermCall nat bool
  | RetryCall message failure_context bool
  | DeadLetterCall message failure_context bool

record ('s, 'w) world =
  log :: "call list"
  store :: 's
  app :: 'w

type_synonym answer = "call list \<Rightarrow> nat \<Rightarrow> consumer_error + unit"
type_synonym publish = "call list \<Rightarrow> message \<Rightarrow> failure_context \<Rightarrow> consumer_error + unit"

record 's idempotency_port =
  is_consumed :: "'s \<Rightarrow> string \<Rightarrow> consumer_error + bool"
  record_key :: "'s \<Rightarrow> string \<Rightarrow> 's \<times> (consumer_error + unit)"

record ('s, 'w) ports =
  dispatch :: "'w \<Rightarrow> message \<Rightarrow> 'w \<times> (consumer_error + message_result)"
  dispatch_batch :: "'w \<Rightarrow> message list \<Rightarrow> 'w \<times> (consumer_error + message_result list)"
  broker_ack :: answer
  broker_nack :: answer
  broker_term :: answer
  retry_port :: "publish option"
  dead_letter_port :: "publish option"
  idempotency :: "'s idempotency_port option"

text \<open>An action changes the world and returns \<^verbatim>\<open>Err\<close> or \<^verbatim>\<open>Ok\<close>; \<open>and_then\<close> is the \<^verbatim>\<open>?\<close> operator.\<close>

type_synonym ('s, 'w, 'a) action = "('s, 'w) world \<Rightarrow> ('s, 'w) world \<times> (consumer_error + 'a)"

definition and_then :: "('s, 'w, 'a) action \<Rightarrow> ('a \<Rightarrow> ('s, 'w, 'b) action) \<Rightarrow> ('s, 'w, 'b) action" where
  "and_then a f w = (case a w of (w', Inl e) \<Rightarrow> (w', Inl e) | (w', Inr x) \<Rightarrow> f x w')"

definition ok :: "'a \<Rightarrow> ('s, 'w, 'a) action" where
  "ok x w = (w, Inr x)"

definition err :: "consumer_error \<Rightarrow> ('s, 'w, 'a) action" where
  "err e w = (w, Inl e)"

definition succeeded_b :: "'e + 'a \<Rightarrow> bool" where
  "succeeded_b r = (case r of Inl _ \<Rightarrow> False | Inr _ \<Rightarrow> True)"

definition logged :: "call \<Rightarrow> ('s, 'w) world \<Rightarrow> ('s, 'w) world" where
  "logged c w = w\<lparr>log := log w @ [c]\<rparr>"

definition ack_call :: "('s, 'w) ports \<Rightarrow> ack_handle \<Rightarrow> ('s, 'w, unit) action" where
  "ack_call P h w =
     (let r = broker_ack P (log w) (handle_id h) in (logged (AckCall (handle_id h) (succeeded_b r)) w, r))"

definition nack_call :: "('s, 'w) ports \<Rightarrow> ack_handle \<Rightarrow> ('s, 'w, unit) action" where
  "nack_call P h w =
     (let r = broker_nack P (log w) (handle_id h) in (logged (NackCall (handle_id h) (succeeded_b r)) w, r))"

definition term_call :: "('s, 'w) ports \<Rightarrow> ack_handle \<Rightarrow> ('s, 'w, unit) action" where
  "term_call P h w =
     (let r = broker_term P (log w) (handle_id h) in (logged (TermCall (handle_id h) (succeeded_b r)) w, r))"

definition ack_opt :: "('s, 'w) ports \<Rightarrow> ack_handle option \<Rightarrow> ('s, 'w, unit) action" where
  "ack_opt P ho = (case ho of None \<Rightarrow> ok () | Some h \<Rightarrow> ack_call P h)"

definition term_opt :: "('s, 'w) ports \<Rightarrow> ack_handle option \<Rightarrow> ('s, 'w, unit) action" where
  "term_opt P ho = (case ho of None \<Rightarrow> ok () | Some h \<Rightarrow> term_call P h)"

definition publish_retry_call :: "publish \<Rightarrow> message \<Rightarrow> failure_context \<Rightarrow> ('s, 'w, unit) action" where
  "publish_retry_call pub m f w = (let r = pub (log w) m f in (logged (RetryCall m f (succeeded_b r)) w, r))"

definition publish_dead_letter_call ::
  "publish \<Rightarrow> message \<Rightarrow> failure_context \<Rightarrow> ('s, 'w, unit) action" where
  "publish_dead_letter_call pub m f w =
     (let r = pub (log w) m f in (logged (DeadLetterCall m f (succeeded_b r)) w, r))"

definition dispatch_call :: "('s, 'w) ports \<Rightarrow> message \<Rightarrow> ('s, 'w) world \<Rightarrow>
    ('s, 'w) world \<times> (consumer_error + message_result)" where
  "dispatch_call P m w =
     (let (a, r) = dispatch P (app w) m in (logged (DispatchCall m r) (w\<lparr>app := a\<rparr>), r))"

definition dispatch_batch_call :: "('s, 'w) ports \<Rightarrow> message list \<Rightarrow> ('s, 'w) world \<Rightarrow>
    ('s, 'w) world \<times> (consumer_error + message_result list)" where
  "dispatch_batch_call P ms w =
     (let (a, r) = dispatch_batch P (app w) ms in (logged (DispatchBatchCall ms r) (w\<lparr>app := a\<rparr>), r))"

section \<open>Idempotency\<close>

definition envelope_or_message_id :: "message \<Rightarrow> string" where
  "envelope_or_message_id m =
     (case msg_headers (mctx m) ''x-envelope-id'' of
        Some i \<Rightarrow> if trim i \<noteq> [] then i else message_id (mctx m)
      | None \<Rightarrow> message_id (mctx m))"

definition idempotency_key :: "message \<Rightarrow> string" where
  "idempotency_key m =
     (if trim (envelope_or_message_id m) \<noteq> []
      then topic (mctx m) @ '':'' @ envelope_or_message_id m
      else topic (mctx m) @ '':'' @ show_int (msg_partition (mctx m)) @ '':'' @ show_int (msg_offset (mctx m)))"

definition is_duplicate :: "('s, 'w) ports \<Rightarrow> message \<Rightarrow> ('s, 'w, bool) action" where
  "is_duplicate P m w =
     (case idempotency P of
        None \<Rightarrow> (w, Inr False)
      | Some i \<Rightarrow>
          (let r = is_consumed i (store w) (idempotency_key m)
           in (logged (CheckCall (idempotency_key m) r) w, r)))"

definition record_consumed :: "('s, 'w) ports \<Rightarrow> string \<Rightarrow> ('s, 'w, unit) action" where
  "record_consumed P k w =
     (case idempotency P of
        None \<Rightarrow> (w, Inr ())
      | Some i \<Rightarrow>
          (let (s, r) = record_key i (store w) k in (logged (RecordCall k (succeeded_b r)) (w\<lparr>store := s\<rparr>), r)))"

text \<open>The two stores of the crate.\<close>

definition noop_store :: "'s idempotency_port" where
  "noop_store = \<lparr>is_consumed = (\<lambda>s k. Inr False), record_key = (\<lambda>s k. (s, Inr ()))\<rparr>"

definition in_memory_store :: "string list idempotency_port" where
  "in_memory_store =
     \<lparr>is_consumed = (\<lambda>s k. Inr (k \<in> set s)), record_key = (\<lambda>s k. (List.insert k s, Inr ()))\<rparr>"

section \<open>Failure policy\<close>

definition failure_message :: "('s, 'w) ports \<Rightarrow> message \<Rightarrow> message option" where
  "failure_message P m =
     (if retry_port P \<noteq> None \<or> dead_letter_port P \<noteq> None then Some m else None)"

definition apply_failure_action ::
  "('s, 'w) ports \<Rightarrow> message option \<Rightarrow> ack_handle option \<Rightarrow> failure_action_kind \<Rightarrow> failure_context \<Rightarrow>
   ('s, 'w, unit) action" where
  "apply_failure_action P mo ho action f =
     (case action of
        DoRetry \<Rightarrow>
          (case retry_port P of
             Some pub \<Rightarrow>
               (case mo of
                  None \<Rightarrow> err (CRetry ''retry publisher requires the original message'')
                | Some m \<Rightarrow> and_then (publish_retry_call pub m f) (\<lambda>_. ack_opt P ho))
           | None \<Rightarrow>
               (case ho of
                  Some h \<Rightarrow>
                    if native_retry h then nack_call P h
                    else err (CRetry ''retry publisher is not configured and broker ack handle does not support native retry'')
                | None \<Rightarrow>
                    err (CRetry ''retry publisher is not configured and broker ack handle does not support native retry'')))
      | DoDeadLetter \<Rightarrow>
          (case dead_letter_port P of
             None \<Rightarrow>
               and_then
                 (case ho of
                    Some h \<Rightarrow> if native_retry h then nack_call P h else ok ()
                  | None \<Rightarrow> ok ())
                 (\<lambda>_. err (CDeadLetter ''dead-letter publisher is not configured; original message was not termed''))
           | Some pub \<Rightarrow>
               (case mo of
                  None \<Rightarrow> err (CDeadLetter ''dead-letter publisher requires the original message'')
                | Some m \<Rightarrow> and_then (publish_dead_letter_call pub m f) (\<lambda>_. term_opt P ho))))"

section \<open>One message\<close>

definition nack_context :: "string \<Rightarrow> message \<Rightarrow> failure_context" where
  "nack_context r m = \<lparr>fc_reason = r, fc_error = None, fc_retry_count = retry_count (mctx m)\<rparr>"

definition settle_result ::
  "('s, 'w) ports \<Rightarrow> retry_policy \<Rightarrow> message \<Rightarrow> message_result \<Rightarrow> ('s, 'w, unit) action" where
  "settle_result P pol m r =
     (case r of
        Ack \<Rightarrow> and_then (record_consumed P (idempotency_key m)) (\<lambda>_. ack_opt P (ack m))
      | Nack \<Rightarrow>
          apply_failure_action P (failure_message P m) (ack m)
            (action_for_nack pol (retry_count (mctx m))) (nack_context ''handler_nack'' m)
      | DeadLetter \<Rightarrow>
          apply_failure_action P (failure_message P m) (ack m)
            (action_for_dead_letter pol) (nack_context ''handler_dead_letter'' m))"

definition process_message ::
  "('s, 'w) ports \<Rightarrow> retry_policy \<Rightarrow> message \<Rightarrow> ('s, 'w, unit) action" where
  "process_message P pol m =
     and_then (is_duplicate P m) (\<lambda>dup.
       if dup then ack_opt P (ack m)
       else (\<lambda>w.
         (case dispatch_call P m w of
            (w', Inl e) \<Rightarrow>
              apply_failure_action P (failure_message P m) (ack m)
                (action_for_error pol e (retry_count (mctx m)))
                (failure_from_error ''handler_error'' e (retry_count (mctx m))) w'
          | (w', Inr r) \<Rightarrow> settle_result P pol m r w')))"

section \<open>A batch\<close>

text \<open>The messages that are not duplicates; duplicates are acknowledged on the way.\<close>

fun drop_duplicates :: "('s, 'w) ports \<Rightarrow> message list \<Rightarrow> ('s, 'w, message list) action" where
  "drop_duplicates P [] = ok []"
| "drop_duplicates P (m # ms) =
     and_then (is_duplicate P m) (\<lambda>dup.
       if dup then and_then (ack_opt P (ack m)) (\<lambda>_. drop_duplicates P ms)
       else and_then (drop_duplicates P ms) (\<lambda>rest. ok (m # rest)))"

definition first_error :: "consumer_error option \<Rightarrow> consumer_error + unit \<Rightarrow> consumer_error option" where
  "first_error fe r = (case fe of Some e \<Rightarrow> Some e | None \<Rightarrow> (case r of Inl e \<Rightarrow> Some e | Inr _ \<Rightarrow> None))"

fun error_loop ::
  "('s, 'w) ports \<Rightarrow> retry_policy \<Rightarrow> consumer_error \<Rightarrow> message list \<Rightarrow> consumer_error option \<Rightarrow>
   ('s, 'w, unit) action" where
  "error_loop P pol e [] fe w = (w, case fe of Some e' \<Rightarrow> Inl e' | None \<Rightarrow> Inr ())"
| "error_loop P pol e (m # ms) fe w =
     (case apply_failure_action P (failure_message P m) (ack m)
             (action_for_error pol e (retry_count (mctx m)))
             (failure_from_error ''batch_handler_error'' e (retry_count (mctx m))) w of
        (w', r) \<Rightarrow> error_loop P pol e ms (first_error fe r) w')"

definition apply_error_to_all ::
  "('s, 'w) ports \<Rightarrow> retry_policy \<Rightarrow> consumer_error \<Rightarrow> message list \<Rightarrow> ('s, 'w, unit) action" where
  "apply_error_to_all P pol e ms = error_loop P pol e ms None"

text \<open>
  The loop over messages and results: a failing record of consumption leaves the loop at once, every
  other failure is remembered and the loop goes on.
\<close>

fun settle_loop ::
  "('s, 'w) ports \<Rightarrow> retry_policy \<Rightarrow> (message \<times> message_result) list \<Rightarrow> consumer_error option \<Rightarrow>
   ('s, 'w, unit) action" where
  "settle_loop P pol [] fe w = (w, case fe of Some e' \<Rightarrow> Inl e' | None \<Rightarrow> Inr ())"
| "settle_loop P pol ((m, r) # rest) fe w =
     (if r = Ack then
        (case record_consumed P (idempotency_key m) w of
           (w', Inl e) \<Rightarrow> (w', Inl e)
         | (w', Inr _) \<Rightarrow>
             (case ack_opt P (ack m) w' of
                (w'', res) \<Rightarrow> settle_loop P pol rest (first_error fe res) w''))
      else
        (case settle_result P pol m r w of
           (w', res) \<Rightarrow> settle_loop P pol rest (first_error fe res) w'))"

definition count_mismatch :: "nat \<Rightarrow> nat \<Rightarrow> consumer_error" where
  "count_mismatch k n =
     CHandler (''batch handler returned '' @ show_nat k @ '' results for '' @ show_nat n @ '' messages'')"

definition process_batch ::
  "('s, 'w) ports \<Rightarrow> retry_policy \<Rightarrow> message list \<Rightarrow> ('s, 'w, unit) action" where
  "process_batch P pol ms =
     (if ms = [] then ok ()
      else and_then (drop_duplicates P ms) (\<lambda>fresh.
        if fresh = [] then ok ()
        else (\<lambda>w.
          (case dispatch_batch_call P fresh w of
             (w', Inl e) \<Rightarrow> apply_error_to_all P pol e fresh w'
           | (w', Inr rs) \<Rightarrow>
               if length rs \<noteq> length fresh then
                 and_then (apply_error_to_all P pol (count_mismatch (length rs) (length fresh)) fresh)
                   (\<lambda>_. err (count_mismatch (length rs) (length fresh))) w'
               else settle_loop P pol (zip fresh rs) None w'))))"

section \<open>The protocol of one message\<close>

text \<open>
  The abstract specification: which sequences of calls are allowed for one message. \<open>fate m d b\<close>: the
  calls \<open>d\<close> of the failure policy, \<open>b\<close> says whether they end well; \<open>message_trace\<close> likewise for the
  whole processing. A settled message has exactly one call to its broker handle, the last one.
\<close>

inductive fate :: "message \<Rightarrow> call list \<Rightarrow> bool \<Rightarrow> bool" for m :: message where
  fate_undeliverable: "fate m [] False"
| fate_retry_failed: "fate m [RetryCall m f False] False"
| fate_retried_free: "ack m = None \<Longrightarrow> fate m [RetryCall m f True] True"
| fate_retried: "ack m = Some h \<Longrightarrow> fate m [RetryCall m f True, AckCall (handle_id h) b] b"
| fate_native: "ack m = Some h \<Longrightarrow> native_retry h \<Longrightarrow> b' \<longrightarrow> b \<Longrightarrow> fate m [NackCall (handle_id h) b] b'"
| fate_dead_failed: "fate m [DeadLetterCall m f False] False"
| fate_dead_free: "ack m = None \<Longrightarrow> fate m [DeadLetterCall m f True] True"
| fate_dead: "ack m = Some h \<Longrightarrow> fate m [DeadLetterCall m f True, TermCall (handle_id h) b] b"

inductive settles_ack :: "message \<Rightarrow> call list \<Rightarrow> bool \<Rightarrow> bool" for m :: message where
  settles_free: "ack m = None \<Longrightarrow> settles_ack m [] True"
| settles_ack: "ack m = Some h \<Longrightarrow> settles_ack m [AckCall (handle_id h) b] b"

inductive after_dispatch :: "message \<Rightarrow> consumer_error + message_result \<Rightarrow> call list \<Rightarrow> bool \<Rightarrow> bool"
  for m :: message where
  after_failure: "r \<noteq> Inr Ack \<Longrightarrow> fate m d b \<Longrightarrow> after_dispatch m r d b"
| after_record_failed: "after_dispatch m (Inr Ack) [RecordCall (idempotency_key m) False] False"
| after_recorded: "settles_ack m d b \<Longrightarrow>
     after_dispatch m (Inr Ack) (RecordCall (idempotency_key m) True # d) b"
| after_unrecorded: "settles_ack m d b \<Longrightarrow> after_dispatch m (Inr Ack) d b"

inductive message_trace :: "message \<Rightarrow> call list \<Rightarrow> bool \<Rightarrow> bool" for m :: message where
  trace_check_failed: "message_trace m [CheckCall (idempotency_key m) (Inl e)] False"
| trace_duplicate: "settles_ack m d b \<Longrightarrow>
     message_trace m (CheckCall (idempotency_key m) (Inr True) # d) b"
| trace_checked: "after_dispatch m r d b \<Longrightarrow>
     message_trace m (CheckCall (idempotency_key m) (Inr False) # DispatchCall m r # d) b"
| trace_unchecked: "after_dispatch m r d b \<Longrightarrow> message_trace m (DispatchCall m r # d) b"

lemmas fate_intros = fate.intros

lemmas action_defs =
  and_then_def ok_def err_def logged_def ack_call_def nack_call_def term_call_def ack_opt_def
  term_opt_def publish_retry_call_def publish_dead_letter_call_def

lemma succeeded_b_simps [simp]: "succeeded_b (Inl e) = False" "succeeded_b (Inr x) = True"
  by (simp_all add: succeeded_b_def)

lemma ack_opt_trace:
  assumes "ack_opt P (ack m) w = (w', r)"
  shows "\<exists>d. log w' = log w @ d \<and> store w' = store w \<and> app w' = app w \<and> settles_ack m d (succeeded_b r)"
proof (cases "ack m")
  case None
  with assms show ?thesis by (auto simp: ack_opt_def ok_def intro!: settles_free)
next
  case (Some h)
  with assms have "w' = logged (AckCall (handle_id h) (succeeded_b r)) w"
    by (auto simp: ack_opt_def ack_call_def Let_def)
  with settles_ack [OF Some, of "succeeded_b r"] show ?thesis by (auto simp: logged_def)
qed

lemma apply_retry_fate:
  assumes "apply_failure_action P (failure_message P m) (ack m) DoRetry f w = (w', r)"
  shows "\<exists>d. log w' = log w @ d \<and> store w' = store w \<and> app w' = app w \<and> fate m d (succeeded_b r)"
proof (cases "retry_port P")
  case None
  with assms show ?thesis
    by (auto simp: apply_failure_action_def action_defs Let_def fate_undeliverable fate_native
        split: option.splits if_splits)
next
  case (Some pub)
  then have m: "failure_message P m = Some m" by (simp add: failure_message_def)
  show ?thesis
  proof (cases "pub (log w) m f")
    case (Inl e)
    with Some m assms have "w' = logged (RetryCall m f False) w" and "r = Inl e"
      by (simp_all add: apply_failure_action_def and_then_def publish_retry_call_def Let_def)
    with fate_retry_failed show ?thesis by (simp add: logged_def)
  next
    case (Inr u)
    with Some m assms have "ack_opt P (ack m) (logged (RetryCall m f True) w) = (w', r)"
      by (simp add: apply_failure_action_def and_then_def publish_retry_call_def Let_def)
    with fate_retried_free fate_retried show ?thesis
      by (auto simp: ack_opt_def ack_call_def logged_def ok_def Let_def split: option.splits)
  qed
qed

lemma apply_dead_letter_fate:
  assumes "apply_failure_action P (failure_message P m) (ack m) DoDeadLetter f w = (w', r)"
  shows "\<exists>d. log w' = log w @ d \<and> store w' = store w \<and> app w' = app w \<and> fate m d (succeeded_b r)"
proof (cases "dead_letter_port P")
  case None
  show ?thesis
  proof (cases "ack m")
    case None2: None
    with None assms show ?thesis
      by (auto simp: apply_failure_action_def and_then_def ok_def err_def fate_undeliverable)
  next
    case (Some h)
    show ?thesis
    proof (cases "native_retry h")
      case False
      with None Some assms show ?thesis
        by (auto simp: apply_failure_action_def and_then_def ok_def err_def fate_undeliverable)
    next
      case True
      let ?b = "succeeded_b (broker_nack P (log w) (handle_id h))"
      have "w' = logged (NackCall (handle_id h) ?b) w \<and> \<not> succeeded_b r"
        using None Some True assms
        by (cases "broker_nack P (log w) (handle_id h)")
          (simp_all add: apply_failure_action_def and_then_def nack_call_def err_def Let_def,
           (metis succeeded_b_simps(1))+)
      with fate_native [OF Some True, of False ?b] show ?thesis by (simp add: logged_def)
    qed
  qed
next
  case (Some pub)
  then have m: "failure_message P m = Some m" by (simp add: failure_message_def)
  show ?thesis
  proof (cases "pub (log w) m f")
    case (Inl e)
    with Some m assms have "w' = logged (DeadLetterCall m f False) w" and "r = Inl e"
      by (simp_all add: apply_failure_action_def and_then_def publish_dead_letter_call_def Let_def)
    with fate_dead_failed show ?thesis by (simp add: logged_def)
  next
    case (Inr u)
    with Some m assms have "term_opt P (ack m) (logged (DeadLetterCall m f True) w) = (w', r)"
      by (simp add: apply_failure_action_def and_then_def publish_dead_letter_call_def Let_def)
    with fate_dead_free fate_dead show ?thesis
      by (auto simp: term_opt_def term_call_def logged_def ok_def Let_def split: option.splits)
  qed
qed

lemma apply_fate:
  assumes "apply_failure_action P (failure_message P m) (ack m) a f w = (w', r)"
  shows "\<exists>d. log w' = log w @ d \<and> store w' = store w \<and> app w' = app w \<and> fate m d (succeeded_b r)"
  using assms apply_retry_fate apply_dead_letter_fate by (cases a) blast+

lemma settle_result_trace:
  assumes "settle_result P pol m res w = (w', r)"
  shows "\<exists>d. log w' = log w @ d \<and> after_dispatch m (Inr res) d (succeeded_b r)"
proof (cases "res = Ack")
  case False
  then have "res = Nack \<or> res = DeadLetter" by (cases res) simp_all
  with assms obtain a f where "apply_failure_action P (failure_message P m) (ack m) a f w = (w', r)"
    by (auto simp: settle_result_def)
  from apply_fate [OF this] False show ?thesis by (blast intro: after_failure)
next
  case True
  with assms have a: "and_then (record_consumed P (idempotency_key m)) (\<lambda>_. ack_opt P (ack m)) w = (w', r)"
    by (simp add: settle_result_def)
  show ?thesis
  proof (cases "idempotency P")
    case None
    with a have "ack_opt P (ack m) w = (w', r)" by (simp add: and_then_def record_consumed_def)
    from ack_opt_trace [OF this] True show ?thesis by (blast intro: after_unrecorded)
  next
    case (Some i)
    obtain s res' where rk: "record_key i (store w) (idempotency_key m) = (s, res')" by fastforce
    show ?thesis
    proof (cases res')
      case (Inl e)
      with a Some rk True after_record_failed show ?thesis
        by (auto simp: and_then_def record_consumed_def logged_def)
    next
      case (Inr u)
      with a Some rk have "ack_opt P (ack m) (logged (RecordCall (idempotency_key m) True) (w\<lparr>store := s\<rparr>)) = (w', r)"
        by (simp add: and_then_def record_consumed_def)
      from ack_opt_trace [OF this] obtain d
        where "log w' = log w @ RecordCall (idempotency_key m) True # d" "settles_ack m d (succeeded_b r)"
        by (auto simp: logged_def)
      with True show ?thesis by (blast intro: after_recorded)
    qed
  qed
qed

text \<open>The detailed definition implements the protocol.\<close>

lemma process_message_trace:
  assumes "process_message P pol m w = (w', r)"
  shows "\<exists>d. log w' = log w @ d \<and> message_trace m d (succeeded_b r)"
proof -
  have dispatched: "\<exists>d. log w2 = log w1 @ DispatchCall m q # d \<and> after_dispatch m q d (succeeded_b r2)"
    if "dispatch_call P m w1 = (w1', q)"
      and "(case (w1', q) of (w', Inl e) \<Rightarrow>
              apply_failure_action P (failure_message P m) (ack m)
                (action_for_error pol e (retry_count (mctx m)))
                (failure_from_error ''handler_error'' e (retry_count (mctx m))) w'
          | (w', Inr r) \<Rightarrow> settle_result P pol m r w') = (w2, r2)" for w1 w1' q w2 r2
  proof -
    have l: "log w1' = log w1 @ [DispatchCall m q]"
      using that(1) by (auto simp: dispatch_call_def logged_def split: prod.splits)
    show ?thesis
    proof (cases q)
      case (Inl e)
      with that(2) have "\<exists>a f. apply_failure_action P (failure_message P m) (ack m) a f w1' = (w2, r2)" by auto
      with apply_fate l Inl show ?thesis by (fastforce intro: after_failure)
    next
      case (Inr res)
      with that(2) have "settle_result P pol m res w1' = (w2, r2)" by simp
      from settle_result_trace [OF this] l Inr show ?thesis by auto
    qed
  qed
  show ?thesis
  proof (cases "idempotency P")
    case None
    obtain w1 q where d: "dispatch_call P m w = (w1, q)" by fastforce
    from dispatched [OF this, of w' r] None assms d show ?thesis
      by (auto simp: process_message_def and_then_def is_duplicate_def intro: trace_unchecked)
  next
    case (Some i)
    let ?k = "idempotency_key m"
    let ?c = "is_consumed i (store w) ?k"
    let ?w = "logged (CheckCall ?k ?c) w"
    show ?thesis
    proof (cases ?c)
      case (Inl e)
      with Some assms show ?thesis
        by (auto simp: process_message_def and_then_def is_duplicate_def logged_def Let_def intro: trace_check_failed)
    next
      case (Inr dup)
      show ?thesis
      proof (cases dup)
        case True
        with Inr Some assms have "ack_opt P (ack m) ?w = (w', r)"
          by (simp add: process_message_def and_then_def is_duplicate_def Let_def)
        from ack_opt_trace [OF this] Inr True show ?thesis
          by (auto simp: logged_def intro: trace_duplicate)
      next
        case False
        obtain w1 q where d: "dispatch_call P m ?w = (w1, q)" by fastforce
        from dispatched [OF this, of w' r] Some Inr False assms d show ?thesis
          by (auto simp: process_message_def and_then_def is_duplicate_def logged_def Let_def intro: trace_checked)
      qed
    qed
  qed
qed

section \<open>What the protocol guarantees\<close>

fun settlement_of :: "call \<Rightarrow> (nat \<times> bool) option" where
  "settlement_of (AckCall h b) = Some (h, b)"
| "settlement_of (NackCall h b) = Some (h, b)"
| "settlement_of (TermCall h b) = Some (h, b)"
| "settlement_of _ = None"

definition settlements :: "call list \<Rightarrow> (nat \<times> bool) list" where
  "settlements d = List.map_filter settlement_of d"

lemma settlements_simps [simp]:
  "settlements [] = []"
  "settlements (c # d) = (case settlement_of c of None \<Rightarrow> [] | Some x \<Rightarrow> [x]) @ settlements d"
  "settlements (d @ d') = settlements d @ settlements d'"
  by (simp_all add: settlements_def map_filter_def split: option.split)

text \<open>The settlements a processing may make: none if it fails, at most one, none without a handle.\<close>

definition settles_once :: "message \<Rightarrow> (nat \<times> bool) list \<Rightarrow> bool \<Rightarrow> bool" where
  "settles_once m ss b \<longleftrightarrow>
     (case ack m of
        None \<Rightarrow> ss = []
      | Some h \<Rightarrow> (ss = [] \<and> \<not> b) \<or> (\<exists>b'. ss = [(handle_id h, b')] \<and> (b \<longrightarrow> b')))"

lemma fate_settles: "fate m d b \<Longrightarrow> settles_once m (settlements d) b"
  by (induction rule: fate.induct) (auto simp: settles_once_def split: option.split)

lemma settles_ack_once: "settles_ack m d b \<Longrightarrow> settles_once m (settlements d) b"
  by (induction rule: settles_ack.induct) (auto simp: settles_once_def split: option.split)

lemma not_settled: "settles_once m [] False"
  by (simp add: settles_once_def split: option.split)

lemma after_dispatch_settles: "after_dispatch m r d b \<Longrightarrow> settles_once m (settlements d) b"
  by (induction rule: after_dispatch.induct) (simp_all add: fate_settles settles_ack_once not_settled)

lemma message_trace_settles: "message_trace m d b \<Longrightarrow> settles_once m (settlements d) b"
  by (induction rule: message_trace.induct)
    (simp_all add: settles_ack_once after_dispatch_settles not_settled)

text \<open>An acknowledgement or a termination is the last call, and what justifies it is before it.\<close>

definition justified :: "message \<Rightarrow> call list \<Rightarrow> call \<Rightarrow> bool" where
  "justified m pre c =
     (case c of
        AckCall h b \<Rightarrow>
          CheckCall (idempotency_key m) (Inr True) \<in> set pre \<or>
          DispatchCall m (Inr Ack) \<in> set pre \<and> RecordCall (idempotency_key m) False \<notin> set pre \<or>
          (\<exists>f. RetryCall m f True \<in> set pre)
      | TermCall h b \<Rightarrow> (\<exists>f. DeadLetterCall m f True \<in> set pre)
      | _ \<Rightarrow> True)"

lemma fate_justified: "fate m d b \<Longrightarrow> d = pre @ c # post \<Longrightarrow> justified m (us @ pre) c"
  by (induction rule: fate.induct)
    (auto simp: justified_def Cons_eq_append_conv append_eq_Cons_conv split: call.split)

lemma settles_ack_last: "settles_ack m d b \<Longrightarrow> d = pre @ c # post \<Longrightarrow> pre = [] \<and> (\<exists>h b'. c = AckCall h b')"
  by (induction rule: settles_ack.induct) (auto simp: Cons_eq_append_conv)

lemma after_dispatch_justified:
  "after_dispatch m r d b \<Longrightarrow> d = pre @ c # post \<Longrightarrow> DispatchCall m r \<in> set us \<Longrightarrow>
   RecordCall (idempotency_key m) False \<notin> set us \<Longrightarrow> justified m (us @ pre) c"
proof (induction rule: after_dispatch.induct)
  case (after_failure r d b)
  then show ?case by (simp add: fate_justified)
next
  case after_record_failed
  then show ?case by (auto simp: justified_def Cons_eq_append_conv)
next
  case (after_recorded d b)
  then consider "pre = []" "c = RecordCall (idempotency_key m) True"
    | pre' where "pre = RecordCall (idempotency_key m) True # pre'" "d = pre' @ c # post"
    by (auto simp: Cons_eq_append_conv)
  then show ?case
  proof cases
    case 1
    then show ?thesis by (simp add: justified_def)
  next
    case 2
    from settles_ack_last [OF after_recorded.hyps 2(2)] 2 after_recorded.prems show ?thesis
      by (auto simp: justified_def)
  qed
next
  case (after_unrecorded d b)
  from settles_ack_last [OF after_unrecorded.hyps after_unrecorded.prems(1)] after_unrecorded.prems
  show ?case by (auto simp: justified_def)
qed

lemma message_trace_justified:
  assumes "message_trace m d b" and "d = pre @ c # post"
  shows "justified m pre c"
  using assms
proof (induction rule: message_trace.induct)
  case (trace_check_failed e)
  then show ?case by (auto simp: justified_def Cons_eq_append_conv)
next
  case (trace_duplicate d b)
  from trace_duplicate.prems consider "c = CheckCall (idempotency_key m) (Inr True)"
    | pre' where "pre = CheckCall (idempotency_key m) (Inr True) # pre'" "d = pre' @ c # post"
    by (auto simp: Cons_eq_append_conv)
  then show ?case
  proof cases
    case 2
    with settles_ack_last [OF trace_duplicate.hyps 2(2)] show ?thesis by (auto simp: justified_def)
  qed (simp add: justified_def)
next
  case (trace_checked r d b)
  let ?us = "[CheckCall (idempotency_key m) (Inr False), DispatchCall m r]"
  from trace_checked.prems consider "c = CheckCall (idempotency_key m) (Inr False)" | "c = DispatchCall m r"
    | pre' where "pre = ?us @ pre'" "d = pre' @ c # post"
    by (auto simp: Cons_eq_append_conv)
  then show ?case
  proof cases
    case 3
    with after_dispatch_justified [OF trace_checked.hyps 3(2), of ?us] show ?thesis by simp
  qed (simp_all add: justified_def)
next
  case (trace_unchecked r d b)
  from trace_unchecked.prems consider "c = DispatchCall m r"
    | pre' where "pre = [DispatchCall m r] @ pre'" "d = pre' @ c # post"
    by (auto simp: Cons_eq_append_conv)
  then show ?case
  proof cases
    case 2
    with after_dispatch_justified [OF trace_unchecked.hyps 2(2), of "[DispatchCall m r]"] show ?thesis by simp
  qed (simp add: justified_def)
qed

section \<open>Batches\<close>

text \<open>Settlements of a batch: at most one per message, and one for each when all ends well.\<close>

definition handles :: "message list \<Rightarrow> nat list" where
  "handles ms = map handle_id (List.map_filter ack ms)"

lemma handles_simps [simp]:
  "handles [] = []"
  "handles (m # ms) = (case ack m of None \<Rightarrow> [] | Some h \<Rightarrow> [handle_id h]) @ handles ms"
  by (simp_all add: handles_def map_filter_def split: option.split)

lemma settles_once_handles:
  "settles_once m ss b \<Longrightarrow> mset (map fst ss) \<subseteq># mset (handles [m])"
  "settles_once m ss True \<Longrightarrow> map fst ss = handles [m] \<and> (\<forall>x \<in> set ss. snd x)"
  by (auto simp: settles_once_def split: option.splits)

lemma settles_once_cons:
  assumes "settles_once m ss b" and "mset (map fst ss') \<subseteq># mset (handles ms)"
  shows "mset (map fst (ss @ ss')) \<subseteq># mset (handles (m # ms))"
proof -
  have "mset (map fst ss) + mset (map fst ss') \<subseteq># mset (handles [m]) + mset (handles ms)"
    using settles_once_handles(1) [OF assms(1)] assms(2) by (rule subset_mset.add_mono)
  then show ?thesis by (simp split: option.split)
qed

definition ends_well :: "(nat \<times> bool) list \<Rightarrow> message list \<Rightarrow> bool" where
  "ends_well ss ms \<longleftrightarrow> map fst ss = handles ms \<and> (\<forall>x \<in> set ss. snd x)"

lemma ends_well_cons:
  "settles_once m ss True \<Longrightarrow> ends_well ss' ms \<Longrightarrow> ends_well (ss @ ss') (m # ms)"
  using settles_once_handles(2) [of m ss] by (auto simp: ends_well_def split: option.split)

lemma error_loop_settles:
  "error_loop P pol e ms fe w = (w', r) \<Longrightarrow>
   \<exists>d. log w' = log w @ d \<and> mset (map fst (settlements d)) \<subseteq># mset (handles ms) \<and>
       (r = Inr () \<longrightarrow> fe = None \<and> ends_well (settlements d) ms)"
proof (induction ms arbitrary: fe w)
  case Nil
  then show ?case by (auto simp: ends_well_def split: option.splits)
next
  case (Cons m ms)
  obtain w1 r1 where a: "apply_failure_action P (failure_message P m) (ack m)
      (action_for_error pol e (retry_count (mctx m)))
      (failure_from_error ''batch_handler_error'' e (retry_count (mctx m))) w = (w1, r1)" by fastforce
  from apply_fate [OF a] obtain d1 where d1: "log w1 = log w @ d1" "fate m d1 (succeeded_b r1)" by blast
  have "error_loop P pol e ms (first_error fe r1) w1 = (w', r)" using Cons.prems a by simp
  from Cons.IH [OF this] obtain d2 where d2: "log w' = log w1 @ d2"
    "mset (map fst (settlements d2)) \<subseteq># mset (handles ms)"
    "r = Inr () \<longrightarrow> first_error fe r1 = None \<and> ends_well (settlements d2) ms" by blast
  note s1 = fate_settles [OF d1(2)]
  have "mset (map fst (settlements (d1 @ d2))) \<subseteq># mset (handles (m # ms))"
    using settles_once_cons [OF s1 d2(2)] by simp
  moreover have "fe = None \<and> ends_well (settlements (d1 @ d2)) (m # ms)" if "r = Inr ()"
  proof -
    from that d2(3) have "first_error fe r1 = None" and e2: "ends_well (settlements d2) ms" by auto
    then have "fe = None" and "succeeded_b r1"
      by (auto simp: first_error_def split: option.splits sum.splits)
    with ends_well_cons [of m "settlements d1", OF _ e2] s1 show ?thesis by simp
  qed
  ultimately show ?case using d1(1) d2(1) by (intro exI [of _ "d1 @ d2"]) auto
qed

lemma record_consumed_log:
  "record_consumed P k w = (w', r) \<Longrightarrow> \<exists>d. log w' = log w @ d \<and> settlements d = []"
  by (auto simp: record_consumed_def logged_def split: option.splits prod.splits)

lemma settle_loop_settles:
  "settle_loop P pol mrs fe w = (w', r) \<Longrightarrow>
   \<exists>d. log w' = log w @ d \<and> mset (map fst (settlements d)) \<subseteq># mset (handles (map fst mrs)) \<and>
       (r = Inr () \<longrightarrow> fe = None \<and> ends_well (settlements d) (map fst mrs))"
proof (induction mrs arbitrary: fe w)
  case Nil
  then show ?case by (auto simp: ends_well_def split: option.splits)
next
  case (Cons mr mrs)
  obtain m res where mr: "mr = (m, res)" by fastforce
  have step: "\<exists>d. log w' = log w @ d \<and> mset (map fst (settlements d)) \<subseteq># mset (handles (map fst (mr # mrs))) \<and>
       (r = Inr () \<longrightarrow> fe = None \<and> ends_well (settlements d) (map fst (mr # mrs)))"
    if "settle_loop P pol mrs (first_error fe r1) w1 = (w', r)" and "log w1 = log w @ d1"
      and "settles_once m (settlements d1) (succeeded_b r1)" for w1 r1 d1
  proof -
    from Cons.IH [OF that(1)] obtain d2 where d2: "log w' = log w1 @ d2"
      "mset (map fst (settlements d2)) \<subseteq># mset (handles (map fst mrs))"
      "r = Inr () \<longrightarrow> first_error fe r1 = None \<and> ends_well (settlements d2) (map fst mrs)" by blast
    have "mset (map fst (settlements (d1 @ d2))) \<subseteq># mset (handles (map fst (mr # mrs)))"
      using settles_once_cons [OF that(3) d2(2)] mr by simp
    moreover have "fe = None \<and> ends_well (settlements (d1 @ d2)) (map fst (mr # mrs))" if ok: "r = Inr ()"
    proof -
      from ok d2(3) have "first_error fe r1 = None" and e2: "ends_well (settlements d2) (map fst mrs)" by auto
      then have "fe = None" and "succeeded_b r1"
        by (auto simp: first_error_def split: option.splits sum.splits)
      with ends_well_cons [of m "settlements d1", OF _ e2] \<open>settles_once m (settlements d1) (succeeded_b r1)\<close>
      show ?thesis by (simp add: mr)
    qed
    ultimately show ?thesis using that(2) d2(1) by (intro exI [of _ "d1 @ d2"]) auto
  qed
  show ?case
  proof (cases "res = Ack")
    case True
    obtain w1 r1 where rc: "record_consumed P (idempotency_key m) w = (w1, r1)" by fastforce
    from record_consumed_log [OF this] obtain d0 where d0: "log w1 = log w @ d0" "settlements d0 = []" by blast
    show ?thesis
    proof (cases r1)
      case (Inl e)
      with Cons.prems mr True rc have "w' = w1" "r = Inl e" by simp_all
      with d0 show ?thesis by auto
    next
      case (Inr u)
      obtain w2 r2 where ak: "ack_opt P (ack m) w1 = (w2, r2)" by fastforce
      from ack_opt_trace [OF this] obtain d1 where d1: "log w2 = log w1 @ d1"
        "settles_ack m d1 (succeeded_b r2)" by blast
      have "settles_once m (settlements (d0 @ d1)) (succeeded_b r2)"
        using settles_ack_once [OF d1(2)] d0(2) by simp
      moreover have "settle_loop P pol mrs (first_error fe r2) w2 = (w', r)"
        using Cons.prems mr True rc Inr ak by simp
      ultimately show ?thesis using d0(1) d1(1) by (intro step [of r2 w2 "d0 @ d1"]) simp_all
    qed
  next
    case False
    obtain w1 r1 where sr: "settle_result P pol m res w = (w1, r1)" by fastforce
    from settle_result_trace [OF this] obtain d1 where d1: "log w1 = log w @ d1"
      "after_dispatch m (Inr res) d1 (succeeded_b r1)" by blast
    have "settle_loop P pol mrs (first_error fe r1) w1 = (w', r)"
      using Cons.prems mr False sr by simp
    with d1 after_dispatch_settles [OF d1(2)] show ?thesis by (intro step [of r1 w1 d1]) simp_all
  qed
qed

lemma is_duplicate_log:
  "is_duplicate P m w = (w', r) \<Longrightarrow> \<exists>d. log w' = log w @ d \<and> settlements d = []"
  by (auto simp: is_duplicate_def logged_def Let_def split: option.splits)

lemma handles_Cons_mset: "mset (handles (m # ms)) = mset (handles [m]) + mset (handles ms)"
  by (simp split: option.split)

lemma drop_duplicates_settles:
  "drop_duplicates P ms w = (w', r) \<Longrightarrow>
   \<exists>d. log w' = log w @ d \<and> mset (map fst (settlements d)) \<subseteq># mset (handles ms) \<and>
       (\<forall>fresh. r = Inr fresh \<longrightarrow> (\<forall>x \<in> set (settlements d). snd x) \<and>
          mset (map fst (settlements d)) + mset (handles fresh) = mset (handles ms))"
proof (induction ms arbitrary: w w' r)
  case Nil
  then show ?case by (auto simp: ok_def)
next
  case (Cons m ms)
  obtain w1 r1 where dup: "is_duplicate P m w = (w1, r1)" by fastforce
  from is_duplicate_log [OF this] obtain d0 where d0: "log w1 = log w @ d0" "settlements d0 = []" by blast
  show ?case
  proof (cases r1)
    case (Inl e)
    with Cons.prems dup have "w' = w1" "r = Inl e" by (simp_all add: and_then_def)
    with d0 show ?thesis by auto
  next
    case (Inr b)
    show ?thesis
    proof (cases b)
      case True
      obtain w2 r2 where ak: "ack_opt P (ack m) w1 = (w2, r2)" by fastforce
      from ack_opt_trace [OF this] obtain d1 where d1: "log w2 = log w1 @ d1"
        "settles_ack m d1 (succeeded_b r2)" by blast
      note s1 = settles_ack_once [OF d1(2)]
      show ?thesis
      proof (cases r2)
        case (Inl e)
        with Cons.prems dup Inr True ak have "w' = w2" "r = Inl e" by (simp_all add: and_then_def)
        moreover have "mset (map fst (settlements (d0 @ d1))) \<subseteq># mset (handles (m # ms))"
          using settles_once_cons [OF s1, of "[]" ms] d0(2) by simp
        ultimately show ?thesis using d0(1) d1(1) by (intro exI [of _ "d0 @ d1"]) auto
      next
        case r2: (Inr u)
        then have one: "map fst (settlements d1) = handles [m]" "\<forall>x \<in> set (settlements d1). snd x"
          using settles_once_handles(2) [of m "settlements d1"] s1 by simp_all
        have "drop_duplicates P ms w2 = (w', r)"
          using Cons.prems dup Inr True ak r2 by (simp add: and_then_def)
        from Cons.IH [OF this] obtain d2 where d2: "log w' = log w2 @ d2"
          "mset (map fst (settlements d2)) \<subseteq># mset (handles ms)"
          "\<forall>fresh. r = Inr fresh \<longrightarrow> (\<forall>x \<in> set (settlements d2). snd x) \<and>
             mset (map fst (settlements d2)) + mset (handles fresh) = mset (handles ms)" by blast
        have "mset (map fst (settlements (d0 @ d1 @ d2))) \<subseteq># mset (handles (m # ms))"
          using settles_once_cons [OF s1 d2(2)] d0(2) by simp
        moreover have "(\<forall>x \<in> set (settlements (d0 @ d1 @ d2)). snd x) \<and>
            mset (map fst (settlements (d0 @ d1 @ d2))) + mset (handles fresh) = mset (handles (m # ms))"
          if "r = Inr fresh" for fresh
          using d2(3) that one d0(2) handles_Cons_mset [of m ms]
          by (auto simp del: handles_simps(2))
        ultimately show ?thesis using d0(1) d1(1) d2(1) by (intro exI [of _ "d0 @ d1 @ d2"]) auto
      qed
    next
      case False
      obtain w2 r2 where rec: "drop_duplicates P ms w1 = (w2, r2)" by fastforce
      from Cons.IH [OF this] obtain d2 where d2: "log w2 = log w1 @ d2"
        "mset (map fst (settlements d2)) \<subseteq># mset (handles ms)"
        "\<forall>fresh. r2 = Inr fresh \<longrightarrow> (\<forall>x \<in> set (settlements d2). snd x) \<and>
           mset (map fst (settlements d2)) + mset (handles fresh) = mset (handles ms)" by blast
      have w: "w' = w2" and r: "\<And>fresh. r = Inr fresh \<Longrightarrow> \<exists>rest. r2 = Inr rest \<and> fresh = m # rest"
        using Cons.prems dup Inr False rec by (auto simp: and_then_def ok_def split: sum.splits)
      have "mset (map fst (settlements (d0 @ d2))) \<subseteq># mset (handles (m # ms))"
      proof -
        have "mset (handles ms) \<subseteq># mset (handles (m # ms))" by (simp split: option.split)
        with d2(2) have "mset (map fst (settlements d2)) \<subseteq># mset (handles (m # ms))"
          by (rule subset_mset.order_trans)
        with d0(2) show ?thesis by simp
      qed
      moreover have "(\<forall>x \<in> set (settlements (d0 @ d2)). snd x) \<and>
          mset (map fst (settlements (d0 @ d2))) + mset (handles fresh) = mset (handles (m # ms))"
        if "r = Inr fresh" for fresh
      proof -
        from r [OF that] obtain rest where rest: "r2 = Inr rest" "fresh = m # rest" by blast
        with d2(3) have "\<forall>x \<in> set (settlements d2). snd x"
          "mset (map fst (settlements d2)) + mset (handles rest) = mset (handles ms)" by auto
        then show ?thesis using rest d0(2) handles_Cons_mset [of m rest] handles_Cons_mset [of m ms]
          by (simp add: ac_simps del: handles_simps(2))
      qed
      ultimately show ?thesis using w d0(1) d2(1) by (intro exI [of _ "d0 @ d2"]) auto
    qed
  qed
qed

lemma process_batch_settles:
  assumes "process_batch P pol ms w = (w', r)"
  shows "\<exists>d. log w' = log w @ d \<and> mset (map fst (settlements d)) \<subseteq># mset (handles ms) \<and>
       (r = Inr () \<longrightarrow> mset (map fst (settlements d)) = mset (handles ms) \<and> (\<forall>x \<in> set (settlements d). snd x))"
proof (cases "ms = []")
  case True
  with assms show ?thesis by (auto simp: process_batch_def ok_def)
next
  case False
  obtain w1 r1 where dd: "drop_duplicates P ms w = (w1, r1)" by fastforce
  from drop_duplicates_settles [OF this] obtain d1 where d1: "log w1 = log w @ d1"
    "mset (map fst (settlements d1)) \<subseteq># mset (handles ms)"
    "\<forall>fresh. r1 = Inr fresh \<longrightarrow> (\<forall>x \<in> set (settlements d1). snd x) \<and>
       mset (map fst (settlements d1)) + mset (handles fresh) = mset (handles ms)" by blast
  show ?thesis
  proof (cases r1)
    case (Inl e)
    with assms False dd have "w' = w1" "r = Inl e" by (simp_all add: process_batch_def and_then_def)
    with d1 show ?thesis by auto
  next
    case (Inr fresh)
    with d1(3) have f: "\<forall>x \<in> set (settlements d1). snd x"
      "mset (map fst (settlements d1)) + mset (handles fresh) = mset (handles ms)" by auto
    have finish: ?thesis
      if "log w' = log w1 @ d2" and "mset (map fst (settlements d2)) \<subseteq># mset (handles fresh)"
        and "r = Inr () \<longrightarrow> ends_well (settlements d2) fresh" for d2
    proof -
      have "mset (map fst (settlements (d1 @ d2))) \<subseteq># mset (handles ms)"
        using that(2) by (simp flip: f(2))
      moreover have "mset (map fst (settlements (d1 @ d2))) = mset (handles ms) \<and>
          (\<forall>x \<in> set (settlements (d1 @ d2)). snd x)" if "r = Inr ()"
        using \<open>r = Inr () \<longrightarrow> _\<close> that f by (auto simp: ends_well_def simp flip: f(2))
      ultimately show ?thesis using d1(1) that(1) by (intro exI [of _ "d1 @ d2"]) auto
    qed
    show ?thesis
    proof (cases "fresh = []")
      case True
      with assms False dd Inr have "w' = w1" "r = Inr ()" by (simp_all add: process_batch_def and_then_def ok_def)
      with True finish [of "[]"] show ?thesis by (simp add: ends_well_def)
    next
      case fresh: False
      obtain w2 q where bc: "dispatch_batch_call P fresh w1 = (w2, q)" by fastforce
      then have l2: "log w2 = log w1 @ [DispatchBatchCall fresh q]"
        by (auto simp: dispatch_batch_call_def logged_def split: prod.splits)
      have run: "(case q of
               Inl e \<Rightarrow> apply_error_to_all P pol e fresh w2
             | Inr rs \<Rightarrow>
               if length rs \<noteq> length fresh then
                 and_then (apply_error_to_all P pol (count_mismatch (length rs) (length fresh)) fresh)
                   (\<lambda>_. err (count_mismatch (length rs) (length fresh))) w2
               else settle_loop P pol (zip fresh rs) None w2) = (w', r)"
        using assms False dd Inr fresh bc by (simp add: process_batch_def and_then_def split: sum.splits)
      have errs: "\<exists>d. log w3 = log w1 @ d \<and> mset (map fst (settlements d)) \<subseteq># mset (handles fresh) \<and>
          (r3 = Inr () \<longrightarrow> ends_well (settlements d) fresh)"
        if "apply_error_to_all P pol e fresh w2 = (w3, r3)" for e w3 r3
        using error_loop_settles [of P pol e fresh None w2 w3 r3] that l2
        by (fastforce simp: apply_error_to_all_def)
      show ?thesis
      proof (cases q)
        case (Inl e)
        with run errs [of e w' r] finish show ?thesis by auto
      next
        case q: (Inr rs)
        show ?thesis
        proof (cases "length rs = length fresh")
          case False
          let ?e = "count_mismatch (length rs) (length fresh)"
          obtain w3 r3 where e3: "apply_error_to_all P pol ?e fresh w2 = (w3, r3)" by fastforce
          with run q False have "w' = w3" "r \<noteq> Inr ()"
            by (auto simp: and_then_def err_def split: sum.splits)
          with errs [OF e3] finish show ?thesis by auto
        next
          case True
          with run q have "settle_loop P pol (zip fresh rs) None w2 = (w', r)" by simp
          from settle_loop_settles [OF this] True obtain d2 where "log w' = log w2 @ d2"
            "mset (map fst (settlements d2)) \<subseteq># mset (handles fresh)"
            "r = Inr () \<longrightarrow> ends_well (settlements d2) fresh" by auto
          with l2 finish [of "DispatchBatchCall fresh q # d2"] show ?thesis by simp
        qed
      qed
    qed
  qed
qed

section \<open>Idempotency stores\<close>

text \<open>
  What the runtime relies on: a store reports only keys that have been recorded, and recording loses
  no key. An exact store also reports every recorded key and never fails.
\<close>

locale idempotency_store =
  fixes port :: "'s idempotency_port" and recorded :: "'s \<Rightarrow> string set"
  assumes sound: "is_consumed port s k = Inr True \<Longrightarrow> k \<in> recorded s"
    and grows: "recorded s \<subseteq> recorded (fst (record_key port s k))"
    and no_more: "recorded (fst (record_key port s k)) \<subseteq> insert k (recorded s)"

locale exact_idempotency_store = idempotency_store +
  assumes exact: "is_consumed port s k = Inr (k \<in> recorded s)"
    and records: "k \<in> recorded (fst (record_key port s k))"

interpretation noop: idempotency_store noop_store "\<lambda>_. {}"
  by unfold_locales (auto simp: noop_store_def)

interpretation in_memory: exact_idempotency_store in_memory_store set
  by unfold_locales (auto simp: in_memory_store_def)

text \<open>The dispatches in a log that a handler acknowledged, for one key.\<close>

definition acked_dispatch :: "string \<Rightarrow> call \<Rightarrow> bool" where
  "acked_dispatch k c =
     (case c of DispatchCall m r \<Rightarrow> r = Inr Ack \<and> idempotency_key m = k | _ \<Rightarrow> False)"

definition acked_count :: "string \<Rightarrow> call list \<Rightarrow> nat" where
  "acked_count k d = length (filter (acked_dispatch k) d)"

lemma acked_count_simps [simp]:
  "acked_count k [] = 0"
  "acked_count k (c # d) = (if acked_dispatch k c then 1 else 0) + acked_count k d"
  "acked_count k (d @ d') = acked_count k d + acked_count k d'"
  by (simp_all add: acked_count_def)

lemma fate_no_dispatch: "fate m d b \<Longrightarrow> acked_count k d = 0"
  by (induction rule: fate.induct) (simp_all add: acked_dispatch_def)

lemma settles_ack_no_dispatch: "settles_ack m d b \<Longrightarrow> acked_count k d = 0"
  by (induction rule: settles_ack.induct) (simp_all add: acked_dispatch_def)

lemma settle_result_store:
  assumes "settle_result P pol m res w = (w', r)" and "idempotency P = Some i"
  shows "\<exists>d. log w' = log w @ d \<and> acked_count k d = 0 \<and>
     store w' = (if res = Ack then fst (record_key i (store w) (idempotency_key m)) else store w)"
proof (cases "res = Ack")
  case False
  then have "res = Nack \<or> res = DeadLetter" by (cases res) simp_all
  with assms(1) obtain a f where "apply_failure_action P (failure_message P m) (ack m) a f w = (w', r)"
    by (auto simp: settle_result_def)
  from apply_fate [OF this] False fate_no_dispatch show ?thesis by fastforce
next
  case True
  obtain s q where rk: "record_key i (store w) (idempotency_key m) = (s, q)" by fastforce
  let ?w = "logged (RecordCall (idempotency_key m) (succeeded_b q)) (w\<lparr>store := s\<rparr>)"
  show ?thesis
  proof (cases q)
    case (Inl e)
    with assms True rk have "w' = logged (RecordCall (idempotency_key m) False) (w\<lparr>store := s\<rparr>)"
      by (simp add: settle_result_def and_then_def record_consumed_def)
    with True rk show ?thesis by (simp add: logged_def acked_dispatch_def)
  next
    case (Inr u)
    with assms True rk have "ack_opt P (ack m) ?w = (w', r)"
      by (simp add: settle_result_def and_then_def record_consumed_def)
    from ack_opt_trace [OF this] obtain d where "log w' = log ?w @ d" "store w' = store ?w"
      "settles_ack m d (succeeded_b r)" by blast
    with True rk settles_ack_no_dispatch [of m d _ k] show ?thesis
      by (auto simp: logged_def acked_dispatch_def)
  qed
qed

lemma process_message_store:
  assumes "process_message P pol m w = (w', r)" and i: "idempotency P = Some i"
  shows "\<exists>d. log w' = log w @ d \<and>
     (acked_count k d = 0 \<and> store w' = store w \<or>
      is_consumed i (store w) (idempotency_key m) = Inr False \<and>
        acked_count k d = (if idempotency_key m = k then 1 else 0) \<and>
        store w' = fst (record_key i (store w) (idempotency_key m)))"
proof -
  let ?k = "idempotency_key m"
  let ?c = "is_consumed i (store w) ?k"
  let ?w = "logged (CheckCall ?k ?c) w"
  show ?thesis
  proof (cases "?c = Inr False")
    case False
    with assms have "w' = ?w \<or> ack_opt P (ack m) ?w = (w', r)"
      by (auto simp: process_message_def and_then_def is_duplicate_def Let_def split: sum.splits if_splits)
    then show ?thesis
    proof
      assume "ack_opt P (ack m) ?w = (w', r)"
      from ack_opt_trace [OF this] obtain d where "log w' = log ?w @ d" "store w' = store ?w"
        "settles_ack m d (succeeded_b r)" by blast
      with settles_ack_no_dispatch [of m d _ k] show ?thesis by (auto simp: logged_def acked_dispatch_def)
    qed (simp add: logged_def acked_dispatch_def)
  next
    case True
    obtain w1 q where dc: "dispatch_call P m ?w = (w1, q)" by fastforce
    then have w1: "log w1 = log w @ [CheckCall ?k ?c, DispatchCall m q]" "store w1 = store w"
      by (auto simp: dispatch_call_def logged_def split: prod.splits)
    show ?thesis
    proof (cases q)
      case (Inl e)
      with assms True dc obtain a f where "apply_failure_action P (failure_message P m) (ack m) a f w1 = (w', r)"
        by (auto simp: process_message_def and_then_def is_duplicate_def Let_def)
      from apply_fate [OF this] Inl w1 fate_no_dispatch [of m _ _ k] show ?thesis
        by (fastforce simp: acked_dispatch_def)
    next
      case (Inr res)
      with assms True dc have "settle_result P pol m res w1 = (w', r)"
        by (simp add: process_message_def and_then_def is_duplicate_def Let_def)
      from settle_result_store [OF this i, of k] obtain d where "log w' = log w1 @ d" "acked_count k d = 0"
        "store w' = (if res = Ack then fst (record_key i (store w1) ?k) else store w1)" by blast
      with w1 Inr True show ?thesis by (auto simp: acked_dispatch_def)
    qed
  qed
qed

text \<open>Messages processed one after the other.\<close>

fun process_all ::
  "('s, 'w) ports \<Rightarrow> retry_policy \<Rightarrow> message list \<Rightarrow> ('s, 'w) world \<Rightarrow> ('s, 'w) world" where
  "process_all P pol [] w = w"
| "process_all P pol (m # ms) w = process_all P pol ms (fst (process_message P pol m w))"

context exact_idempotency_store
begin

lemma once_per_key:
  assumes "idempotency P = Some port" and "process_message P pol m w = (w', r)"
  shows "\<exists>d. log w' = log w @ d \<and>
     acked_count k d + (if k \<in> recorded (store w) then 1 else 0) \<le> (if k \<in> recorded (store w') then 1 else 0)"
proof -
  from process_message_store [OF assms(2,1), of k] obtain d where d: "log w' = log w @ d"
    "acked_count k d = 0 \<and> store w' = store w \<or>
      is_consumed port (store w) (idempotency_key m) = Inr False \<and>
        acked_count k d = (if idempotency_key m = k then 1 else 0) \<and>
        store w' = fst (record_key port (store w) (idempotency_key m))" by blast
  from d(2) show ?thesis
  proof
    assume new: "is_consumed port (store w) (idempotency_key m) = Inr False \<and>
        acked_count k d = (if idempotency_key m = k then 1 else 0) \<and>
        store w' = fst (record_key port (store w) (idempotency_key m))"
    then have "idempotency_key m \<notin> recorded (store w)" using exact by simp
    with new d(1) grows records show ?thesis by (intro exI [of _ d]) auto
  qed (use d(1) in auto)
qed

lemma once_per_key_all:
  assumes "idempotency P = Some port"
  shows "\<exists>d. log (process_all P pol ms w) = log w @ d \<and>
     acked_count k d + (if k \<in> recorded (store w) then 1 else 0) \<le> 1"
proof -
  have "\<exists>d. log (process_all P pol ms w) = log w @ d \<and>
     acked_count k d + (if k \<in> recorded (store w) then 1 else 0)
       \<le> (if k \<in> recorded (store (process_all P pol ms w)) then 1 else 0)"
  proof (induction ms arbitrary: w)
    case (Cons m ms)
    obtain w1 r where pm: "process_message P pol m w = (w1, r)" by fastforce
    from once_per_key [OF assms pm, of k] obtain d1 where d1: "log w1 = log w @ d1"
      "acked_count k d1 + (if k \<in> recorded (store w) then 1 else 0) \<le> (if k \<in> recorded (store w1) then 1 else 0)"
      by blast
    from Cons.IH [of w1] obtain d2 where d2: "log (process_all P pol ms w1) = log w1 @ d2"
      "acked_count k d2 + (if k \<in> recorded (store w1) then 1 else 0)
        \<le> (if k \<in> recorded (store (process_all P pol ms w1)) then 1 else 0)" by blast
    have "acked_count k (d1 @ d2) + (if k \<in> recorded (store w) then 1 else 0)
        \<le> (if k \<in> recorded (store (process_all P pol ms w1)) then 1 else 0)"
      using d1(2) d2(2) by simp
    then show ?case using pm d1(1) d2(1) by (intro exI [of _ "d1 @ d2"]) simp
  qed simp
  then obtain d where d: "log (process_all P pol ms w) = log w @ d"
    "acked_count k d + (if k \<in> recorded (store w) then 1 else 0)
       \<le> (if k \<in> recorded (store (process_all P pol ms w)) then 1 else (0 :: nat))" by blast
  have "(if k \<in> recorded (store (process_all P pol ms w)) then 1 else 0) \<le> (1 :: nat)" by simp
  with d show ?thesis by (meson le_trans)
qed

end

section \<open>Fresh batches\<close>

definition checks_of :: "message list \<Rightarrow> call list" where
  "checks_of ms = map (\<lambda>m. CheckCall (idempotency_key m) (Inr False)) ms"

lemma drop_duplicates_fresh:
  assumes "idempotency P = Some i" and "\<forall>m \<in> set ms. is_consumed i (store w) (idempotency_key m) = Inr False"
  shows "drop_duplicates P ms w = (w\<lparr>log := log w @ checks_of ms\<rparr>, Inr ms)"
  using assms(2)
proof (induction ms arbitrary: w)
  case (Cons m ms)
  let ?w = "logged (CheckCall (idempotency_key m) (Inr False)) w"
  have "is_duplicate P m w = (?w, Inr False)" using Cons.prems assms(1) by (simp add: is_duplicate_def Let_def)
  moreover have "drop_duplicates P ms ?w = (?w\<lparr>log := log ?w @ checks_of ms\<rparr>, Inr ms)"
    using Cons.prems by (intro Cons.IH) (simp add: logged_def)
  ultimately show ?case by (simp add: and_then_def ok_def logged_def checks_of_def)
qed (simp add: ok_def checks_of_def)

lemma settlements_checks [simp]: "settlements (checks_of ms) = []"
  by (induction ms) (simp_all add: checks_of_def)

lemma process_batch_fresh:
  assumes "idempotency P = Some i" and "\<forall>m \<in> set ms. is_consumed i (store w) (idempotency_key m) = Inr False"
    and "ms \<noteq> []" and "dispatch_batch P (app w) ms = (a, Inr rs)" and "length rs = length ms"
  shows "process_batch P pol ms w =
    settle_loop P pol (zip ms rs) None
      (w\<lparr>app := a, log := log w @ checks_of ms @ [DispatchBatchCall ms (Inr rs)]\<rparr>)"
  using assms drop_duplicates_fresh [OF assms(1,2)]
  by (simp add: process_batch_def and_then_def dispatch_batch_call_def logged_def)

section \<open>Properties\<close>

text \<open>
  Claim C1. A message is settled at most once, and a success is a settlement: whatever dispatcher,
  broker, publishers and store answer, the processing of a message adds to the log at most one call
  to the broker handle of that message (and to no other); if it returns success and the message has
  a handle, it adds exactly one, and that call succeeded.
\<close>

theorem message_settled_once:
  assumes "process_message P pol m w = (w', r)"
  shows "\<exists>d. log w' = log w @ d \<and>
     (case ack m of
        None \<Rightarrow> settlements d = []
      | Some h \<Rightarrow> (settlements d = [] \<and> r \<noteq> Inr ()) \<or>
                  (\<exists>b. settlements d = [(handle_id h, b)] \<and> (r = Inr () \<longrightarrow> b)))"
proof -
  from process_message_trace [OF assms] obtain d where d: "log w' = log w @ d"
    "message_trace m d (succeeded_b r)" by blast
  from message_trace_settles [OF d(2)] have "settles_once m (settlements d) (succeeded_b r)" .
  with d(1) show ?thesis
    by (intro exI [of _ d]) (cases r; auto simp: settles_once_def split: option.splits)
qed

definition quiet_ports :: "(unit, unit) ports" where
  "quiet_ports =
     \<lparr>dispatch = (\<lambda>a m. (a, Inr Ack)), dispatch_batch = (\<lambda>a ms. (a, Inr (map (\<lambda>_. Ack) ms))),
      broker_ack = (\<lambda>_ _. Inr ()), broker_nack = (\<lambda>_ _. Inr ()), broker_term = (\<lambda>_ _. Inr ()),
      retry_port = None, dead_letter_port = None, idempotency = None\<rparr>"

definition example_world :: "'s \<Rightarrow> ('s, unit) world" where
  "example_world s = \<lparr>log = [], store = s, app = ()\<rparr>"

definition example_policy :: retry_policy where
  "example_policy = \<lparr>max_retries = 3, enable_dlq = True\<rparr>"

lemma example_world_simps [simp]:
  "log (example_world s) = []" "store (example_world s) = s" "app (example_world s) = ()"
  by (simp_all add: example_world_def)

lemma example_ack [simp]: "ack example_message = Some \<lparr>handle_id = 7, native_retry = True\<rparr>"
  by (simp add: example_message_def with_ack_handle_def)

lemma quiet_process:
  "process_message quiet_ports example_policy example_message (example_world ()) =
     (\<lparr>log = [DispatchCall example_message (Inr Ack), AckCall 7 True], store = (), app = ()\<rparr>, Inr ())"
  by (simp add: process_message_def and_then_def is_duplicate_def quiet_ports_def dispatch_call_def
      settle_result_def record_consumed_def ack_opt_def ack_call_def logged_def example_world_def
      example_message_def with_ack_handle_def Let_def)

theorem message_settled_once_witness:
  "settlements (log (fst (process_message quiet_ports example_policy example_message (example_world ()))))
     = [(7, True)]"
  using message_settled_once [OF quiet_process] by (simp add: quiet_process)



text \<open>
  Claim C3. A batch settles every message exactly once when it succeeds: in any outcome the handles
  that are called are among those of the messages, each at most once; if the batch returns success,
  every message with a handle has been settled once and every settlement succeeded.
\<close>

theorem batch_settled_once:
  assumes "process_batch P pol ms w = (w', r)"
  shows "\<exists>d. log w' = log w @ d \<and> mset (map fst (settlements d)) \<subseteq># mset (handles ms) \<and>
     (r = Inr () \<longrightarrow> mset (map fst (settlements d)) = mset (handles ms) \<and> (\<forall>x \<in> set (settlements d). snd x))"
  by (rule process_batch_settles [OF assms])

lemma quiet_batch:
  "process_batch quiet_ports example_policy [example_message] (example_world ()) =
     (\<lparr>log = [DispatchBatchCall [example_message] (Inr [Ack]), AckCall 7 True], store = (), app = ()\<rparr>, Inr ())"
  by (simp add: process_batch_def and_then_def is_duplicate_def quiet_ports_def dispatch_batch_call_def
      record_consumed_def ack_opt_def ack_call_def logged_def example_world_def first_error_def ok_def
      example_message_def with_ack_handle_def Let_def)

theorem batch_settled_once_witness:
  "mset (map fst (settlements (log (fst
     (process_batch quiet_ports example_policy [example_message] (example_world ())))))) = {#7#}"
  using batch_settled_once [OF quiet_batch] by (simp add: quiet_batch)

text \<open>
  Claim C11. Effectively once: with the in-memory store, over any sequence of messages processed one
  after the other (redeliveries included), for each idempotency key the handler's success is reached
  at most once, and never for a key that was recorded before.
\<close>

theorem effectively_once:
  assumes "idempotency P = Some in_memory_store"
  shows "\<exists>d. log (process_all P pol ms w) = log w @ d \<and>
     acked_count k d + (if k \<in> set (store w) then 1 else 0) \<le> 1"
  by (rule in_memory.once_per_key_all [OF assms])

definition memory_ports :: "(string list, unit) ports" where
  "memory_ports =
     \<lparr>dispatch = (\<lambda>a m. (a, Inr Ack)), dispatch_batch = (\<lambda>a ms. (a, Inr (map (\<lambda>_. Ack) ms))),
      broker_ack = (\<lambda>_ _. Inr ()), broker_nack = (\<lambda>_ _. Inr ()), broker_term = (\<lambda>_ _. Inr ()),
      retry_port = None, dead_letter_port = None, idempotency = Some in_memory_store\<rparr>"

theorem effectively_once_witness:
  "acked_count ''orders:m-1''
     (log (process_all memory_ports example_policy [example_message, example_message] (example_world []))) \<le> 1"
  using effectively_once [of memory_ports example_policy "[example_message, example_message]"
      "example_world []" "''orders:m-1''"]
  by (auto simp: memory_ports_def)

text \<open>
  A failure to record consumption abandons the batch: when the handler has acknowledged
  the first message of a fresh batch and recording its key fails, the batch returns that error and
  no message of the batch is settled, whatever the results of the others were (a failing broker call
  in the same place is remembered and the loop goes on).
\<close>

theorem record_failure_abandons_batch:
  assumes "idempotency P = Some i" and "\<forall>m \<in> set (m0 # ms). is_consumed i (store w) (idempotency_key m) = Inr False"
    and "dispatch_batch P (app w) (m0 # ms) = (a, Inr (Ack # rs))" and "length rs = length ms"
    and "record_key i (store w) (idempotency_key m0) = (s, Inl e)"
  shows "\<exists>w' d. process_batch P pol (m0 # ms) w = (w', Inl e) \<and> log w' = log w @ d \<and> settlements d = []"
proof -
  have "process_batch P pol (m0 # ms) w =
    settle_loop P pol (zip (m0 # ms) (Ack # rs)) None
      (w\<lparr>app := a, log := log w @ checks_of (m0 # ms) @ [DispatchBatchCall (m0 # ms) (Inr (Ack # rs))]\<rparr>)"
    using assms by (intro process_batch_fresh) simp_all
  then show ?thesis
    using assms(1,5) by (simp add: record_consumed_def logged_def)
qed

definition failing_store :: "unit idempotency_port" where
  "failing_store = \<lparr>is_consumed = (\<lambda>s k. Inr False), record_key = (\<lambda>s k. (s, Inl (CIdempotency ''down'')))\<rparr>"

theorem record_failure_abandons_batch_witness:
  "\<exists>w' d. process_batch (quiet_ports\<lparr>idempotency := Some failing_store\<rparr>) example_policy
            [example_message, example_message] (example_world ()) = (w', Inl (CIdempotency ''down'')) \<and>
          log w' = d \<and> settlements d = []"
proof -
  let ?P = "quiet_ports\<lparr>idempotency := Some failing_store\<rparr>"
  have "\<forall>m \<in> set [example_message, example_message].
      is_consumed failing_store (store (example_world ())) (idempotency_key m) = Inr False"
    by (simp add: failing_store_def)
  moreover have "dispatch_batch ?P (app (example_world ())) [example_message, example_message] = ((), Inr (Ack # [Ack]))"
    by (simp add: quiet_ports_def)
  moreover have "record_key failing_store (store (example_world ())) (idempotency_key example_message) =
      ((), Inl (CIdempotency ''down''))"
    by (simp add: failing_store_def)
  ultimately show ?thesis
    using record_failure_abandons_batch [of ?P failing_store example_message "[example_message]" "example_world ()"
        "()" "[Ack]" "()" "CIdempotency ''down''" example_policy]
    by simp
qed

text \<open>
  The idempotency check does not see duplicates inside one batch: messages whose keys the
  store does not know yet are all handed to the handler together, however many of them share a key,
  because keys are recorded only after the dispatch.
\<close>

theorem batch_dispatches_repeated_keys:
  assumes "idempotency P = Some i" and "\<forall>m \<in> set ms. is_consumed i (store w) (idempotency_key m) = Inr False"
    and "ms \<noteq> []" and "dispatch_batch P (app w) ms = (a, Inr rs)" and "length rs = length ms"
  shows "\<exists>d. log (fst (process_batch P pol ms w)) =
     log w @ checks_of ms @ DispatchBatchCall ms (Inr rs) # d"
proof -
  let ?w = "w\<lparr>app := a, log := log w @ checks_of ms @ [DispatchBatchCall ms (Inr rs)]\<rparr>"
  obtain w' r where sl: "settle_loop P pol (zip ms rs) None ?w = (w', r)" by fastforce
  from settle_loop_settles [OF this] obtain d where "log w' = log ?w @ d" by blast
  with sl process_batch_fresh [OF assms] show ?thesis by simp
qed

theorem batch_dispatches_repeated_keys_witness:
  "\<exists>d. log (fst (process_batch memory_ports example_policy [example_message, example_message] (example_world []))) =
     checks_of [example_message, example_message] @
       DispatchBatchCall [example_message, example_message] (Inr [Ack, Ack]) # d"
  using batch_dispatches_repeated_keys [of memory_ports in_memory_store "[example_message, example_message]"
      "example_world []" "()" "[Ack, Ack]" example_policy]
  by (simp add: memory_ports_def in_memory_store_def)

end
