(* ===== verification/Mq_Loop.thy ===== *)
theory Mq_Loop
  imports Mq_Runtime Runtime_Config Task_Manager
begin

text \<open>
  \<^verbatim>\<open>flare-core-messaging/src/mq/consumer/runtime.rs\<close>, the consumer loop: configuration, fetching,
  bounded concurrency, ordered consumption and graceful shutdown; \<^verbatim>\<open>adapter.rs\<close> and \<^verbatim>\<open>task.rs\<close>, the
  wrappers of a consumer as a task. The loop runs concurrently with the tasks it has spawned, so it
  is a step relation: \<open>consumer_step\<close>. What a task does to its messages is \<open>process_message\<close> and
  \<open>process_batch\<close> of the previous theory; here only its beginning and its end are steps.
\<close>

section \<open>Configuration and runtime\<close>

record consumer_config =
  poll :: poll_worker_config
  batch_size :: u64
  batch_timeout_ms :: u64
  ordered :: bool
  idempotent :: bool
  cc_max_retries :: u32
  cc_enable_dlq :: bool
  consumer_group_override :: "string option"

definition consumer_config_default :: consumer_config where
  "consumer_config_default =
     \<lparr>poll = poll_worker_default, batch_size = 1, batch_timeout_ms = 1000, ordered = False,
      idempotent = True, cc_max_retries = 3, cc_enable_dlq = True, consumer_group_override = None\<rparr>"

definition with_runtime_poll_defaults :: "runtime_config \<Rightarrow> consumer_config \<Rightarrow> consumer_config" where
  "with_runtime_poll_defaults rt c = c\<lparr>poll := default_poll_worker rt\<rparr>"

definition with_poll :: "poll_worker_config \<Rightarrow> consumer_config \<Rightarrow> consumer_config" where
  "with_poll p c = c\<lparr>poll := p\<rparr>"

definition with_concurrency :: "u64 \<Rightarrow> consumer_config \<Rightarrow> consumer_config" where
  "with_concurrency n c = c\<lparr>poll := (poll c)\<lparr>pw_concurrency := n\<rparr>\<rparr>"

definition with_batch_size :: "u64 \<Rightarrow> consumer_config \<Rightarrow> consumer_config" where
  "with_batch_size n c = c\<lparr>batch_size := n\<rparr>"

definition with_batch_timeout_ms :: "u64 \<Rightarrow> consumer_config \<Rightarrow> consumer_config" where
  "with_batch_timeout_ms n c = c\<lparr>batch_timeout_ms := n\<rparr>"

definition with_ordered :: "bool \<Rightarrow> consumer_config \<Rightarrow> consumer_config" where
  "with_ordered b c = c\<lparr>ordered := b\<rparr>"

definition with_idempotent :: "bool \<Rightarrow> consumer_config \<Rightarrow> consumer_config" where
  "with_idempotent b c = c\<lparr>idempotent := b\<rparr>"

definition with_consumer_group :: "string \<Rightarrow> consumer_config \<Rightarrow> consumer_config" where
  "with_consumer_group g c = c\<lparr>consumer_group_override := Some g\<rparr>"

definition retry_policy_from :: "consumer_config \<Rightarrow> retry_policy" where
  "retry_policy_from c = \<lparr>max_retries = cc_max_retries c, enable_dlq = cc_enable_dlq c\<rparr>"

text \<open>
  The runtime: its configuration, the retry policy taken from it, and its ports, of which \<open>idempotency\<close>
  always is a store. A task gets the store only when \<open>idempotent\<close> is set.
\<close>

record ('s, 'w) consumer_runtime =
  cr_config :: consumer_config
  cr_policy :: retry_policy
  cr_ports :: "('s, 'w) ports"

definition consumer_runtime_new :: "consumer_config \<Rightarrow> ('s, 'w) ports \<Rightarrow> ('s, 'w) consumer_runtime" where
  "consumer_runtime_new c P =
     \<lparr>cr_config = c, cr_policy = retry_policy_from c,
      cr_ports = P\<lparr>retry_port := None, dead_letter_port := None, idempotency := Some noop_store\<rparr>\<rparr>"

definition cr_with_retry :: "publish \<Rightarrow> ('s, 'w) consumer_runtime \<Rightarrow> ('s, 'w) consumer_runtime" where
  "cr_with_retry p rt = rt\<lparr>cr_ports := (cr_ports rt)\<lparr>retry_port := Some p\<rparr>\<rparr>"

definition cr_with_dead_letter :: "publish \<Rightarrow> ('s, 'w) consumer_runtime \<Rightarrow> ('s, 'w) consumer_runtime" where
  "cr_with_dead_letter p rt = rt\<lparr>cr_ports := (cr_ports rt)\<lparr>dead_letter_port := Some p\<rparr>\<rparr>"

definition cr_with_store :: "'s idempotency_port \<Rightarrow> ('s, 'w) consumer_runtime \<Rightarrow> ('s, 'w) consumer_runtime" where
  "cr_with_store i rt = rt\<lparr>cr_ports := (cr_ports rt)\<lparr>idempotency := Some i\<rparr>\<rparr>"

definition cr_with_publishers ::
  "publish option \<Rightarrow> publish option \<Rightarrow> ('s, 'w) consumer_runtime \<Rightarrow> ('s, 'w) consumer_runtime" where
  "cr_with_publishers r d rt = rt\<lparr>cr_ports := (cr_ports rt)\<lparr>retry_port := r, dead_letter_port := d\<rparr>\<rparr>"

definition task_ports :: "('s, 'w) consumer_runtime \<Rightarrow> ('s, 'w) ports" where
  "task_ports rt =
     (if idempotent (cr_config rt) then cr_ports rt else (cr_ports rt)\<lparr>idempotency := None\<rparr>)"

text \<open>What a task spawned for one message, or for a batch of one group, does to the world.\<close>

definition run_message :: "('s, 'w) consumer_runtime \<Rightarrow> message \<Rightarrow> ('s, 'w, unit) action" where
  "run_message rt m = process_message (task_ports rt) (cr_policy rt) m"

definition run_group :: "('s, 'w) consumer_runtime \<Rightarrow> message list \<Rightarrow> ('s, 'w, unit) action" where
  "run_group rt ms = process_batch (task_ports rt) (cr_policy rt) ms"

definition from_parts :: "consumer_config \<Rightarrow> ('s, 'w) ports \<Rightarrow> ('s, 'w) consumer_runtime" where
  "from_parts c P = consumer_runtime_new c P"

definition from_parts_with_failure_publishers ::
  "consumer_config \<Rightarrow> ('s, 'w) ports \<Rightarrow> publish option \<Rightarrow> publish option \<Rightarrow> ('s, 'w) consumer_runtime" where
  "from_parts_with_failure_publishers c P r d = cr_with_publishers r d (consumer_runtime_new c P)"

text \<open>The counters of \<^verbatim>\<open>ConsumerStats\<close> wrap, as they do in an optimised build.\<close>

record consumer_stats =
  total_messages :: u64
  processed_messages :: u64
  failed_messages :: u64
  retried_messages :: u64
  dlq_messages :: u64

definition stats_new :: consumer_stats where
  "stats_new = \<lparr>total_messages = 0, processed_messages = 0, failed_messages = 0, retried_messages = 0, dlq_messages = 0\<rparr>"

definition increment_processed :: "consumer_stats \<Rightarrow> consumer_stats" where
  "increment_processed s =
     s\<lparr>processed_messages := processed_messages s + 1, total_messages := total_messages s + 1\<rparr>"

definition increment_failed :: "consumer_stats \<Rightarrow> consumer_stats" where
  "increment_failed s = s\<lparr>failed_messages := failed_messages s + 1\<rparr>"

definition increment_retried :: "consumer_stats \<Rightarrow> consumer_stats" where
  "increment_retried s = s\<lparr>retried_messages := retried_messages s + 1\<rparr>"

definition increment_dlq :: "consumer_stats \<Rightarrow> consumer_stats" where
  "increment_dlq s = s\<lparr>dlq_messages := dlq_messages s + 1\<rparr>"

section \<open>Consumers as tasks\<close>

text \<open>
  A consumer function is what it returns. The adapter ignores the shutdown signal of its task: the
  argument of \<open>adapter_run\<close> is not used.
\<close>

record mq_adapter =
  ma_name :: string
  ma_dependencies :: "string list"
  ma_critical :: bool
  ma_consume :: "task_result option"

definition adapter_new :: "string \<Rightarrow> task_result \<Rightarrow> mq_adapter" where
  "adapter_new n f = \<lparr>ma_name = n, ma_dependencies = [], ma_critical = False, ma_consume = Some f\<rparr>"

definition adapter_with_dependencies :: "string list \<Rightarrow> mq_adapter \<Rightarrow> mq_adapter" where
  "adapter_with_dependencies ds a = a\<lparr>ma_dependencies := ds\<rparr>"

definition adapter_with_critical :: "bool \<Rightarrow> mq_adapter \<Rightarrow> mq_adapter" where
  "adapter_with_critical b a = a\<lparr>ma_critical := b\<rparr>"

definition adapter_task :: "mq_adapter \<Rightarrow> task" where
  "adapter_task a =
     \<lparr>task_name = ma_name a, task_dependencies = ma_dependencies a, task_priority = 0, task_critical = ma_critical a\<rparr>"

definition adapter_run :: "bool \<Rightarrow> mq_adapter \<Rightarrow> task_result" where
  "adapter_run shutdown a = (case ma_consume a of Some r \<Rightarrow> r | None \<Rightarrow> Inl ''consume_fn already consumed'')"

record mq_adapter_builder =
  mb_name :: string
  mb_dependencies :: "string list"
  mb_critical :: bool

definition builder_new :: "string \<Rightarrow> mq_adapter_builder" where
  "builder_new n = \<lparr>mb_name = n, mb_dependencies = [], mb_critical = False\<rparr>"

definition builder_with_dependencies :: "string list \<Rightarrow> mq_adapter_builder \<Rightarrow> mq_adapter_builder" where
  "builder_with_dependencies ds b = b\<lparr>mb_dependencies := ds\<rparr>"

definition builder_with_critical :: "bool \<Rightarrow> mq_adapter_builder \<Rightarrow> mq_adapter_builder" where
  "builder_with_critical c b = b\<lparr>mb_critical := c\<rparr>"

definition builder_build :: "task_result \<Rightarrow> mq_adapter_builder \<Rightarrow> mq_adapter" where
  "builder_build f b =
     \<lparr>ma_name = mb_name b, ma_dependencies = mb_dependencies b, ma_critical = mb_critical b, ma_consume = Some f\<rparr>"

text \<open>\<^verbatim>\<open>MqConsumerTask\<close>: the consumer gets the shutdown signal of the task.\<close>

record mq_consumer_task =
  mt_name :: string
  mt_dependencies :: "string list"
  mt_consume :: "bool \<Rightarrow> task_result"

definition consumer_task_new :: "string \<Rightarrow> (bool \<Rightarrow> task_result) \<Rightarrow> mq_consumer_task" where
  "consumer_task_new n f = \<lparr>mt_name = n, mt_dependencies = [], mt_consume = f\<rparr>"

definition consumer_task_with_dependencies :: "string list \<Rightarrow> mq_consumer_task \<Rightarrow> mq_consumer_task" where
  "consumer_task_with_dependencies ds t = t\<lparr>mt_dependencies := ds\<rparr>"

definition consumer_task_run :: "bool \<Rightarrow> mq_consumer_task \<Rightarrow> task_result" where
  "consumer_task_run shutdown t = mt_consume t shutdown"

section \<open>Fetching\<close>

text \<open>
  What the fetcher and the timer do next while the loop waits for a message. \<open>TimerFires\<close> only matters
  inside a batch.
\<close>

datatype fetch_event = Fetched message | FetchEmpty | FetchFails consumer_error | TimerFires

text \<open>
  The loop of \<^verbatim>\<open>fetch_batch\<close>: the accumulated messages, or the error; and the messages that had been
  fetched when the error came. \<open>None\<close>: the loop is still waiting for the next event.
\<close>

fun fetch_more :: "nat \<Rightarrow> message list \<Rightarrow> fetch_event list \<Rightarrow> (consumer_error \<times> message list + message list) option" where
  "fetch_more n ms evs =
     (if n \<le> length ms then Some (Inr ms)
      else
        (case evs of
           [] \<Rightarrow> None
         | Fetched m # evs' \<Rightarrow> fetch_more n (ms @ [m]) evs'
         | FetchEmpty # _ \<Rightarrow> Some (Inr ms)
         | TimerFires # _ \<Rightarrow> Some (Inr ms)
         | FetchFails e # _ \<Rightarrow> Some (Inl (e, ms))))"

declare fetch_more.simps [simp del]

definition fetch_batch :: "nat \<Rightarrow> message \<Rightarrow> fetch_event list \<Rightarrow> (consumer_error \<times> message list + message list) option" where
  "fetch_batch n m evs = (if n \<le> 1 then Some (Inr [m]) else fetch_more n [m] evs)"

text \<open>The messages among the events, in order.\<close>

fun fetched_in :: "fetch_event list \<Rightarrow> message list" where
  "fetched_in [] = []"
| "fetched_in (Fetched m # evs) = m # fetched_in evs"
| "fetched_in (_ # evs) = fetched_in evs"

lemma fetch_more_prefix:
  "fetch_more n ms evs = Some r \<Longrightarrow>
   \<exists>k. (case r of Inr xs \<Rightarrow> xs | Inl (e, xs) \<Rightarrow> xs) = ms @ take k (fetched_in evs)"
proof (induction n ms evs rule: fetch_more.induct)
  case (1 n ms evs)
  show ?case
  proof (cases "n \<le> length ms")
    case True
    with 1(2) have "r = Inr ms" by (simp add: fetch_more.simps)
    then show ?thesis by (intro exI [of _ 0]) simp
  next
    case False
    show ?thesis
    proof (cases evs)
      case Nil
      with 1(2) False show ?thesis by (simp add: fetch_more.simps)
    next
      case (Cons ev evs')
      show ?thesis
      proof (cases ev)
        case (Fetched m)
        with 1(2) False Cons have "fetch_more n (ms @ [m]) evs' = Some r"
          by (simp add: fetch_more.simps [of n ms])
        with 1(1) [OF False Cons Fetched] obtain k where
          "(case r of Inr xs \<Rightarrow> xs | Inl (e, xs) \<Rightarrow> xs) = (ms @ [m]) @ take k (fetched_in evs')"
          by blast
        then show ?thesis unfolding Cons Fetched by (intro exI [of _ "Suc k"]) simp
      qed (use 1(2) False Cons in \<open>auto simp: fetch_more.simps [of n ms] intro!: exI [of _ 0]\<close>)
    qed
  qed
qed

lemma fetch_more_length:
  "fetch_more n ms evs = Some (Inr xs) \<Longrightarrow> length ms \<le> n \<Longrightarrow> length xs \<le> n \<and> length ms \<le> length xs"
proof (induction n ms evs rule: fetch_more.induct)
  case (1 n ms evs)
  show ?case
  proof (cases "n \<le> length ms")
    case True
    with 1 show ?thesis by (simp add: fetch_more.simps)
  next
    case False
    with 1(2) show ?thesis
      using 1(1) [OF False] by (subst (asm) fetch_more.simps) (fastforce split: list.splits fetch_event.splits)
  qed
qed

section \<open>Ordered batches\<close>

definition ordered_key :: "message \<Rightarrow> string" where
  "ordered_key m = (case msg_key (mctx m) of Some k \<Rightarrow> k | None \<Rightarrow> topic (mctx m))"

text \<open>
  The loop that groups a batch: \<open>keys\<close> in the order of their first message, and a group for each.
\<close>

fun group_loop ::
  "message list \<Rightarrow> string list \<Rightarrow> (string \<rightharpoonup> message list) \<Rightarrow> string list \<times> (string \<rightharpoonup> message list)" where
  "group_loop [] keys groups = (keys, groups)"
| "group_loop (m # ms) keys groups =
     (let k = ordered_key m in
      case groups k of
        None \<Rightarrow> group_loop ms (keys @ [k]) (groups(k \<mapsto> [m]))
      | Some g \<Rightarrow> group_loop ms keys (groups(k \<mapsto> g @ [m])))"

text \<open>\<^verbatim>\<open>for key in keys\<close>, taking the group of each key out of the map.\<close>

fun take_groups :: "string list \<Rightarrow> (string \<rightharpoonup> message list) \<Rightarrow> (string \<times> message list) list" where
  "take_groups [] groups = []"
| "take_groups (k # ks) groups =
     (case groups k of
        None \<Rightarrow> take_groups ks groups
      | Some g \<Rightarrow> (k, g) # take_groups ks (groups(k := None)))"

definition ordered_groups :: "message list \<Rightarrow> (string \<times> message list) list" where
  "ordered_groups ms = (case group_loop ms [] Map.empty of (keys, groups) \<Rightarrow> take_groups keys groups)"

lemma group_loop_spec:
  assumes "distinct keys" and "dom groups = set keys"
  shows "distinct (fst (group_loop ms keys groups)) \<and>
         set (fst (group_loop ms keys groups)) = set keys \<union> ordered_key ` set ms \<and>
         snd (group_loop ms keys groups) =
           (\<lambda>k. if k \<in> set keys \<union> ordered_key ` set ms
                then Some ((case groups k of Some g \<Rightarrow> g | None \<Rightarrow> []) @ filter (\<lambda>m. ordered_key m = k) ms)
                else None)"
  using assms
proof (induction ms arbitrary: keys groups)
  case Nil
  then show ?case by (auto simp: fun_eq_iff split: option.splits)
next
  case (Cons m ms)
  show ?case
  proof (cases "groups (ordered_key m)")
    case None
    with Cons.prems have k: "ordered_key m \<notin> set keys" by auto
    have "dom (groups(ordered_key m \<mapsto> [m])) = set (keys @ [ordered_key m])"
      using Cons.prems by auto
    from Cons.IH [OF _ this] Cons.prems k None show ?thesis
      by (auto simp: fun_eq_iff Let_def simp del: fun_upd_apply) (auto simp: fun_upd_apply)
  next
    case (Some g)
    with Cons.prems have k: "ordered_key m \<in> set keys" by auto
    then have "dom (groups(ordered_key m \<mapsto> g @ [m])) = set keys"
      using Cons.prems by auto
    from Cons.IH [OF _ this] Cons.prems k Some show ?thesis
      by (auto simp: fun_eq_iff Let_def simp del: fun_upd_apply) (auto simp: fun_upd_apply)
  qed
qed

lemma take_groups_all:
  "distinct ks \<Longrightarrow> (\<And>k. k \<in> set ks \<Longrightarrow> groups k \<noteq> None) \<Longrightarrow>
   take_groups ks groups = map (\<lambda>k. (k, the (groups k))) ks"
proof (induction ks arbitrary: groups)
  case (Cons k ks)
  then obtain g where g: "groups k = Some g" by force
  have "take_groups ks (groups(k := None)) = map (\<lambda>k'. (k', the ((groups(k := None)) k'))) ks"
    using Cons.prems by (intro Cons.IH) auto
  then show ?case using g Cons.prems(1) by (auto intro: map_cong)
qed simp

lemma ordered_groups_spec:
  "\<exists>ks. distinct ks \<and> set ks = ordered_key ` set ms \<and>
        ordered_groups ms = map (\<lambda>k. (k, filter (\<lambda>m. ordered_key m = k) ms)) ks"
proof -
  let ?ks = "fst (group_loop ms [] Map.empty)" and ?gs = "snd (group_loop ms [] Map.empty)"
  have ks: "distinct ?ks" "set ?ks = ordered_key ` set ms"
    and gs: "?gs = (\<lambda>k. if k \<in> ordered_key ` set ms then Some (filter (\<lambda>m. ordered_key m = k) ms) else None)"
    using group_loop_spec [of "[]" Map.empty ms] by (simp_all cong: if_cong)
  have "ordered_groups ms = take_groups ?ks ?gs"
    by (simp add: ordered_groups_def case_prod_beta)
  also have "\<dots> = map (\<lambda>k. (k, the (?gs k))) ?ks"
    using ks gs by (intro take_groups_all) auto
  also have "\<dots> = map (\<lambda>k. (k, filter (\<lambda>m. ordered_key m = k) ms)) ?ks"
    using ks gs by (intro map_cong) auto
  finally show ?thesis using ks by blast
qed

end
