(* ===== verification/Mq_Scheduler.thy ===== *)
theory Mq_Scheduler
  imports Mq_Loop
begin

text \<open>
  \<^verbatim>\<open>ConsumerRuntime::run_with_shutdown\<close> with the tasks it spawns, as a step relation. The loop takes a
  slot of the semaphore, fetches a message or a batch, and spawns a task that keeps the slot until it
  ends. A task works through its items: one item for a message or an unordered batch, one for each key
  of an ordered batch, at most 64 of them at a time. An item of an ordered consumer holds the lock of
  its key while it works. What an item does to the world is \<open>run_message\<close> or \<open>run_group\<close>.

  Tasks and items are never removed from their lists, their position is their identity; only their
  status changes. A single message and an unordered batch are worked on in the task itself: for them
  \<open>spawn_item\<close> and \<open>join_ok\<close> are steps of the same task.
\<close>

section \<open>State and steps\<close>

datatype loop_pc = AtTop | Fetching | Draining | Returned

type_synonym work = "string option \<times> message list"

datatype task_status = Active | Completed | Broken

datatype item_phase = Waiting | Working | Ended bool | Joined | Cancelled

record ctask =
  t_messages :: "message list"
  t_todo :: "work list"
  t_status :: task_status

record work_item =
  it_task :: nat
  it_work :: work
  it_phase :: item_phase

record cstate =
  pc :: loop_pc
  permits :: nat
  ctasks :: "ctask list"
  items :: "work_item list"
  key_locks :: "string \<rightharpoonup> bool"
  fetched :: "message list"
  dropped :: "message list"

definition capacity :: "consumer_config \<Rightarrow> nat" where
  "capacity c = max 1 (unat (pw_concurrency (poll c)))"

definition batch_limit :: "consumer_config \<Rightarrow> nat" where
  "batch_limit c = max 1 (unat (batch_size c))"

definition ORDERED_BATCH_KEY_CONCURRENCY :: nat where
  "ORDERED_BATCH_KEY_CONCURRENCY = 64"

definition works_of :: "consumer_config \<Rightarrow> message list \<Rightarrow> work list" where
  "works_of c ms =
     (if batch_limit c > 1 then
        (if ordered c then map (\<lambda>(k, g). (Some k, g)) (ordered_groups ms) else [(None, ms)])
      else map (\<lambda>m. (if ordered c then Some (ordered_key m) else None, [m])) ms)"

definition new_task :: "consumer_config \<Rightarrow> message list \<Rightarrow> ctask" where
  "new_task c ms = \<lparr>t_messages = ms, t_todo = works_of c ms, t_status = Active\<rparr>"

definition in_flight :: "cstate \<Rightarrow> nat \<Rightarrow> nat" where
  "in_flight s t =
     length (filter (\<lambda>it. it_task it = t \<and> it_phase it \<notin> {Joined, Cancelled}) (items s))"

definition key_free :: "cstate \<Rightarrow> work \<Rightarrow> bool" where
  "key_free s w = (case fst w of None \<Rightarrow> True | Some k \<Rightarrow> key_locks s k \<noteq> Some True)"

definition set_lock :: "work \<Rightarrow> bool \<Rightarrow> cstate \<Rightarrow> cstate" where
  "set_lock w b s =
     (case fst w of None \<Rightarrow> s | Some k \<Rightarrow> s\<lparr>key_locks := (key_locks s)(k \<mapsto> b)\<rparr>)"

definition set_phase :: "nat \<Rightarrow> item_phase \<Rightarrow> cstate \<Rightarrow> cstate" where
  "set_phase j p s = s\<lparr>items := (items s)[j := (items s ! j)\<lparr>it_phase := p\<rparr>]\<rparr>"

definition set_status :: "nat \<Rightarrow> task_status \<Rightarrow> cstate \<Rightarrow> cstate" where
  "set_status t st s =
     s\<lparr>ctasks := (ctasks s)[t := (ctasks s ! t)\<lparr>t_status := st\<rparr>], permits := permits s + 1\<rparr>"

definition consumer_init :: "consumer_config \<Rightarrow> cstate" where
  "consumer_init c =
     \<lparr>pc = AtTop, permits = capacity c, ctasks = [], items = [], key_locks = Map.empty,
      fetched = [], dropped = []\<rparr>"

text \<open>
  \<open>shutdown_top\<close> and \<open>shutdown_fetch\<close> are the two places where the shutdown signal is looked at: it is
  not while a batch is being filled. \<open>Ended False\<close> is an item that returned an error or panicked. A
  task whose join of an item fails drops the set of its other items: they are cancelled wherever they
  are, which also releases their locks, but not at once.
\<close>

inductive consumer_step :: "consumer_config \<Rightarrow> cstate \<Rightarrow> cstate \<Rightarrow> bool" for c :: consumer_config where
  shutdown_top: "pc s = AtTop \<Longrightarrow> consumer_step c s (s\<lparr>pc := Draining\<rparr>)"
| acquire: "pc s = AtTop \<Longrightarrow> 0 < permits s \<Longrightarrow>
     consumer_step c s (s\<lparr>pc := Fetching, permits := permits s - 1\<rparr>)"
| shutdown_fetch: "pc s = Fetching \<Longrightarrow>
     consumer_step c s (s\<lparr>pc := Draining, permits := permits s + 1\<rparr>)"
| fetch_nothing: "pc s = Fetching \<Longrightarrow>
     consumer_step c s (s\<lparr>pc := AtTop, permits := permits s + 1\<rparr>)"
| fetch_some: "pc s = Fetching \<Longrightarrow> fetch_batch (batch_limit c) m evs = Some (Inr ms) \<Longrightarrow>
     consumer_step c s (s\<lparr>pc := AtTop, ctasks := ctasks s @ [new_task c ms], fetched := fetched s @ ms\<rparr>)"
| fetch_fails: "pc s = Fetching \<Longrightarrow> fetch_batch (batch_limit c) m evs = Some (Inl (e, ms)) \<Longrightarrow>
     consumer_step c s
       (s\<lparr>pc := AtTop, permits := permits s + 1, fetched := fetched s @ ms, dropped := dropped s @ ms\<rparr>)"
| spawn_item: "t < length (ctasks s) \<Longrightarrow> t_status (ctasks s ! t) = Active \<Longrightarrow>
     t_todo (ctasks s ! t) = w # ws \<Longrightarrow> in_flight s t < ORDERED_BATCH_KEY_CONCURRENCY \<Longrightarrow>
     consumer_step c s
       (s\<lparr>ctasks := (ctasks s)[t := (ctasks s ! t)\<lparr>t_todo := ws\<rparr>],
          items := items s @ [\<lparr>it_task = t, it_work = w, it_phase = Waiting\<rparr>]\<rparr>)"
| start_item: "j < length (items s) \<Longrightarrow> it_phase (items s ! j) = Waiting \<Longrightarrow>
     key_free s (it_work (items s ! j)) \<Longrightarrow>
     consumer_step c s (set_lock (it_work (items s ! j)) True (set_phase j Working s))"
| end_item: "j < length (items s) \<Longrightarrow> it_phase (items s ! j) = Working \<Longrightarrow>
     consumer_step c s (set_lock (it_work (items s ! j)) False (set_phase j (Ended b) s))"
| join_ok: "j < length (items s) \<Longrightarrow> it_phase (items s ! j) = Ended True \<Longrightarrow> it_task (items s ! j) = t \<Longrightarrow>
     t_status (ctasks s ! t) = Active \<Longrightarrow>
     t_todo (ctasks s ! t) = [] \<or> ORDERED_BATCH_KEY_CONCURRENCY \<le> in_flight s t \<Longrightarrow>
     consumer_step c s (set_phase j Joined s)"
| join_err: "j < length (items s) \<Longrightarrow> it_phase (items s ! j) = Ended False \<Longrightarrow> it_task (items s ! j) = t \<Longrightarrow>
     t_status (ctasks s ! t) = Active \<Longrightarrow>
     t_todo (ctasks s ! t) = [] \<or> ORDERED_BATCH_KEY_CONCURRENCY \<le> in_flight s t \<Longrightarrow>
     consumer_step c s (set_status t Broken s)"
| cancel_waiting: "j < length (items s) \<Longrightarrow> it_phase (items s ! j) = Waiting \<Longrightarrow>
     t_status (ctasks s ! (it_task (items s ! j))) = Broken \<Longrightarrow>
     consumer_step c s (set_phase j Cancelled s)"
| cancel_working: "j < length (items s) \<Longrightarrow> it_phase (items s ! j) = Working \<Longrightarrow>
     t_status (ctasks s ! (it_task (items s ! j))) = Broken \<Longrightarrow>
     consumer_step c s (set_lock (it_work (items s ! j)) False (set_phase j Cancelled s))"
| complete: "t < length (ctasks s) \<Longrightarrow> t_status (ctasks s ! t) = Active \<Longrightarrow>
     t_todo (ctasks s ! t) = [] \<Longrightarrow> in_flight s t = 0 \<Longrightarrow>
     consumer_step c s (set_status t Completed s)"
| stop: "pc s = Draining \<Longrightarrow> (\<forall>t \<in> set (ctasks s). t_status t \<noteq> Active) \<Longrightarrow>
     consumer_step c s (s\<lparr>pc := Returned\<rparr>)"

inductive consumer_reach :: "consumer_config \<Rightarrow> cstate \<Rightarrow> bool" for c :: consumer_config where
  init: "consumer_reach c (consumer_init c)"
| step: "consumer_reach c s \<Longrightarrow> consumer_step c s s' \<Longrightarrow> consumer_reach c s'"

lemmas scheduler_defs = set_lock_def set_phase_def set_status_def new_task_def key_free_def

section \<open>Counting in updated lists\<close>

lemma length_filter_update:
  "j < length xs \<Longrightarrow>
   length (filter P (xs[j := y])) + of_bool (P (xs ! j)) = length (filter P xs) + of_bool (P y)"
proof (induction xs arbitrary: j)
  case (Cons x xs)
  then show ?case by (cases j) auto
qed simp

lemma map_filter_update:
  "f y = f (xs ! j) \<Longrightarrow> P y = P (xs ! j) \<Longrightarrow> map f (filter P (xs[j := y])) = map f (filter P xs)"
proof (induction xs arbitrary: j)
  case (Cons x xs)
  then show ?case by (cases j) auto
qed simp

lemma map_update_same: "f y = f (xs ! j) \<Longrightarrow> map f (xs[j := y]) = map f xs"
  by (metis list_update_id map_update)

section \<open>Slots\<close>

definition active_tasks :: "cstate \<Rightarrow> nat" where
  "active_tasks s = length (filter (\<lambda>t. t_status t = Active) (ctasks s))"

lemma active_tasks_status:
  "t < length (ctasks s) \<Longrightarrow> t_status (ctasks s ! t) = Active \<Longrightarrow> st \<noteq> Active \<Longrightarrow>
   active_tasks (set_status t st s) + 1 = active_tasks s"
  unfolding active_tasks_def set_status_def
  using length_filter_update [of t "ctasks s" "\<lambda>t. t_status t = Active"
          "(ctasks s ! t)\<lparr>t_status := st\<rparr>"] by simp

definition slot_inv :: "consumer_config \<Rightarrow> cstate \<Rightarrow> bool" where
  "slot_inv c s \<longleftrightarrow>
     (\<forall>it \<in> set (items s). it_task it < length (ctasks s)) \<and>
     permits s + of_bool (pc s = Fetching) + active_tasks s = capacity c"

lemma slot_inv_frame:
  assumes "slot_inv c s" and "pc s' = Fetching \<longleftrightarrow> pc s = Fetching" and "permits s' = permits s"
    and "map t_status (ctasks s') = map t_status (ctasks s)"
    and "\<And>it. it \<in> set (items s') \<Longrightarrow> it_task it < length (ctasks s')"
  shows "slot_inv c s'"
proof -
  have "active_tasks s' = length (filter (\<lambda>x. x = Active) (map t_status (ctasks s')))"
    by (simp add: active_tasks_def filter_map comp_def)
  also have "\<dots> = active_tasks s"
    using assms(4) by (simp add: active_tasks_def filter_map comp_def)
  finally show ?thesis using assms by (auto simp: slot_inv_def)
qed

lemma phase_set: "it \<in> set ((items s)[j := (items s ! j)\<lparr>it_phase := p\<rparr>]) \<Longrightarrow> j < length (items s) \<Longrightarrow>
   \<exists>it' \<in> set (items s). it_task it = it_task it' \<and> it_work it = it_work it'"
  by (auto simp: in_set_conv_nth nth_list_update split: if_splits) (use nth_mem in blast)+

lemma slot_inv_phase:
  "slot_inv c s \<Longrightarrow> j < length (items s) \<Longrightarrow> slot_inv c (set_phase j p s)"
  by (rule slot_inv_frame [of c s]) (auto simp: set_phase_def slot_inv_def dest!: phase_set)

lemma slot_inv_lock: "slot_inv c s \<Longrightarrow> slot_inv c (set_lock w b s)"
  by (rule slot_inv_frame [of c s]) (auto simp: set_lock_def slot_inv_def split: option.splits)

lemma slot_inv_status:
  assumes "slot_inv c s" "t < length (ctasks s)" "t_status (ctasks s ! t) = Active" "st \<noteq> Active"
  shows "slot_inv c (set_status t st s)"
  using assms active_tasks_status [OF assms(2-4)] by (auto simp: slot_inv_def set_status_def)

lemma slot_inv_step: "consumer_step c s s' \<Longrightarrow> slot_inv c s \<Longrightarrow> slot_inv c s'"
proof (induction rule: consumer_step.induct)
  case (fetch_some s m evs ms)
  then show ?case by (force simp: slot_inv_def active_tasks_def new_task_def)
next
  case (spawn_item t s w ws)
  then have "map t_status ((ctasks s)[t := (ctasks s ! t)\<lparr>t_todo := ws\<rparr>]) = map t_status (ctasks s)"
    by (intro map_update_same) simp
  with spawn_item show ?case
    by (intro slot_inv_frame [OF spawn_item.prems]) (auto simp: slot_inv_def)
next
  case (join_err j s t)
  then have "t < length (ctasks s)" by (auto simp: slot_inv_def)
  with join_err show ?case by (intro slot_inv_status) auto
next
  case (complete t s)
  then show ?case by (intro slot_inv_status) auto
qed (auto simp: slot_inv_phase slot_inv_lock, auto simp: slot_inv_def active_tasks_def)

lemma slot_inv_reach: "consumer_reach c s \<Longrightarrow> slot_inv c s"
proof (induction rule: consumer_reach.induct)
  case init
  show ?case by (simp add: slot_inv_def consumer_init_def active_tasks_def)
qed (rule slot_inv_step)

section \<open>Key locks\<close>

definition works_on :: "string \<Rightarrow> work_item \<Rightarrow> bool" where
  "works_on k it \<longleftrightarrow> it_phase it = Working \<and> fst (it_work it) = Some k"

definition workers :: "cstate \<Rightarrow> string \<Rightarrow> nat" where
  "workers s k = length (filter (works_on k) (items s))"

definition lock_inv :: "cstate \<Rightarrow> bool" where
  "lock_inv s \<longleftrightarrow> (\<forall>k. workers s k = of_bool (key_locks s k = Some True))"

lemma workers_set_phase:
  "j < length (items s) \<Longrightarrow>
   workers (set_phase j p s) k + of_bool (works_on k (items s ! j)) =
   workers s k + of_bool (p = Working \<and> fst (it_work (items s ! j)) = Some k)"
  unfolding workers_def set_phase_def
  using length_filter_update [of j "items s" "works_on k" "(items s ! j)\<lparr>it_phase := p\<rparr>"]
  by (simp add: works_on_def)

lemma workers_set_lock [simp]: "workers (set_lock w b s) k = workers s k"
  by (simp add: workers_def set_lock_def split: option.splits)

lemma key_locks_set_lock [simp]:
  "key_locks (set_lock w b s) k = (if fst w = Some k then Some b else key_locks s k)"
  by (auto simp: set_lock_def split: option.splits)

lemma key_locks_set_phase [simp]: "key_locks (set_phase j p s) = key_locks s"
  by (simp add: set_phase_def)

lemma lock_inv_same:
  "lock_inv s \<Longrightarrow> items s' = items s \<Longrightarrow> key_locks s' = key_locks s \<Longrightarrow> lock_inv s'"
  by (simp add: lock_inv_def workers_def)

lemma lock_inv_idle:
  assumes "lock_inv s" "j < length (items s)" "it_phase (items s ! j) \<noteq> Working" "p \<noteq> Working"
  shows "lock_inv (set_phase j p s)"
  using assms workers_set_phase [OF assms(2), of p] by (simp add: lock_inv_def works_on_def)

lemma lock_inv_release:
  assumes "lock_inv s" "j < length (items s)" "it_phase (items s ! j) = Working" "p \<noteq> Working"
  shows "lock_inv (set_lock (it_work (items s ! j)) False (set_phase j p s))"
  unfolding lock_inv_def
proof
  fix k
  from assms(1) have "workers s k \<le> 1" "key_locks s k \<noteq> Some True \<Longrightarrow> workers s k = 0"
    by (simp_all add: lock_inv_def)
  then show "workers (set_lock (it_work (items s ! j)) False (set_phase j p s)) k =
        of_bool (key_locks (set_lock (it_work (items s ! j)) False (set_phase j p s)) k = Some True)"
    using assms workers_set_phase [OF assms(2), of p k] by (auto simp: works_on_def lock_inv_def)
qed

lemma lock_inv_start:
  assumes "lock_inv s" "j < length (items s)" "it_phase (items s ! j) = Waiting"
    and "key_free s (it_work (items s ! j))"
  shows "lock_inv (set_lock (it_work (items s ! j)) True (set_phase j Working s))"
  unfolding lock_inv_def
proof
  fix k
  from assms(1) have "workers s k = of_bool (key_locks s k = Some True)"
    by (simp add: lock_inv_def)
  then show "workers (set_lock (it_work (items s ! j)) True (set_phase j Working s)) k =
        of_bool (key_locks (set_lock (it_work (items s ! j)) True (set_phase j Working s)) k = Some True)"
    using assms workers_set_phase [OF assms(2), of Working k] by (auto simp: works_on_def key_free_def)
qed

lemma lock_inv_step: "consumer_step c s s' \<Longrightarrow> lock_inv s \<Longrightarrow> lock_inv s'"
proof (induction rule: consumer_step.induct)
  case (spawn_item t s w ws)
  then show ?case by (auto simp: lock_inv_def workers_def works_on_def)
next
  case (join_err j s t)
  then show ?case by (auto simp: set_status_def intro: lock_inv_same)
next
  case (complete t s)
  then show ?case by (auto simp: set_status_def intro: lock_inv_same)
qed (auto intro: lock_inv_idle lock_inv_release lock_inv_start lock_inv_same)

lemma lock_inv_reach: "consumer_reach c s \<Longrightarrow> lock_inv s"
proof (induction rule: consumer_reach.induct)
  case init
  show ?case by (simp add: lock_inv_def consumer_init_def workers_def)
qed (rule lock_inv_step)

lemma one_worker_unique:
  assumes "length (filter P xs) \<le> 1" and "i < length xs" "j < length xs" "P (xs ! i)" "P (xs ! j)"
  shows "i = j"
proof (rule ccontr)
  assume "i \<noteq> j"
  then have "{i, j} \<subseteq> {n. n < length xs \<and> P (xs ! n)}" and "card {i, j} = 2"
    using assms by auto
  then have "2 \<le> card {n. n < length xs \<and> P (xs ! n)}"
    by (metis (no_types, lifting) card_mono finite_nat_set_iff_bounded mem_Collect_eq)
  with assms(1) show False by (simp add: length_filter_conv_card)
qed

section \<open>Items of a task\<close>

definition task_works :: "cstate \<Rightarrow> nat \<Rightarrow> work list" where
  "task_works s t = map it_work (filter (\<lambda>it. it_task it = t) (items s))"

definition work_inv :: "consumer_config \<Rightarrow> cstate \<Rightarrow> bool" where
  "work_inv c s \<longleftrightarrow>
     (\<forall>t < length (ctasks s).
        task_works s t @ t_todo (ctasks s ! t) = works_of c (t_messages (ctasks s ! t)) \<and>
        (t_status (ctasks s ! t) = Completed \<longrightarrow>
           t_todo (ctasks s ! t) = [] \<and>
           (\<forall>it \<in> set (items s). it_task it = t \<longrightarrow> it_phase it = Joined))) \<and>
     (\<forall>it \<in> set (items s). it_phase it = Cancelled \<longrightarrow> t_status (ctasks s ! it_task it) = Broken)"

text \<open>How the items and the tasks of a state change in a step that changes one phase.\<close>

lemma set_phase_frame [simp]:
  "ctasks (set_phase j p s) = ctasks s" "length (items (set_phase j p s)) = length (items s)"
  "pc (set_phase j p s) = pc s" "fetched (set_phase j p s) = fetched s"
  "dropped (set_phase j p s) = dropped s"
  by (simp_all add: set_phase_def)

lemma set_lock_frame [simp]:
  "ctasks (set_lock w b s) = ctasks s" "items (set_lock w b s) = items s"
  "pc (set_lock w b s) = pc s" "fetched (set_lock w b s) = fetched s"
  "dropped (set_lock w b s) = dropped s"
  by (simp_all add: set_lock_def split: option.splits)

lemma set_status_frame [simp]:
  "length (ctasks (set_status t st s)) = length (ctasks s)" "items (set_status t st s) = items s"
  "pc (set_status t st s) = pc s" "fetched (set_status t st s) = fetched s"
  "dropped (set_status t st s) = dropped s"
  by (simp_all add: set_status_def)

lemma set_phase_items:
  "it \<in> set (items (set_phase j p s)) \<Longrightarrow> j < length (items s) \<Longrightarrow>
   it \<in> set (items s) \<or> it_phase it = p \<and> it_task it = it_task (items s ! j)"
  by (auto simp: set_phase_def in_set_conv_nth nth_list_update split: if_splits)

lemma task_works_set_phase [simp]:
  "task_works (set_phase j p s) t = task_works s t"
  unfolding task_works_def set_phase_def by simp (rule map_filter_update; simp)

lemma task_works_items: "items s' = items s \<Longrightarrow> task_works s' t = task_works s t"
  by (simp add: task_works_def)

lemma work_inv_phase:
  assumes inv: "work_inv c s" and j: "j < length (items s)" and "it_task (items s ! j) < length (ctasks s)"
    and p: "it_phase (items s ! j) \<noteq> Joined"
    and b: "p = Cancelled \<Longrightarrow> t_status (ctasks s ! it_task (items s ! j)) = Broken"
  shows "work_inv c (set_phase j p s)"
proof -
  have "items s ! j \<in> set (items s)" using j by simp
  with inv assms(3) p have nc: "t_status (ctasks s ! it_task (items s ! j)) \<noteq> Completed"
    by (auto simp: work_inv_def)
  show ?thesis
    using inv nc b unfolding work_inv_def
    by (auto dest!: set_phase_items [OF _ j])
qed

lemma work_inv_lock: "work_inv c s \<Longrightarrow> work_inv c (set_lock w b s)"
  by (simp add: work_inv_def task_works_items [of "set_lock w b s" s])

lemma work_inv_frame:
  "work_inv c s \<Longrightarrow> ctasks s' = ctasks s \<Longrightarrow> items s' = items s \<Longrightarrow> work_inv c s'"
  by (simp add: work_inv_def task_works_items [of s' s])

lemma work_inv_status:
  assumes inv: "work_inv c s" and t: "t < length (ctasks s)" "t_status (ctasks s ! t) = Active"
    and st: "st = Broken \<or> st = Completed \<and> t_todo (ctasks s ! t) = [] \<and> in_flight s t = 0"
  shows "work_inv c (set_status t st s)"
proof -
  have joined: "it_phase it = Joined"
    if "st = Completed" "it \<in> set (items s)" "it_task it = t" for it
  proof -
    from st that(1) have "filter (\<lambda>it. it_task it = t \<and> it_phase it \<notin> {Joined, Cancelled}) (items s) = []"
      by (simp add: in_flight_def)
    with that have "it_phase it = Joined \<or> it_phase it = Cancelled"
      by (auto simp: filter_empty_conv)
    with that t inv show ?thesis by (auto simp: work_inv_def)
  qed
  show ?thesis
    using inv t st joined
    by (auto simp: work_inv_def set_status_def nth_list_update task_works_def)
qed

lemma work_inv_spawn:
  assumes inv: "work_inv c s" and t: "t < length (ctasks s)" "t_status (ctasks s ! t) = Active"
    and todo: "t_todo (ctasks s ! t) = w # ws"
  shows "work_inv c
     (s\<lparr>ctasks := (ctasks s)[t := (ctasks s ! t)\<lparr>t_todo := ws\<rparr>],
        items := items s @ [\<lparr>it_task = t, it_work = w, it_phase = Waiting\<rparr>]\<rparr>)"
  using inv t todo by (auto simp: work_inv_def task_works_def nth_list_update)

lemma task_works_fresh: "slot_inv c s \<Longrightarrow> task_works s (length (ctasks s)) = []"
  by (auto simp: task_works_def slot_inv_def filter_empty_conv)

lemma work_inv_fetch:
  assumes "work_inv c s" "slot_inv c s"
  shows "work_inv c (s\<lparr>pc := AtTop, ctasks := ctasks s @ [new_task c ms], fetched := fetched s @ ms\<rparr>)"
proof -
  have works: "task_works (s\<lparr>pc := AtTop, ctasks := ts, fetched := fs\<rparr>) t = task_works s t" for ts fs t
    by (simp add: task_works_def)
  show ?thesis
    using assms task_works_fresh [OF assms(2)]
    by (auto simp: work_inv_def works nth_append less_Suc_eq new_task_def slot_inv_def)
qed

lemma work_inv_step: "consumer_step c s s' \<Longrightarrow> slot_inv c s \<Longrightarrow> work_inv c s \<Longrightarrow> work_inv c s'"
proof (induction rule: consumer_step.induct)
  case (join_err j s t)
  then have "t < length (ctasks s)" by (auto simp: slot_inv_def)
  with join_err show ?case by (intro work_inv_status) auto
next
  case (complete t s)
  then show ?case by (intro work_inv_status) auto
next
  case (spawn_item t s w ws)
  then show ?case by (intro work_inv_spawn) auto
next
  case (fetch_some s m evs ms)
  then show ?case by (intro work_inv_fetch)
qed (auto simp: slot_inv_def intro!: work_inv_lock work_inv_phase intro: work_inv_frame)

lemma work_inv_reach: "consumer_reach c s \<Longrightarrow> work_inv c s"
proof (induction rule: consumer_reach.induct)
  case init
  show ?case by (simp add: work_inv_def consumer_init_def)
next
  case (step s s')
  then show ?case using work_inv_step slot_inv_reach by blast
qed

lemma returned_step: "consumer_step c s s' \<Longrightarrow>
   (pc s = Returned \<longrightarrow> (\<forall>t \<in> set (ctasks s). t_status t \<noteq> Active)) \<Longrightarrow> slot_inv c s \<Longrightarrow>
   pc s' = Returned \<longrightarrow> (\<forall>t \<in> set (ctasks s'). t_status t \<noteq> Active)"
proof (induction rule: consumer_step.induct)
  case (join_err j s t)
  then have "t < length (ctasks s)" by (auto simp: slot_inv_def)
  with join_err show ?case by auto
qed auto

lemma returned_reach:
  "consumer_reach c s \<Longrightarrow> pc s = Returned \<longrightarrow> (\<forall>t \<in> set (ctasks s). t_status t \<noteq> Active)"
proof (induction rule: consumer_reach.induct)
  case init
  show ?case by (simp add: consumer_init_def)
next
  case (step s s')
  then show ?case using returned_step slot_inv_reach by blast
qed

text \<open>A broken task has an item that failed.\<close>

definition broken_inv :: "cstate \<Rightarrow> bool" where
  "broken_inv s \<longleftrightarrow>
     (\<forall>t < length (ctasks s). t_status (ctasks s ! t) = Broken \<longrightarrow>
        (\<exists>it \<in> set (items s). it_task it = t \<and> it_phase it = Ended False))"

lemma broken_inv_phase:
  assumes "broken_inv s" "j < length (items s)" "it_phase (items s ! j) \<noteq> Ended False"
  shows "broken_inv (set_phase j p s)"
  unfolding broken_inv_def
proof (intro allI impI)
  fix t assume "t < length (ctasks (set_phase j p s))" "t_status (ctasks (set_phase j p s) ! t) = Broken"
  with assms(1) have "\<exists>it \<in> set (items s). it_task it = t \<and> it_phase it = Ended False"
    by (simp add: broken_inv_def)
  then obtain i where i: "i < length (items s)" "it_task (items s ! i) = t" "it_phase (items s ! i) = Ended False"
    by (metis in_set_conv_nth)
  with assms(3) have "i \<noteq> j" by auto
  with i have "items (set_phase j p s) ! i = items s ! i" "i < length (items (set_phase j p s))"
    by (simp_all add: set_phase_def)
  with i show "\<exists>it \<in> set (items (set_phase j p s)). it_task it = t \<and> it_phase it = Ended False"
    by (metis nth_mem)
qed

lemma broken_inv_frame:
  "broken_inv s \<Longrightarrow> ctasks s' = ctasks s \<Longrightarrow> items s' = items s \<Longrightarrow> broken_inv s'"
  by (simp add: broken_inv_def)

lemma broken_inv_lock: "broken_inv s \<Longrightarrow> broken_inv (set_lock w b s)"
  by (rule broken_inv_frame) auto

lemma broken_inv_step: "consumer_step c s s' \<Longrightarrow> broken_inv s \<Longrightarrow> broken_inv s'"
proof (induction rule: consumer_step.induct)
  case (fetch_some s m evs ms)
  then show ?case by (auto simp: broken_inv_def nth_append less_Suc_eq new_task_def)
next
  case (spawn_item t s w ws)
  then show ?case by (fastforce simp: broken_inv_def nth_list_update)
next
  case (join_err j s t)
  then have it: "\<exists>it \<in> set (items s). it_task it = t \<and> it_phase it = Ended False"
    using nth_mem by blast
  show ?case
    unfolding broken_inv_def
  proof (intro allI impI)
    fix u assume "u < length (ctasks (set_status t Broken s))"
      "t_status (ctasks (set_status t Broken s) ! u) = Broken"
    with it join_err.prems show "\<exists>it \<in> set (items (set_status t Broken s)). it_task it = u \<and> it_phase it = Ended False"
      by (cases "u = t") (simp_all add: broken_inv_def set_status_def)
  qed
next
  case (complete t s)
  then show ?case by (auto simp: broken_inv_def set_status_def nth_list_update split: if_splits)
qed (auto intro!: broken_inv_phase broken_inv_lock intro: broken_inv_frame)

lemma broken_inv_reach: "consumer_reach c s \<Longrightarrow> broken_inv s"
proof (induction rule: consumer_reach.induct)
  case init
  show ?case by (simp add: broken_inv_def consumer_init_def)
qed (rule broken_inv_step)

section \<open>Messages\<close>

definition task_messages :: "cstate \<Rightarrow> message list" where
  "task_messages s = concat (map t_messages (ctasks s))"

definition message_inv :: "consumer_config \<Rightarrow> cstate \<Rightarrow> bool" where
  "message_inv c s \<longleftrightarrow>
     mset (fetched s) = mset (task_messages s) + mset (dropped s) \<and>
     subseq (task_messages s) (fetched s) \<and>
     (batch_limit c = 1 \<longrightarrow> dropped s = []) \<and>
     (\<forall>ms \<in> set (map t_messages (ctasks s)). ms \<noteq> [] \<and> length ms \<le> batch_limit c)"

lemma fetch_batch_length:
  "fetch_batch n m evs = Some (Inr ms) \<Longrightarrow> 0 < n \<Longrightarrow> ms \<noteq> [] \<and> length ms \<le> n"
  using fetch_more_length [of n "[m]" evs ms] by (auto simp: fetch_batch_def split: if_splits)

lemma message_inv_frame:
  "message_inv c s \<Longrightarrow> map t_messages (ctasks s') = map t_messages (ctasks s) \<Longrightarrow>
   fetched s' = fetched s \<Longrightarrow> dropped s' = dropped s \<Longrightarrow> message_inv c s'"
  by (simp add: message_inv_def task_messages_def)

lemma message_inv_step: "consumer_step c s s' \<Longrightarrow> message_inv c s \<Longrightarrow> message_inv c s'"
proof (induction rule: consumer_step.induct)
  case (fetch_some s m evs ms)
  then have "ms \<noteq> [] \<and> length ms \<le> batch_limit c"
    by (intro fetch_batch_length) (auto simp: batch_limit_def)
  with fetch_some show ?case
    by (auto simp: message_inv_def task_messages_def new_task_def intro: list_emb_append_mono)
next
  case (fetch_fails s m evs e ms)
  then show ?case
    by (auto simp: message_inv_def task_messages_def fetch_batch_def)
next
  case (spawn_item t s w ws)
  then show ?case by (intro message_inv_frame [OF spawn_item.prems]) (auto intro: map_update_same)
next
  case (join_err j s t)
  then show ?case
    by (intro message_inv_frame [OF join_err.prems]) (auto simp: set_status_def intro: map_update_same)
next
  case (complete t s)
  then show ?case
    by (intro message_inv_frame [OF complete.prems]) (auto simp: set_status_def intro: map_update_same)
qed (auto intro: message_inv_frame)

lemma message_inv_reach: "consumer_reach c s \<Longrightarrow> message_inv c s"
proof (induction rule: consumer_reach.induct)
  case init
  show ?case by (simp add: message_inv_def consumer_init_def task_messages_def)
qed (rule message_inv_step)

section \<open>One slot: one after the other\<close>

definition single_work :: "consumer_config \<Rightarrow> bool" where
  "single_work c \<longleftrightarrow> batch_limit c = 1 \<or> \<not> ordered c"

definition done_with :: "work_item \<Rightarrow> bool" where
  "done_with it \<longleftrightarrow> it_phase it = Joined \<or> it_phase it = Ended False"

definition seq_inv :: "cstate \<Rightarrow> bool" where
  "seq_inv s \<longleftrightarrow>
     (\<forall>it \<in> set (items s). t_status (ctasks s ! it_task it) = Broken \<longrightarrow> it_phase it = Ended False) \<and>
     (\<forall>i. Suc i < length (items s) \<longrightarrow> done_with (items s ! i))"

lemma works_of_single:
  "single_work c \<Longrightarrow> length ms \<le> batch_limit c \<Longrightarrow> length (works_of c ms) \<le> 1"
  by (auto simp: single_work_def works_of_def batch_limit_def)

lemma task_works_single:
  assumes "single_work c" "message_inv c s" "work_inv c s" "t < length (ctasks s)"
  shows "length (task_works s t) + length (t_todo (ctasks s ! t)) \<le> 1"
proof -
  from assms(2,4) have "length (t_messages (ctasks s ! t)) \<le> batch_limit c"
    by (auto simp: message_inv_def)
  with assms(1) have "length (works_of c (t_messages (ctasks s ! t))) \<le> 1"
    by (rule works_of_single)
  moreover from assms(3,4)
  have "task_works s t @ t_todo (ctasks s ! t) = works_of c (t_messages (ctasks s ! t))"
    by (simp add: work_inv_def)
  ultimately show ?thesis by (metis length_append)
qed

lemma same_task_same_item:
  assumes "single_work c" "message_inv c s" "work_inv c s" "t < length (ctasks s)"
    and "i < length (items s)" "j < length (items s)" "it_task (items s ! i) = t" "it_task (items s ! j) = t"
  shows "i = j"
proof (rule one_worker_unique [of "\<lambda>it. it_task it = t" "items s", OF _ assms(5-8)])
  show "length (filter (\<lambda>it. it_task it = t) (items s)) \<le> 1"
    using task_works_single [OF assms(1-4)] by (simp add: task_works_def)
qed

lemma only_active_task:
  assumes "slot_inv c s" "capacity c = 1" "t < length (ctasks s)" "t_status (ctasks s ! t) = Active"
    and "u < length (ctasks s)" "t_status (ctasks s ! u) = Active"
  shows "u = t"
  using assms
  by (intro one_worker_unique [of "\<lambda>t. t_status t = Active" "ctasks s"])
    (auto simp: slot_inv_def active_tasks_def)

lemma seq_inv_items_done:
  assumes inv: "slot_inv c s" "message_inv c s" "work_inv c s" "seq_inv s"
    and c: "capacity c = 1" "single_work c"
    and t: "t < length (ctasks s)" "t_status (ctasks s ! t) = Active" "t_todo (ctasks s ! t) = w # ws"
    and it: "it \<in> set (items s)"
  shows "done_with it"
proof -
  from task_works_single [OF c(2) inv(2,3) t(1)] t(3) have "task_works s t = []" by simp
  with it have "it_task it \<noteq> t" by (auto simp: task_works_def filter_empty_conv)
  moreover from inv(1) it have u: "it_task it < length (ctasks s)" by (simp add: slot_inv_def)
  ultimately have "t_status (ctasks s ! it_task it) \<noteq> Active"
    using only_active_task [OF inv(1) c(1) t(1,2) u] by blast
  then consider "t_status (ctasks s ! it_task it) = Completed" | "t_status (ctasks s ! it_task it) = Broken"
    using task_status.exhaust by blast
  then show ?thesis
  proof cases
    case 1
    with inv(3) it u have "it_phase it = Joined" by (simp add: work_inv_def)
    then show ?thesis by (simp add: done_with_def)
  next
    case 2
    with inv(4) it show ?thesis by (simp add: seq_inv_def done_with_def)
  qed
qed

lemma seq_inv_phase:
  assumes "seq_inv s" "j < length (items s)" "\<not> done_with (items s ! j)"
    and "t_status (ctasks s ! it_task (items s ! j)) \<noteq> Broken"
  shows "seq_inv (set_phase j p s)"
proof -
  have "it_phase it = Ended False"
    if "it \<in> set (items (set_phase j p s))" "t_status (ctasks s ! it_task it) = Broken" for it
    using set_phase_items [OF that(1) assms(2)] that(2) assms(1,4) by (auto simp: seq_inv_def)
  moreover have "done_with (items (set_phase j p s) ! i)" if i: "Suc i < length (items s)" for i
  proof -
    from assms(1) i have "done_with (items s ! i)" by (simp add: seq_inv_def)
    moreover with assms(3) have "i \<noteq> j" by auto
    ultimately show ?thesis by (simp add: set_phase_def)
  qed
  ultimately show ?thesis by (simp add: seq_inv_def)
qed

lemma seq_inv_frame:
  "seq_inv s \<Longrightarrow> ctasks s' = ctasks s \<Longrightarrow> items s' = items s \<Longrightarrow> seq_inv s'"
  by (simp add: seq_inv_def)

lemma seq_inv_lock: "seq_inv s \<Longrightarrow> seq_inv (set_lock w b s)"
  by (rule seq_inv_frame) auto

lemma seq_not_broken:
  "seq_inv s \<Longrightarrow> j < length (items s) \<Longrightarrow> it_phase (items s ! j) \<noteq> Ended False \<Longrightarrow>
   t_status (ctasks s ! it_task (items s ! j)) \<noteq> Broken"
  by (auto simp: seq_inv_def)

lemma seq_inv_step:
  assumes c: "capacity c = 1" "single_work c"
  shows "consumer_step c s s' \<Longrightarrow> slot_inv c s \<Longrightarrow> message_inv c s \<Longrightarrow> work_inv c s \<Longrightarrow> seq_inv s \<Longrightarrow> seq_inv s'"
proof (induction rule: consumer_step.induct)
  case (spawn_item t s w ws)
  from spawn_item.prems spawn_item.hyps c have "\<forall>it \<in> set (items s). done_with it"
    using seq_inv_items_done by blast
  with spawn_item show ?case
    by (auto simp: seq_inv_def nth_append nth_list_update less_Suc_eq slot_inv_def)
next
  case (fetch_some s m evs ms)
  then show ?case by (auto simp: seq_inv_def slot_inv_def nth_append)
next
  case (join_err j s t)
  then have t: "t < length (ctasks s)" by (auto simp: slot_inv_def)
  have "it_phase it = Ended False" if "it \<in> set (items s)" "it_task it = t" for it
    using that same_task_same_item [OF c(2) join_err.prems(2,3) t] join_err.hyps
    by (metis in_set_conv_nth)
  with join_err t show ?case by (auto simp: seq_inv_def set_status_def nth_list_update)
next
  case (complete t s)
  then show ?case by (auto simp: seq_inv_def set_status_def nth_list_update)
next
  case (start_item j s)
  then show ?case by (intro seq_inv_lock seq_inv_phase) (auto simp: done_with_def dest: seq_not_broken)
next
  case (end_item j s b)
  then show ?case by (intro seq_inv_lock seq_inv_phase) (auto simp: done_with_def dest: seq_not_broken)
next
  case (join_ok j s t)
  then show ?case by (intro seq_inv_phase) (auto simp: done_with_def)
next
  case (cancel_waiting j s)
  then show ?case by (auto dest: seq_not_broken)
next
  case (cancel_working j s)
  then show ?case by (auto dest: seq_not_broken)
qed (auto intro: seq_inv_frame)

lemma seq_inv_reach:
  "consumer_reach c s \<Longrightarrow> capacity c = 1 \<Longrightarrow> single_work c \<Longrightarrow> seq_inv s"
proof (induction rule: consumer_reach.induct)
  case init
  show ?case by (simp add: seq_inv_def consumer_init_def)
next
  case (step s s')
  then show ?case
    using seq_inv_step slot_inv_reach message_inv_reach work_inv_reach by blast
qed

lemma mset_concat_filter:
  "distinct ks \<Longrightarrow> set ks = f ` set xs \<Longrightarrow> mset (concat (map (\<lambda>k. filter (\<lambda>x. f x = k) xs) ks)) = mset xs"
proof (induction ks arbitrary: xs)
  case (Cons k ks)
  let ?ys = "filter (\<lambda>x. f x \<noteq> k) xs"
  have "map (\<lambda>k'. filter (\<lambda>x. f x = k') xs) ks = map (\<lambda>k'. filter (\<lambda>x. f x = k') ?ys) ks"
    using Cons.prems(1) by (auto intro!: filter_cong)
  then have "mset (concat (map (\<lambda>k'. filter (\<lambda>x. f x = k') xs) (k # ks))) =
      mset (filter (\<lambda>x. f x = k) xs) + mset (concat (map (\<lambda>k'. filter (\<lambda>x. f x = k') ?ys) ks))"
    by (simp only: list.map concat.simps mset_append)
  also have "mset (concat (map (\<lambda>k'. filter (\<lambda>x. f x = k') ?ys) ks)) = mset ?ys"
    using Cons.prems by (intro Cons.IH) auto
  finally show ?case by simp
qed simp

section \<open>Some runs\<close>

definition ready_item :: "consumer_config \<Rightarrow> nat \<Rightarrow> message \<Rightarrow> item_phase \<Rightarrow> work_item" where
  "ready_item c t m p = \<lparr>it_task = t, it_work = hd (works_of c [m]), it_phase = p\<rparr>"

definition one_task :: "message \<Rightarrow> task_status \<Rightarrow> ctask" where
  "one_task m st = \<lparr>t_messages = [m], t_todo = [], t_status = st\<rparr>"

lemma works_of_one: "batch_limit c = 1 \<Longrightarrow> works_of c [m] = [hd (works_of c [m])]"
  by (simp add: works_of_def)

lemma reach_by:
  "consumer_reach c s \<Longrightarrow> consumer_step c s s' \<Longrightarrow> s' = s'' \<Longrightarrow> consumer_reach c s''"
  by (auto intro: consumer_reach.step)

text \<open>A free slot takes the next message to a waiting item.\<close>

lemma reach_next_message:
  assumes r: "consumer_reach c s" and s: "pc s = AtTop" "0 < permits s" "batch_limit c = 1" "slot_inv c s"
  shows "consumer_reach c (s\<lparr>permits := permits s - 1, pc := AtTop, fetched := fetched s @ [m],
           ctasks := ctasks s @ [one_task m Active], items := items s @ [ready_item c (length (ctasks s)) m Waiting]\<rparr>)"
proof -
  let ?s1 = "s\<lparr>pc := Fetching, permits := permits s - 1\<rparr>"
  let ?s2 = "?s1\<lparr>pc := AtTop, ctasks := ctasks s @ [new_task c [m]], fetched := fetched s @ [m]\<rparr>"
  let ?t = "length (ctasks s)"
  have r1: "consumer_reach c ?s1"
    using reach_by [OF r acquire] s by blast
  have f: "fetch_batch (batch_limit c) m [] = Some (Inr [m])"
    using s(3) by (simp add: fetch_batch_def)
  have r2: "consumer_reach c ?s2"
    by (rule reach_by [OF r1 fetch_some [where ms = "[m]", OF _ f]]) simp_all
  have "in_flight ?s2 ?t = 0"
    using s(4) by (auto simp: in_flight_def slot_inv_def filter_empty_conv)
  then have "consumer_step c ?s2
     (?s2\<lparr>ctasks := (ctasks ?s2)[?t := (ctasks ?s2 ! ?t)\<lparr>t_todo := []\<rparr>],
          items := items ?s2 @ [\<lparr>it_task = ?t, it_work = hd (works_of c [m]), it_phase = Waiting\<rparr>]\<rparr>)"
    using works_of_one [OF s(3), of m]
    by (intro consumer_step.spawn_item) (simp_all add: new_task_def ORDERED_BATCH_KEY_CONCURRENCY_def)
  from reach_by [OF r2 this] show ?thesis
    by (simp add: new_task_def one_task_def ready_item_def)
qed

text \<open>Two messages of one key are fetched, and the second is worked on first.\<close>

lemma reach_two_messages:
  assumes c: "batch_limit c = 1" "2 \<le> capacity c"
  shows "consumer_reach c
     \<lparr>pc = AtTop, permits = capacity c - 2, ctasks = [one_task m Active, one_task m' Active],
      items = [ready_item c 0 m Waiting, ready_item c 1 m' Waiting], key_locks = Map.empty,
      fetched = [m, m'], dropped = []\<rparr>"
proof -
  have r0: "consumer_reach c (consumer_init c)" by (rule consumer_reach.init)
  have "consumer_reach c
     \<lparr>pc = AtTop, permits = capacity c - 1, ctasks = [one_task m Active],
      items = [ready_item c 0 m Waiting], key_locks = Map.empty, fetched = [m], dropped = []\<rparr>"
    using reach_next_message [OF r0 _ _ c(1) slot_inv_reach [OF r0], of m] c(2)
    by (simp add: consumer_init_def)
  from reach_next_message [OF this _ _ c(1) slot_inv_reach [OF this], of m'] c(2)
  show ?thesis by (simp add: numeral_2_eq_2)
qed

lemma reach_overtaking:
  assumes c: "batch_limit c = 1" "2 \<le> capacity c" "ordered c"
  shows "consumer_reach c
     \<lparr>pc = AtTop, permits = capacity c - 2, ctasks = [one_task m Active, one_task m' Active],
      items = [ready_item c 0 m Waiting, ready_item c 1 m' Working],
      key_locks = [ordered_key m' \<mapsto> True], fetched = [m, m'], dropped = []\<rparr>"
  by (rule reach_by [OF reach_two_messages [OF c(1,2), of m m'] start_item [of 1]])
    (use c in \<open>simp_all add: ready_item_def works_of_def key_free_def set_phase_def set_lock_def\<close>)

text \<open>One message from its arrival to its end, without ordering.\<close>

lemma reach_one_message:
  assumes r: "consumer_reach c s" and s: "pc s = AtTop" "0 < permits s"
    and c: "batch_limit c = 1" "\<not> ordered c"
  shows "consumer_reach c (s\<lparr>permits := permits s, pc := AtTop, fetched := fetched s @ [m],
           ctasks := ctasks s @ [one_task m Completed], items := items s @ [ready_item c (length (ctasks s)) m Joined]\<rparr>)"
    (is "consumer_reach c (?s (permits s) Completed Joined)")
proof -
  let ?j = "length (items s)" and ?t = "length (ctasks s)" and ?p = "permits s - 1"
  have w: "works_of c [m] = [(None, [m])]" using c by (simp add: works_of_def)
  have inv: "slot_inv c s" by (rule slot_inv_reach [OF r])
  have r1: "consumer_reach c (?s ?p Active Waiting)"
    by (rule reach_next_message [OF r s c(1) inv])
  have r2: "consumer_reach c (?s ?p Active Working)"
    by (rule reach_by [OF r1 start_item [of ?j]])
      (simp_all add: ready_item_def w key_free_def set_phase_def set_lock_def)
  have r3: "consumer_reach c (?s ?p Active (Ended True))"
    by (rule reach_by [OF r2 end_item [of ?j _ _ True]])
      (simp_all add: ready_item_def w set_phase_def set_lock_def)
  have r4: "consumer_reach c (?s ?p Active Joined)"
    by (rule reach_by [OF r3 join_ok [of ?j _ ?t]])
      (simp_all add: ready_item_def one_task_def w set_phase_def)
  have "in_flight (?s ?p Active Joined) ?t = 0"
    using inv by (auto simp: in_flight_def slot_inv_def filter_empty_conv ready_item_def)
  then have "consumer_step c (?s ?p Active Joined) (set_status ?t Completed (?s ?p Active Joined))"
    by (intro complete) (simp_all add: one_task_def)
  then show ?thesis
    by (rule reach_by [OF r4]) (rule cstate.equality; use s(2) in \<open>simp add: one_task_def set_status_def\<close>)
qed

lemma reach_completed:
  assumes c: "batch_limit c = 1" "\<not> ordered c"
  shows "consumer_reach c
     \<lparr>pc = Returned, permits = capacity c, ctasks = [one_task m Completed, one_task m' Completed],
      items = [ready_item c 0 m Joined, ready_item c 1 m' Joined], key_locks = Map.empty,
      fetched = [m, m'], dropped = []\<rparr>" (is "consumer_reach c (?s Returned)")
proof -
  have pos: "0 < capacity c" by (simp add: capacity_def)
  have r0: "consumer_reach c (consumer_init c)" by (rule consumer_reach.init)
  have "consumer_reach c
     \<lparr>pc = AtTop, permits = capacity c, ctasks = [one_task m Completed],
      items = [ready_item c 0 m Joined], key_locks = Map.empty, fetched = [m], dropped = []\<rparr>"
    using reach_one_message [OF r0 _ _ c, of m] pos by (simp add: consumer_init_def)
  from reach_one_message [OF this _ _ c, of m'] pos have r2: "consumer_reach c (?s AtTop)"
    by simp
  have r3: "consumer_reach c (?s Draining)"
    by (rule reach_by [OF r2 shutdown_top]) simp_all
  show ?thesis
    by (rule reach_by [OF r3 stop]) (simp_all add: one_task_def)
qed

definition keyed_message :: "nat \<Rightarrow> message" where
  "keyed_message n =
     message_new [] Raw ((message_context_new ''id'' n root ''orders'')\<lparr>msg_key := Some ''k''\<rparr>)"

definition example_config :: "nat \<Rightarrow> bool \<Rightarrow> consumer_config" where
  "example_config n b =
     with_concurrency (of_nat n) (with_ordered b consumer_config_default)"

lemma example_config_facts:
  "batch_limit (example_config n b) = 1" "ordered (example_config n b) = b"
  "capacity (example_config 1 b) = 1" "capacity (example_config 2 b) = 2"
  by (simp_all add: example_config_def with_concurrency_def with_ordered_def consumer_config_default_def
      batch_limit_def capacity_def)

lemma example_overtaking:
  "consumer_reach (example_config 2 True)
     \<lparr>pc = AtTop, permits = 0,
      ctasks = [one_task (keyed_message 1) Active, one_task (keyed_message 2) Active],
      items = [ready_item (example_config 2 True) 0 (keyed_message 1) Waiting,
               ready_item (example_config 2 True) 1 (keyed_message 2) Working],
      key_locks = [''k'' \<mapsto> True], fetched = [keyed_message 1, keyed_message 2], dropped = []\<rparr>"
proof -
  have "ordered_key (keyed_message 2) = ''k''"
    by (simp add: ordered_key_def keyed_message_def message_new_def message_context_new_def)
  then show ?thesis
    using reach_overtaking [of "example_config 2 True" "keyed_message 1" "keyed_message 2"]
    by (simp add: example_config_facts)
qed

lemma example_completed:
  "consumer_reach (example_config 1 False)
     \<lparr>pc = Returned, permits = 1,
      ctasks = [one_task (keyed_message 1) Completed, one_task (keyed_message 2) Completed],
      items = [ready_item (example_config 1 False) 0 (keyed_message 1) Joined,
               ready_item (example_config 1 False) 1 (keyed_message 2) Joined],
      key_locks = Map.empty, fetched = [keyed_message 1, keyed_message 2], dropped = []\<rparr>"
  using reach_completed [of "example_config 1 False" "keyed_message 1" "keyed_message 2"]
  by (simp add: example_config_facts del: One_nat_def)

section \<open>Properties of the consumer\<close>

text \<open>
  The slots of the semaphore are accounted for in every reachable state: a free permit, the
  permit the loop holds while it fetches, or a task that has not ended. So there are never more tasks
  than the configured concurrency (and at least one is always possible).
\<close>

theorem consumer_slots_bounded:
  "consumer_reach c s \<Longrightarrow>
   permits s + of_bool (pc s = Fetching) + length (filter (\<lambda>t. t_status t = Active) (ctasks s)) = capacity c \<and>
   length (filter (\<lambda>t. t_status t = Active) (ctasks s)) \<le> max 1 (unat (pw_concurrency (poll c)))"
  using slot_inv_reach [of c s] by (auto simp: slot_inv_def active_tasks_def capacity_def)

theorem consumer_slots_bounded_witness:
  "length (filter (\<lambda>t. t_status t = Active)
     [one_task (keyed_message 1) Active, one_task (keyed_message 2) Active])
   \<le> max 1 (unat (pw_concurrency (poll (example_config 2 True))))"
  using consumer_slots_bounded [OF example_overtaking] by simp

text \<open>
  Claim C8. Mutual exclusion of an ordered consumer: for every key, exactly as many items hold it as its
  lock says, so never two items with one key are working at the same time, across all tasks.
\<close>

theorem key_mutual_exclusion:
  "consumer_reach c s \<Longrightarrow>
   length (filter (\<lambda>it. it_phase it = Working \<and> fst (it_work it) = Some k) (items s)) =
   of_bool (key_locks s k = Some True)"
  using lock_inv_reach [of c s] by (simp add: lock_inv_def workers_def works_on_def [abs_def])

theorem key_mutual_exclusion_witness:
  "length (filter (\<lambda>it. it_phase it = Working \<and> fst (it_work it) = Some ''k'')
     [ready_item (example_config 2 True) 0 (keyed_message 1) Waiting,
      ready_item (example_config 2 True) 1 (keyed_message 2) Working]) = 1"
  using key_mutual_exclusion [OF example_overtaking, of "''k''"] by simp

text \<open>
  Claim C6. Graceful stop: when the consumer has returned no task is left running. The items of a
  completed task are exactly the works of its messages, each joined with success once; a task that did
  not complete has an item that failed.
\<close>

theorem consumer_graceful_stop:
  assumes "consumer_reach c s" and "pc s = Returned" and "t < length (ctasks s)"
  shows "t_status (ctasks s ! t) = Completed \<and>
         map (\<lambda>it. (it_work it, it_phase it)) (filter (\<lambda>it. it_task it = t) (items s)) =
           map (\<lambda>w. (w, Joined)) (works_of c (t_messages (ctasks s ! t))) \<or>
         t_status (ctasks s ! t) = Broken \<and>
         (\<exists>it \<in> set (items s). it_task it = t \<and> it_phase it = Ended False)"
proof (cases "t_status (ctasks s ! t)")
  case Active
  with returned_reach [OF assms(1)] assms(2,3) show ?thesis by auto
next
  case Completed
  with work_inv_reach [OF assms(1)] assms(3)
  have w: "task_works s t = works_of c (t_messages (ctasks s ! t))"
    and j: "\<forall>it \<in> set (items s). it_task it = t \<longrightarrow> it_phase it = Joined"
    by (auto simp: work_inv_def)
  from j have "map (\<lambda>it. (it_work it, it_phase it)) (filter (\<lambda>it. it_task it = t) (items s)) =
      map (\<lambda>w. (w, Joined)) (task_works s t)"
    by (simp add: task_works_def)
  with w Completed show ?thesis by simp
next
  case Broken
  with broken_inv_reach [OF assms(1)] assms(3) show ?thesis by (auto simp: broken_inv_def)
qed

theorem consumer_graceful_stop_witness:
  "map (\<lambda>it. (it_work it, it_phase it)) (filter (\<lambda>it. it_task it = 1)
     [ready_item (example_config 1 False) 0 (keyed_message 1) Joined,
      ready_item (example_config 1 False) 1 (keyed_message 2) Joined]) =
   map (\<lambda>w. (w, Joined)) (works_of (example_config 1 False) [keyed_message 2])"
  using consumer_graceful_stop [OF example_completed, of 1] by (simp add: one_task_def)



text \<open>
  With one slot, and without several keys in a task, items run strictly one after the other:
  every item but the last one has ended (joined with success, or failed) before the last one exists.
\<close>

theorem one_slot_in_order:
  "consumer_reach c s \<Longrightarrow> capacity c = 1 \<Longrightarrow> batch_limit c = 1 \<or> \<not> ordered c \<Longrightarrow>
   Suc i < length (items s) \<Longrightarrow>
   it_phase (items s ! i) = Joined \<or> it_phase (items s ! i) = Ended False"
  using seq_inv_reach [of c s] by (auto simp: single_work_def seq_inv_def done_with_def)

theorem one_slot_in_order_witness:
  "it_phase ([ready_item (example_config 1 False) 0 (keyed_message 1) Joined,
               ready_item (example_config 1 False) 1 (keyed_message 2) Joined] ! 0) \<in> {Joined, Ended False}"
  using one_slot_in_order [OF example_completed, of 0] by (simp add: example_config_facts del: One_nat_def)

text \<open>
  An ordered consumer with two slots does not keep the order of a key: the lock of the key is
  taken by the spawned tasks, so the second of two messages of one key can be worked on while the
  first still waits.
\<close>

theorem same_key_overtakes:
  assumes "ordered c" and "batch_limit c = 1" and "2 \<le> capacity c" and "ordered_key m = ordered_key m'"
  shows "\<exists>s. consumer_reach c s \<and> fetched s = [m, m'] \<and>
     map (\<lambda>it. (it_work it, it_phase it)) (items s) =
       [((Some (ordered_key m), [m]), Waiting), ((Some (ordered_key m), [m']), Working)]"
  by (rule exI, rule conjI, rule reach_overtaking [OF assms(2,3,1), of m m'])
    (use assms in \<open>simp add: ready_item_def works_of_def\<close>)

theorem same_key_overtakes_witness:
  "\<exists>s. consumer_reach (example_config 2 True) s \<and> fetched s = [keyed_message 1, keyed_message 2] \<and>
     map it_phase (items s) = [Waiting, Working]"
  using same_key_overtakes [of "example_config 2 True" "keyed_message 1" "keyed_message 2"]
  by (force simp: example_config_facts ordered_key_def keyed_message_def message_new_def
      message_context_new_def)

text \<open>
  The items of an ordered batch: one for each key that occurs, with a key's messages in the
  order of the batch; together they are the messages of the batch.
\<close>

theorem ordered_batch_works:
  assumes "batch_limit c > 1" and "ordered c"
  shows "distinct (map fst (works_of c ms)) \<and>
         mset (concat (map snd (works_of c ms))) = mset ms \<and>
         (\<forall>w \<in> set (works_of c ms). \<exists>k. w = (Some k, filter (\<lambda>m. ordered_key m = k) ms) \<and> snd w \<noteq> [])"
proof -
  obtain ks where ks: "distinct ks" "set ks = ordered_key ` set ms"
    and g: "ordered_groups ms = map (\<lambda>k. (k, filter (\<lambda>m. ordered_key m = k) ms)) ks"
    using ordered_groups_spec by blast
  have w: "works_of c ms = map (\<lambda>k. (Some k, filter (\<lambda>m. ordered_key m = k) ms)) ks"
    using assms by (simp add: works_of_def g comp_def)
  have "mset (concat (map (\<lambda>k. filter (\<lambda>m. ordered_key m = k) ms) ks)) = mset ms"
    by (rule mset_concat_filter [OF ks])
  with w ks show ?thesis
    by (auto simp: comp_def distinct_map inj_on_def filter_empty_conv)
qed

theorem ordered_batch_works_witness:
  "mset (concat (map snd (works_of (with_batch_size 10 (example_config 2 True))
           [keyed_message 1, keyed_message 2]))) = mset [keyed_message 1, keyed_message 2]"
  by (rule ordered_batch_works [THEN conjunct2, THEN conjunct1])
    (simp_all add: with_batch_size_def example_config_def with_concurrency_def with_ordered_def
      consumer_config_default_def batch_limit_def)

text \<open>
  With batches, an error of the fetcher while a batch is filled loses the messages that the
  batch already had: they were fetched, and no task ever sees them.
\<close>

theorem failed_batch_fetch_drops:
  "batch_limit c > 1 \<Longrightarrow> \<exists>s. consumer_reach c s \<and> pc s = AtTop \<and> fetched s = [m] \<and> dropped s = [m] \<and> ctasks s = []"
proof -
  assume c: "batch_limit c > 1"
  have pos: "0 < capacity c" by (simp add: capacity_def)
  have f: "fetch_batch (batch_limit c) m [FetchFails CShutdown] = Some (Inl (CShutdown, [m]))"
    using c by (simp add: fetch_batch_def fetch_more.simps)
  have "consumer_reach c ((consumer_init c)\<lparr>pc := Fetching, permits := permits (consumer_init c) - 1\<rparr>)"
    by (rule consumer_reach.step [OF consumer_reach.init acquire]) (use pos in \<open>simp_all add: consumer_init_def\<close>)
  then have "consumer_reach c
     ((consumer_init c)\<lparr>pc := AtTop, permits := capacity c, fetched := [m], dropped := [m]\<rparr>)"
    by (rule reach_by [OF _ fetch_fails [OF _ f]]) (use pos in \<open>simp_all add: consumer_init_def\<close>)
  then show ?thesis by (rule exI [where x = "(consumer_init c)\<lparr>pc := AtTop, permits := capacity c, fetched := [m], dropped := [m]\<rparr>", OF conjI]) (simp add: consumer_init_def)
qed

theorem failed_batch_fetch_drops_witness:
  "\<exists>s. consumer_reach (with_batch_size 10 consumer_config_default) s \<and> dropped s = [keyed_message 1] \<and> ctasks s = []"
  using failed_batch_fetch_drops [of "with_batch_size 10 consumer_config_default" "keyed_message 1"]
  by (auto simp: with_batch_size_def consumer_config_default_def batch_limit_def)

end
