(* ===== verification/Nats_Subject.thy ===== *)
theory Nats_Subject
  imports Mq_Scheduler "HOL-Library.List_Lexorder" "HOL-Library.Char_ord"
begin

text \<open>
  \<^verbatim>\<open>flare-core-messaging/src/mq/nats/config.rs\<close> and the set-up part of \<^verbatim>\<open>nats/consumer.rs\<close>: stream
  specifications, subject patterns, which stream owns a subject, and how the subjects of a dispatcher
  become one consumer task per stream. The calls of the JetStream client are a parameter; what is sent
  to it (the configuration of streams and consumers) is modelled. Subjects, stream and group names are
  ASCII, so that a character is a byte. Durations are seconds or milliseconds as in the code.
\<close>

unbundle bit_operations_syntax

section \<open>Streams\<close>

record stream_spec =
  ss_name :: string
  ss_subjects :: "string list"
  ss_max_age :: nat
  ss_duplicate_window :: nat
  ss_num_replicas :: nat

definition stream_spec_new :: "string \<Rightarrow> string list \<Rightarrow> stream_spec" where
  "stream_spec_new n subjects =
     \<lparr>ss_name = n, ss_subjects = subjects, ss_max_age = 7 * 24 * 3600, ss_duplicate_window = 10 * 60,
      ss_num_replicas = 1\<rparr>"

definition with_max_age :: "nat \<Rightarrow> stream_spec \<Rightarrow> stream_spec" where
  "with_max_age d sp = sp\<lparr>ss_max_age := d\<rparr>"

definition with_duplicate_window :: "nat \<Rightarrow> stream_spec \<Rightarrow> stream_spec" where
  "with_duplicate_window d sp = sp\<lparr>ss_duplicate_window := d\<rparr>"

definition with_num_replicas :: "nat \<Rightarrow> stream_spec \<Rightarrow> stream_spec" where
  "with_num_replicas n sp = sp\<lparr>ss_num_replicas := max 1 (min n 5)\<rparr>"

definition STREAM_FLARE_MESSAGE :: string where "STREAM_FLARE_MESSAGE = ''FLARE_MESSAGE''"
definition STREAM_FLARE_PUSH :: string where "STREAM_FLARE_PUSH = ''FLARE_PUSH''"
definition STREAM_FLARE_DLQ :: string where "STREAM_FLARE_DLQ = ''FLARE_DLQ''"
definition SUBJECT_FLARE_DLQ_PREFIX :: string where "SUBJECT_FLARE_DLQ_PREFIX = ''flare.im.dlq''"

definition dlq_stream_spec :: stream_spec where
  "dlq_stream_spec = with_max_age (7 * 24 * 3600) (stream_spec_new STREAM_FLARE_DLQ [''flare.im.dlq.>''])"

definition default_stream_specs :: "stream_spec list" where
  "default_stream_specs =
     [stream_spec_new STREAM_FLARE_MESSAGE [''flare.im.message.*'', ''flare.im.conversation.*''],
      with_max_age (24 * 3600) (stream_spec_new STREAM_FLARE_PUSH [''flare.im.push.*'']),
      dlq_stream_spec]"

section \<open>Subject patterns\<close>

text \<open>The loop over the tokens of the pattern; the second argument is what is left of the subject.\<close>

fun match_loop :: "string list \<Rightarrow> string list \<Rightarrow> bool" where
  "match_loop [] ss = (ss = [])"
| "match_loop (t # ts) ss =
     (if t = ''>'' then ts = [] \<and> ss \<noteq> []
      else (case ss of
              [] \<Rightarrow> False
            | s # ss' \<Rightarrow> if t \<noteq> ''*'' \<and> t \<noteq> s then False else match_loop ts ss'))"

definition subject_matches :: "string \<Rightarrow> string \<Rightarrow> bool" where
  "subject_matches p s =
     (if p = s then True else match_loop (split_on CHR ''.'' p) (split_on CHR ''.'' s))"

definition spec_covers :: "stream_spec \<Rightarrow> string \<Rightarrow> bool" where
  "spec_covers sp s = (\<exists>p \<in> set (ss_subjects sp). subject_matches p s)"

definition resolve_subject_stream :: "stream_spec list \<Rightarrow> string \<Rightarrow> stream_spec option" where
  "resolve_subject_stream specs s = find (\<lambda>sp. spec_covers sp s) specs"

text \<open>What a token of a pattern stands for.\<close>

definition token_covers :: "string \<Rightarrow> string \<Rightarrow> bool" where
  "token_covers t s \<longleftrightarrow> t = ''*'' \<or> t = s"

lemma match_loop_exact:
  "''>'' \<notin> set ts \<Longrightarrow> match_loop ts ss \<longleftrightarrow> list_all2 token_covers ts ss"
  by (induction ts ss rule: match_loop.induct) (auto simp: token_covers_def split: list.splits)

lemma match_loop_tail:
  "''>'' \<notin> set ts \<Longrightarrow>
   match_loop (ts @ [''>'']) ss \<longleftrightarrow> (\<exists>us vs. ss = us @ vs \<and> vs \<noteq> [] \<and> list_all2 token_covers ts us)"
proof (induction ts arbitrary: ss)
  case (Cons t ts)
  show ?case
  proof (cases ss)
    case (Cons s ss')
    have "(\<exists>us vs. s # ss' = us @ vs \<and> vs \<noteq> [] \<and> list_all2 token_covers (t # ts) us) \<longleftrightarrow>
        token_covers t s \<and> (\<exists>us vs. ss' = us @ vs \<and> vs \<noteq> [] \<and> list_all2 token_covers ts us)"
      by (auto simp: list_all2_Cons1 Cons_eq_append_conv)
    moreover have "match_loop (ts @ [''>'']) ss' \<longleftrightarrow> (\<exists>us vs. ss' = us @ vs \<and> vs \<noteq> [] \<and> list_all2 token_covers ts us)"
      using Cons.prems by (intro Cons.IH) simp
    moreover have "match_loop ((t # ts) @ [''>'']) ss \<longleftrightarrow> token_covers t s \<and> match_loop (ts @ [''>'']) ss'"
      using Cons.prems by (auto simp: \<open>ss = s # ss'\<close> token_covers_def)
    ultimately show ?thesis using \<open>ss = s # ss'\<close> by simp
  qed (use Cons.prems in auto)
qed auto

lemma match_loop_misplaced:
  "match_loop ps ss \<Longrightarrow> ''>'' \<in> set ps \<Longrightarrow> \<exists>ts. ps = ts @ [''>''] \<and> ''>'' \<notin> set ts"
proof (induction ps ss rule: match_loop.induct)
  case (2 t ts ss)
  show ?case
  proof (cases "t = ''>''")
    case True
    with 2 show ?thesis by (intro exI [of _ "[]"]) simp
  next
    case False
    with 2(2) obtain s ss' where ss: "ss = s # ss'" and m: "match_loop ts ss'" and "t = ''*'' \<or> t = s"
      by (auto split: list.splits if_splits)
    with 2 False obtain us where "ts = us @ [''>'']" "''>'' \<notin> set us" by auto
    with False show ?thesis by (intro exI [of _ "t # us"]) auto
  qed
qed simp

text \<open>The three forms of a match, for the equivalence below.\<close>

definition pattern_meaning :: "string list \<Rightarrow> string list \<Rightarrow> bool" where
  "pattern_meaning ps ss \<longleftrightarrow>
     ''>'' \<notin> set ps \<and> list_all2 token_covers ps ss \<or>
     (\<exists>ts us vs. ps = ts @ [''>''] \<and> ''>'' \<notin> set ts \<and> ss = us @ vs \<and> vs \<noteq> [] \<and> list_all2 token_covers ts us)"

lemma match_loop_meaning: "match_loop ps ss \<longleftrightarrow> pattern_meaning ps ss"
proof (cases "''>'' \<in> set ps")
  case False
  then show ?thesis by (auto simp: pattern_meaning_def match_loop_exact)
next
  case True
  show ?thesis
  proof (cases "\<exists>ts. ps = ts @ [''>''] \<and> ''>'' \<notin> set ts")
    case True
    then obtain ts where ts: "ps = ts @ [''>'']" "''>'' \<notin> set ts" by blast
    then have "match_loop ps ss \<longleftrightarrow> (\<exists>us vs. ss = us @ vs \<and> vs \<noteq> [] \<and> list_all2 token_covers ts us)"
      by (simp add: match_loop_tail)
    with ts show ?thesis unfolding pattern_meaning_def by auto
  next
    case False
    with True match_loop_misplaced [of ps ss] show ?thesis by (auto simp: pattern_meaning_def)
  qed
qed

lemma list_all2_token_refl: "list_all2 token_covers ts ts"
  by (rule list_all2_refl) (simp add: token_covers_def)

lemma pattern_meaning_refl:
  assumes "''>'' \<notin> set (butlast ps)" and "ps \<noteq> []"
  shows "pattern_meaning ps ps"
proof (cases "last ps = ''>''")
  case True
  with assms have "ps = butlast ps @ [''>'']" by (metis append_butlast_last_id)
  with assms(1) show ?thesis
    unfolding pattern_meaning_def using list_all2_token_refl by (metis list.distinct(1))
next
  case False
  with assms have "''>'' \<notin> set ps" by (metis append_butlast_last_id in_set_conv_decomp_last rotate1.simps(2) set_ConsD set_rotate1)
  then show ?thesis by (simp add: pattern_meaning_def list_all2_token_refl)
qed

section \<open>The streams of the default topology do not overlap\<close>

lemma subject_tokens:
  "subject_matches p s \<Longrightarrow> ''>'' \<notin> set (butlast (split_on CHR ''.'' p)) \<Longrightarrow>
   match_loop (split_on CHR ''.'' p) (split_on CHR ''.'' s)"
  by (auto simp: subject_matches_def match_loop_meaning pattern_meaning_refl split: if_splits)

lemma default_patterns:
  "split_on CHR ''.'' ''flare.im.message.*'' = [''flare'', ''im'', ''message'', ''*'']"
  "split_on CHR ''.'' ''flare.im.conversation.*'' = [''flare'', ''im'', ''conversation'', ''*'']"
  "split_on CHR ''.'' ''flare.im.push.*'' = [''flare'', ''im'', ''push'', ''*'']"
  "split_on CHR ''.'' ''flare.im.dlq.>'' = [''flare'', ''im'', ''dlq'', ''>'']"
  by simp_all

text \<open>The third token of a subject tells its stream.\<close>

definition area :: "string \<Rightarrow> string" where
  "area s = (case split_on CHR ''.'' s of _ # _ # t # _ \<Rightarrow> t | _ \<Rightarrow> [])"

lemma area_of_match:
  "subject_matches ''flare.im.message.*'' s \<Longrightarrow> area s = ''message''"
  "subject_matches ''flare.im.conversation.*'' s \<Longrightarrow> area s = ''conversation''"
  "subject_matches ''flare.im.push.*'' s \<Longrightarrow> area s = ''push''"
  "subject_matches ''flare.im.dlq.>'' s \<Longrightarrow> area s = ''dlq''"
proof -
  assume "subject_matches ''flare.im.message.*'' s"
  from subject_tokens [OF this] show "area s = ''message''"
    unfolding default_patterns by (auto simp: area_def split: list.splits if_splits)
next
  assume "subject_matches ''flare.im.conversation.*'' s"
  from subject_tokens [OF this] show "area s = ''conversation''"
    unfolding default_patterns by (auto simp: area_def split: list.splits if_splits)
next
  assume "subject_matches ''flare.im.push.*'' s"
  from subject_tokens [OF this] show "area s = ''push''"
    unfolding default_patterns by (auto simp: area_def split: list.splits if_splits)
next
  assume "subject_matches ''flare.im.dlq.>'' s"
  from subject_tokens [OF this] show "area s = ''dlq''"
    unfolding default_patterns by (auto simp: area_def split: list.splits if_splits)
qed

lemma spec_covers_area:
  "spec_covers (stream_spec_new STREAM_FLARE_MESSAGE [''flare.im.message.*'', ''flare.im.conversation.*'']) s
     \<Longrightarrow> area s = ''message'' \<or> area s = ''conversation''"
  "spec_covers (with_max_age d (stream_spec_new STREAM_FLARE_PUSH [''flare.im.push.*''])) s \<Longrightarrow> area s = ''push''"
  "spec_covers dlq_stream_spec s \<Longrightarrow> area s = ''dlq''"
  using area_of_match [of s]
  by (auto simp: spec_covers_def stream_spec_new_def with_max_age_def dlq_stream_spec_def)

section \<open>From subjects to consumer tasks\<close>

record nats_consumer_config =
  nc_url :: string
  nc_group :: string
  nc_manual_ack :: bool
  nc_batch_size :: u64
  nc_batch_timeout_ms :: u64
  nc_durable :: bool
  nc_streams :: "stream_spec list"
  nc_ack_wait_secs :: u64
  nc_max_deliver :: int
  nc_max_ack_pending :: int

text \<open>The defaults of the trait, which a configuration may override.\<close>

definition default_ack_wait_secs :: u64 where "default_ack_wait_secs = 30"
definition default_max_deliver :: int where "default_max_deliver = 16"

definition default_max_ack_pending :: "u64 \<Rightarrow> int" where
  "default_max_ack_pending n =
     signed (of_nat (max (min (unat n * 16) (2 ^ 64 - 1)) 1024) :: u64)"

text \<open>
  \<^verbatim>\<open>ResolvedNatsConsumerConfig\<close>: the configuration for one stream. It forwards what it stores; the
  three overridable limits go back to their defaults.
\<close>

definition resolved_config :: "nats_consumer_config \<Rightarrow> stream_spec \<Rightarrow> nats_consumer_config" where
  "resolved_config c sp =
     \<lparr>nc_url = nc_url c, nc_group = nc_group c, nc_manual_ack = nc_manual_ack c,
      nc_batch_size = nc_batch_size c, nc_batch_timeout_ms = nc_batch_timeout_ms c,
      nc_durable = nc_durable c, nc_streams = [sp], nc_ack_wait_secs = default_ack_wait_secs,
      nc_max_deliver = default_max_deliver, nc_max_ack_pending = default_max_ack_pending (nc_batch_size c)\<rparr>"

text \<open>\<^verbatim>\<open>BTreeMap::entry(k).or_insert(v)\<close> followed by an update: an association list sorted by key.\<close>

fun entry_update :: "'k::linorder \<Rightarrow> 'v \<Rightarrow> ('v \<Rightarrow> 'v) \<Rightarrow> ('k \<times> 'v) list \<Rightarrow> ('k \<times> 'v) list" where
  "entry_update k v f [] = [(k, f v)]"
| "entry_update k v f ((k', v') # m) =
     (if k < k' then (k, f v) # (k', v') # m
      else if k = k' then (k', f v') # m
      else (k', v') # entry_update k v f m)"

type_synonym subject_groups = "(string \<times> stream_spec \<times> string list) list"

fun group_loop_subjects ::
  "stream_spec list \<Rightarrow> string list \<Rightarrow> subject_groups \<Rightarrow> consumer_error + subject_groups" where
  "group_loop_subjects specs [] acc = Inr acc"
| "group_loop_subjects specs (s # ss) acc =
     (case resolve_subject_stream specs s of
        None \<Rightarrow> Inl (CConfiguration (''No JetStream stream configured for subject: '' @ s))
      | Some sp \<Rightarrow>
          group_loop_subjects specs ss
            (entry_update (ss_name sp) (sp, []) (\<lambda>(sp', xs). (sp', xs @ [s])) acc))"

definition group_subjects_by_stream ::
  "nats_consumer_config \<Rightarrow> string list \<Rightarrow> consumer_error + subject_groups" where
  "group_subjects_by_stream c subjects = group_loop_subjects (nc_streams c) subjects []"

fun join_strings :: "string \<Rightarrow> string list \<Rightarrow> string" where
  "join_strings sep [] = []"
| "join_strings sep [x] = x"
| "join_strings sep (x # xs) = x @ sep @ join_strings sep xs"

definition resolve_stream_for_subjects ::
  "nats_consumer_config \<Rightarrow> string list \<Rightarrow> consumer_error + stream_spec" where
  "resolve_stream_for_subjects c subjects =
     (case group_subjects_by_stream c subjects of
        Inl e \<Rightarrow> Inl e
      | Inr grouped \<Rightarrow>
          (case grouped of
             [(n, sp, xs)] \<Rightarrow> Inr sp
           | _ \<Rightarrow> Inl (CConfiguration (''Subjects span multiple JetStream streams ('' @
                      join_strings '', '' (map fst grouped) @ ''); use build_nats_consumer_tasks''))))"

definition is_alnum :: "char \<Rightarrow> bool" where
  "is_alnum ch =
     (let n = of_char ch :: nat
      in 48 \<le> n \<and> n \<le> 57 \<or> 65 \<le> n \<and> n \<le> 90 \<or> 97 \<le> n \<and> n \<le> 122)"

definition sanitize_task_part :: "string \<Rightarrow> string" where
  "sanitize_task_part v = map (\<lambda>ch. if is_alnum ch then lower_char ch else CHR ''-'') v"

text \<open>The FNV-1a hash with 64 bits; \<^verbatim>\<open>0xff\<close> separates the parts.\<close>

definition fnv_byte :: "u64 \<Rightarrow> u64 \<Rightarrow> u64" where
  "fnv_byte h b = (h XOR b) * 0x100000001b3"

definition fnv_part :: "u64 \<Rightarrow> string \<Rightarrow> u64" where
  "fnv_part h s = fnv_byte (foldl (\<lambda>h ch. fnv_byte h (of_char ch)) h s) 0xff"

definition durable_hash :: "string \<Rightarrow> string \<Rightarrow> string list \<Rightarrow> u64" where
  "durable_hash g st subjects = foldl fnv_part 0xcbf29ce484222325 (st # g # remdups_adj (sort subjects))"

definition durable_consumer_name :: "string \<Rightarrow> string \<Rightarrow> string list \<Rightarrow> string" where
  "durable_consumer_name g st subjects =
     take 96 (''consumer_'' @ sanitize_task_part g @ ''_'' @ sanitize_task_part st @ ''_'' @
              show_word (durable_hash g st subjects))"

text \<open>What \<^verbatim>\<open>NatsMessageFetcher::new\<close> asks of the server. The client's answer is a parameter.\<close>

record stream_config =
  sc_name :: string
  sc_subjects :: "string list"
  sc_max_age :: nat
  sc_replicas :: nat
  sc_duplicate_window :: nat

record pull_config =
  pc_name :: string
  pc_durable_name :: "string option"
  pc_explicit_ack :: bool
  pc_filter_subjects :: "string list"
  pc_ack_wait :: nat
  pc_max_deliver :: int
  pc_max_ack_pending :: int
  pc_max_batch :: int
  pc_max_expires :: nat

definition stream_config_of :: "stream_spec \<Rightarrow> stream_config" where
  "stream_config_of sp =
     \<lparr>sc_name = ss_name sp, sc_subjects = ss_subjects sp, sc_max_age = ss_max_age sp,
      sc_replicas = ss_num_replicas sp, sc_duplicate_window = ss_duplicate_window sp\<rparr>"

definition pull_config_of :: "nats_consumer_config \<Rightarrow> string \<Rightarrow> string list \<Rightarrow> pull_config" where
  "pull_config_of c st subjects =
     (let n = (if nc_durable c then durable_consumer_name (nc_group c) st subjects else ''ephemeral_consumer'')
      in \<lparr>pc_name = n, pc_durable_name = (if nc_durable c then Some n else None),
          pc_explicit_ack = nc_manual_ack c, pc_filter_subjects = subjects,
          pc_ack_wait = max (unat (nc_ack_wait_secs c)) 1, pc_max_deliver = max (nc_max_deliver c) 1,
          pc_max_ack_pending = max (nc_max_ack_pending c) 1,
          pc_max_batch = signed (max (nc_batch_size c) 1),
          pc_max_expires = max (unat (nc_batch_timeout_ms c)) 1\<rparr>)"

text \<open>What connecting, and creating the stream and the consumer with its message stream, returns.\<close>

record nats_server =
  srv_connect :: "string \<Rightarrow> consumer_error + unit"
  srv_create :: "stream_config \<Rightarrow> pull_config \<Rightarrow> consumer_error + unit"

definition fetcher_new ::
  "nats_server \<Rightarrow> nats_consumer_config \<Rightarrow> string list \<Rightarrow> consumer_error + (stream_config \<times> pull_config)" where
  "fetcher_new server c subjects =
     bind_res (srv_connect server (nc_url c)) (\<lambda>_.
     bind_res (resolve_stream_for_subjects c subjects) (\<lambda>sp.
       let sc = stream_config_of sp; pcf = pull_config_of c (ss_name sp) subjects
       in bind_res (srv_create server sc pcf) (\<lambda>_. Inr (sc, pcf))))"

record nats_task =
  nt_name :: string
  nt_stream :: stream_config
  nt_consumer :: pull_config

fun build_loop ::
  "nats_server \<Rightarrow> nats_consumer_config \<Rightarrow> string \<Rightarrow> subject_groups \<Rightarrow> consumer_error + nats_task list" where
  "build_loop server c pfx [] = Inr []"
| "build_loop server c pfx ((n, sp, xs) # groups) =
     bind_res (fetcher_new server (resolved_config c sp) xs) (\<lambda>(sc, pcf).
       bind_res (build_loop server c pfx groups) (\<lambda>ts.
         Inr (\<lparr>nt_name = pfx @ ''-'' @ sanitize_task_part n, nt_stream = sc, nt_consumer = pcf\<rparr> # ts)))"

definition build_nats_consumer_tasks_with_failure_publishers ::
  "nats_server \<Rightarrow> nats_consumer_config \<Rightarrow> string list \<Rightarrow> string \<Rightarrow> consumer_error + nats_task list" where
  "build_nats_consumer_tasks_with_failure_publishers server c subs pfx =
     (if subs = [] then Inl (CConfiguration ''NATS consumer dispatcher has no registered subjects'')
      else bind_res (group_subjects_by_stream c (remdups_adj (sort subs))) (build_loop server c pfx))"

text \<open>\<^verbatim>\<open>NatsConsumerRuntime::start\<close> subscribes to all topics at once, so they must share a stream.\<close>

definition nats_runtime_start ::
  "nats_server \<Rightarrow> nats_consumer_config \<Rightarrow> string list \<Rightarrow> consumer_error + (stream_config \<times> pull_config)" where
  "nats_runtime_start server c subs =
     (if subs = [] then Inl (CConfiguration ''No topics registered in dispatcher'')
      else fetcher_new server c subs)"

section \<open>Groups of subjects\<close>

lemma entry_update_mset:
  "sorted_wrt (<) (map fst m) \<Longrightarrow>
   (\<exists>v' m'. mset m = add_mset (k, v') m' \<and> mset (entry_update k v f m) = add_mset (k, f v') m') \<or>
   (k \<notin> fst ` set m \<and> mset (entry_update k v f m) = add_mset (k, f v) (mset m))"
proof (induction m)
  case (Cons x m)
  obtain k' v' where x: "x = (k', v')" by fastforce
  consider "k < k'" | "k = k'" | "k' < k" by fastforce
  then show ?case
  proof cases
    case 1
    with Cons.prems x show ?thesis by fastforce
  next
    case 2
    with x show ?thesis by auto
  next
    case 3
    then have upd: "entry_update k v f (x # m) = x # entry_update k v f m" using x by auto
    from Cons.IH Cons.prems x consider
        (old) w m' where "mset m = add_mset (k, w) m'" "mset (entry_update k v f m) = add_mset (k, f w) m'"
      | (new) "k \<notin> fst ` set m" "mset (entry_update k v f m) = add_mset (k, f v) (mset m)" by auto
    then show ?thesis
    proof cases
      case old
      then have "mset (x # m) = add_mset (k, w) (add_mset x m')"
        "mset (entry_update k v f (x # m)) = add_mset (k, f w) (add_mset x m')" by (simp_all add: upd)
      then show ?thesis by blast
    next
      case new
      with 3 x have "k \<notin> fst ` set (x # m)" by auto
      with new show ?thesis by (simp add: upd)
    qed
  qed
qed simp

lemma entry_update_keys: "fst ` set (entry_update k v f m) = insert k (fst ` set m)"
  by (induction k v f m rule: entry_update.induct) auto

lemma entry_update_sorted:
  "sorted_wrt (<) (map fst m) \<Longrightarrow> sorted_wrt (<) (map fst (entry_update k v f m))"
proof (induction k v f m rule: entry_update.induct)
  case (2 k v f k' v' m)
  then show ?case
    using entry_update_keys [of k v f m] by (auto dest: less_trans)
qed simp

definition group_ok :: "stream_spec list \<Rightarrow> string \<times> stream_spec \<times> string list \<Rightarrow> bool" where
  "group_ok specs = (\<lambda>(n, sp, xs). ss_name sp = n \<and> xs \<noteq> [] \<and>
     (\<forall>x \<in> set xs. resolve_subject_stream specs x = Some sp))"

definition groups_inv :: "stream_spec list \<Rightarrow> string list \<Rightarrow> subject_groups \<Rightarrow> bool" where
  "groups_inv specs xs acc \<longleftrightarrow>
     sorted_wrt (<) (map fst acc) \<and> (\<forall>g \<in> set acc. group_ok specs g) \<and>
     mset (concat (map (\<lambda>(n, sp, ys). ys) acc)) = mset xs"

lemma mset_concat_image: "mset (concat (map h xs)) = \<Sum>\<^sub># (image_mset (\<lambda>x. mset (h x)) (mset xs))"
  by (induction xs) auto

lemma resolve_SomeD: "resolve_subject_stream specs s = Some sp \<Longrightarrow> sp \<in> set specs \<and> spec_covers sp s"
  by (auto simp: resolve_subject_stream_def find_Some_iff)

lemma groups_inv_step:
  assumes inv: "groups_inv specs xs acc" and d: "distinct (map ss_name specs)"
    and r: "resolve_subject_stream specs s = Some sp"
  shows "groups_inv specs (xs @ [s]) (entry_update (ss_name sp) (sp, []) (\<lambda>(sp', ys). (sp', ys @ [s])) acc)"
proof -
  let ?f = "\<lambda>(sp', ys). (sp', ys @ [s])" and ?h = "\<lambda>(n :: string, sp :: stream_spec, ys :: string list). ys"
  let ?acc = "entry_update (ss_name sp) (sp, []) ?f acc"
  from inv have srt: "sorted_wrt (<) (map fst acc)" and ok: "\<forall>g \<in># mset acc. group_ok specs g"
    and m: "\<Sum>\<^sub># (image_mset (\<lambda>x. mset (?h x)) (mset acc)) = mset xs"
    by (simp_all add: groups_inv_def mset_concat_image)
  have same: "sp' = sp" if "group_ok specs (ss_name sp, sp', ys)" for sp' ys
  proof -
    from that obtain x where "resolve_subject_stream specs x = Some sp'" "ss_name sp' = ss_name sp"
      unfolding group_ok_def by (cases ys) auto
    with r d show ?thesis
      by (metis distinct_map inj_on_def resolve_SomeD)
  qed
  have "(\<forall>g \<in># mset ?acc. group_ok specs g) \<and>
      \<Sum>\<^sub># (image_mset (\<lambda>x. mset (?h x)) (mset ?acc)) = mset (xs @ [s])"
    using entry_update_mset [OF srt, of "ss_name sp" "(sp, [])" ?f]
  proof (elim disjE exE conjE)
    fix v' m' assume acc: "mset acc = add_mset (ss_name sp, v') m'"
      and upd: "mset ?acc = add_mset (ss_name sp, ?f v') m'"
    obtain sp' ys where v': "v' = (sp', ys)" by fastforce
    from acc ok have g: "group_ok specs (ss_name sp, sp', ys)" and g': "\<forall>g \<in># m'. group_ok specs g"
      by (simp_all add: v')
    from same [OF g] g r have "group_ok specs (ss_name sp, ?f v')"
      by (auto simp: v' group_ok_def)
    with g' m acc upd show ?thesis by (simp add: v' add_ac)
  next
    assume upd: "mset ?acc = add_mset (ss_name sp, ?f (sp, [])) (mset acc)"
    with ok m r show ?thesis by (simp add: group_ok_def)
  qed
  with entry_update_sorted [OF srt] show ?thesis
    by (auto simp: groups_inv_def mset_concat_image)
qed

lemma group_loop_subjects_inv:
  assumes d: "distinct (map ss_name specs)"
  shows "groups_inv specs xs acc \<Longrightarrow> group_loop_subjects specs ss acc = Inr gs \<Longrightarrow>
         groups_inv specs (xs @ ss) gs"
proof (induction ss arbitrary: xs acc)
  case (Cons s ss)
  then obtain sp where r: "resolve_subject_stream specs s = Some sp"
    by (auto split: option.splits)
  from Cons.IH [OF groups_inv_step [OF Cons.prems(1) d r]] Cons.prems(2) r
  show ?case by simp
qed simp

lemma group_loop_subjects_total:
  "(\<forall>s \<in> set ss. resolve_subject_stream specs s \<noteq> None) \<Longrightarrow> \<exists>gs. group_loop_subjects specs ss acc = Inr gs"
  by (induction ss arbitrary: acc) auto

lemma group_subjects_by_stream_spec:
  "distinct (map ss_name (nc_streams c)) \<Longrightarrow> group_subjects_by_stream c ss = Inr gs \<Longrightarrow>
   groups_inv (nc_streams c) ss gs"
  using group_loop_subjects_inv [of "nc_streams c" "[]" "[]" ss gs]
  by (simp add: group_subjects_by_stream_def groups_inv_def)

section \<open>Consumers of a group\<close>

text \<open>The fetcher of a group finds the stream of the group again.\<close>

lemma resolve_group_stream:
  assumes g: "group_ok specs (n, sp, xs)"
  shows "resolve_stream_for_subjects (resolved_config c sp) xs = Inr sp"
proof -
  let ?c = "resolved_config c sp"
  have specs: "nc_streams ?c = [sp]" by (simp add: resolved_config_def)
  have "\<forall>x \<in> set xs. resolve_subject_stream [sp] x = Some sp"
    using g resolve_SomeD by (fastforce simp: group_ok_def resolve_subject_stream_def)
  then obtain gs where gs: "group_subjects_by_stream ?c xs = Inr gs"
    using group_loop_subjects_total [of xs "[sp]" "[]"]
    by (auto simp: group_subjects_by_stream_def specs)
  then have inv: "groups_inv [sp] xs gs"
    using group_subjects_by_stream_spec [of ?c xs gs] by (simp add: specs)
  have only: "n' = ss_name sp \<and> sp' = sp" if "(n', sp', ys) \<in> set gs" for n' sp' ys
  proof -
    from inv that have "group_ok [sp] (n', sp', ys)" by (auto simp: groups_inv_def)
    then obtain y where "ss_name sp' = n'" "resolve_subject_stream [sp] y = Some sp'"
      by (cases ys) (auto simp: group_ok_def)
    then show ?thesis using resolve_SomeD by fastforce
  qed
  from g inv have "gs \<noteq> []" by (auto simp: groups_inv_def group_ok_def)
  then obtain n1 sp1 ys1 rest where c1: "gs = (n1, sp1, ys1) # rest" by (metis neq_Nil_conv surj_pair)
  have "rest = []"
  proof (cases rest)
    case (Cons g2 rest')
    obtain n2 sp2 ys2 where "g2 = (n2, sp2, ys2)" by (metis surj_pair)
    with c1 Cons have "n1 = ss_name sp" "n2 = ss_name sp" using only by auto
    with inv c1 Cons \<open>g2 = _\<close> show ?thesis by (auto simp: groups_inv_def)
  qed
  with c1 only [of n1 sp1 ys1] gs show ?thesis by (simp add: resolve_stream_for_subjects_def)
qed

definition server_ok :: "nats_server \<Rightarrow> bool" where
  "server_ok srv \<longleftrightarrow> (\<forall>u. srv_connect srv u = Inr ()) \<and> (\<forall>sc pcf. srv_create srv sc pcf = Inr ())"

lemma fetcher_new_group:
  assumes "group_ok specs (n, sp, xs)" and "fetcher_new srv (resolved_config c sp) xs = Inr (sc, pcf)"
  shows "sc = stream_config_of sp \<and> pc_filter_subjects pcf = xs"
  using assms(2) unfolding fetcher_new_def resolve_group_stream [OF assms(1)]
  by (auto simp: bind_res_Inr_iff Let_def pull_config_of_def)

lemma build_loop_spec:
  "build_loop srv c pfx gs = Inr ts \<Longrightarrow> \<forall>g \<in> set gs. group_ok specs g \<Longrightarrow>
   map (sc_name \<circ> nt_stream) ts = map fst gs \<and>
   map (pc_filter_subjects \<circ> nt_consumer) ts = map (\<lambda>(n, sp, xs). xs) gs \<and>
   list_all2 (\<lambda>t (n, sp, xs). nt_stream t = stream_config_of sp) ts gs"
proof (induction gs arbitrary: ts)
  case (Cons g gs)
  obtain n sp xs where g: "g = (n, sp, xs)" by (metis surj_pair)
  from Cons.prems(1) obtain sc pcf ts' where f: "fetcher_new srv (resolved_config c sp) xs = Inr (sc, pcf)"
    and b: "build_loop srv c pfx gs = Inr ts'"
    and ts: "ts = \<lparr>nt_name = pfx @ ''-'' @ sanitize_task_part n, nt_stream = sc, nt_consumer = pcf\<rparr> # ts'"
    by (auto simp: g bind_res_Inr_iff)
  from Cons.prems(2) have ok: "group_ok specs (n, sp, xs)" by (simp add: g)
  from fetcher_new_group [OF ok f] Cons.IH [OF b] Cons.prems(2) ok show ?case
    by (auto simp: ts g stream_config_of_def group_ok_def)
qed simp

lemma build_loop_owner:
  assumes b: "build_loop srv c pfx gs = Inr ts" and ok: "\<forall>g \<in> set gs. group_ok specs g" and t: "t \<in> set ts"
  shows "\<exists>sp \<in> set specs. nt_stream t = stream_config_of sp \<and>
     (\<forall>x \<in> set (pc_filter_subjects (nt_consumer t)). resolve_subject_stream specs x = Some sp)"
proof -
  from t obtain i where i: "i < length ts" "t = ts ! i" by (metis in_set_conv_nth)
  note spec = build_loop_spec [OF b ok]
  then have len: "length gs = length ts" by (metis length_map)
  obtain n sp xs where g: "gs ! i = (n, sp, xs)" by (metis surj_pair)
  with i len have "(n, sp, xs) \<in> set gs" by (metis nth_mem)
  with ok have gok: "group_ok specs (n, sp, xs)" by blast
  from spec i len g have "pc_filter_subjects (nt_consumer t) = xs"
    by (metis (mono_tags, lifting) case_prod_conv comp_apply nth_map)
  moreover from spec i len g have "nt_stream t = stream_config_of sp"
    by (auto dest: list_all2_nthD)
  moreover from gok have "sp \<in> set specs"
    using resolve_SomeD by (cases xs) (auto simp: group_ok_def)
  ultimately show ?thesis using gok by (auto simp: group_ok_def)
qed

lemma build_loop_total:
  "server_ok srv \<Longrightarrow> \<forall>g \<in> set gs. group_ok specs g \<Longrightarrow> \<exists>ts. build_loop srv c pfx gs = Inr ts"
proof (induction gs)
  case (Cons g gs)
  obtain n sp xs where g: "g = (n, sp, xs)" by (metis surj_pair)
  with Cons.prems have ok: "group_ok specs (n, sp, xs)" by simp
  have "\<exists>q. fetcher_new srv (resolved_config c sp) xs = Inr q"
    using Cons.prems(1) by (simp add: fetcher_new_def resolve_group_stream [OF ok] server_ok_def Let_def)
  with Cons show ?case by (auto simp: g)
qed simp

lemma group_loop_subjects_fails:
  "\<exists>s \<in> set ss. resolve_subject_stream specs s = None \<Longrightarrow> \<exists>e. group_loop_subjects specs ss acc = Inl e"
proof (induction ss arbitrary: acc)
  case (Cons s ss)
  then show ?case by (cases "resolve_subject_stream specs s") auto
qed simp

lemma sorted_distinct_adj: "sorted xs \<Longrightarrow> distinct_adj xs \<Longrightarrow> distinct xs"
  for xs :: "'a::linorder list"
proof (induction xs)
  case (Cons x xs)
  then show ?case by (cases xs) (auto simp: distinct_adj_Cons)
qed simp

lemma distinct_sorted_topics: "distinct (remdups_adj (sort xs))"
  for xs :: "'a::linorder list"
  by (rule sorted_distinct_adj) simp_all

section \<open>What the server is asked for\<close>

text \<open>Names of consumers may not contain dots, blanks, stars or greater-than tokens.\<close>

definition consumer_name_char :: "char \<Rightarrow> bool" where
  "consumer_name_char ch \<longleftrightarrow>
     (let n = of_char ch :: nat in 48 \<le> n \<and> n \<le> 57 \<or> 97 \<le> n \<and> n \<le> 122 \<or> ch = CHR ''_'' \<or> ch = CHR ''-'')"

definition well_formed_consumer :: "pull_config \<Rightarrow> bool" where
  "well_formed_consumer p \<longleftrightarrow>
     pc_name p \<noteq> [] \<and> list_all consumer_name_char (pc_name p) \<and> length (pc_name p) \<le> 96 \<and>
     (pc_durable_name p = None \<or> pc_durable_name p = Some (pc_name p)) \<and>
     pc_filter_subjects p \<noteq> [] \<and> distinct (pc_filter_subjects p) \<and>
     1 \<le> pc_ack_wait p \<and> 1 \<le> pc_max_deliver p \<and> 1 \<le> pc_max_ack_pending p \<and> 1 \<le> pc_max_expires p"

lemma sanitized_chars: "list_all consumer_name_char (sanitize_task_part v)"
proof -
  have "consumer_name_char (if is_alnum ch then lower_char ch else CHR ''-'')" for ch
    by (auto simp: consumer_name_char_def is_alnum_def lower_char_def Let_def)
  then show ?thesis unfolding sanitize_task_part_def list_all_iff set_map by blast
qed

lemma digit_name_char: "d < 10 \<Longrightarrow> consumer_name_char (digit_char d)"
  by (simp add: consumer_name_char_def digit_char_def Let_def)

lemma show_nat_chars: "list_all consumer_name_char (show_nat n)"
proof (induction n rule: show_nat.induct)
  case (1 n)
  then show ?case by (cases "n < 10") (simp_all add: show_nat.simps [of n] digit_name_char)
qed

lemma durable_name_well_formed:
  "durable_consumer_name g st xs \<noteq> [] \<and> list_all consumer_name_char (durable_consumer_name g st xs) \<and>
   length (durable_consumer_name g st xs) \<le> 96"
proof -
  let ?n = "''consumer_'' @ sanitize_task_part g @ ''_'' @ sanitize_task_part st @ ''_'' @
              show_word (durable_hash g st xs)"
  have "list_all consumer_name_char ?n"
    by (simp add: sanitized_chars show_word_def show_nat_chars) (simp add: consumer_name_char_def)
  then have "list_all consumer_name_char (take 96 ?n)"
    unfolding list_all_iff using in_set_takeD by fast
  then show ?thesis by (simp add: durable_consumer_name_def)
qed

lemma pull_config_well_formed:
  "xs \<noteq> [] \<Longrightarrow> distinct xs \<Longrightarrow> well_formed_consumer (pull_config_of c st xs)"
  using durable_name_well_formed [of "nc_group c" st xs]
  by (auto simp: well_formed_consumer_def pull_config_of_def Let_def consumer_name_char_def)

lemma build_loop_consumers:
  "build_loop srv c pfx gs = Inr ts \<Longrightarrow> t \<in> set ts \<Longrightarrow>
   \<exists>n sp st xs. (n, sp, xs) \<in> set gs \<and> nt_consumer t = pull_config_of (resolved_config c sp) st xs"
proof (induction gs arbitrary: ts)
  case (Cons g gs)
  obtain n sp xs where g: "g = (n, sp, xs)" by (metis surj_pair)
  from Cons.prems obtain sc pcf ts' where f: "fetcher_new srv (resolved_config c sp) xs = Inr (sc, pcf)"
    and b: "build_loop srv c pfx gs = Inr ts'" and t: "nt_consumer t = pcf \<or> t \<in> set ts'"
    by (auto simp: g bind_res_Inr_iff)
  from f have "\<exists>st. pcf = pull_config_of (resolved_config c sp) st xs"
    by (auto simp: fetcher_new_def bind_res_Inr_iff Let_def)
  with t Cons.IH [OF b] show ?case by (auto simp: g)
qed simp

lemma signed_batch: "1 \<le> (signed (max b 1 :: u64) :: int) \<longleftrightarrow> unat b < 2 ^ 63"
proof -
  let ?b = "max b 1"
  have "(signed ?b :: int) = signed_take_bit 63 (uint ?b)"
    by (simp add: sint_uint)
  moreover have "(0::int) \<le> signed_take_bit 63 (uint ?b) \<longleftrightarrow> uint ?b < 2 ^ 63"
  proof -
    have "0 \<le> uint ?b" "uint ?b < 2 ^ 64" using uint_bounded [of ?b] by simp_all
    then have "uint ?b div 2 ^ 63 = (if uint ?b < 2 ^ 63 then 0 else 1)"
      by (auto simp: div_pos_geq)
    then show ?thesis by (simp add: signed_take_bit_nonnegative_iff bit_iff_odd)
  qed
  moreover have "?b \<noteq> 0" using word_gt_0 [of b] by (auto simp: max_def)
  then have "(signed ?b :: int) \<noteq> 0" by (metis signed_0 signed_word_eqI)
  moreover have "uint ?b < 2 ^ 63 \<longleftrightarrow> unat b < 2 ^ 63"
  proof (cases "b = 0")
    case False
    then have "0 < b" by (simp add: word_gt_0)
    then have "1 \<le> b" using inc_le [of 0 b] by simp
    then have "?b = b" by (rule max_absorb1)
    then show ?thesis by (simp only: unat_eq_nat_uint nat_less_iff uint_ge_0) simp
  qed simp
  ultimately show ?thesis by linarith
qed

lemma same_topics_same_order: "set xs = set ys \<Longrightarrow> remdups_adj (sort xs) = remdups_adj (sort ys)"
  for xs ys :: "'a::linorder list"
  by (rule sorted_distinct_set_unique) (simp_all add: distinct_sorted_topics)

section \<open>Properties\<close>

text \<open>
  Claim C34. The matching of a subject against a pattern is what the patterns of the broker mean: token
  by token, \<^verbatim>\<open>*\<close> for any one token, \<^verbatim>\<open>>\<close> at the end for one or more; a \<^verbatim>\<open>>\<close> elsewhere matches nothing,
  except that every pattern matches itself as a text.
\<close>

theorem subject_matches_meaning:
  "subject_matches p s \<longleftrightarrow> p = s \<or> pattern_meaning (split_on CHR ''.'' p) (split_on CHR ''.'' s)"
  by (simp add: subject_matches_def match_loop_meaning)

text \<open>
  The streams of the default topology do not overlap: a subject that one of them covers is
  resolved to that one, so a dead letter under \<^verbatim>\<open>flare.im.dlq\<close> is never in the stream of a message,
  conversation or push subject, whatever the order of the specifications.
\<close>

theorem default_streams_disjoint:
  "sp \<in> set default_stream_specs \<Longrightarrow> spec_covers sp s \<Longrightarrow>
   set specs = set default_stream_specs \<Longrightarrow> resolve_subject_stream specs s = Some sp"
proof -
  assume sp: "sp \<in> set default_stream_specs" "spec_covers sp s" and specs: "set specs = set default_stream_specs"
  have unique: "sp' = sp" if "sp' \<in> set default_stream_specs" "spec_covers sp' s" for sp'
    using that sp spec_covers_area(1) [of s] spec_covers_area(2) [of "24 * 3600" s] spec_covers_area(3) [of s]
    by (auto simp: default_stream_specs_def)
  with sp specs show ?thesis
    unfolding resolve_subject_stream_def
    by (metis (mono_tags, lifting) find_None_iff find_Some_iff nth_mem option.exhaust)
qed

theorem default_streams_disjoint_witness:
  "resolve_subject_stream (rev default_stream_specs) ''flare.im.dlq.push.eu'' = Some dlq_stream_spec"
proof (rule default_streams_disjoint)
  show "dlq_stream_spec \<in> set default_stream_specs" by (simp add: default_stream_specs_def)
  show "spec_covers dlq_stream_spec ''flare.im.dlq.push.eu''"
    by (simp add: spec_covers_def dlq_stream_spec_def with_max_age_def stream_spec_new_def subject_matches_def)
qed simp


definition example_nats_config :: nats_consumer_config where
  "example_nats_config =
     \<lparr>nc_url = ''nats://host'', nc_group = ''im'', nc_manual_ack = True, nc_batch_size = 10,
      nc_batch_timeout_ms = 100, nc_durable = True, nc_streams = default_stream_specs,
      nc_ack_wait_secs = default_ack_wait_secs, nc_max_deliver = default_max_deliver,
      nc_max_ack_pending = default_max_ack_pending 10\<rparr>"

definition open_server :: nats_server where
  "open_server = \<lparr>srv_connect = (\<lambda>_. Inr ()), srv_create = (\<lambda>_ _. Inr ())\<rparr>"

lemma example_streams_distinct: "distinct (map ss_name (nc_streams example_nats_config))"
  by (simp add: example_nats_config_def default_stream_specs_def dlq_stream_spec_def with_max_age_def
      stream_spec_new_def STREAM_FLARE_MESSAGE_def STREAM_FLARE_PUSH_def STREAM_FLARE_DLQ_def)

lemma example_server_ok: "server_ok open_server"
  by (simp add: server_ok_def open_server_def)

lemma example_tasks_exist:
  assumes "subs \<noteq> []" and "\<forall>s \<in> set subs. resolve_subject_stream (nc_streams example_nats_config) s \<noteq> None"
  shows "\<exists>ts. build_nats_consumer_tasks_with_failure_publishers open_server example_nats_config subs pfx = Inr ts"
proof -
  from assms(2) obtain gs where gs: "group_subjects_by_stream example_nats_config (remdups_adj (sort subs)) = Inr gs"
    using group_loop_subjects_total [of "remdups_adj (sort subs)" "nc_streams example_nats_config" "[]"]
    by (auto simp: group_subjects_by_stream_def)
  with group_subjects_by_stream_spec [OF example_streams_distinct gs] example_server_ok obtain ts
    where "build_loop open_server example_nats_config pfx gs = Inr ts"
    using build_loop_total by (force simp: groups_inv_def)
  with assms gs show ?thesis by (simp add: build_nats_consumer_tasks_with_failure_publishers_def)
qed




text \<open>
  Durable names are cut to 96 characters and the hash comes last: when group and stream are so
  long that their part fills them, consumers of one group and stream with different subjects have the
  same durable name, which the hash was to prevent.
\<close>

theorem durable_names_collide:
  assumes "85 \<le> length g + length st"
  shows "durable_consumer_name g st xs = durable_consumer_name g st ys"
proof -
  let ?p = "''consumer_'' @ sanitize_task_part g @ ''_'' @ sanitize_task_part st @ ''_''"
  have "96 \<le> length ?p" using assms by (simp add: sanitize_task_part_def)
  then have "take 96 (?p @ h) = take 96 ?p" for h :: string by (simp only: take_append) simp
  from this [of "show_word (durable_hash g st zs)" for zs]
  have "durable_consumer_name g st zs = take 96 ?p" for zs
    unfolding durable_consumer_name_def by (simp only: append_assoc)
  then show ?thesis by (simp only:)
qed

theorem durable_names_collide_witness:
  "durable_consumer_name (replicate 80 CHR ''g'') ''ORDERS'' [''orders.a''] =
   durable_consumer_name (replicate 80 CHR ''g'') ''ORDERS'' [''orders.b'']"
  by (rule durable_names_collide) simp

end
