(* ===== verification/Nats_Wire.thy ===== *)
theory Nats_Wire
  imports Nats_Subject
begin

text \<open>
  \<^verbatim>\<open>flare-core-messaging/src/mq/nats/producer.rs\<close> and the message side of \<^verbatim>\<open>nats/consumer.rs\<close>: what a
  producer puts on the wire, how often it tries, and how the consumer reads a message back. The header
  map of the client library is a function from names to the values under a name; inserting replaces
  the values. Whether a publication succeeds is a parameter. Durations of the back-off are
  nanoseconds, since the code divides them.
\<close>

section \<open>Producing\<close>

type_synonym wire_headers = "string \<rightharpoonup> string list"

definition put_header :: "string \<Rightarrow> string \<Rightarrow> wire_headers \<Rightarrow> wire_headers" where
  "put_header k v h = h(k \<mapsto> [v])"

definition put_header_opt :: "string \<Rightarrow> string option \<Rightarrow> wire_headers \<Rightarrow> wire_headers" where
  "put_header_opt k v h = (case v of None \<Rightarrow> h | Some s \<Rightarrow> put_header k s h)"

definition put_wire_attributes :: "headers \<Rightarrow> wire_headers \<Rightarrow> wire_headers" where
  "put_wire_attributes attrs h =
     (\<lambda>k. case strip_prefix attr_prefix k of
            None \<Rightarrow> h k
          | Some a \<Rightarrow> (case attrs a of None \<Rightarrow> h k | Some v \<Rightarrow> Some [v]))"

definition add_actor_to_headers :: "actor_context \<Rightarrow> wire_headers \<Rightarrow> wire_headers" where
  "add_actor_to_headers a h =
     (let h1 = put_header ''x-actor-type'' (show_int (actor_type_code (actor_type a)))
                 (put_header ''x-actor-id'' (actor_id a) h);
          h2 = (if roles a \<noteq> [] then put_header ''x-actor-roles'' (join_with CHR '','' (roles a)) h1 else h1)
      in put_wire_attributes (attributes a) h2)"

definition add_context_to_headers :: "request_context \<Rightarrow> wire_headers \<Rightarrow> wire_headers" where
  "add_context_to_headers c h =
     (let h1 = put_header_opt ''x-session-id'' (session_id c)
                 (put_header_opt ''x-platform'' (platform c)
                   (put_header_opt ''x-device-id'' (device_id c)
                     (put_header_opt ''x-user-id'' (user_id c)
                       (put_header_opt ''x-tenant-id'' (tenant_id c)
                         (put_header ''x-request-id'' (request_id c)
                           (put_header ''x-trace-id'' (trace_id c) h))))))
      in case actor c of None \<Rightarrow> h1 | Some a \<Rightarrow> add_actor_to_headers a h1)"

definition or_else :: "'a option \<Rightarrow> 'a option \<Rightarrow> 'a option" where
  "or_else x y = (case x of Some _ \<Rightarrow> x | None \<Rightarrow> y)"

definition choose_message_id :: "string \<Rightarrow> headers option \<Rightarrow> string" where
  "choose_message_id fresh ho =
     (case (case ho of None \<Rightarrow> None
            | Some h \<Rightarrow> or_else (h ''x-message-id'') (or_else (h ''message_id'')
                          (or_else (h ''event_id'') (h ''request_id'')))) of
        Some i \<Rightarrow> i
      | None \<Rightarrow> fresh)"

record wire_message =
  wm_subject :: string
  wm_payload :: string
  wm_headers :: "wire_headers option"
  wm_id :: string
  wm_delivered :: "int option"
  wm_handle :: nat

definition custom_headers :: "headers option \<Rightarrow> wire_headers" where
  "custom_headers ho = (case ho of None \<Rightarrow> Map.empty | Some h \<Rightarrow> (\<lambda>k. map_option (\<lambda>v. [v]) (h k)))"

definition wire_message_of ::
  "string \<Rightarrow> request_context \<Rightarrow> string \<Rightarrow> string option \<Rightarrow> string \<Rightarrow> headers option \<Rightarrow> wire_message" where
  "wire_message_of fresh c subject key pay ho =
     \<lparr>wm_subject = subject, wm_payload = pay,
      wm_headers = Some (put_header_opt ''x-message-key'' key (add_context_to_headers c (custom_headers ho))),
      wm_id = choose_message_id fresh ho, wm_delivered = None, wm_handle = 0\<rparr>"

text \<open>The largest \<^verbatim>\<open>Duration\<close>, at which multiplication and addition saturate.\<close>

definition DURATION_MAX :: nat where
  "DURATION_MAX = (2 ^ 64 - 1) * 10 ^ 9 + 999999999"

definition publish_backoff :: "nat \<Rightarrow> string \<Rightarrow> nat \<Rightarrow> nat" where
  "publish_backoff base i attempt =
     (let ex = 2 ^ min (attempt - 1) 6;
          b = min (base * ex) DURATION_MAX;
          pct = (if i = [] then 0 else of_char (last i)) mod 25
      in min (b + b div 100 * pct) DURATION_MAX)"

text \<open>
  The loop of \<^verbatim>\<open>send\<close>: \<open>answers n\<close> is what the attempt number \<open>n\<close> ends with, publishing and the
  broker's acknowledgement together. The result comes with the sleeps between the attempts.
\<close>

function send_loop :: "(nat \<Rightarrow> string + unit) \<Rightarrow> nat \<Rightarrow> nat \<Rightarrow> string \<Rightarrow> nat \<Rightarrow> nat list \<times> (producer_error + unit)" where
  "send_loop answers retries base i attempt =
     (case answers attempt of
        Inr _ \<Rightarrow> ([], Inr ())
      | Inl e \<Rightarrow>
          if retries \<le> attempt then ([], Inl (PSend e))
          else (case send_loop answers retries base i (Suc attempt) of
                  (ds, r) \<Rightarrow> (publish_backoff base i (Suc attempt) # ds, r)))"
  by pat_completeness auto
termination by (relation "measure (\<lambda>(answers, retries, base, i, attempt). retries - attempt)") auto

declare send_loop.simps [simp del]

record nats_producer =
  np_streams :: "stream_spec list"
  np_retries :: u32
  np_backoff_ms :: u64

definition nats_send ::
  "string \<Rightarrow> (nat \<Rightarrow> string + unit) \<Rightarrow> nats_producer \<Rightarrow> request_context \<Rightarrow> string \<Rightarrow> string option \<Rightarrow> string \<Rightarrow>
   headers option \<Rightarrow> wire_message option \<times> nat list \<times> (producer_error + unit)" where
  "nats_send fresh answers np c subject key pay ho =
     (case resolve_subject_stream (np_streams np) subject of
        None \<Rightarrow> (None, [], Inl (PConfiguration (''No JetStream stream configured for subject: '' @ subject)))
      | Some _ \<Rightarrow>
          (let m = wire_message_of fresh c subject key pay ho
           in (Some m, send_loop answers (unat (np_retries np)) (unat (np_backoff_ms np) * 10 ^ 6) (wm_id m) 0)))"

text \<open>
  Creating a producer: \<open>br_connect\<close> and \<open>br_ensure\<close> are what the client returns for connecting and for
  creating or updating a stream.
\<close>

record nats_producer_config =
  npc_url :: string
  npc_timeout_ms :: u64
  npc_retries :: u32
  npc_backoff_ms :: u64
  npc_streams :: "stream_spec list"

record nats_broker =
  br_connect :: "string \<Rightarrow> string + unit"
  br_ensure :: "stream_config \<Rightarrow> string + unit"

definition ensure_stream :: "nats_broker \<Rightarrow> stream_spec \<Rightarrow> producer_error + unit" where
  "ensure_stream br sp =
     (if ss_subjects sp = [] then Inl (PConfiguration ''JetStream stream subjects cannot be empty'')
      else (case br_ensure br (stream_config_of sp) of
              Inl e \<Rightarrow> Inl (PConfiguration e)
            | Inr _ \<Rightarrow> Inr ()))"

fun ensure_streams :: "nats_broker \<Rightarrow> stream_spec list \<Rightarrow> producer_error + unit" where
  "ensure_streams br [] = Inr ()"
| "ensure_streams br (sp # sps) = bind_res (ensure_stream br sp) (\<lambda>_. ensure_streams br sps)"

definition nats_producer_new :: "nats_broker \<Rightarrow> nats_producer_config \<Rightarrow> producer_error + nats_producer" where
  "nats_producer_new br c =
     (case br_connect br (npc_url c) of
        Inl e \<Rightarrow> Inl (PConnection e)
      | Inr _ \<Rightarrow>
          if npc_streams c = [] then Inl (PConfiguration ''JetStream stream specs cannot be empty'')
          else bind_res (ensure_streams br (npc_streams c)) (\<lambda>_.
                 Inr \<lparr>np_streams = npc_streams c, np_retries = npc_retries c, np_backoff_ms = npc_backoff_ms c\<rparr>))"

text \<open>A batch: the sends run at once, \<open>results\<close> are theirs in the order in which they come in.\<close>

fun nats_batch_result :: "(producer_error + unit) list \<Rightarrow> producer_error + unit" where
  "nats_batch_result [] = Inr ()"
| "nats_batch_result (r # results) = bind_res r (\<lambda>_. nats_batch_result results)"

text \<open>
  Settling a message: \<open>call\<close> is the client's call of a kind of acknowledgement. Every call is counted under
  its backend, its operation and its outcome (\<^verbatim>\<open>process_ack_metrics.rs\<close>; the durations are left out).
\<close>

datatype settlement = SettleAck | SettleNack | SettleTerm

datatype ack_kind = AckPlain | AckNak | AckTerm

type_synonym ack_counts = "string \<times> string \<times> string \<Rightarrow> nat"

definition record_process_ack :: "string \<Rightarrow> string \<Rightarrow> string \<Rightarrow> ack_counts \<Rightarrow> ack_counts" where
  "record_process_ack backend operation outcome counts =
     counts((backend, operation, outcome) := counts (backend, operation, outcome) + 1)"

fun ack_operation :: "settlement \<Rightarrow> string" where
  "ack_operation SettleAck = ''ack''"
| "ack_operation SettleNack = ''nack''"
| "ack_operation SettleTerm = ''term''"

fun nats_ack_kind :: "settlement \<Rightarrow> ack_kind" where
  "nats_ack_kind SettleAck = AckPlain"
| "nats_ack_kind SettleNack = AckNak"
| "nats_ack_kind SettleTerm = AckTerm"

definition record_nats_process_ack :: "string \<Rightarrow> consumer_error + unit \<Rightarrow> ack_counts \<Rightarrow> ack_counts" where
  "record_nats_process_ack operation r =
     record_process_ack ''jetstream'' operation (case r of Inr _ \<Rightarrow> ''success'' | Inl _ \<Rightarrow> ''error'')"

definition nats_settle ::
  "(ack_kind \<Rightarrow> 's \<Rightarrow> (string + unit) \<times> 's) \<Rightarrow> settlement \<Rightarrow> 's \<times> ack_counts \<Rightarrow>
   (consumer_error + unit) \<times> 's \<times> ack_counts" where
  "nats_settle call a sc =
     (case call (nats_ack_kind a) (fst sc) of
        (r, s1) \<Rightarrow>
          (let r1 = (case r of Inl e \<Rightarrow> Inl (CConnection e) | Inr u \<Rightarrow> Inr u)
           in (r1, s1, record_nats_process_ack (ack_operation a) r1 (snd sc))))"

definition dlq_producer_config :: "nats_producer_config \<Rightarrow> nats_producer_config" where
  "dlq_producer_config c = c\<lparr>npc_streams := [dlq_stream_spec]\<rparr>"

definition build_nats_consumer_tasks ::
  "nats_server \<Rightarrow> nats_consumer_config \<Rightarrow> string list \<Rightarrow> string \<Rightarrow> consumer_error + nats_task list" where
  "build_nats_consumer_tasks srv c subs pfx = build_nats_consumer_tasks_with_failure_publishers srv c subs pfx"

text \<open>With dead letters: the producer of the dead letters comes with the tasks.\<close>

definition build_nats_consumer_tasks_with_dlq ::
  "nats_broker \<Rightarrow> nats_producer_config \<Rightarrow> nats_server \<Rightarrow> nats_consumer_config \<Rightarrow> string list \<Rightarrow> string \<Rightarrow> string \<Rightarrow>
   consumer_error + (nats_task list \<times> nats_producer \<times> failure_topic)" where
  "build_nats_consumer_tasks_with_dlq br pconf srv c subs pfx dlq_subject =
     (case nats_producer_new br (dlq_producer_config pconf) of
        Inl e \<Rightarrow> Inl (CConfiguration (''build DLQ producer: '' @ producer_error_display e))
      | Inr np \<Rightarrow>
          bind_res (build_nats_consumer_tasks_with_failure_publishers srv c subs pfx) (\<lambda>ts.
            Inr (ts, np, Fixed dlq_subject)))"

text \<open>\<^verbatim>\<open>NatsConsumerBuilder::register_handler\<close>: one handler for several subjects, stopping at the first error.\<close>

fun register_subjects :: "'w handler \<Rightarrow> string list \<Rightarrow> 'w registry \<Rightarrow> consumer_error + 'w registry" where
  "register_subjects h [] hs = Inr hs"
| "register_subjects h (s # ss) hs =
     (case topic_register s h hs of
        (hs', Inl e) \<Rightarrow> Inl e
      | (hs', Inr _) \<Rightarrow> register_subjects h ss hs')"

section \<open>Consuming\<close>

definition first_values :: "wire_headers option \<Rightarrow> headers" where
  "first_values ho =
     (case ho of
        None \<Rightarrow> Map.empty
      | Some h \<Rightarrow> (\<lambda>k. case h k of Some (v # _) \<Rightarrow> Some v | _ \<Rightarrow> None))"

definition delivery_attempt_retry_count :: "int \<Rightarrow> u32" where
  "delivery_attempt_retry_count delivered =
     (let redeliveries = max (delivered - 1) (- (2 ^ 63))
      in if redeliveries \<le> 0 then 0 else of_int (min redeliveries (2 ^ 32 - 1)))"

definition nats_delivery_retry_count :: "wire_message \<Rightarrow> u32" where
  "nats_delivery_retry_count m =
     (case wm_delivered m of Some d \<Rightarrow> delivery_attempt_retry_count d | None \<Rightarrow> 0)"

definition actor_from_headers :: "headers \<Rightarrow> actor_context option" where
  "actor_from_headers m =
     (case nonempty_at m ''x-actor-id'' of
        None \<Rightarrow> None
      | Some n \<Rightarrow>
          (let ty = (case m ''x-actor-type'' of
                       None \<Rightarrow> Unspecified
                     | Some s \<Rightarrow> (case parse_signed 32 s of None \<Rightarrow> Unspecified | Some v \<Rightarrow> actor_type_of v));
               rs = (case nonempty_at m ''x-actor-roles'' of None \<Rightarrow> [] | Some s \<Rightarrow> decode_roles s)
           in Some \<lparr>actor_id = n, actor_type = ty, roles = rs, attributes = decode_attributes m\<rparr>))"

definition build_context_from_headers :: "string \<Rightarrow> headers \<Rightarrow> request_context" where
  "build_context_from_headers fresh m =
     (let c = fields_of_headers fresh m
      in case actor_from_headers m of Some a \<Rightarrow> with_actor a c | None \<Rightarrow> c)"

text \<open>\<open>fresh_id\<close> and \<open>fresh_request\<close> are the identifiers generated where the headers have none.\<close>

definition decode_message :: "string \<Rightarrow> string \<Rightarrow> nat \<Rightarrow> bool \<Rightarrow> wire_message \<Rightarrow> message" where
  "decode_message fresh_id fresh_request now manual_ack m =
     (let h = first_values (wm_headers m);
          mc = \<lparr>msg_ctx = build_context_from_headers fresh_request h,
                message_id = (case h ''x-message-id'' of Some i \<Rightarrow> i | None \<Rightarrow> fresh_id),
                topic = wm_subject m, msg_partition = 0, msg_offset = 0, msg_key = h ''x-message-key'',
                msg_headers = h, started = now,
                retry_count = max (retry_count_from_headers h) (nats_delivery_retry_count m),
                metadata = Map.empty\<rparr>;
          ct = (case Option.bind (h ''content-type'') content_type_from_str of Some t \<Rightarrow> t | None \<Rightarrow> Json);
          msg = message_new (wm_payload m) ct mc
      in if manual_ack then with_ack_handle \<lparr>handle_id = wm_handle m, native_retry = True\<rparr> msg else msg)"

text \<open>What the pull stream yields next, and what \<^verbatim>\<open>fetch\<close> makes of it.\<close>

datatype stream_event = StreamMessage wire_message | StreamEnd | StreamError string

definition contains :: "string \<Rightarrow> string \<Rightarrow> bool" where
  "contains s sub \<longleftrightarrow> (\<exists>i \<in> set [0..<Suc (length s)]. starts_with sub (drop i s))"

definition nats_fetch ::
  "string \<Rightarrow> string \<Rightarrow> nat \<Rightarrow> bool \<Rightarrow> stream_event \<Rightarrow> consumer_error + message option" where
  "nats_fetch fresh_id fresh_request now manual_ack ev =
     (case ev of
        StreamMessage m \<Rightarrow> Inr (Some (decode_message fresh_id fresh_request now manual_ack m))
      | StreamEnd \<Rightarrow> Inr None
      | StreamError e \<Rightarrow> if contains e ''timeout'' then Inr None else Inl (CConnection e))"

section \<open>Headers on the wire\<close>

lemma first_values_put [simp]:
  "first_values (Some (put_header k v h)) = (first_values (Some h))(k \<mapsto> v)"
  by (auto simp: first_values_def put_header_def fun_eq_iff)

lemma first_values_put_opt [simp]:
  "first_values (Some (put_header_opt k v h)) =
     (case v of None \<Rightarrow> first_values (Some h) | Some s \<Rightarrow> (first_values (Some h))(k \<mapsto> s))"
  by (simp add: put_header_opt_def split: option.split)

lemma first_values_attributes [simp]:
  "first_values (Some (put_wire_attributes attrs h)) = put_attributes attrs (first_values (Some h))"
  by (auto simp: first_values_def put_wire_attributes_def put_attributes_def fun_eq_iff split: option.split)

lemma first_values_custom [simp]:
  "first_values (Some (custom_headers ho)) = (case ho of None \<Rightarrow> Map.empty | Some h \<Rightarrow> h)"
  by (auto simp: first_values_def custom_headers_def fun_eq_iff split: option.split)

lemma first_values_if [simp]:
  "first_values (Some (if b then h else h')) = (if b then first_values (Some h) else first_values (Some h'))"
  by simp

text \<open>The keys under which a context travels.\<close>

definition context_keys :: "string list" where
  "context_keys = [''x-trace-id'', ''x-request-id'', ''x-tenant-id'', ''x-user-id'', ''x-device-id'',
     ''x-platform'', ''x-session-id'', ''x-actor-id'', ''x-actor-type'', ''x-actor-roles'']"

definition carries_context :: "headers \<Rightarrow> bool" where
  "carries_context m \<longleftrightarrow> (\<exists>k \<in> dom m. k \<in> set context_keys \<or> starts_with attr_prefix k)"

lemma carries_context_None:
  "\<not> carries_context m \<Longrightarrow> k \<in> set context_keys \<or> starts_with attr_prefix k \<Longrightarrow> m k = None"
  by (auto simp: carries_context_def)

definition sent_fields :: "request_context \<Rightarrow> headers \<Rightarrow> headers" where
  "sent_fields c m =
     (let put = (\<lambda>k v m. case v of None \<Rightarrow> m | Some s \<Rightarrow> m(k \<mapsto> s))
      in put ''x-session-id'' (session_id c) (put ''x-platform'' (platform c)
           (put ''x-device-id'' (device_id c) (put ''x-user-id'' (user_id c)
             (put ''x-tenant-id'' (tenant_id c)
               (m(''x-trace-id'' \<mapsto> trace_id c, ''x-request-id'' \<mapsto> request_id c)))))))"

definition sent_actor :: "actor_context \<Rightarrow> headers \<Rightarrow> headers" where
  "sent_actor a m =
     (let m1 = m(''x-actor-id'' \<mapsto> actor_id a, ''x-actor-type'' \<mapsto> show_int (actor_type_code (actor_type a)))
      in put_attributes (attributes a)
           (if roles a \<noteq> [] then m1(''x-actor-roles'' \<mapsto> join_with CHR '','' (roles a)) else m1))"

lemma first_values_context:
  "first_values (Some (add_context_to_headers c h)) =
     (case actor c of
        None \<Rightarrow> sent_fields c (first_values (Some h))
      | Some a \<Rightarrow> sent_actor a (sent_fields c (first_values (Some h))))"
  by (simp add: add_context_to_headers_def add_actor_to_headers_def sent_fields_def sent_actor_def Let_def
      split: option.split)

lemma sent_fields_apply:
  assumes "\<not> carries_context m"
  shows "sent_fields c m ''x-trace-id'' = Some (trace_id c)"
    and "sent_fields c m ''x-request-id'' = Some (request_id c)"
    and "sent_fields c m ''x-tenant-id'' = tenant_id c" and "sent_fields c m ''x-user-id'' = user_id c"
    and "sent_fields c m ''x-device-id'' = device_id c" and "sent_fields c m ''x-platform'' = platform c"
    and "sent_fields c m ''x-session-id'' = session_id c"
    and "sent_fields c m ''x-actor-id'' = None" and "sent_fields c m ''x-actor-type'' = None"
    and "sent_fields c m ''x-actor-roles'' = None" and "sent_fields c m (attr_prefix @ k) = None"
  using carries_context_None [OF assms, of "''x-tenant-id''"] carries_context_None [OF assms, of "''x-user-id''"]
    carries_context_None [OF assms, of "''x-device-id''"] carries_context_None [OF assms, of "''x-platform''"]
    carries_context_None [OF assms, of "''x-session-id''"] carries_context_None [OF assms, of "''x-actor-id''"]
    carries_context_None [OF assms, of "''x-actor-type''"] carries_context_None [OF assms, of "''x-actor-roles''"]
    carries_context_None [OF assms, of "attr_prefix @ k"]
  by (simp_all add: sent_fields_def context_keys_def Let_def split: option.split)

lemma sent_actor_field:
  "k \<noteq> ''x-actor-id'' \<Longrightarrow> k \<noteq> ''x-actor-type'' \<Longrightarrow> k \<noteq> ''x-actor-roles'' \<Longrightarrow> \<not> starts_with attr_prefix k \<Longrightarrow>
   sent_actor a m k = m k"
  by (simp add: sent_actor_def Let_def put_attributes_other)

lemma sent_actor_own:
  "sent_actor a m ''x-actor-id'' = Some (actor_id a)"
  "sent_actor a m ''x-actor-type'' = Some (show_int (actor_type_code (actor_type a)))"
  "sent_actor a m ''x-actor-roles'' =
     (if roles a = [] then m ''x-actor-roles'' else Some (join_with CHR '','' (roles a)))"
  "sent_actor a m (attr_prefix @ k) = (case attributes a k of None \<Rightarrow> m (attr_prefix @ k) | Some v \<Rightarrow> Some v)"
  by (simp_all add: sent_actor_def Let_def put_attributes_other put_attributes_prefixed split: option.split)

lemma decode_sent_actor:
  assumes "portable_actor a" and "m ''x-actor-roles'' = None" and "\<And>k. m (attr_prefix @ k) = None"
  shows "actor_from_headers (sent_actor a m) = Some a"
proof -
  have id: "actor_id a \<noteq> []" and rs: "\<forall>r \<in> set (roles a). clean_role r" and at: "[] \<notin> ran (attributes a)"
    using assms(1) by (simp_all add: portable_actor_def)
  have "join_with CHR '','' (roles a) \<noteq> []" if "roles a \<noteq> []"
    using that rs by (intro join_with_nonempty) (auto simp: clean_role_def)
  then have ro: "(case nonempty_at (sent_actor a m) ''x-actor-roles'' of None \<Rightarrow> []
      | Some s \<Rightarrow> decode_roles s) = roles a"
    using assms(2) rs by (auto simp: nonempty_at_def sent_actor_own decode_roles_join)
  have "decode_attributes (sent_actor a m) k = attributes a k" for k
    using at assms(3) [of k]
    by (auto simp: decode_attributes_def nonempty_at_def sent_actor_own ran_def split: option.splits)
  then have "decode_attributes (sent_actor a m) = attributes a" by (rule ext)
  then show ?thesis
    using ro id by (simp add: actor_from_headers_def nonempty_at_def sent_actor_own parse_actor_type
        actor_type_roundtrip Let_def del: actor_type_of.simps)
qed

lemma build_context_fields:
  "request_id (build_context_from_headers fresh m) = (case nonempty_at m ''x-request-id'' of Some r \<Rightarrow> r | None \<Rightarrow> fresh)"
  "trace_id (build_context_from_headers fresh m) = (case nonempty_at m ''x-trace-id'' of Some r \<Rightarrow> r | None \<Rightarrow> [])"
  "tenant_id (build_context_from_headers fresh m) = nonempty_at m ''x-tenant-id''"
  "user_id (build_context_from_headers fresh m) = nonempty_at m ''x-user-id''"
  "device_id (build_context_from_headers fresh m) = nonempty_at m ''x-device-id''"
  "platform (build_context_from_headers fresh m) = nonempty_at m ''x-platform''"
  "session_id (build_context_from_headers fresh m) = nonempty_at m ''x-session-id''"
  "actor (build_context_from_headers fresh m) = actor_from_headers m"
  by (simp_all add: build_context_from_headers_def Let_def fields_of_headers actor_no_data split: option.split)

lemma nonempty_at_without: "nonempty_at m k = without_empty (m k)"
  by (auto simp: nonempty_at_def without_empty_def split: option.split)

lemma decode_attributes_upd:
  "\<not> starts_with attr_prefix k \<Longrightarrow> decode_attributes (m(k \<mapsto> v)) = decode_attributes m"
  by (auto simp: decode_attributes_def nonempty_at_def fun_eq_iff)

lemma actor_from_headers_upd:
  "k \<notin> set context_keys \<Longrightarrow> \<not> starts_with attr_prefix k \<Longrightarrow>
   actor_from_headers (m(k \<mapsto> v)) = actor_from_headers m"
proof -
  assume k: "k \<notin> set context_keys" and a: "\<not> starts_with attr_prefix k"
  from k have "(m(k \<mapsto> v)) ''x-actor-id'' = m ''x-actor-id''" "(m(k \<mapsto> v)) ''x-actor-type'' = m ''x-actor-type''"
    "(m(k \<mapsto> v)) ''x-actor-roles'' = m ''x-actor-roles''" by (auto simp: context_keys_def)
  then show ?thesis
    unfolding actor_from_headers_def nonempty_at_def decode_attributes_upd [OF a] by (simp only:)
qed

lemma message_key_free: "''x-message-key'' \<notin> set context_keys" "\<not> starts_with attr_prefix ''x-message-key''"
  by (simp_all add: context_keys_def attr_prefix_def)

text \<open>The headers a consumer sees of a message that was sent with a context.\<close>

definition sent_headers :: "request_context \<Rightarrow> string option \<Rightarrow> headers \<Rightarrow> headers" where
  "sent_headers c key m =
     (let h = (case actor c of None \<Rightarrow> sent_fields c m | Some a \<Rightarrow> sent_actor a (sent_fields c m))
      in case key of None \<Rightarrow> h | Some s \<Rightarrow> h(''x-message-key'' \<mapsto> s))"

lemma wire_headers_sent:
  "first_values (wm_headers (wire_message_of fresh c subject key pay ho)) =
     sent_headers c key (case ho of None \<Rightarrow> Map.empty | Some h \<Rightarrow> h)"
  by (simp add: wire_message_of_def sent_headers_def first_values_context Let_def split: option.split)

lemma sent_headers_fields:
  assumes "\<not> carries_context m"
  shows "sent_headers c key m ''x-trace-id'' = Some (trace_id c)"
    "sent_headers c key m ''x-request-id'' = Some (request_id c)"
    "sent_headers c key m ''x-tenant-id'' = tenant_id c" "sent_headers c key m ''x-user-id'' = user_id c"
    "sent_headers c key m ''x-device-id'' = device_id c" "sent_headers c key m ''x-platform'' = platform c"
    "sent_headers c key m ''x-session-id'' = session_id c"
  by (simp_all add: sent_headers_def Let_def sent_actor_field sent_fields_apply [OF assms] split: option.split)

lemma sent_headers_actor:
  assumes "\<not> carries_context m" and "\<And>a. actor c = Some a \<Longrightarrow> portable_actor a"
  shows "actor_from_headers (sent_headers c key m) = actor c"
proof -
  let ?h = "case actor c of None \<Rightarrow> sent_fields c m | Some a \<Rightarrow> sent_actor a (sent_fields c m)"
  have "actor_from_headers ?h = actor c"
  proof (cases "actor c")
    case None
    then show ?thesis
      by (simp add: actor_from_headers_def nonempty_at_def sent_fields_apply [OF assms(1)])
  next
    case (Some a)
    with assms show ?thesis
      by (simp add: decode_sent_actor sent_fields_apply [OF assms(1)])
  qed
  then show ?thesis
    by (auto simp: sent_headers_def Let_def actor_from_headers_upd message_key_free split: option.split)
qed

lemma sent_headers_other:
  assumes "k \<notin> set context_keys" "\<not> starts_with attr_prefix k" "k \<noteq> ''x-message-key''"
  shows "sent_headers c key m k = m k"
  using assms by (simp add: sent_headers_def Let_def sent_actor_field sent_fields_def context_keys_def
      split: option.split)

lemma decode_message_simps [simp]:
  "mctx (decode_message i r t b m) =
     \<lparr>msg_ctx = build_context_from_headers r (first_values (wm_headers m)),
      message_id = (case first_values (wm_headers m) ''x-message-id'' of Some i' \<Rightarrow> i' | None \<Rightarrow> i),
      topic = wm_subject m, msg_partition = 0, msg_offset = 0,
      msg_key = first_values (wm_headers m) ''x-message-key'', msg_headers = first_values (wm_headers m),
      started = t,
      retry_count = max (retry_count_from_headers (first_values (wm_headers m))) (nats_delivery_retry_count m),
      metadata = Map.empty\<rparr>"
  "payload (decode_message i r t b m) = wm_payload m"
  by (simp_all add: decode_message_def Let_def message_new_def with_ack_handle_def)

section \<open>The loop of a publication\<close>

definition first_success :: "(nat \<Rightarrow> string + unit) \<Rightarrow> nat \<Rightarrow> nat \<Rightarrow> bool" where
  "first_success answers from to \<longleftrightarrow> (\<exists>n. from \<le> n \<and> n \<le> to \<and> answers n = Inr ())"

lemma send_loop_spec:
  "attempt \<le> retries \<Longrightarrow> send_loop answers retries base i attempt = (ds, r) \<Longrightarrow>
   length ds \<le> retries - attempt \<and>
   (r = Inr () \<longleftrightarrow> first_success answers attempt retries) \<and>
   (\<forall>k < length ds. (\<exists>e. answers (attempt + k) = Inl e) \<and> ds ! k = publish_backoff base i (attempt + Suc k)) \<and>
   (r = Inr () \<longrightarrow> answers (attempt + length ds) = Inr ())"
proof (induction answers retries base i attempt arbitrary: ds r rule: send_loop.induct)
  case (1 answers retries base i attempt)
  show ?case
  proof (cases "answers attempt")
    case (Inr u)
    with 1(3) have "ds = []" "r = Inr ()" by (simp_all add: send_loop.simps)
    with Inr 1(2) show ?thesis by (auto simp: first_success_def)
  next
    case (Inl e)
    show ?thesis
    proof (cases "retries \<le> attempt")
      case True
      with Inl 1(3) have "ds = []" "r = Inl (PSend e)" by (simp_all add: send_loop.simps)
      with Inl True 1(2) show ?thesis by (auto simp: first_success_def)
    next
      case False
      obtain ds' where loop: "send_loop answers retries base i (Suc attempt) = (ds', r)"
        and ds: "ds = publish_backoff base i (Suc attempt) # ds'"
        using Inl False 1(3) by (simp add: send_loop.simps [of answers retries base i attempt] split: prod.splits)
      have later: "first_success answers (Suc attempt) retries \<longleftrightarrow> first_success answers attempt retries"
      proof -
        have "Suc attempt \<le> n" if "attempt \<le> n" "answers n = Inr ()" for n
          using that Inl by (cases "n = attempt") auto
        then show ?thesis unfolding first_success_def by (meson Suc_leD)
      qed
      from 1(1) [OF Inl False _ loop] False
      have IH: "length ds' \<le> retries - Suc attempt" "r = Inr () \<longleftrightarrow> first_success answers attempt retries"
        "\<forall>k < length ds'. (\<exists>e. answers (Suc attempt + k) = Inl e) \<and> ds' ! k = publish_backoff base i (Suc attempt + Suc k)"
        "r = Inr () \<longrightarrow> answers (Suc attempt + length ds') = Inr ()"
        unfolding later by auto
      with ds Inl False show ?thesis by (auto simp: nth_Cons split: nat.split)
    qed
  qed
qed

lemma publish_backoff_bound: "publish_backoff base i n \<le> 80 * base"
proof -
  define ex where "ex = (2 :: nat) ^ min (n - 1) 6"
  define b where "b = min (base * ex) DURATION_MAX"
  define pct where "pct = (if i = [] then 0 else of_char (last i)) mod (25 :: nat)"
  have "ex \<le> 2 ^ 6" unfolding ex_def by (rule power_increasing) simp_all
  then have ex: "ex \<le> 64" by simp
  have b: "b \<le> 64 * base" unfolding b_def using ex by (metis min.coboundedI1 mult.commute mult_le_mono2)
  have "pct < 25" unfolding pct_def by (rule mod_less_divisor) simp
  then have "pct \<le> 24" by simp
  then have "b div 100 * pct \<le> b div 100 * 24" by simp
  also have "\<dots> \<le> b div 4" by simp
  also have "\<dots> \<le> 16 * base" using b by simp
  finally have "b + b div 100 * pct \<le> 80 * base" using b by simp
  moreover have "publish_backoff base i n = min (b + b div 100 * pct) DURATION_MAX"
    by (simp only: publish_backoff_def Let_def ex_def b_def pct_def)
  ultimately show ?thesis by simp
qed

section \<open>Properties\<close>

lemma nats_message_decoded:
  assumes "request_id c \<noteq> []" and "\<And>a. actor c = Some a \<Longrightarrow> portable_actor a" and "\<not> carries_context h"
  shows "let m = decode_message i r t b (wire_message_of fresh c subject (Some key) pay (Some h));
             c' = msg_ctx (mctx m)
         in topic (mctx m) = subject \<and> payload m = pay \<and> msg_key (mctx m) = Some key \<and>
            (\<forall>k. k \<in> dom h \<and> k \<noteq> ''x-message-key'' \<longrightarrow> msg_headers (mctx m) k = h k) \<and>
            request_id c' = request_id c \<and> trace_id c' = trace_id c \<and> actor c' = actor c \<and>
            tenant_id c' = without_empty (tenant_id c) \<and> user_id c' = without_empty (user_id c) \<and>
            device_id c' = without_empty (device_id c) \<and> platform c' = without_empty (platform c) \<and>
            session_id c' = without_empty (session_id c)"
proof -
  have own: "sent_headers c (Some key) h k = h k" if "k \<in> dom h" "k \<noteq> ''x-message-key''" for k
    using that assms(3) by (intro sent_headers_other) (auto simp: carries_context_def)
  have "sent_headers c (Some key) h ''x-message-key'' = Some key" by (simp add: sent_headers_def Let_def)
  with own show ?thesis
    using assms(1)
    by (simp add: Let_def wire_headers_sent build_context_fields nonempty_at_without sent_headers_fields [OF assms(3)]
        sent_headers_actor [OF assms(3,2)] wire_message_of_def [of fresh c subject "Some key" pay "Some h", THEN arg_cong [where f = wm_subject]]
        wire_message_of_def [of fresh c subject "Some key" pay "Some h", THEN arg_cong [where f = wm_payload]])
      (simp add: without_empty_def)
qed



text \<open>
  Whether a redelivered message is recognised as a duplicate. The consumer reads a message twice
  and makes up an identifier each time it finds none; the two idempotency keys are the same exactly
  when the headers have a message id or a non-blank envelope id. The id under which the producer
  publishes is not among the headers, so without one of these two a redelivery is a new message.
\<close>

theorem redelivery_key:
  assumes "trim i \<noteq> []" and "trim i' \<noteq> []" and "i \<noteq> i'" and "m' = m\<lparr>wm_delivered := d\<rparr>"
  shows "idempotency_key (decode_message i r t b m) = idempotency_key (decode_message i' r' t' b m') \<longleftrightarrow>
     first_values (wm_headers m) ''x-message-id'' \<noteq> None \<or>
     (\<exists>e. first_values (wm_headers m) ''x-envelope-id'' = Some e \<and> trim e \<noteq> [])"
  using assms by (auto simp: idempotency_key_def envelope_or_message_id_def split: option.split)

definition plain_wire_message :: "headers \<Rightarrow> wire_message" where
  "plain_wire_message h =
     \<lparr>wm_subject = ''orders.new'', wm_payload = ''body'', wm_headers = Some (custom_headers (Some h)), wm_id = ''p1'',
      wm_delivered = Some 1, wm_handle = 7\<rparr>"

theorem redelivery_key_witness:
  "idempotency_key (decode_message ''u1'' ''r'' 0 True (plain_wire_message Map.empty)) \<noteq>
   idempotency_key (decode_message ''u2'' ''r'' 9 True ((plain_wire_message Map.empty)\<lparr>wm_delivered := Some 2\<rparr>))"
proof -
  have "trim ''u1'' = ''u1'' \<and> trim ''u2'' = ''u2''" by code_simp
  then show ?thesis
    using redelivery_key [where i = "''u1''" and i' = "''u2''" and m = "plain_wire_message Map.empty" and
        m' = "(plain_wire_message Map.empty)\<lparr>wm_delivered := Some 2\<rparr>" and d = "Some 2" and
        r = "''r''" and t = 0 and b = True and r' = "''r''" and t' = 9]
    by (simp add: plain_wire_message_def)
qed

lemma split_on_snoc:
  "split_on sep s = us @ [t] \<Longrightarrow> s = concat (map (\<lambda>u. u @ [sep]) us) @ t"
proof (induction s arbitrary: us t)
  case Nil
  then show ?case by (cases us) auto
next
  case (Cons c s)
  obtain w ws where w: "split_on sep s = w # ws" by (cases "split_on sep s") auto
  show ?case
  proof (cases "c = sep")
    case True
    with Cons.prems w have "us = [] # butlast (w # ws)" "split_on sep s = butlast (w # ws) @ [t]"
      by (cases us; simp add: w)+
    from this(1) Cons.IH [OF this(2)] True show ?thesis by simp
  next
    case False
    show ?thesis
    proof (cases us)
      case Nil
      with Cons.prems w False have "ws = []" "t = c # w" by auto
      with Cons.IH [of "[]" w] w Nil show ?thesis by simp
    next
      case (Cons u us')
      with Cons.prems w False have "u = c # w" "ws = us' @ [t]" by auto
      with Cons.IH [of "w # us'" t] w Cons show ?thesis by simp
    qed
  qed
qed

text \<open>A pattern whose only wildcard token, if any, is a star at its end.\<close>

definition plain_filter :: "string \<Rightarrow> bool" where
  "plain_filter p \<longleftrightarrow>
     ''>'' \<notin> set (split_on CHR ''.'' p) \<and> ''*'' \<notin> set (butlast (split_on CHR ''.'' p))"

lemma token_covers_same: "list_all2 token_covers us vs \<Longrightarrow> ''*'' \<notin> set us \<Longrightarrow> us = vs"
  by (induction us vs rule: list_all2_induct) (auto simp: token_covers_def)

lemma plain_filter_match:
  assumes "plain_filter p" and "subject_matches p s" and "p \<noteq> s"
  shows "wildcard_matches p s"
proof -
  let ?ps = "split_on CHR ''.'' p" and ?ss = "split_on CHR ''.'' s"
  from assms have all: "list_all2 token_covers ?ps ?ss"
    by (auto simp: subject_matches_def match_loop_exact plain_filter_def)
  obtain us t where ps: "?ps = us @ [t]" by (metis rev_exhaust split_on_not_Nil)
  obtain vs t' where ss: "?ss = vs @ [t']" by (metis rev_exhaust split_on_not_Nil)
  from all have "length (us @ [t]) = length (vs @ [t'])" unfolding ps ss by (rule list_all2_lengthD)
  with all have us: "list_all2 token_covers us vs" and t: "token_covers t t'"
    by (simp_all add: ps ss list_all2_append)
  from ps assms(1) have "''*'' \<notin> set us" by (simp add: plain_filter_def)
  from token_covers_same [OF us this] have uv: "us = vs" .
  define q where "q = concat (map (\<lambda>u. u @ [CHR ''.'']) us)"
  have p: "p = q @ t" unfolding q_def by (rule split_on_snoc [OF ps])
  have s: "s = q @ t'" unfolding q_def uv by (rule split_on_snoc [OF ss])
  from p s assms(3) t have "t = ''*''" by (auto simp: token_covers_def)
  with p s show ?thesis by (simp add: wildcard_matches_def ends_with_star_def)
qed

text \<open>
  The two notions of a pattern agree where they have to: a message that the broker delivers
  through the filter of a registered topic, exact or ending in a star token, finds a handler at the
  dispatcher.
\<close>

theorem delivered_subject_has_handler:
  assumes "hash_order ord" and "p \<in> fst ` set hs" and "plain_filter p" and "subject_matches p s"
  shows "find_handler ord hs s \<noteq> None"
proof (cases "p = s")
  case True
  with assms(2) have "map_of hs s \<noteq> None" by (simp add: map_of_eq_None_iff)
  then show ?thesis by (auto simp: find_handler_exact)
next
  case False
  with assms have "wildcard_matches p s" by (intro plain_filter_match)
  with assms show ?thesis by (auto simp: find_handler_None_iff)
qed

theorem delivered_subject_has_handler_witness:
  "find_handler remdups [(''flare.im.push.*'', noting_handler ''push'' Ack)] ''flare.im.push.online'' \<noteq> None"
  by (rule delivered_subject_has_handler [where p = "''flare.im.push.*''"])
    (simp_all add: plain_filter_def subject_matches_def)

text \<open>
  A pattern that ends in a greater-than token is accepted as a filter by the broker, but the dispatcher knows no such
  pattern: what is delivered through it has no handler.
\<close>

lemma tail_pattern_not_dispatched:
  assumes "hash_order ord" and "subject_matches (q @ ''>'') s" and "s \<noteq> q @ ''>''"
  shows "find_handler ord [(q @ ''>'', h)] s = None"
  using assms by (simp add: find_handler_None_iff wildcard_matches_def ends_with_star_def)

text \<open>
  Publishing tries at most once more than the configured retries, succeeds exactly when one of
  these attempts does, stops at the first success, and sleeps between attempts at most eighty times
  the configured back-off.
\<close>

theorem nats_send_bounded:
  assumes "nats_send fresh answers np c subject key pay ho = (Some m, ds, r)"
  shows "length ds \<le> unat (np_retries np) \<and>
     (r = Inr () \<longleftrightarrow> (\<exists>n \<le> unat (np_retries np). answers n = Inr ())) \<and>
     (\<forall>n < length ds. answers n \<noteq> Inr ()) \<and>
     (\<forall>d \<in> set ds. d \<le> 80 * (unat (np_backoff_ms np) * 10 ^ 6))"
proof -
  from assms have "send_loop answers (unat (np_retries np)) (unat (np_backoff_ms np) * 10 ^ 6) (wm_id m) 0 = (ds, r)"
    by (auto simp: nats_send_def Let_def split: option.splits)
  from send_loop_spec [OF _ this] have spec: "length ds \<le> unat (np_retries np)"
    "r = Inr () \<longleftrightarrow> first_success answers 0 (unat (np_retries np))"
    "\<forall>k < length ds. (\<exists>e. answers k = Inl e) \<and>
       ds ! k = publish_backoff (unat (np_backoff_ms np) * 10 ^ 6) (wm_id m) (Suc k)" by auto
  then have "\<forall>d \<in> set ds. d \<le> 80 * (unat (np_backoff_ms np) * 10 ^ 6)"
    using publish_backoff_bound by (metis in_set_conv_nth)
  with spec show ?thesis by (auto simp: first_success_def)
qed

theorem nats_send_bounded_witness:
  "\<exists>m ds r. nats_send ''u'' (\<lambda>n. if n < 2 then Inl ''down'' else Inr ())
       \<lparr>np_streams = default_stream_specs, np_retries = 3, np_backoff_ms = 100\<rparr> root ''flare.im.push.a'' None [] None =
         (Some m, ds, r) \<and> r = Inr () \<and> length ds \<le> 3"
proof -
  let ?a = "\<lambda>n :: nat. if n < 2 then Inl ''down'' else Inr () :: string + unit"
  let ?np = "\<lparr>np_streams = default_stream_specs, np_retries = 3, np_backoff_ms = 100\<rparr>"
  have "resolve_subject_stream default_stream_specs ''flare.im.push.a'' \<noteq> None"
    by (simp add: default_stream_specs_def dlq_stream_spec_def with_max_age_def stream_spec_new_def
        resolve_subject_stream_def spec_covers_def subject_matches_def)
  then obtain m ds r where s: "nats_send ''u'' ?a ?np root ''flare.im.push.a'' None [] None = (Some m, ds, r)"
    by (cases "send_loop ?a (unat (np_retries ?np)) (unat (np_backoff_ms ?np) * 10 ^ 6)
         (wm_id (wire_message_of ''u'' root ''flare.im.push.a'' None [] None)) 0")
      (auto simp: nats_send_def Let_def)
  have "\<exists>n \<le> 3. ?a n = Inr ()" by (intro exI [of _ 2]) simp
  with nats_send_bounded [OF s] s show ?thesis by auto
qed

end
