(* ===== verification/Snowflake.thy ===== *)
theory Snowflake
  imports Prelude
begin

text \<open>
  The identifier generator of \<^verbatim>\<open>flare-core-base/src/id/snowflake.rs\<close>: 41 bits of milliseconds since
  2024, 5 bits of data centre, 5 bits of worker, 12 bits of sequence, in one \<^verbatim>\<open>u64\<close>.

  The generator's state is that behind its mutex. A reading of the system clock is the number of
  milliseconds since 1970, or \<open>None\<close> when \<^verbatim>\<open>duration_since(UNIX_EPOCH)\<close> fails; the clock is a
  function from the number of a reading to its value, an argument of every operation, which returns
  the number of the next reading. The loop of \<^verbatim>\<open>wait_next_millis\<close> may run for ever when the clock
  stands still: it is a \<open>partial_function\<close>, whose value \<open>None\<close> means that it does not return.
  A millisecond count is an \<^verbatim>\<open>i64\<close>: as an \<open>int\<close>, with the one cast that can wrap written out.
\<close>

unbundle bit_operations_syntax

section \<open>The generator\<close>

datatype snowflake_error =
    InvalidWorkerId
  | InvalidDatacenterId
  | ClockMovedBackwards
  | SystemTimeError
  | LockPoisoned

record snowflake_state =
  last_timestamp :: int
  sequence_no :: u64

record snowflake_generator =
  worker_id :: u64
  datacenter_id :: u64
  flake_state :: snowflake_state
  flake_poisoned :: bool

definition EPOCH_MS :: int where
  "EPOCH_MS = 1704067200000"

definition WORKER_ID_BITS :: nat where
  "WORKER_ID_BITS = 5"

definition DATACENTER_ID_BITS :: nat where
  "DATACENTER_ID_BITS = 5"

definition SEQUENCE_BITS :: nat where
  "SEQUENCE_BITS = 12"

definition MAX_WORKER_ID :: u64 where
  "MAX_WORKER_ID = push_bit WORKER_ID_BITS 1 - 1"

definition MAX_DATACENTER_ID :: u64 where
  "MAX_DATACENTER_ID = push_bit DATACENTER_ID_BITS 1 - 1"

definition SEQUENCE_MASK :: u64 where
  "SEQUENCE_MASK = push_bit SEQUENCE_BITS 1 - 1"

definition WORKER_ID_SHIFT :: nat where
  "WORKER_ID_SHIFT = SEQUENCE_BITS"

definition DATACENTER_ID_SHIFT :: nat where
  "DATACENTER_ID_SHIFT = SEQUENCE_BITS + WORKER_ID_BITS"

definition TIMESTAMP_SHIFT :: nat where
  "TIMESTAMP_SHIFT = SEQUENCE_BITS + WORKER_ID_BITS + DATACENTER_ID_BITS"

lemmas snowflake_consts =
  EPOCH_MS_def WORKER_ID_BITS_def DATACENTER_ID_BITS_def SEQUENCE_BITS_def MAX_WORKER_ID_def
  MAX_DATACENTER_ID_def SEQUENCE_MASK_def WORKER_ID_SHIFT_def DATACENTER_ID_SHIFT_def
  TIMESTAMP_SHIFT_def

definition snowflake_new :: "u64 \<Rightarrow> u64 \<Rightarrow> snowflake_error + snowflake_generator" where
  "snowflake_new w d =
     (if w > MAX_WORKER_ID then Inl InvalidWorkerId
      else if d > MAX_DATACENTER_ID then Inl InvalidDatacenterId
      else Inr \<lparr>worker_id = w, datacenter_id = d,
                flake_state = \<lparr>last_timestamp = - 1, sequence_no = 0\<rparr>, flake_poisoned = False\<rparr>)"

type_synonym clock = "nat \<Rightarrow> int option"

definition current_timestamp_ms :: "clock \<Rightarrow> nat \<Rightarrow> snowflake_error + int" where
  "current_timestamp_ms ck k = (case ck k of None \<Rightarrow> Inl SystemTimeError | Some t \<Rightarrow> Inr t)"

text \<open>The loop returns the reading it ends with and the number of the next reading.\<close>

partial_function (option) wait_next_millis ::
    "clock \<Rightarrow> int \<Rightarrow> nat \<Rightarrow> ((snowflake_error + int) \<times> nat) option" where
  "wait_next_millis ck prev k =
     (case current_timestamp_ms ck k of
        Inl e \<Rightarrow> Some (Inl e, Suc k)
      | Inr ts \<Rightarrow> if ts \<le> prev then wait_next_millis ck prev (Suc k) else Some (Inr ts, Suc k))"

declare wait_next_millis.simps [code]

definition snowflake_compose :: "int \<Rightarrow> u64 \<Rightarrow> u64 \<Rightarrow> u64 \<Rightarrow> u64" where
  "snowflake_compose timestamp d w s =
     (let ts_part = word_of_int (timestamp - EPOCH_MS)
      in push_bit TIMESTAMP_SHIFT ts_part
         OR push_bit DATACENTER_ID_SHIFT d
         OR push_bit WORKER_ID_SHIFT w
         OR s)"

text \<open>
  \<^verbatim>\<open>next_id\<close>. The sequence is written before the wait: when the wait fails, the state keeps the new
  sequence with the old time. \<open>None\<close> is a wait that never ends, with the mutex held.
\<close>

definition next_id ::
    "clock \<Rightarrow> nat \<Rightarrow> snowflake_generator
     \<Rightarrow> ((snowflake_error + u64) \<times> snowflake_generator \<times> nat) option" where
  "next_id ck k g =
     (if flake_poisoned g then Some (Inl LockPoisoned, g, k)
      else case current_timestamp_ms ck k of
        Inl e \<Rightarrow> Some (Inl e, g, Suc k)
      | Inr timestamp \<Rightarrow>
          (let st = flake_state g;
               finish = (\<lambda>ts s.
                 (Inr (snowflake_compose ts (datacenter_id g) (worker_id g) s),
                  g\<lparr>flake_state := \<lparr>last_timestamp = ts, sequence_no = s\<rparr>\<rparr>))
           in if timestamp < last_timestamp st then Some (Inl ClockMovedBackwards, g, Suc k)
              else if timestamp = last_timestamp st then
                (let s = (sequence_no st + 1) AND SEQUENCE_MASK
                 in if s = 0 then
                      (case wait_next_millis ck (last_timestamp st) (Suc k) of
                         None \<Rightarrow> None
                       | Some (Inl e, k') \<Rightarrow>
                           Some (Inl e, g\<lparr>flake_state := st\<lparr>sequence_no := s\<rparr>\<rparr>, k')
                       | Some (Inr ts, k') \<Rightarrow> (case finish ts s of (r, g') \<Rightarrow> Some (r, g', k')))
                    else (case finish timestamp s of (r, g') \<Rightarrow> Some (r, g', Suc k)))
              else (case finish timestamp 0 of (r, g') \<Rightarrow> Some (r, g', Suc k))))"

definition next_id_string ::
    "clock \<Rightarrow> nat \<Rightarrow> snowflake_generator
     \<Rightarrow> ((snowflake_error + string) \<times> snowflake_generator \<times> nat) option" where
  "next_id_string ck k g =
     (case next_id ck k g of
        None \<Rightarrow> None
      | Some (r, g', k') \<Rightarrow> Some (map_sum id show_word r, g', k'))"

text \<open>A number of calls, one after the other, each with its result.\<close>

fun ids_of_calls ::
    "clock \<Rightarrow> nat \<Rightarrow> snowflake_generator \<Rightarrow> nat
     \<Rightarrow> ((snowflake_error + u64) list \<times> snowflake_generator) option" where
  "ids_of_calls ck k g 0 = Some ([], g)"
| "ids_of_calls ck k g (Suc n) =
     (case next_id ck k g of
        None \<Rightarrow> None
      | Some (r, g', k') \<Rightarrow>
          (case ids_of_calls ck k' g' n of
             None \<Rightarrow> None
           | Some (rs, g'') \<Rightarrow> Some (r # rs, g'')))"

fun issued_ids :: "('e + 'a) list \<Rightarrow> 'a list" where
  "issued_ids [] = []"
| "issued_ids (Inl e # rs) = issued_ids rs"
| "issued_ids (Inr x # rs) = x # issued_ids rs"

section \<open>The fields of an identifier\<close>

definition flake_time :: "u64 \<Rightarrow> nat" where
  "flake_time x = unat (drop_bit TIMESTAMP_SHIFT x)"

definition flake_datacenter :: "u64 \<Rightarrow> nat" where
  "flake_datacenter x = unat (take_bit DATACENTER_ID_BITS (drop_bit DATACENTER_ID_SHIFT x))"

definition flake_worker :: "u64 \<Rightarrow> nat" where
  "flake_worker x = unat (take_bit WORKER_ID_BITS (drop_bit WORKER_ID_SHIFT x))"

definition flake_sequence :: "u64 \<Rightarrow> nat" where
  "flake_sequence x = unat (take_bit SEQUENCE_BITS x)"

text \<open>Fields that fit are added up without overlap.\<close>

lemma or_push_bit_add:
  fixes x :: "'a::len word"
  assumes "unat x < 2 ^ n"
  shows "push_bit n y OR x = push_bit n y + x"
proof -
  have "push_bit n y AND x = 0"
  proof (rule bit_word_eqI)
    fix i assume "i < LENGTH('a)"
    have "bit x i \<Longrightarrow> i < n"
    proof -
      assume b: "bit x i"
      have "take_bit n (unat x) = unat x" using assms by (simp add: take_bit_nat_eq_self)
      moreover have "bit (unat x) i" using b by (simp add: bit_unsigned_iff)
      ultimately show "i < n" by (metis bit_take_bit_iff)
    qed
    then show "bit (push_bit n y AND x) i = bit (0 :: 'a word) i"
      by (auto simp: bit_simps)
  qed
  then show ?thesis by (metis disjunctive_add_eq_or)
qed

lemma unat_push_bit_small:
  fixes x :: "'a::len word"
  assumes "unat x * 2 ^ n < 2 ^ LENGTH('a)"
  shows "unat (push_bit n x) = unat x * 2 ^ n"
proof -
  have "unat (push_bit n x) = take_bit LENGTH('a) (push_bit n (unat x))"
    by (simp add: unsigned_push_bit_eq)
  also have "\<dots> = unat x * 2 ^ n" using assms by (simp add: push_bit_eq_mult take_bit_nat_eq_self)
  finally show ?thesis .
qed

lemma unat_or_push_bit:
  fixes x y :: "'a::len word"
  assumes "unat x < 2 ^ n" and "unat y * 2 ^ n + unat x < 2 ^ LENGTH('a)"
  shows "unat (push_bit n y OR x) = unat y * 2 ^ n + unat x"
proof -
  have "unat (push_bit n y) = unat y * 2 ^ n"
    using assms(2) by (intro unat_push_bit_small) linarith
  with assms show ?thesis by (simp add: or_push_bit_add unat_word_ariths)
qed

text \<open>The value of an identifier whose four fields fit.\<close>

definition flake_value :: "nat \<Rightarrow> nat \<Rightarrow> nat \<Rightarrow> nat \<Rightarrow> nat" where
  "flake_value t d w s = ((t * 32 + d) * 32 + w) * 4096 + s"

lemma flake_value_bound:
  assumes "t < 2 ^ 41" "d < 32" "w < 32" "s < 4096"
  shows "flake_value t d w s < 2 ^ 63"
  using assms by (simp add: flake_value_def)

lemma snowflake_compose_value:
  assumes "EPOCH_MS \<le> ts" "ts < EPOCH_MS + 2 ^ 41" "unat d < 32" "unat w < 32" "unat s < 4096"
  shows "unat (snowflake_compose ts d w s)
           = flake_value (nat (ts - EPOCH_MS)) (unat d) (unat w) (unat s)"
proof -
  define t :: u64 where "t = word_of_int (ts - EPOCH_MS)"
  have t: "unat t = nat (ts - EPOCH_MS)"
  proof -
    have "take_bit 64 (ts - EPOCH_MS) = ts - EPOCH_MS"
      using assms(1, 2) by (intro take_bit_int_eq_self) auto
    then show ?thesis unfolding t_def by (simp only: unsigned_of_int) simp
  qed
  have t41: "unat t < 2 ^ 41" using assms(1, 2) unfolding t by (simp add: nat_less_iff)
  define td where "td = push_bit 5 t OR d"
  define tdw where "tdw = push_bit 5 td OR w"
  have td: "unat td = unat t * 32 + unat d"
    using unat_or_push_bit [of d 5 t] assms(3) t41 by (simp add: td_def)
  have tdw: "unat tdw = (unat t * 32 + unat d) * 32 + unat w"
    using unat_or_push_bit [of w 5 td] assms(3, 4) t41 by (simp add: tdw_def td)
  have "unat (push_bit 12 tdw OR s) = ((unat t * 32 + unat d) * 32 + unat w) * 4096 + unat s"
    using unat_or_push_bit [of s 12 tdw] assms(3, 4, 5) t41 by (simp add: tdw)
  moreover have "snowflake_compose ts d w s = push_bit 12 tdw OR s"
    unfolding snowflake_compose_def Let_def t_def [symmetric] td_def tdw_def
    by (simp add: snowflake_consts push_bit_or or.assoc)
  ultimately show ?thesis using t by (simp add: flake_value_def)
qed

lemma flake_value_fields:
  assumes "d < 32" "w < 32" "s < 4096"
  shows "flake_value t d w s mod 4096 = s"
    and "flake_value t d w s div 4096 mod 32 = w"
    and "flake_value t d w s div 131072 mod 32 = d"
    and "flake_value t d w s div 4194304 = t"
proof -
  let ?v = "flake_value t d w s"
  have a: "?v div 4096 = (t * 32 + d) * 32 + w" using assms by (simp add: flake_value_def)
  have b: "?v div 131072 = t * 32 + d"
    using a assms div_mult2_eq [of ?v 4096 32] by simp
  show "?v mod 4096 = s" unfolding flake_value_def mod_mult_self3 using assms by simp
  show "?v div 4096 mod 32 = w" unfolding a mod_mult_self3 using assms by simp
  show "?v div 131072 mod 32 = d" unfolding b mod_mult_self3 using assms by simp
  show "?v div 4194304 = t" using b assms div_mult2_eq [of ?v 131072 32] by simp
qed

lemma flake_value_inject:
  assumes "d < 32" "w < 32" "s < 4096" "d' < 32" "w' < 32" "s' < 4096"
  shows "flake_value t d w s = flake_value t' d' w' s' \<longleftrightarrow> t = t' \<and> d = d' \<and> w = w' \<and> s = s'"
  using flake_value_fields [OF assms(1-3), of t] flake_value_fields [OF assms(4-6), of t'] by metis

lemma flake_fields_unat:
  "flake_sequence x = unat x mod 4096"
  "flake_worker x = unat x div 4096 mod 32"
  "flake_datacenter x = unat x div 131072 mod 32"
  "flake_time x = unat x div 4194304"
  by (simp_all add: flake_sequence_def flake_worker_def flake_datacenter_def flake_time_def
      snowflake_consts unsigned_take_bit_eq unsigned_drop_bit_eq take_bit_eq_mod drop_bit_eq_div
      unat_mod_distrib unat_div_distrib)

section \<open>The behaviour of the generator\<close>

definition clock_in_range :: "clock \<Rightarrow> bool" where
  "clock_in_range ck \<longleftrightarrow> (\<forall>k. \<exists>t. ck k = Some t \<and> EPOCH_MS \<le> t \<and> t < EPOCH_MS + 2 ^ 41)"

definition flake_ok :: "snowflake_generator \<Rightarrow> bool" where
  "flake_ok g \<longleftrightarrow> unat (worker_id g) < 32 \<and> unat (datacenter_id g) < 32
     \<and> unat (sequence_no (flake_state g)) < 4096 \<and> \<not> flake_poisoned g"

text \<open>Where a generator stands: its last millisecond and sequence as one number.\<close>

definition flake_position :: "snowflake_generator \<Rightarrow> int" where
  "flake_position g =
     last_timestamp (flake_state g) * 4096 + uint (sequence_no (flake_state g))"

text \<open>What an identifier says when it was the last one issued.\<close>

definition issued_last :: "snowflake_generator \<Rightarrow> u64 \<Rightarrow> bool" where
  "issued_last g x \<longleftrightarrow>
     EPOCH_MS \<le> last_timestamp (flake_state g) \<and> last_timestamp (flake_state g) < EPOCH_MS + 2 ^ 41
     \<and> unat x = flake_value (nat (last_timestamp (flake_state g) - EPOCH_MS))
                 (unat (datacenter_id g)) (unat (worker_id g)) (unat (sequence_no (flake_state g)))"

lemma snowflake_new_ok:
  assumes "snowflake_new w d = Inr g"
  shows "flake_ok g" "worker_id g = w" "datacenter_id g = d" "unat w < 32" "unat d < 32"
    "flake_state g = \<lparr>last_timestamp = - 1, sequence_no = 0\<rparr>"
proof -
  have "w \<le> 31" "d \<le> 31"
    using assms by (simp_all add: snowflake_new_def snowflake_consts split: if_splits)
  then have "unat w \<le> 31" "unat d \<le> 31" by (simp_all add: word_le_nat_alt)
  with assms show "flake_ok g" "worker_id g = w" "datacenter_id g = d" "unat w < 32" "unat d < 32"
    "flake_state g = \<lparr>last_timestamp = - 1, sequence_no = 0\<rparr>"
    by (auto simp: snowflake_new_def flake_ok_def split: if_splits)
qed

text \<open>The wait ends exactly when some later reading fails or has passed the given time.\<close>

lemma wait_next_millis_fails [simp]:
  "ck k = None \<Longrightarrow> wait_next_millis ck prev k = Some (Inl SystemTimeError, Suc k)"
  by (subst wait_next_millis.simps) (simp add: current_timestamp_ms_def)

lemma wait_next_millis_ends:
  "ck j = None \<or> (\<exists>t. ck j = Some t \<and> prev < t) \<Longrightarrow> k \<le> j \<Longrightarrow> wait_next_millis ck prev k \<noteq> None"
proof (induction "j - k" arbitrary: k)
  case 0
  then show ?case by (subst wait_next_millis.simps) (auto simp: current_timestamp_ms_def)
next
  case (Suc n)
  then have "wait_next_millis ck prev (Suc k) \<noteq> None" by simp
  then show ?case
    by (subst wait_next_millis.simps) (auto simp: current_timestamp_ms_def split: option.splits)
qed

lemma wait_next_millis_result:
  assumes "wait_next_millis ck prev k = Some y"
  shows "k < snd y \<and> (case fst y of
      Inl e \<Rightarrow> e = SystemTimeError \<and> ck (snd y - 1) = None
    | Inr t \<Rightarrow> ck (snd y - 1) = Some t \<and> prev < t)"
  using _ assms
proof (rule wait_next_millis.raw_induct)
  fix wnm :: "clock \<Rightarrow> int \<Rightarrow> nat \<Rightarrow> ((snowflake_error + int) \<times> nat) option" and ck prev k y
  assume IH: "\<And>ck prev k y. wnm ck prev k = Some y \<Longrightarrow> k < snd y \<and> (case fst y of
      Inl e \<Rightarrow> e = SystemTimeError \<and> ck (snd y - 1) = None
    | Inr t \<Rightarrow> ck (snd y - 1) = Some t \<and> prev < t)"
    and y: "(case current_timestamp_ms ck k of
        Inl e \<Rightarrow> Some (Inl e, Suc k)
      | Inr ts \<Rightarrow> if ts \<le> prev then wnm ck prev (Suc k) else Some (Inr ts, Suc k)) = Some y"
  show "k < snd y \<and> (case fst y of
      Inl e \<Rightarrow> e = SystemTimeError \<and> ck (snd y - 1) = None
    | Inr t \<Rightarrow> ck (snd y - 1) = Some t \<and> prev < t)"
  proof (cases "\<exists>t. ck k = Some t \<and> t \<le> prev")
    case True
    with y have "wnm ck prev (Suc k) = Some y" by (auto simp: current_timestamp_ms_def)
    from IH [OF this] show ?thesis by auto
  next
    case False
    with y show ?thesis by (auto simp: current_timestamp_ms_def split: option.splits)
  qed
qed

lemma wait_next_millis_None:
  "wait_next_millis ck prev k = None \<longleftrightarrow> (\<forall>j \<ge> k. \<exists>t. ck j = Some t \<and> t \<le> prev)"
proof
  assume "wait_next_millis ck prev k = None"
  then show "\<forall>j \<ge> k. \<exists>t. ck j = Some t \<and> t \<le> prev"
    using wait_next_millis_ends [of ck _ prev k] by (metis linorder_not_le not_None_eq)
next
  assume still: "\<forall>j \<ge> k. \<exists>t. ck j = Some t \<and> t \<le> prev"
  show "wait_next_millis ck prev k = None"
  proof (rule ccontr)
    assume "wait_next_millis ck prev k \<noteq> None"
    then obtain r k' where w: "wait_next_millis ck prev k = Some (r, k')" by auto
    from wait_next_millis_result [OF w] have "k \<le> k' - 1"
      and "ck (k' - 1) = None \<or> (\<exists>t. ck (k' - 1) = Some t \<and> prev < t)"
      by (auto split: sum.splits)
    with still show False by fastforce
  qed
qed

lemma sequence_mask_bound: "unat (x AND SEQUENCE_MASK) < 4096"
proof -
  have "unat (x AND SEQUENCE_MASK) \<le> unat SEQUENCE_MASK"
    by (rule word_and_le1 [THEN word_le_nat_alt [THEN iffD1]])
  then show ?thesis by (simp add: snowflake_consts)
qed

lemma sequence_mask_step:
  assumes "unat x < 4096" and "(x + 1) AND SEQUENCE_MASK \<noteq> 0"
  shows "unat ((x + 1) AND SEQUENCE_MASK) = unat x + 1"
proof -
  have m: "(x + 1) AND SEQUENCE_MASK = take_bit 12 (x + 1)"
    by (simp add: snowflake_consts take_bit_eq_mask mask_eq_exp_minus_1)
  have p: "unat (x + 1) = unat x + 1" using assms(1) by (simp add: unat_word_ariths)
  have "unat (take_bit 12 (x + 1)) = (unat x + 1) mod 4096"
    unfolding unsigned_take_bit_eq p unfolding take_bit_eq_mod by simp
  moreover have "unat (take_bit 12 (x + 1)) \<noteq> 0"
    using assms(2) unfolding m by (simp add: unat_eq_zero)
  ultimately show ?thesis using assms(1) unfolding m
    by (cases "unat x + 1 = 4096") simp_all
qed

lemma sequence_uint: "unat (x :: u64) < 4096 \<longleftrightarrow> uint x < 4096"
proof -
  have "unat x < 4096 \<longleftrightarrow> int (unat x) < int 4096" by (simp only: of_nat_less_iff)
  then show ?thesis by simp
qed

lemma sequence_uint_less: "unat (x :: u64) = unat (y :: u64) + 1 \<Longrightarrow> uint y < uint x"
proof -
  assume "unat x = unat y + 1"
  then have "y < x" unfolding word_less_nat_alt by simp
  then show ?thesis by (simp only: word_less_def)
qed

text \<open>One call, with a clock that can be read and is within range.\<close>

lemma snowflake_compose_issued:
  assumes "flake_ok g" "EPOCH_MS \<le> ts" "ts < EPOCH_MS + 2 ^ 41" "unat s < 4096"
  shows "issued_last (g\<lparr>flake_state := \<lparr>last_timestamp = ts, sequence_no = s\<rparr>\<rparr>)
           (snowflake_compose ts (datacenter_id g) (worker_id g) s)"
  using assms by (simp add: issued_last_def flake_ok_def snowflake_compose_value)

lemma next_id_new_millisecond:
  "\<not> flake_poisoned g \<Longrightarrow> ck k = Some ts \<Longrightarrow> last_timestamp (flake_state g) < ts \<Longrightarrow>
   next_id ck k g = Some (Inr (snowflake_compose ts (datacenter_id g) (worker_id g) 0),
     g\<lparr>flake_state := \<lparr>last_timestamp = ts, sequence_no = 0\<rparr>\<rparr>, Suc k)"
  by (simp add: next_id_def current_timestamp_ms_def Let_def)

lemma next_id_step:
  assumes "next_id ck k g = Some (r, g', k')" and ok: "flake_ok g" and ck: "clock_in_range ck"
  shows "flake_ok g' \<and> worker_id g' = worker_id g \<and> datacenter_id g' = datacenter_id g
     \<and> (case r of Inl e \<Rightarrow> g' = g | Inr x \<Rightarrow> issued_last g' x \<and> flake_position g < flake_position g')"
proof -
  obtain ts where ts: "ck k = Some ts" "EPOCH_MS \<le> ts" "ts < EPOCH_MS + 2 ^ 41"
    using ck unfolding clock_in_range_def by blast
  let ?st = "flake_state g" and ?s = "(sequence_no (flake_state g) + 1) AND SEQUENCE_MASK"
  have seq: "unat (sequence_no ?st) < 4096" using ok by (simp add: flake_ok_def)
  have ok': "flake_ok (g\<lparr>flake_state := \<lparr>last_timestamp = t, sequence_no = s\<rparr>\<rparr>)" if "unat s < 4096" for t s
    using ok that by (simp add: flake_ok_def)
  have np: "\<not> flake_poisoned g" using ok by (simp add: flake_ok_def)
  consider "ts < last_timestamp ?st" | "ts = last_timestamp ?st" "?s = 0"
    | "ts = last_timestamp ?st" "?s \<noteq> 0" | "last_timestamp ?st < ts" by linarith
  then show ?thesis
  proof cases
    case 1
    then show ?thesis using assms(1) np ts(1) ok
      by (auto simp: next_id_def current_timestamp_ms_def Let_def)
  next
    case 2
    then obtain y where y: "wait_next_millis ck ts (Suc k) = Some y"
      using assms(1) np ts(1)
      by (auto simp: next_id_def current_timestamp_ms_def Let_def split: option.splits)
    obtain t2 where t2: "ck (snd y - 1) = Some t2" "EPOCH_MS \<le> t2" "t2 < EPOCH_MS + 2 ^ 41"
      using ck unfolding clock_in_range_def by blast
    with wait_next_millis_result [OF y] have "fst y = Inr t2" "ts < t2"
      by (auto split: sum.splits)
    then obtain k2 where y2: "y = (Inr t2, k2)" "ts < t2" by (cases y) simp
    have "g' = g\<lparr>flake_state := \<lparr>last_timestamp = t2, sequence_no = 0\<rparr>\<rparr>"
      and "r = Inr (snowflake_compose t2 (datacenter_id g) (worker_id g) 0)"
      using assms(1) np ts(1) 2 y y2(1)
      by (auto simp: next_id_def current_timestamp_ms_def Let_def)
    then show ?thesis
      using ok' [of 0 t2] snowflake_compose_issued [OF ok t2(2,3), of 0] y2(2) seq 2
      by (simp add: flake_position_def sequence_uint)
  next
    case 3
    have "g' = g\<lparr>flake_state := \<lparr>last_timestamp = ts, sequence_no = ?s\<rparr>\<rparr>"
      and "r = Inr (snowflake_compose ts (datacenter_id g) (worker_id g) ?s)"
      using assms(1) np ts(1) 3 by (auto simp: next_id_def current_timestamp_ms_def Let_def)
    then show ?thesis
      using ok' [of ?s ts] snowflake_compose_issued [OF ok ts(2,3), of ?s] 3
        sequence_mask_bound sequence_uint_less [OF sequence_mask_step [OF seq 3(2)]]
      by (simp add: flake_position_def)
  next
    case 4
    then have "g' = g\<lparr>flake_state := \<lparr>last_timestamp = ts, sequence_no = 0\<rparr>\<rparr>"
      and "r = Inr (snowflake_compose ts (datacenter_id g) (worker_id g) 0)"
      using assms(1) next_id_new_millisecond [of g ck k ts] np ts(1) by simp_all
    then show ?thesis
      using ok' [of 0 ts] snowflake_compose_issued [OF ok ts(2,3), of 0] 4 seq
      by (simp add: flake_position_def sequence_uint)
  qed
qed

text \<open>Of two positions of one generator the later has the larger identifier.\<close>

definition flake_number :: "snowflake_generator \<Rightarrow> int" where
  "flake_number g =
     ((last_timestamp (flake_state g) - EPOCH_MS) * 1024 + uint (datacenter_id g) * 32
       + uint (worker_id g)) * 4096 + uint (sequence_no (flake_state g))"

lemma issued_last_number: "issued_last g x \<Longrightarrow> uint x = flake_number g"
proof -
  assume x: "issued_last g x"
  then have "int (unat x) = int (flake_value (nat (last_timestamp (flake_state g) - EPOCH_MS))
      (unat (datacenter_id g)) (unat (worker_id g)) (unat (sequence_no (flake_state g))))"
    by (simp only: issued_last_def)
  moreover have "EPOCH_MS \<le> last_timestamp (flake_state g)" using x by (simp add: issued_last_def)
  ultimately show "uint x = flake_number g" by (simp add: flake_number_def flake_value_def)
qed

lemma flake_number_mono:
  assumes "flake_ok g" "flake_ok g'" "worker_id g' = worker_id g" "datacenter_id g' = datacenter_id g"
    and "flake_position g < flake_position g'"
  shows "flake_number g < flake_number g'"
proof -
  have s: "uint (sequence_no (flake_state g)) < 4096" "uint (sequence_no (flake_state g')) < 4096"
    using assms(1, 2) sequence_uint by (simp_all add: flake_ok_def)
  have lex: "((a - e) * 1024 + c) * 4096 + s < ((a' - e) * 1024 + c) * 4096 + s'"
    if "a * 4096 + s < a' * 4096 + s'" "s < 4096" "s' < 4096" "0 \<le> s" "0 \<le> s'" for a a' s s' c e :: int
  proof (cases "a = a'")
    case False
    have "a + 1 \<le> a'"
    proof (rule ccontr)
      assume "\<not> a + 1 \<le> a'"
      with False have "a' + 1 \<le> a" by simp
      with that show False by linarith
    qed
    with that show ?thesis by (simp add: algebra_simps)
  qed (use that in simp)
  have "flake_number h = ((last_timestamp (flake_state h) - EPOCH_MS) * 1024
      + (uint (datacenter_id h) * 32 + uint (worker_id h))) * 4096 + uint (sequence_no (flake_state h))" for h
    unfolding flake_number_def by (simp only: add.assoc)
  moreover note lex [OF assms(5) [unfolded flake_position_def] s uint_ge_0 uint_ge_0]
  ultimately show ?thesis by (simp add: assms(3, 4))
qed

lemma ids_of_calls_sorted:
  assumes "ids_of_calls ck k g n = Some (rs, g')" "flake_ok g" "clock_in_range ck"
  shows "sorted_wrt (<) (map uint (issued_ids rs))
    \<and> (\<forall>x \<in> set (issued_ids rs). flake_number g < uint x
          \<and> flake_worker x = unat (worker_id g) \<and> flake_datacenter x = unat (datacenter_id g))"
  using assms
proof (induction n arbitrary: k g rs)
  case 0
  then show ?case by simp
next
  case (Suc n)
  then obtain r g1 k1 rs' where step: "next_id ck k g = Some (r, g1, k1)"
    and rest: "ids_of_calls ck k1 g1 n = Some (rs', g')" and rs: "rs = r # rs'"
    by (auto split: option.splits)
  note st = next_id_step [OF step Suc.prems(2, 3)]
  note ih = Suc.IH [OF rest conjunct1 [OF st] Suc.prems(3)]
  show ?case
  proof (cases r)
    case (Inl e)
    with st ih rs show ?thesis by simp
  next
    case (Inr x)
    have less: "flake_number g < flake_number g1"
      using flake_number_mono [OF Suc.prems(2)] st Inr by simp
    have x: "uint x = flake_number g1" using st Inr issued_last_number by auto
    have f: "flake_worker x = unat (worker_id g) \<and> flake_datacenter x = unat (datacenter_id g)"
      using st Inr flake_value_fields(2, 3) [of "unat (datacenter_id g)" "unat (worker_id g)"
          "unat (sequence_no (flake_state g1))"]
      by (auto simp: flake_fields_unat issued_last_def flake_ok_def)
    from st ih rs Inr less x f show ?thesis by fastforce
  qed
qed

section \<open>Properties\<close>


definition ticking_clock :: clock where
  "ticking_clock k = Some (EPOCH_MS + int k mod 1000)"

lemma ticking_clock_in_range: "clock_in_range ticking_clock"
proof -
  have "x mod 1000 < 1000" for x :: int by simp
  from less_trans [OF this] have "x mod 1000 < 2199023255552" for x :: int by simp
  then show ?thesis by (simp add: clock_in_range_def ticking_clock_def)
qed


text \<open>
  A call does not return exactly when all 4096 numbers of the current millisecond have been
  issued and no later reading of the clock fails or passes that millisecond; then the mutex stays
  locked for ever.
\<close>

theorem next_id_hangs_iff:
  "next_id ck k g = None \<longleftrightarrow>
     \<not> flake_poisoned g \<and> (sequence_no (flake_state g) + 1) AND SEQUENCE_MASK = 0
     \<and> ck k = Some (last_timestamp (flake_state g))
     \<and> (\<nexists>j. k < j \<and> (case ck j of None \<Rightarrow> True | Some t \<Rightarrow> last_timestamp (flake_state g) < t))"
proof -
  have "next_id ck k g = None \<longleftrightarrow>
     \<not> flake_poisoned g \<and> (sequence_no (flake_state g) + 1) AND SEQUENCE_MASK = 0
     \<and> ck k = Some (last_timestamp (flake_state g))
     \<and> wait_next_millis ck (last_timestamp (flake_state g)) (Suc k) = None"
    by (auto simp: next_id_def current_timestamp_ms_def Let_def split: option.splits sum.splits)
  moreover have "(\<forall>j > k. \<exists>t. ck j = Some t \<and> t \<le> l)
      \<longleftrightarrow> (\<nexists>j. k < j \<and> (case ck j of None \<Rightarrow> True | Some t \<Rightarrow> l < t))" for l
    by (force split: option.splits)
  ultimately show ?thesis unfolding wait_next_millis_None Suc_le_eq by simp
qed

text \<open>
  A reading of the clock that fails during the wait for the next millisecond leaves the sequence at
  zero with the old time, so the next calls in that millisecond issue its identifiers again.
\<close>

theorem failed_wait_reissues:
  assumes "flake_ok g" "unat (sequence_no (flake_state g)) = 4095"
    and "ck k = Some (last_timestamp (flake_state g))" "ck (Suc k) = None"
    and "ck (Suc (Suc k)) = Some (last_timestamp (flake_state g))"
  shows "\<exists>g' g''. next_id ck k g = Some (Inl SystemTimeError, g', Suc (Suc k))
    \<and> next_id ck (Suc (Suc k)) g' = Some (Inr (snowflake_compose (last_timestamp (flake_state g))
          (datacenter_id g) (worker_id g) 1), g'', Suc (Suc (Suc k)))"
proof -
  have "sequence_no (flake_state g) = 4095" using assms(2) by (simp add: word_unat_eq_iff)
  with assms show ?thesis
    by (simp add: next_id_def current_timestamp_ms_def Let_def snowflake_consts flake_ok_def)
qed

end
