(* ===== verification/Error_Codes.thy ===== *)
theory Error_Codes
  imports Prelude
begin

text \<open>
  The numbered error codes of \<^verbatim>\<open>flare-core-base/src/error/code.rs\<close> with their numbers, names,
  categories and the codes worth a retry.
\<close>

section \<open>Codes and categories\<close>

datatype (plugins only: code size) error_code =
    ConnectionFailed
  | ConnectionTimeout
  | ConnectionClosed
  | ConnectionRefused
  | ConnectionLimitExceeded
  | NotConnected
  | ConnectionReconnecting
  | AuthenticationFailed
  | AuthenticationExpired
  | AuthenticationInvalid
  | AuthenticationRequired
  | PermissionDenied
  | TokenInvalid
  | TokenExpired
  | ProtocolError
  | ProtocolVersionMismatch
  | ProtocolNotSupported
  | MessageFormatError
  | MessageTooLarge
  | InvalidCommand
  | MessageSendFailed
  | MessageDeliveryFailed
  | MessageNotFound
  | MessageExpired
  | MessageRateLimitExceeded
  | MessageDecodeFailed
  | UserNotFound
  | UserOffline
  | UserBlocked
  | UserQuotaExceeded
  | UserSessionLimitExceeded
  | InternalError
  | ServiceUnavailable
  | ResourceExhausted
  | ConfigurationError
  | DatabaseError
  | NetworkError
  | NetworkTimeout
  | NetworkUnreachable
  | NetworkConnectionLost
  | SerializationError
  | DeserializationError
  | EncodingError
  | GeneralError
  | InvalidParameter
  | OperationNotSupported
  | OperationFailed
  | OperationTimeout
  | BadRequest
  | SyncCursorRegression
  | UnknownError
  | HttpBadRequest
  | HttpUnauthorized
  | HttpForbidden
  | HttpNotFound
  | HttpMethodNotAllowed
  | HttpRequestTimeout
  | HttpConflict
  | HttpUnprocessableEntity
  | HttpTooManyRequests
  | HttpInternalServerError
  | HttpBadGateway
  | HttpServiceUnavailable
  | HttpGatewayTimeout

primrec as_u32 :: "error_code \<Rightarrow> u32" where
  "as_u32 ConnectionFailed = 1000"
| "as_u32 ConnectionTimeout = 1001"
| "as_u32 ConnectionClosed = 1002"
| "as_u32 ConnectionRefused = 1003"
| "as_u32 ConnectionLimitExceeded = 1004"
| "as_u32 NotConnected = 1005"
| "as_u32 ConnectionReconnecting = 1006"
| "as_u32 AuthenticationFailed = 2000"
| "as_u32 AuthenticationExpired = 2001"
| "as_u32 AuthenticationInvalid = 2002"
| "as_u32 AuthenticationRequired = 2003"
| "as_u32 PermissionDenied = 2004"
| "as_u32 TokenInvalid = 2005"
| "as_u32 TokenExpired = 2006"
| "as_u32 ProtocolError = 3000"
| "as_u32 ProtocolVersionMismatch = 3001"
| "as_u32 ProtocolNotSupported = 3002"
| "as_u32 MessageFormatError = 3003"
| "as_u32 MessageTooLarge = 3004"
| "as_u32 InvalidCommand = 3005"
| "as_u32 MessageSendFailed = 4000"
| "as_u32 MessageDeliveryFailed = 4001"
| "as_u32 MessageNotFound = 4002"
| "as_u32 MessageExpired = 4003"
| "as_u32 MessageRateLimitExceeded = 4004"
| "as_u32 MessageDecodeFailed = 4005"
| "as_u32 UserNotFound = 5000"
| "as_u32 UserOffline = 5001"
| "as_u32 UserBlocked = 5002"
| "as_u32 UserQuotaExceeded = 5003"
| "as_u32 UserSessionLimitExceeded = 5004"
| "as_u32 InternalError = 6000"
| "as_u32 ServiceUnavailable = 6001"
| "as_u32 ResourceExhausted = 6002"
| "as_u32 ConfigurationError = 6003"
| "as_u32 DatabaseError = 6004"
| "as_u32 NetworkError = 7000"
| "as_u32 NetworkTimeout = 7001"
| "as_u32 NetworkUnreachable = 7002"
| "as_u32 NetworkConnectionLost = 7003"
| "as_u32 SerializationError = 8000"
| "as_u32 DeserializationError = 8001"
| "as_u32 EncodingError = 8002"
| "as_u32 GeneralError = 9000"
| "as_u32 InvalidParameter = 9001"
| "as_u32 OperationNotSupported = 9002"
| "as_u32 OperationFailed = 9003"
| "as_u32 OperationTimeout = 9004"
| "as_u32 BadRequest = 9005"
| "as_u32 SyncCursorRegression = 9101"
| "as_u32 UnknownError = 9999"
| "as_u32 HttpBadRequest = 400"
| "as_u32 HttpUnauthorized = 401"
| "as_u32 HttpForbidden = 403"
| "as_u32 HttpNotFound = 404"
| "as_u32 HttpMethodNotAllowed = 405"
| "as_u32 HttpRequestTimeout = 408"
| "as_u32 HttpConflict = 409"
| "as_u32 HttpUnprocessableEntity = 422"
| "as_u32 HttpTooManyRequests = 429"
| "as_u32 HttpInternalServerError = 500"
| "as_u32 HttpBadGateway = 502"
| "as_u32 HttpServiceUnavailable = 503"
| "as_u32 HttpGatewayTimeout = 504"

definition from_u32 :: "u32 \<Rightarrow> error_code option" where
  "from_u32 c =
    (if c = 1000 then Some ConnectionFailed
     else if c = 1001 then Some ConnectionTimeout
     else if c = 1002 then Some ConnectionClosed
     else if c = 1003 then Some ConnectionRefused
     else if c = 1004 then Some ConnectionLimitExceeded
     else if c = 1005 then Some NotConnected
     else if c = 1006 then Some ConnectionReconnecting
     else if c = 2000 then Some AuthenticationFailed
     else if c = 2001 then Some AuthenticationExpired
     else if c = 2002 then Some AuthenticationInvalid
     else if c = 2003 then Some AuthenticationRequired
     else if c = 2004 then Some PermissionDenied
     else if c = 2005 then Some TokenInvalid
     else if c = 2006 then Some TokenExpired
     else if c = 3000 then Some ProtocolError
     else if c = 3001 then Some ProtocolVersionMismatch
     else if c = 3002 then Some ProtocolNotSupported
     else if c = 3003 then Some MessageFormatError
     else if c = 3004 then Some MessageTooLarge
     else if c = 3005 then Some InvalidCommand
     else if c = 4000 then Some MessageSendFailed
     else if c = 4001 then Some MessageDeliveryFailed
     else if c = 4002 then Some MessageNotFound
     else if c = 4003 then Some MessageExpired
     else if c = 4004 then Some MessageRateLimitExceeded
     else if c = 4005 then Some MessageDecodeFailed
     else if c = 5000 then Some UserNotFound
     else if c = 5001 then Some UserOffline
     else if c = 5002 then Some UserBlocked
     else if c = 5003 then Some UserQuotaExceeded
     else if c = 5004 then Some UserSessionLimitExceeded
     else if c = 6000 then Some InternalError
     else if c = 6001 then Some ServiceUnavailable
     else if c = 6002 then Some ResourceExhausted
     else if c = 6003 then Some ConfigurationError
     else if c = 6004 then Some DatabaseError
     else if c = 7000 then Some NetworkError
     else if c = 7001 then Some NetworkTimeout
     else if c = 7002 then Some NetworkUnreachable
     else if c = 7003 then Some NetworkConnectionLost
     else if c = 8000 then Some SerializationError
     else if c = 8001 then Some DeserializationError
     else if c = 8002 then Some EncodingError
     else if c = 9000 then Some GeneralError
     else if c = 9001 then Some InvalidParameter
     else if c = 9002 then Some OperationNotSupported
     else if c = 9003 then Some OperationFailed
     else if c = 9004 then Some OperationTimeout
     else if c = 9005 then Some BadRequest
     else if c = 9101 then Some SyncCursorRegression
     else if c = 9999 then Some UnknownError
     else if c = 400 then Some HttpBadRequest
     else if c = 401 then Some HttpUnauthorized
     else if c = 403 then Some HttpForbidden
     else if c = 404 then Some HttpNotFound
     else if c = 405 then Some HttpMethodNotAllowed
     else if c = 408 then Some HttpRequestTimeout
     else if c = 409 then Some HttpConflict
     else if c = 422 then Some HttpUnprocessableEntity
     else if c = 429 then Some HttpTooManyRequests
     else if c = 500 then Some HttpInternalServerError
     else if c = 502 then Some HttpBadGateway
     else if c = 503 then Some HttpServiceUnavailable
     else if c = 504 then Some HttpGatewayTimeout
     else None)"

primrec code_str :: "error_code \<Rightarrow> string" where
  "code_str ConnectionFailed = ''CONNECTION_FAILED''"
| "code_str ConnectionTimeout = ''CONNECTION_TIMEOUT''"
| "code_str ConnectionClosed = ''CONNECTION_CLOSED''"
| "code_str ConnectionRefused = ''CONNECTION_REFUSED''"
| "code_str ConnectionLimitExceeded = ''CONNECTION_LIMIT_EXCEEDED''"
| "code_str NotConnected = ''NOT_CONNECTED''"
| "code_str ConnectionReconnecting = ''CONNECTION_RECONNECTING''"
| "code_str AuthenticationFailed = ''AUTHENTICATION_FAILED''"
| "code_str AuthenticationExpired = ''AUTHENTICATION_EXPIRED''"
| "code_str AuthenticationInvalid = ''AUTHENTICATION_INVALID''"
| "code_str AuthenticationRequired = ''AUTHENTICATION_REQUIRED''"
| "code_str PermissionDenied = ''PERMISSION_DENIED''"
| "code_str TokenInvalid = ''TOKEN_INVALID''"
| "code_str TokenExpired = ''TOKEN_EXPIRED''"
| "code_str ProtocolError = ''PROTOCOL_ERROR''"
| "code_str ProtocolVersionMismatch = ''PROTOCOL_VERSION_MISMATCH''"
| "code_str ProtocolNotSupported = ''PROTOCOL_NOT_SUPPORTED''"
| "code_str MessageFormatError = ''MESSAGE_FORMAT_ERROR''"
| "code_str MessageTooLarge = ''MESSAGE_TOO_LARGE''"
| "code_str InvalidCommand = ''INVALID_COMMAND''"
| "code_str MessageSendFailed = ''MESSAGE_SEND_FAILED''"
| "code_str MessageDeliveryFailed = ''MESSAGE_DELIVERY_FAILED''"
| "code_str MessageNotFound = ''MESSAGE_NOT_FOUND''"
| "code_str MessageExpired = ''MESSAGE_EXPIRED''"
| "code_str MessageRateLimitExceeded = ''MESSAGE_RATE_LIMIT_EXCEEDED''"
| "code_str MessageDecodeFailed = ''MESSAGE_DECODE_FAILED''"
| "code_str UserNotFound = ''USER_NOT_FOUND''"
| "code_str UserOffline = ''USER_OFFLINE''"
| "code_str UserBlocked = ''USER_BLOCKED''"
| "code_str UserQuotaExceeded = ''USER_QUOTA_EXCEEDED''"
| "code_str UserSessionLimitExceeded = ''USER_SESSION_LIMIT_EXCEEDED''"
| "code_str InternalError = ''INTERNAL_ERROR''"
| "code_str ServiceUnavailable = ''SERVICE_UNAVAILABLE''"
| "code_str ResourceExhausted = ''RESOURCE_EXHAUSTED''"
| "code_str ConfigurationError = ''CONFIGURATION_ERROR''"
| "code_str DatabaseError = ''DATABASE_ERROR''"
| "code_str NetworkError = ''NETWORK_ERROR''"
| "code_str NetworkTimeout = ''NETWORK_TIMEOUT''"
| "code_str NetworkUnreachable = ''NETWORK_UNREACHABLE''"
| "code_str NetworkConnectionLost = ''NETWORK_CONNECTION_LOST''"
| "code_str SerializationError = ''SERIALIZATION_ERROR''"
| "code_str DeserializationError = ''DESERIALIZATION_ERROR''"
| "code_str EncodingError = ''ENCODING_ERROR''"
| "code_str GeneralError = ''GENERAL_ERROR''"
| "code_str InvalidParameter = ''INVALID_PARAMETER''"
| "code_str OperationNotSupported = ''OPERATION_NOT_SUPPORTED''"
| "code_str OperationFailed = ''OPERATION_FAILED''"
| "code_str OperationTimeout = ''OPERATION_TIMEOUT''"
| "code_str BadRequest = ''BAD_REQUEST''"
| "code_str SyncCursorRegression = ''SYNC_CURSOR_REGRESSION''"
| "code_str UnknownError = ''UNKNOWN_ERROR''"
| "code_str HttpBadRequest = ''BAD_REQUEST''"
| "code_str HttpUnauthorized = ''UNAUTHORIZED''"
| "code_str HttpForbidden = ''FORBIDDEN''"
| "code_str HttpNotFound = ''NOT_FOUND''"
| "code_str HttpMethodNotAllowed = ''METHOD_NOT_ALLOWED''"
| "code_str HttpRequestTimeout = ''REQUEST_TIMEOUT''"
| "code_str HttpConflict = ''CONFLICT''"
| "code_str HttpUnprocessableEntity = ''UNPROCESSABLE_ENTITY''"
| "code_str HttpTooManyRequests = ''TOO_MANY_REQUESTS''"
| "code_str HttpInternalServerError = ''INTERNAL_SERVER_ERROR''"
| "code_str HttpBadGateway = ''BAD_GATEWAY''"
| "code_str HttpServiceUnavailable = ''SERVICE_UNAVAILABLE''"
| "code_str HttpGatewayTimeout = ''GATEWAY_TIMEOUT''"

datatype error_category =
    ConnectionCategory | AuthenticationCategory | ProtocolCategory | MessageCategory | UserCategory
  | SystemCategory | NetworkCategory | SerializationCategory | GeneralCategory

definition category :: "error_code \<Rightarrow> error_category" where
  "category c =
     (let code = as_u32 c
      in if 1000 \<le> code \<and> code \<le> 1999 then ConnectionCategory
         else if 2000 \<le> code \<and> code \<le> 2999 then AuthenticationCategory
         else if 3000 \<le> code \<and> code \<le> 3999 then ProtocolCategory
         else if 4000 \<le> code \<and> code \<le> 4999 then MessageCategory
         else if 5000 \<le> code \<and> code \<le> 5999 then UserCategory
         else if 6000 \<le> code \<and> code \<le> 6999 then SystemCategory
         else if 7000 \<le> code \<and> code \<le> 7999 then NetworkCategory
         else if 8000 \<le> code \<and> code \<le> 8999 then SerializationCategory
         else GeneralCategory)"

fun category_str :: "error_category \<Rightarrow> string" where
  "category_str ConnectionCategory = ''CONNECTION''"
| "category_str AuthenticationCategory = ''AUTHENTICATION''"
| "category_str ProtocolCategory = ''PROTOCOL''"
| "category_str MessageCategory = ''MESSAGE''"
| "category_str UserCategory = ''USER''"
| "category_str SystemCategory = ''SYSTEM''"
| "category_str NetworkCategory = ''NETWORK''"
| "category_str SerializationCategory = ''SERIALIZATION''"
| "category_str GeneralCategory = ''GENERAL''"

definition code_retryable :: "error_code \<Rightarrow> bool" where
  "code_retryable c \<longleftrightarrow> c \<in> {ConnectionTimeout, ConnectionClosed, NetworkTimeout,
     NetworkConnectionLost, ServiceUnavailable, ResourceExhausted}"

lemma from_u32_as_u32: "from_u32 (as_u32 c) = Some c"
  by (cases c) (simp_all add: from_u32_def)

lemma as_u32_from_u32: "from_u32 n = Some c \<Longrightarrow> as_u32 c = n"
  unfolding from_u32_def by (simp split: if_split_asm)

lemma as_u32_below: "as_u32 c < 10000"
  by (cases c) simp_all

text \<open>Only codes of the connection, network and system ranges are worth a retry.\<close>

lemma retryable_categories:
  "code_retryable c \<Longrightarrow> category c \<in> {ConnectionCategory, NetworkCategory, SystemCategory}"
  by (auto simp: code_retryable_def category_def)

text \<open>The codes of HTTP share two names with other codes, so a name does not determine a code.\<close>

lemma code_names_shared:
  "code_str BadRequest = code_str HttpBadRequest"
  "code_str ServiceUnavailable = code_str HttpServiceUnavailable"
  by simp_all

text \<open>
  Numbers and codes determine each other: reading a number gives a code exactly when it is
  the number of that code, so no two codes share a number and no unknown number is read as a code.
\<close>

theorem error_code_numbers: "from_u32 n = Some c \<longleftrightarrow> as_u32 c = n"
  using from_u32_as_u32 as_u32_from_u32 by blast

end
