(* ===== verification/Error_Values.thy ===== *)
theory Error_Values
  imports Context_Core Error_Codes
begin

text \<open>
  The errors of \<^verbatim>\<open>flare-core-base/src/error\<close>: the error value, its localised form and the builder
  (\<^verbatim>\<open>flare_error.rs\<close>, \<^verbatim>\<open>localized.rs\<close>, \<^verbatim>\<open>builder.rs\<close>), the conversions to and from a gRPC status and
  the protocol's error detail (\<^verbatim>\<open>grpc.rs\<close>, \<^verbatim>\<open>conversions.rs\<close>, \<^verbatim>\<open>proto.rs\<close>), and the helpers of
  \<^verbatim>\<open>mod.rs\<close>.

  The time of \<^verbatim>\<open>Utc::now()\<close> is an argument. An error of another library is known by its printed
  text, an argument too. The protobuf encoding of an error detail is a parameter. The texts in
  Chinese are written as the bytes of their encoding.
\<close>

definition utf8 :: "nat list \<Rightarrow> string" where
  "utf8 bs = map char_of bs"

section \<open>Error values\<close>

type_synonym timestamp = int
type_synonym error_params = "(string \<rightharpoonup> string) option"

record localized_error =
  le_code :: error_code
  le_reason :: string
  le_details :: "string option"
  le_params :: error_params
  le_timestamp :: timestamp

datatype flare_error =
    Localized error_code string "string option" error_params timestamp
  | SystemError string
  | IoError string

definition localized_new :: "timestamp \<Rightarrow> error_code \<Rightarrow> string \<Rightarrow> localized_error" where
  "localized_new now c rsn =
     \<lparr>le_code = c, le_reason = rsn, le_details = None, le_params = None, le_timestamp = now\<rparr>"

definition with_details :: "string \<Rightarrow> localized_error \<Rightarrow> localized_error" where
  "with_details d e = e\<lparr>le_details := Some d\<rparr>"

definition with_params :: "(string \<rightharpoonup> string) \<Rightarrow> localized_error \<Rightarrow> localized_error" where
  "with_params ps e = e\<lparr>le_params := Some ps\<rparr>"

text \<open>Setting one parameter, in a new map when there is none.\<close>

definition insert_param :: "string \<Rightarrow> string \<Rightarrow> error_params \<Rightarrow> error_params" where
  "insert_param k v ps = (case ps of None \<Rightarrow> Some [k \<mapsto> v] | Some m \<Rightarrow> Some (m(k \<mapsto> v)))"

definition with_param :: "string \<Rightarrow> string \<Rightarrow> localized_error \<Rightarrow> localized_error" where
  "with_param k v e = e\<lparr>le_params := insert_param k v (le_params e)\<rparr>"

definition code_value :: "localized_error \<Rightarrow> u32" where
  "code_value e = as_u32 (le_code e)"

definition localized_code_str :: "localized_error \<Rightarrow> string" where
  "localized_code_str e = code_str (le_code e)"

definition localized_category :: "localized_error \<Rightarrow> error_category" where
  "localized_category e = category (le_code e)"

definition localized_retryable :: "localized_error \<Rightarrow> bool" where
  "localized_retryable e = code_retryable (le_code e)"

definition show_localized :: "localized_error \<Rightarrow> string" where
  "show_localized e = code_str (le_code e) @ '': '' @ le_reason e"

text \<open>The conversion of \<^verbatim>\<open>From<LocalizedError>\<close>.\<close>

definition flare_of_localized :: "localized_error \<Rightarrow> flare_error" where
  "flare_of_localized e =
     Localized (le_code e) (le_reason e) (le_details e) (le_params e) (le_timestamp e)"

section \<open>The error type and its constructors\<close>

definition localized :: "timestamp \<Rightarrow> error_code \<Rightarrow> string \<Rightarrow> flare_error" where
  "localized now c rsn = Localized c rsn None None now"

definition system_error :: "string \<Rightarrow> flare_error" where
  "system_error msg = SystemError msg"

definition io_error :: "string \<Rightarrow> flare_error" where
  "io_error msg = IoError msg"

definition user_not_found :: "timestamp \<Rightarrow> string \<Rightarrow> flare_error" where
  "user_not_found now u =
     Localized UserNotFound (utf8 [231, 148, 168, 230, 136, 183, 228, 184, 141, 229, 173, 152, 229, 156, 168])
       None (Some [''user_id'' \<mapsto> u]) now"

definition user_offline :: "timestamp \<Rightarrow> string \<Rightarrow> flare_error" where
  "user_offline now u =
     Localized UserOffline (utf8 [231, 148, 168, 230, 136, 183, 231, 166, 187, 231, 186, 191])
       None (Some [''user_id'' \<mapsto> u]) now"

definition connection_failed :: "timestamp \<Rightarrow> string \<Rightarrow> flare_error" where
  "connection_failed now rsn = localized now ConnectionFailed rsn"

definition connection_timeout :: "timestamp \<Rightarrow> string \<Rightarrow> flare_error" where
  "connection_timeout now rsn = localized now ConnectionTimeout rsn"

definition connection_closed :: "timestamp \<Rightarrow> string \<Rightarrow> flare_error" where
  "connection_closed now rsn = localized now ConnectionClosed rsn"

definition authentication_failed :: "timestamp \<Rightarrow> string \<Rightarrow> flare_error" where
  "authentication_failed now rsn = localized now AuthenticationFailed rsn"

definition authentication_expired :: "timestamp \<Rightarrow> string \<Rightarrow> flare_error" where
  "authentication_expired now rsn = localized now AuthenticationExpired rsn"

definition protocol_error :: "timestamp \<Rightarrow> string \<Rightarrow> flare_error" where
  "protocol_error now rsn = localized now ProtocolError rsn"

definition message_format_error :: "timestamp \<Rightarrow> string \<Rightarrow> flare_error" where
  "message_format_error now rsn = localized now MessageFormatError rsn"

definition message_send_failed :: "timestamp \<Rightarrow> string \<Rightarrow> flare_error" where
  "message_send_failed now rsn = localized now MessageSendFailed rsn"

definition serialization_error :: "timestamp \<Rightarrow> string \<Rightarrow> flare_error" where
  "serialization_error now rsn = localized now SerializationError rsn"

definition deserialization_error :: "timestamp \<Rightarrow> string \<Rightarrow> flare_error" where
  "deserialization_error now rsn = localized now DeserializationError rsn"

definition encoding_error :: "timestamp \<Rightarrow> string \<Rightarrow> flare_error" where
  "encoding_error now rsn = localized now EncodingError rsn"

definition general_error :: "timestamp \<Rightarrow> string \<Rightarrow> flare_error" where
  "general_error now rsn = localized now GeneralError rsn"

definition timeout_error :: "timestamp \<Rightarrow> string \<Rightarrow> flare_error" where
  "timeout_error now rsn = localized now OperationTimeout rsn"

section \<open>Reading an error\<close>

text \<open>
  \<^verbatim>\<open>as_localized\<close> leaves internal errors out; \<^verbatim>\<open>to_localized\<close> (the method, and the function of
  \<^verbatim>\<open>proto.rs\<close>) gives them a code.
\<close>

fun as_localized :: "flare_error \<Rightarrow> localized_error option" where
  "as_localized (Localized c rsn d ps t) =
     Some \<lparr>le_code = c, le_reason = rsn, le_details = d, le_params = ps, le_timestamp = t\<rparr>"
| "as_localized (SystemError msg) = None"
| "as_localized (IoError msg) = None"

fun flare_code :: "flare_error \<Rightarrow> error_code option" where
  "flare_code (Localized c rsn d ps t) = Some c"
| "flare_code (SystemError msg) = None"
| "flare_code (IoError msg) = None"

fun flare_reason :: "flare_error \<Rightarrow> string" where
  "flare_reason (Localized c rsn d ps t) = rsn"
| "flare_reason (SystemError msg) = msg"
| "flare_reason (IoError msg) = msg"

fun to_localized :: "timestamp \<Rightarrow> flare_error \<Rightarrow> localized_error" where
  "to_localized now (Localized c rsn d ps t) =
     \<lparr>le_code = c, le_reason = rsn, le_details = d, le_params = ps, le_timestamp = t\<rparr>"
| "to_localized now (SystemError msg) = localized_new now InternalError msg"
| "to_localized now (IoError msg) = localized_new now NetworkError msg"

definition flare_retryable :: "flare_error \<Rightarrow> bool" where
  "flare_retryable e = (case map_option code_retryable (flare_code e) of Some b \<Rightarrow> b | None \<Rightarrow> False)"

fun show_flare_error :: "flare_error \<Rightarrow> string" where
  "show_flare_error (Localized c rsn d ps t) =
     utf8 [233, 148, 153, 232, 175, 175, 32, 91] @ code_str c @ ''] '' @ rsn"
| "show_flare_error (SystemError msg) =
     utf8 [231, 179, 187, 231, 187, 159, 233, 148, 153, 232, 175, 175, 58, 32] @ msg"
| "show_flare_error (IoError msg) = utf8 [73, 79, 32, 233, 148, 153, 232, 175, 175, 58, 32] @ msg"

section \<open>The builder and the helpers\<close>

record error_builder =
  eb_code :: error_code
  eb_reason :: string
  eb_details :: "string option"
  eb_params :: error_params

definition error_builder_new :: "error_code \<Rightarrow> string \<Rightarrow> error_builder" where
  "error_builder_new c rsn =
     \<lparr>eb_code = c, eb_reason = rsn, eb_details = None, eb_params = None\<rparr>"

definition builder_details :: "string \<Rightarrow> error_builder \<Rightarrow> error_builder" where
  "builder_details d b = b\<lparr>eb_details := Some d\<rparr>"

definition builder_param :: "string \<Rightarrow> string \<Rightarrow> error_builder \<Rightarrow> error_builder" where
  "builder_param k v b = b\<lparr>eb_params := insert_param k v (eb_params b)\<rparr>"

definition error_builder_build :: "timestamp \<Rightarrow> error_builder \<Rightarrow> localized_error" where
  "error_builder_build now b =
     \<lparr>le_code = eb_code b, le_reason = eb_reason b, le_details = eb_details b,
      le_params = eb_params b, le_timestamp = now\<rparr>"

definition build_error :: "timestamp \<Rightarrow> error_builder \<Rightarrow> flare_error" where
  "build_error now b =
     Localized (eb_code b) (eb_reason b) (eb_details b) (eb_params b) now"

text \<open>The three macros; the parameters of the last are set one after the other.\<close>

definition flare_err :: "timestamp \<Rightarrow> error_code \<Rightarrow> string \<Rightarrow> flare_error" where
  "flare_err now c rsn = build_error now (error_builder_new c rsn)"

definition flare_err_details :: "timestamp \<Rightarrow> error_code \<Rightarrow> string \<Rightarrow> string \<Rightarrow> flare_error" where
  "flare_err_details now c rsn d =
     build_error now (builder_details d (error_builder_new c rsn))"

definition flare_err_params ::
    "timestamp \<Rightarrow> error_code \<Rightarrow> string \<Rightarrow> string \<Rightarrow> (string \<times> string) list \<Rightarrow> flare_error" where
  "flare_err_params now c rsn d kvs =
     build_error now (fold (\<lambda>(k, v). builder_param k v) kvs
       (builder_details d (error_builder_new c rsn)))"

definition to_system_err :: "string \<Rightarrow> flare_error" where
  "to_system_err e = system_error (''Internal error: '' @ e)"

definition to_system_err_with :: "string \<Rightarrow> string \<Rightarrow> flare_error" where
  "to_system_err_with e ctxt = system_error (ctxt @ '': '' @ e)"

datatype context_error = ContextCancelled | ContextDeadlineExceeded

fun show_context_error :: "context_error \<Rightarrow> string" where
  "show_context_error ContextCancelled = ''context cancelled''"
| "show_context_error ContextDeadlineExceeded = ''context deadline exceeded''"

definition map_context_error :: "timestamp \<Rightarrow> context_error \<Rightarrow> flare_error" where
  "map_context_error now e =
     build_error now (builder_details (show_context_error e)
       (error_builder_new GeneralError ''context check failed''))"

definition require_user_id :: "timestamp \<Rightarrow> request_context \<Rightarrow> flare_error + string" where
  "require_user_id now c =
     (case user_id c of
        Some u \<Rightarrow> Inr u
      | None \<Rightarrow> Inl (build_error now (error_builder_new AuthenticationRequired ''user_id is required'')))"

definition map_infra_error :: "timestamp \<Rightarrow> string \<Rightarrow> error_code \<Rightarrow> string \<Rightarrow> flare_error" where
  "map_infra_error now err c msg =
     build_error now (builder_details err (error_builder_new c msg))"

text \<open>\<open>Inl\<close> of an \<^verbatim>\<open>InfraResult\<close> is the printed infrastructure error.\<close>

definition into_flare :: "timestamp \<Rightarrow> error_code \<Rightarrow> string \<Rightarrow> string + 'a \<Rightarrow> flare_error + 'a" where
  "into_flare now c msg r = map_sum (\<lambda>err. map_infra_error now err c msg) id r"

definition result_context :: "string \<Rightarrow> string + 'a \<Rightarrow> flare_error + 'a" where
  "result_context ctxt r = map_sum (\<lambda>err. system_error (ctxt @ '': '' @ err)) id r"

definition option_context :: "string \<Rightarrow> 'a option \<Rightarrow> flare_error + 'a" where
  "option_context ctxt o1 = (case o1 of Some x \<Rightarrow> Inr x | None \<Rightarrow> Inl (system_error ctxt))"

section \<open>Errors of other libraries\<close>

definition flare_of_io :: "string \<Rightarrow> flare_error" where
  "flare_of_io err = io_error err"

definition flare_of_json :: "timestamp \<Rightarrow> string \<Rightarrow> flare_error" where
  "flare_of_json now err =
     serialization_error now (utf8 [74, 83, 79, 78, 32, 229, 186, 143, 229, 136, 151, 229, 140, 150,
       233, 148, 153, 232, 175, 175, 58, 32] @ err)"

definition flare_of_transport :: "timestamp \<Rightarrow> string \<Rightarrow> flare_error" where
  "flare_of_transport now err = localized now NetworkError (''gRPC transport error: '' @ err)"

definition flare_of_encode :: "timestamp \<Rightarrow> string \<Rightarrow> flare_error" where
  "flare_of_encode now err = serialization_error now (''protobuf encode error: '' @ err)"

definition flare_of_decode :: "timestamp \<Rightarrow> string \<Rightarrow> flare_error" where
  "flare_of_decode now err = deserialization_error now (''protobuf decode error: '' @ err)"

definition flare_of_int :: "timestamp \<Rightarrow> string \<Rightarrow> flare_error" where
  "flare_of_int now err = localized now InvalidParameter (''integer conversion error: '' @ err)"

definition flare_of_anyhow :: "string \<Rightarrow> flare_error" where
  "flare_of_anyhow err = system_error err"

definition flare_of_redis :: "string \<Rightarrow> flare_error" where
  "flare_of_redis err = system_error (''Redis error: '' @ err)"

definition flare_of_sqlx :: "timestamp \<Rightarrow> string \<Rightarrow> flare_error" where
  "flare_of_sqlx now err = localized now DatabaseError (''database error: '' @ err)"

section \<open>The gRPC status and the error detail\<close>

text \<open>The status codes the code names; any other is known by its number.\<close>

datatype grpc_code =
    GrpcOk | GrpcUnknown | GrpcInvalidArgument | GrpcDeadlineExceeded | GrpcNotFound
  | GrpcAlreadyExists | GrpcPermissionDenied | GrpcResourceExhausted | GrpcFailedPrecondition
  | GrpcInternal | GrpcUnavailable | GrpcUnauthenticated | GrpcOther nat

record grpc_status =
  status_code :: grpc_code
  status_message :: string
  status_details :: string

definition status_new :: "grpc_code \<Rightarrow> string \<Rightarrow> grpc_status" where
  "status_new c msg = \<lparr>status_code = c, status_message = msg, status_details = []\<rparr>"

definition map_error_code_to_grpc :: "error_code \<Rightarrow> grpc_code" where
  "map_error_code_to_grpc c =
     (if c \<in> {AuthenticationFailed, AuthenticationExpired, AuthenticationInvalid,
              AuthenticationRequired, TokenInvalid, TokenExpired} then GrpcUnauthenticated
      else if c = PermissionDenied then GrpcPermissionDenied
      else if c \<in> {InvalidParameter, MessageFormatError, InvalidCommand} then GrpcInvalidArgument
      else if c \<in> {UserNotFound, MessageNotFound} then GrpcNotFound
      else if c \<in> {ResourceExhausted, ConnectionLimitExceeded, UserQuotaExceeded,
                   MessageRateLimitExceeded} then GrpcResourceExhausted
      else if c \<in> {ServiceUnavailable, NetworkError, NetworkUnreachable, NetworkConnectionLost}
        then GrpcUnavailable
      else if c \<in> {ConnectionTimeout, NetworkTimeout, OperationTimeout} then GrpcDeadlineExceeded
      else if c \<in> {InternalError, DatabaseError, ConfigurationError, SerializationError,
                   DeserializationError, EncodingError} then GrpcInternal
      else if c = SyncCursorRegression then GrpcFailedPrecondition
      else GrpcUnknown)"

text \<open>\<^verbatim>\<open>From<FlareError> for Status\<close> without the \<^verbatim>\<open>proto\<close> feature (the default).\<close>

fun flare_to_status :: "flare_error \<Rightarrow> grpc_status" where
  "flare_to_status (Localized c rsn d ps t) =
     (let msg = (case d of Some x \<Rightarrow> x | None \<Rightarrow> rsn) in status_new (map_error_code_to_grpc c) msg)"
| "flare_to_status (SystemError msg) = status_new GrpcInternal msg"
| "flare_to_status (IoError msg) = status_new GrpcUnavailable msg"

definition localized_to_status :: "localized_error \<Rightarrow> grpc_status" where
  "localized_to_status e = flare_to_status (flare_of_localized e)"

definition into_grpc :: "flare_error + 'a \<Rightarrow> grpc_status + 'a" where
  "into_grpc r = map_sum flare_to_status id r"

definition status_is_ok :: "grpc_status \<Rightarrow> bool" where
  "status_is_ok st \<longleftrightarrow> status_code st = GrpcOk"

definition status_is_err :: "grpc_status \<Rightarrow> bool" where
  "status_is_err st \<longleftrightarrow> status_code st \<noteq> GrpcOk"

text \<open>\<^verbatim>\<open>From<tonic::Status> for FlareError\<close>: the status code and the message, never the details.\<close>

definition code_of_grpc :: "grpc_code \<Rightarrow> error_code" where
  "code_of_grpc c =
     (case c of
        GrpcUnauthenticated \<Rightarrow> AuthenticationFailed
      | GrpcPermissionDenied \<Rightarrow> PermissionDenied
      | GrpcInvalidArgument \<Rightarrow> InvalidParameter
      | GrpcNotFound \<Rightarrow> UserNotFound
      | GrpcAlreadyExists \<Rightarrow> GeneralError
      | GrpcResourceExhausted \<Rightarrow> ResourceExhausted
      | GrpcInternal \<Rightarrow> InternalError
      | GrpcUnavailable \<Rightarrow> ServiceUnavailable
      | GrpcDeadlineExceeded \<Rightarrow> OperationTimeout
      | _ \<Rightarrow> UnknownError)"

definition status_to_flare :: "timestamp \<Rightarrow> grpc_status \<Rightarrow> flare_error" where
  "status_to_flare now st = localized now (code_of_grpc (status_code st)) (status_message st)"

record error_detail =
  detail_code :: int
  detail_reason :: string
  detail_message :: string
  detail_track :: string

definition ok_error_detail :: "string \<Rightarrow> error_detail" where
  "ok_error_detail track =
     \<lparr>detail_code = 0, detail_reason = ''OK'', detail_message = [], detail_track = track\<rparr>"

text \<open>The cast of a code's number to an \<^verbatim>\<open>i32\<close> reads the word as a signed number.\<close>

fun to_error_detail :: "flare_error \<Rightarrow> string \<Rightarrow> error_detail" where
  "to_error_detail (Localized c rsn d ps t) track =
     \<lparr>detail_code = sint (as_u32 c), detail_reason = rsn,
      detail_message = (case d of Some x \<Rightarrow> x | None \<Rightarrow> []), detail_track = track\<rparr>"
| "to_error_detail (SystemError msg) track =
     \<lparr>detail_code = sint (as_u32 InternalError), detail_reason = ''internal'',
      detail_message = msg, detail_track = track\<rparr>"
| "to_error_detail (IoError msg) track =
     \<lparr>detail_code = sint (as_u32 NetworkError), detail_reason = ''network'',
      detail_message = msg, detail_track = track\<rparr>"

definition from_error_detail :: "timestamp \<Rightarrow> error_detail \<Rightarrow> flare_error" where
  "from_error_detail now d =
     (let c = (case from_u32 (word_of_int (max (detail_code d) 0)) of
                 Some c \<Rightarrow> c | None \<Rightarrow> GeneralError)
      in Localized c (detail_reason d)
           (if detail_message d = [] then None else Some (detail_message d)) None now)"

text \<open>The protobuf encoder and decoder of a detail are parameters.\<close>

definition build_status :: "(error_detail \<Rightarrow> string) \<Rightarrow> grpc_code \<Rightarrow> error_detail \<Rightarrow> grpc_status" where
  "build_status encode c d =
     (let msg = (if detail_message d = [] then detail_reason d else detail_message d)
      in \<lparr>status_code = c, status_message = msg, status_details = encode d\<rparr>)"

definition decode_error_detail ::
    "(string \<Rightarrow> error_detail option) \<Rightarrow> grpc_status \<Rightarrow> error_detail option" where
  "decode_error_detail decode st = decode (status_details st)"

definition has_error_detail :: "(string \<Rightarrow> error_detail option) \<Rightarrow> grpc_status \<Rightarrow> bool" where
  "has_error_detail decode st \<longleftrightarrow> decode_error_detail decode st \<noteq> None"

text \<open>\<^verbatim>\<open>From<FlareError> for Status\<close> with the \<^verbatim>\<open>proto\<close> feature.\<close>

definition flare_to_status_proto :: "(error_detail \<Rightarrow> string) \<Rightarrow> flare_error \<Rightarrow> grpc_status" where
  "flare_to_status_proto encode e =
     (let c = (case e of
          Localized c _ _ _ _ \<Rightarrow> map_error_code_to_grpc c
        | SystemError _ \<Rightarrow> GrpcInternal
        | IoError _ \<Rightarrow> GrpcUnavailable)
      in build_status encode c (to_error_detail e []))"

text \<open>The macros that build a status; \<open>proto\<close> says whether the feature is on.\<close>

definition grpc_err ::
    "bool \<Rightarrow> (error_detail \<Rightarrow> string) \<Rightarrow> grpc_code \<Rightarrow> int \<Rightarrow> string \<Rightarrow> string \<Rightarrow> string \<Rightarrow> grpc_status" where
  "grpc_err proto encode c biz_code rsn message track =
     (if proto then
        build_status encode c
          \<lparr>detail_code = biz_code, detail_reason = rsn, detail_message = message, detail_track = track\<rparr>
      else status_new c message)"

definition grpc_invalid_argument ::
    "bool \<Rightarrow> (error_detail \<Rightarrow> string) \<Rightarrow> int \<Rightarrow> string \<Rightarrow> string \<Rightarrow> grpc_status" where
  "grpc_invalid_argument proto encode biz_code rsn message =
     grpc_err proto encode GrpcInvalidArgument biz_code rsn message []"

definition grpc_unauthenticated ::
    "bool \<Rightarrow> (error_detail \<Rightarrow> string) \<Rightarrow> int \<Rightarrow> string \<Rightarrow> string \<Rightarrow> grpc_status" where
  "grpc_unauthenticated proto encode biz_code rsn message =
     grpc_err proto encode GrpcUnauthenticated biz_code rsn message []"

definition grpc_permission_denied ::
    "bool \<Rightarrow> (error_detail \<Rightarrow> string) \<Rightarrow> int \<Rightarrow> string \<Rightarrow> string \<Rightarrow> grpc_status" where
  "grpc_permission_denied proto encode biz_code rsn message =
     grpc_err proto encode GrpcPermissionDenied biz_code rsn message []"

definition grpc_not_found ::
    "bool \<Rightarrow> (error_detail \<Rightarrow> string) \<Rightarrow> int \<Rightarrow> string \<Rightarrow> string \<Rightarrow> grpc_status" where
  "grpc_not_found proto encode biz_code rsn message =
     grpc_err proto encode GrpcNotFound biz_code rsn message []"

definition grpc_internal ::
    "bool \<Rightarrow> (error_detail \<Rightarrow> string) \<Rightarrow> int \<Rightarrow> string \<Rightarrow> string \<Rightarrow> grpc_status" where
  "grpc_internal proto encode biz_code rsn message =
     grpc_err proto encode GrpcInternal biz_code rsn message []"

section \<open>Properties\<close>

lemma flare_to_status_code:
  "status_code (flare_to_status e) = status_code (flare_to_status_proto enc e)"
  by (cases e) (simp_all add: flare_to_status_proto_def build_status_def status_new_def Let_def)

lemma code_of_status:
  "flare_code (status_to_flare now st) = Some (code_of_grpc (status_code st))"
  by (simp add: status_to_flare_def localized_def)

lemma sint_as_u32: "sint (as_u32 c) = int (unat (as_u32 c))"
  by (cases c) simp_all

lemma word_of_detail_code: "word_of_int (max (sint (as_u32 c)) 0) = as_u32 c"
  by (cases c) simp_all

lemma code_of_map: "code_of_grpc (map_error_code_to_grpc c) =
  (if c \<in> {AuthenticationFailed, AuthenticationExpired, AuthenticationInvalid, AuthenticationRequired,
           TokenInvalid, TokenExpired} then AuthenticationFailed
   else if c = PermissionDenied then PermissionDenied
   else if c \<in> {InvalidParameter, MessageFormatError, InvalidCommand} then InvalidParameter
   else if c \<in> {UserNotFound, MessageNotFound} then UserNotFound
   else if c \<in> {ResourceExhausted, ConnectionLimitExceeded, UserQuotaExceeded,
                MessageRateLimitExceeded} then ResourceExhausted
   else if c \<in> {ServiceUnavailable, NetworkError, NetworkUnreachable, NetworkConnectionLost}
     then ServiceUnavailable
   else if c \<in> {ConnectionTimeout, NetworkTimeout, OperationTimeout} then OperationTimeout
   else if c \<in> {InternalError, DatabaseError, ConfigurationError, SerializationError,
                DeserializationError, EncodingError} then InternalError
   else UnknownError)"
  by (simp add: map_error_code_to_grpc_def code_of_grpc_def)

lemma retryable_of_map:
  "code_retryable (code_of_grpc (map_error_code_to_grpc c)) \<longleftrightarrow>
     c \<in> {ServiceUnavailable, NetworkConnectionLost, ResourceExhausted, NetworkError,
       NetworkUnreachable, ConnectionLimitExceeded, UserQuotaExceeded, MessageRateLimitExceeded}"
  unfolding code_of_map code_retryable_def by (cases c) simp_all

lemma map_code_stable:
  "g \<noteq> GrpcAlreadyExists \<Longrightarrow> code_of_grpc (map_error_code_to_grpc (code_of_grpc g)) = code_of_grpc g"
  by (cases g) (simp_all add: code_of_grpc_def map_error_code_to_grpc_def)

lemma status_never_exists: "status_code (flare_to_status e) \<noteq> GrpcAlreadyExists"
  by (cases e) (auto simp: status_new_def map_error_code_to_grpc_def)

text \<open>
  After a crossing of gRPC an error is worth a retry exactly when it was an input/output
  error or its code is one of eight: the timeouts and the closed connection, retryable on the side
  that raised them, no longer are, while three exceeded limits and two network failures become
  retryable. A second crossing changes nothing more. The same holds for both forms of the status.
\<close>

theorem retry_after_grpc:
  "let e1 = status_to_flare now (flare_to_status e);
       e2 = status_to_flare now (flare_to_status_proto encode e)
   in flare_code e2 = flare_code e1
    \<and> flare_code (status_to_flare now (flare_to_status e1)) = flare_code e1
    \<and> flare_retryable e1 = (case e of
        Localized c _ _ _ _ \<Rightarrow> c \<in> {ServiceUnavailable, NetworkConnectionLost, ResourceExhausted,
          NetworkError, NetworkUnreachable, ConnectionLimitExceeded, UserQuotaExceeded,
          MessageRateLimitExceeded}
      | SystemError _ \<Rightarrow> False
      | IoError _ \<Rightarrow> True)"
proof -
  have "flare_code (status_to_flare now (flare_to_status (status_to_flare now (flare_to_status e))))
      = flare_code (status_to_flare now (flare_to_status e))"
    using map_code_stable [OF status_never_exists [of e]]
    by (simp add: code_of_status) (simp add: status_to_flare_def localized_def status_new_def)
  moreover have "flare_retryable (status_to_flare now (flare_to_status e))
      \<longleftrightarrow> code_retryable (code_of_grpc (status_code (flare_to_status e)))"
    by (simp add: flare_retryable_def code_of_status)
  moreover have "code_retryable (code_of_grpc (status_code (flare_to_status e))) = (case e of
        Localized c _ _ _ _ \<Rightarrow> c \<in> {ServiceUnavailable, NetworkConnectionLost, ResourceExhausted,
          NetworkError, NetworkUnreachable, ConnectionLimitExceeded, UserQuotaExceeded,
          MessageRateLimitExceeded}
      | SystemError _ \<Rightarrow> False
      | IoError _ \<Rightarrow> True)"
    by (cases e) (simp_all only: flare_to_status.simps Let_def status_new_def grpc_status.select_convs
        retryable_of_map flare_error.case, simp_all add: code_of_grpc_def code_retryable_def)
  ultimately show ?thesis by (simp add: Let_def code_of_status flip: flare_to_status_code [of e encode])
qed

text \<open>
  With structured details an error arrives with its own code, reason and details, whatever
  its kind: decoding the status gives the error detail, and reading that gives the error back, without
  its parameters and its time (and without details that are the empty text).
\<close>

theorem error_detail_roundtrip:
  assumes "\<forall>d. decode (encode d) = Some d"
  shows "decode_error_detail decode (flare_to_status_proto encode e) = Some (to_error_detail e [])
    \<and> from_error_detail now (to_error_detail e track) = (case e of
        Localized c rsn d ps t \<Rightarrow> Localized c rsn (if d = Some [] then None else d) None now
      | SystemError msg \<Rightarrow>
          Localized InternalError ''internal'' (if msg = [] then None else Some msg) None now
      | IoError msg \<Rightarrow>
          Localized NetworkError ''network'' (if msg = [] then None else Some msg) None now)"
proof -
  have "decode_error_detail decode (flare_to_status_proto encode e) = Some (to_error_detail e [])"
    using assms by (simp add: decode_error_detail_def flare_to_status_proto_def build_status_def Let_def)
  moreover have "from_u32 (word_of_int (max (sint (as_u32 c)) 0)) = Some c" for c
    by (simp only: word_of_detail_code from_u32_as_u32)
  ultimately show ?thesis
    by (cases e) (auto simp: from_error_detail_def simp del: as_u32.simps split: option.splits)
qed

text \<open>An encoding of details for the witness: four texts with their lengths.\<close>

definition plain_encode :: "error_detail \<Rightarrow> string" where
  "plain_encode d = encode_text (unary_int (detail_code d)) @ encode_text (detail_reason d)
     @ encode_text (detail_message d) @ encode_text (detail_track d)"

definition plain_decode :: "string \<Rightarrow> error_detail option" where
  "plain_decode b =
     (let (c, b1) = decode_text b; (r, b2) = decode_text b1; (m, b3) = decode_text b2;
          (t, b4) = decode_text b3
      in Some \<lparr>detail_code = int_of_unary c, detail_reason = r, detail_message = m, detail_track = t\<rparr>)"

lemma plain_decode_encode: "\<forall>d. plain_decode (plain_encode d) = Some d"
  by (simp add: plain_decode_def plain_encode_def)

theorem error_detail_roundtrip_witness:
  "decode_error_detail plain_decode
       (flare_to_status_proto plain_encode (flare_err_details 0 ConnectionTimeout ''slow'' ''peer''))
     = Some (to_error_detail (flare_err_details 0 ConnectionTimeout ''slow'' ''peer'') [])
   \<and> from_error_detail 7 (to_error_detail (flare_err_details 0 ConnectionTimeout ''slow'' ''peer'') ''t'')
     = Localized ConnectionTimeout ''slow'' (Some ''peer'') None 7"
  using error_detail_roundtrip [OF plain_decode_encode,
      of "flare_err_details 0 ConnectionTimeout ''slow'' ''peer''" 7 "''t''"]
  by (simp add: flare_err_details_def build_error_def builder_details_def error_builder_new_def
      del: to_error_detail.simps)

end
