(* ===== verification/Auth_Store.thy ===== *)
theory Auth_Store
  imports Prelude
begin

text \<open>
  The token store of \<^verbatim>\<open>flare-core-infra/src/auth/store\<close>: registration and revocation of tokens in
  Redis.

  The Redis server is a parameter: a function from a command, the time in milliseconds and the data
  base to the reply, or an error, and the new data base. What Redis documents of the commands used
  is \<open>redis_after\<close> and \<open>redis_reply_ok\<close>; the hypothesis \<open>redis_documented\<close> says that a command that
  returns has done that, and that a command that failed has done that or nothing (the connection may
  be lost after the command has reached the server). The commands of one operation happen at one
  time.
\<close>

section \<open>The server\<close>

datatype redis_value = RedisText string | RedisSet "string list"

record redis_entry =
  redis_val :: redis_value
  redis_exp :: "nat option"

type_synonym redis_db = "string \<rightharpoonup> redis_entry"

datatype redis_cmd =
    GetConnection
  | SetEx string string nat
  | Sadd string string
  | Expire string int
  | Del string
  | Srem string string
  | Smembers string
  | ExistsKey string

datatype redis_reply = ReplyUnit | ReplyBool bool | ReplyMembers "string list"

type_synonym redis_server = "redis_cmd \<Rightarrow> nat \<Rightarrow> redis_db \<Rightarrow> (string + redis_reply) \<times> redis_db"

definition redis_live :: "nat \<Rightarrow> redis_db \<Rightarrow> string \<Rightarrow> redis_entry option" where
  "redis_live t db k =
     (case db k of
        None \<Rightarrow> None
      | Some e \<Rightarrow> (case redis_exp e of
                    None \<Rightarrow> Some e
                  | Some x \<Rightarrow> if t < x then Some e else None))"

definition redis_members :: "nat \<Rightarrow> redis_db \<Rightarrow> string \<Rightarrow> string list" where
  "redis_members t db k =
     (case redis_live t db k of
        Some e \<Rightarrow> (case redis_val e of RedisSet xs \<Rightarrow> xs | RedisText _ \<Rightarrow> [])
      | None \<Rightarrow> [])"

fun redis_after :: "redis_cmd \<Rightarrow> nat \<Rightarrow> redis_db \<Rightarrow> redis_db" where
  "redis_after GetConnection t db = db"
| "redis_after (SetEx k v ttl) t db =
     db(k \<mapsto> \<lparr>redis_val = RedisText v, redis_exp = Some (t + 1000 * ttl)\<rparr>)"
| "redis_after (Sadd k x) t db =
     (case redis_live t db k of
        None \<Rightarrow> db(k \<mapsto> \<lparr>redis_val = RedisSet [x], redis_exp = None\<rparr>)
      | Some e \<Rightarrow> (case redis_val e of
                    RedisSet xs \<Rightarrow> db(k \<mapsto> e\<lparr>redis_val := RedisSet (List.insert x xs)\<rparr>)
                  | RedisText _ \<Rightarrow> db))"
| "redis_after (Expire k n) t db =
     (case redis_live t db k of
        None \<Rightarrow> db
      | Some e \<Rightarrow> if n \<le> 0 then db(k := None)
                 else db(k \<mapsto> e\<lparr>redis_exp := Some (t + 1000 * nat n)\<rparr>))"
| "redis_after (Del k) t db = db(k := None)"
| "redis_after (Srem k x) t db =
     (case redis_live t db k of
        None \<Rightarrow> db
      | Some e \<Rightarrow> (case redis_val e of
                    RedisSet xs \<Rightarrow>
                      (let ys = removeAll x xs
                       in if ys = [] then db(k := None) else db(k \<mapsto> e\<lparr>redis_val := RedisSet ys\<rparr>))
                  | RedisText _ \<Rightarrow> db))"
| "redis_after (Smembers k) t db = db"
| "redis_after (ExistsKey k) t db = db"

text \<open>A set command on a text is an error, so it has no reply.\<close>

definition redis_is_text :: "nat \<Rightarrow> redis_db \<Rightarrow> string \<Rightarrow> bool" where
  "redis_is_text t db k \<longleftrightarrow>
     (case redis_live t db k of
        Some e \<Rightarrow> (case redis_val e of RedisText _ \<Rightarrow> True | RedisSet _ \<Rightarrow> False)
      | None \<Rightarrow> False)"

definition redis_reply_ok :: "redis_cmd \<Rightarrow> nat \<Rightarrow> redis_db \<Rightarrow> redis_reply \<Rightarrow> bool" where
  "redis_reply_ok cmd t db r =
     (case cmd of
        Smembers k \<Rightarrow> \<not> redis_is_text t db k
          \<and> (case r of ReplyMembers xs \<Rightarrow> set xs = set (redis_members t db k) | _ \<Rightarrow> False)
      | Sadd k x \<Rightarrow> \<not> redis_is_text t db k
      | Srem k x \<Rightarrow> \<not> redis_is_text t db k
      | ExistsKey k \<Rightarrow> (case r of ReplyBool b \<Rightarrow> b \<longleftrightarrow> redis_live t db k \<noteq> None | _ \<Rightarrow> False)
      | _ \<Rightarrow> True)"

definition redis_documented :: "redis_server \<Rightarrow> bool" where
  "redis_documented srv \<longleftrightarrow> (\<forall>cmd t db.
     (case srv cmd t db of
        (Inr r, db') \<Rightarrow> db' = redis_after cmd t db \<and> redis_reply_ok cmd t db r
      | (Inl err, db') \<Rightarrow> db' \<in> {db, redis_after cmd t db}))"

section \<open>The store\<close>

type_synonym 'a redis_result = "(string + 'a) \<times> redis_db"

definition redis_call ::
    "redis_server \<Rightarrow> string \<Rightarrow> redis_cmd \<Rightarrow> nat \<Rightarrow> redis_db \<Rightarrow> redis_reply redis_result" where
  "redis_call srv msg cmd t db =
     (case srv cmd t db of
        (Inl err, db') \<Rightarrow> (Inl (msg @ '': '' @ err), db')
      | (Inr r, db') \<Rightarrow> (Inr r, db'))"

definition redis_then ::
    "'a redis_result \<Rightarrow> ('a \<Rightarrow> redis_db \<Rightarrow> 'b redis_result) \<Rightarrow> 'b redis_result" where
  "redis_then r f = (case r of (Inl err, db) \<Rightarrow> (Inl err, db) | (Inr x, db) \<Rightarrow> f x db)"

definition active_key :: "string \<Rightarrow> string \<Rightarrow> string" where
  "active_key ns jti = ns @ '':token:active:'' @ jti"

definition revoked_key :: "string \<Rightarrow> string \<Rightarrow> string" where
  "revoked_key ns jti = ns @ '':token:revoked:'' @ jti"

definition user_set_key :: "string \<Rightarrow> string \<Rightarrow> string" where
  "user_set_key ns user = ns @ '':token:user:'' @ user"

definition DEFAULT_NAMESPACE :: string where
  "DEFAULT_NAMESPACE = ''flare''"

text \<open>The namespace of a store, or the error of a URL that the client does not accept.\<close>

definition redis_store_with_namespace ::
    "(string \<Rightarrow> string option) \<Rightarrow> string \<Rightarrow> string \<Rightarrow> string + string" where
  "redis_store_with_namespace open_error url ns =
     (case open_error url of
        Some err \<Rightarrow> Inl (''failed to open redis client: '' @ err)
      | None \<Rightarrow> Inr ns)"

definition redis_store_new :: "(string \<Rightarrow> string option) \<Rightarrow> string \<Rightarrow> string + string" where
  "redis_store_new open_error url =
     (case open_error url of
        Some err \<Rightarrow> Inl (''failed to open redis client: '' @ err)
      | None \<Rightarrow> Inr DEFAULT_NAMESPACE)"

text \<open>The cast of a \<^verbatim>\<open>u64\<close> to an \<^verbatim>\<open>i64\<close>.\<close>

definition i64_of_u64 :: "nat \<Rightarrow> int" where
  "i64_of_u64 n = (if n < 2 ^ 63 then int n else int n - 2 ^ 64)"

definition register ::
    "redis_server \<Rightarrow> string \<Rightarrow> string \<Rightarrow> string \<Rightarrow> nat \<Rightarrow> nat \<Rightarrow> redis_db \<Rightarrow> unit redis_result" where
  "register srv ns user jti ttl t db =
     (let ttl_secs = max ttl 1; user_key = user_set_key ns user
      in redis_then (redis_call srv ''failed to get redis connection'' GetConnection t db) (\<lambda>_ db.
         redis_then (redis_call srv ''failed to write redis key''
                       (SetEx (active_key ns jti) ''1'' ttl_secs) t db) (\<lambda>_ db.
         redis_then (redis_call srv ''failed to add token to user set'' (Sadd user_key jti) t db) (\<lambda>_ db.
         redis_then (redis_call srv ''failed to set user set ttl''
                       (Expire user_key (i64_of_u64 ttl_secs)) t db) (\<lambda>_ db.
         (Inr (), db))))))"

definition revoke ::
    "redis_server \<Rightarrow> string \<Rightarrow> string \<Rightarrow> string \<Rightarrow> nat \<Rightarrow> nat \<Rightarrow> redis_db \<Rightarrow> unit redis_result" where
  "revoke srv ns user jti ttl t db =
     (let ttl_secs = max ttl 1; user_key = user_set_key ns user
      in redis_then (redis_call srv ''failed to get redis connection'' GetConnection t db) (\<lambda>_ db.
         redis_then (redis_call srv ''failed to delete active token key'' (Del (active_key ns jti)) t db) (\<lambda>_ db.
         redis_then (redis_call srv ''failed to remove token from user set'' (Srem user_key jti) t db) (\<lambda>_ db.
         redis_then (redis_call srv ''failed to set revoked key''
                       (SetEx (revoked_key ns jti) ''1'' ttl_secs) t db) (\<lambda>_ db.
         (Inr (), db))))))"

fun revoke_tokens ::
    "redis_server \<Rightarrow> string \<Rightarrow> string list \<Rightarrow> nat \<Rightarrow> nat \<Rightarrow> redis_db \<Rightarrow> unit redis_result" where
  "revoke_tokens srv ns [] ttl_secs t db = (Inr (), db)"
| "revoke_tokens srv ns (jti # jtis) ttl_secs t db =
     redis_then (redis_call srv ''failed to delete active token key'' (Del (active_key ns jti)) t db) (\<lambda>_ db.
     redis_then (redis_call srv ''failed to set revoked key''
                   (SetEx (revoked_key ns jti) ''1'' ttl_secs) t db) (\<lambda>_ db.
     revoke_tokens srv ns jtis ttl_secs t db))"

definition revoke_user ::
    "redis_server \<Rightarrow> string \<Rightarrow> string \<Rightarrow> nat \<Rightarrow> nat \<Rightarrow> redis_db \<Rightarrow> unit redis_result" where
  "revoke_user srv ns user ttl t db =
     (let ttl_secs = max ttl 1; user_key = user_set_key ns user
      in redis_then (redis_call srv ''failed to get redis connection'' GetConnection t db) (\<lambda>_ db.
         redis_then (redis_call srv ''failed to fetch user token set'' (Smembers user_key) t db) (\<lambda>r db.
         (case r of
            ReplyMembers tokens \<Rightarrow>
              redis_then (revoke_tokens srv ns tokens ttl_secs t db) (\<lambda>_ db.
              redis_then (redis_call srv ''failed to delete user token set'' (Del user_key) t db) (\<lambda>_ db.
              (Inr (), db)))
          | _ \<Rightarrow> (Inl ''failed to fetch user token set'', db)))))"

definition is_revoked ::
    "redis_server \<Rightarrow> string \<Rightarrow> string \<Rightarrow> nat \<Rightarrow> redis_db \<Rightarrow> bool redis_result" where
  "is_revoked srv ns jti t db =
     redis_then (redis_call srv ''failed to get redis connection'' GetConnection t db) (\<lambda>_ db.
     redis_then (redis_call srv ''failed to check revoked key'' (ExistsKey (revoked_key ns jti)) t db) (\<lambda>r db.
     (case r of ReplyBool b \<Rightarrow> (Inr b, db) | _ \<Rightarrow> (Inl ''failed to check revoked key'', db))))"

text \<open>The operations of the trait as events, each at its time, with its result.\<close>

datatype store_op = RegisterOp string string | RevokeOp string string | RevokeUserOp string

definition store_step ::
    "redis_server \<Rightarrow> string \<Rightarrow> nat \<Rightarrow> store_op \<Rightarrow> nat \<Rightarrow> redis_db \<Rightarrow> unit redis_result" where
  "store_step srv ns ttl ev t db =
     (case ev of
        RegisterOp user jti \<Rightarrow> register srv ns user jti ttl t db
      | RevokeOp user jti \<Rightarrow> revoke srv ns user jti ttl t db
      | RevokeUserOp user \<Rightarrow> revoke_user srv ns user ttl t db)"

fun store_run ::
    "redis_server \<Rightarrow> string \<Rightarrow> nat \<Rightarrow> (nat \<times> store_op) list \<Rightarrow> redis_db
     \<Rightarrow> (string + unit) list \<times> redis_db" where
  "store_run srv ns ttl [] db = ([], db)"
| "store_run srv ns ttl ((t, ev) # evs) db =
     (case store_step srv ns ttl ev t db of
        (r, db1) \<Rightarrow> (case store_run srv ns ttl evs db1 of (rs, db2) \<Rightarrow> (r # rs, db2)))"

section \<open>What every operation keeps\<close>

lemma redis_keys_distinct [simp]:
  "active_key ns a = active_key ns b \<longleftrightarrow> a = b"
  "revoked_key ns a = revoked_key ns b \<longleftrightarrow> a = b"
  "user_set_key ns a = user_set_key ns b \<longleftrightarrow> a = b"
  "active_key ns a \<noteq> revoked_key ns b" "revoked_key ns b \<noteq> active_key ns a"
  "active_key ns a \<noteq> user_set_key ns b" "user_set_key ns b \<noteq> active_key ns a"
  "revoked_key ns a \<noteq> user_set_key ns b" "user_set_key ns b \<noteq> revoked_key ns a"
  by (simp_all add: active_key_def revoked_key_def user_set_key_def)

lemma redis_call_Inr:
  assumes "redis_documented srv" "redis_call srv msg cmd t db = (Inr r, db')"
  shows "db' = redis_after cmd t db \<and> redis_reply_ok cmd t db r"
proof -
  have "case srv cmd t db of
        (Inr r, db') \<Rightarrow> db' = redis_after cmd t db \<and> redis_reply_ok cmd t db r
      | (Inl err, db') \<Rightarrow> db' \<in> {db, redis_after cmd t db}"
    by (rule assms(1) [unfolded redis_documented_def, rule_format])
  with assms(2) show ?thesis by (auto simp: redis_call_def split: sum.splits prod.splits)
qed

lemma redis_call_keeps:
  assumes "redis_documented srv" "P db" "P (redis_after cmd t db)"
  shows "P (snd (redis_call srv msg cmd t db))"
proof -
  have "case srv cmd t db of
        (Inr r, db') \<Rightarrow> db' = redis_after cmd t db \<and> redis_reply_ok cmd t db r
      | (Inl err, db') \<Rightarrow> db' \<in> {db, redis_after cmd t db}"
    by (rule assms(1) [unfolded redis_documented_def, rule_format])
  with assms(2, 3) show ?thesis by (auto simp: redis_call_def split: sum.splits prod.splits)
qed

lemma redis_then_Inr:
  "redis_then r f = (Inr y, db') \<longleftrightarrow> (\<exists>x db1. r = (Inr x, db1) \<and> f x db1 = (Inr y, db'))"
  by (auto simp: redis_then_def split: sum.splits prod.splits)

lemma redis_then_keeps:
  assumes "P (snd r)" and "\<And>x db. r = (Inr x, db) \<Longrightarrow> P db \<Longrightarrow> P (snd (f x db))"
  shows "P (snd (redis_then r f))"
  using assms by (auto simp: redis_then_def split: sum.splits prod.splits)

text \<open>The record of a revocation with an end not before \<open>until\<close>, and the listing of a token for its
  user with an end not before \<open>until\<close>.\<close>

definition revoked_until :: "string \<Rightarrow> string \<Rightarrow> nat \<Rightarrow> redis_db \<Rightarrow> bool" where
  "revoked_until ns jti until db \<longleftrightarrow>
     (\<exists>e x. db (revoked_key ns jti) = Some e \<and> redis_exp e = Some x \<and> until \<le> x)"

definition listed_until :: "string \<Rightarrow> string \<Rightarrow> string \<Rightarrow> nat \<Rightarrow> redis_db \<Rightarrow> bool" where
  "listed_until ns user jti until db \<longleftrightarrow>
     (\<exists>e xs. db (user_set_key ns user) = Some e \<and> redis_val e = RedisSet xs \<and> jti \<in> set xs
        \<and> (case redis_exp e of None \<Rightarrow> True | Some x \<Rightarrow> until \<le> x))"

text \<open>The commands that shorten no record of the revocation, and those that shorten no listing.\<close>

definition keeps_revocation :: "string \<Rightarrow> string \<Rightarrow> nat \<Rightarrow> nat \<Rightarrow> redis_cmd \<Rightarrow> bool" where
  "keeps_revocation ns jti until t cmd \<longleftrightarrow>
     (case cmd of
        SetEx k v n \<Rightarrow> k = revoked_key ns jti \<longrightarrow> until \<le> t + 1000 * n
      | Sadd k x \<Rightarrow> k \<noteq> revoked_key ns jti
      | Expire k n \<Rightarrow> k \<noteq> revoked_key ns jti
      | Del k \<Rightarrow> k \<noteq> revoked_key ns jti
      | Srem k x \<Rightarrow> k \<noteq> revoked_key ns jti
      | _ \<Rightarrow> True)"

definition keeps_listing :: "string \<Rightarrow> string \<Rightarrow> string \<Rightarrow> nat \<Rightarrow> nat \<Rightarrow> redis_cmd \<Rightarrow> bool" where
  "keeps_listing ns user jti until t cmd \<longleftrightarrow>
     (case cmd of
        SetEx k v n \<Rightarrow> k \<noteq> user_set_key ns user
      | Expire k n \<Rightarrow> k = user_set_key ns user \<longrightarrow> 0 < n \<and> until \<le> t + 1000 * nat n
      | Del k \<Rightarrow> k \<noteq> user_set_key ns user
      | Srem k x \<Rightarrow> k = user_set_key ns user \<longrightarrow> x \<noteq> jti
      | _ \<Rightarrow> True)"

lemma revocation_kept:
  "keeps_revocation ns jti until t cmd \<Longrightarrow> revoked_until ns jti until db
     \<Longrightarrow> revoked_until ns jti until (redis_after cmd t db)"
  by (cases cmd)
    (auto simp: keeps_revocation_def revoked_until_def Let_def split: option.splits redis_value.splits)

lemma listed_live:
  assumes "listed_until ns user jti until db" "t < until"
  obtains e xs where "redis_live t db (user_set_key ns user) = Some e" "redis_val e = RedisSet xs"
    "jti \<in> set xs" "case redis_exp e of None \<Rightarrow> True | Some x \<Rightarrow> until \<le> x"
    "db (user_set_key ns user) = Some e"
proof -
  obtain e xs where e: "db (user_set_key ns user) = Some e" "redis_val e = RedisSet xs" "jti \<in> set xs"
    "case redis_exp e of None \<Rightarrow> True | Some x \<Rightarrow> until \<le> x"
    using assms(1) unfolding listed_until_def by blast
  with assms(2) have "redis_live t db (user_set_key ns user) = Some e"
    by (auto simp: redis_live_def split: option.splits)
  with e show thesis using that by blast
qed

lemma removeAll_keeps: "y \<in> set xs \<Longrightarrow> x \<noteq> y \<Longrightarrow> removeAll x xs \<noteq> []"
  by (auto simp: removeAll_filter_not_eq filter_empty_conv)

lemma listing_kept:
  assumes "keeps_listing ns user jti until t cmd" "listed_until ns user jti until db" "t < until"
  shows "listed_until ns user jti until (redis_after cmd t db)"
proof -
  obtain e xs where e: "redis_live t db (user_set_key ns user) = Some e" "redis_val e = RedisSet xs"
    "jti \<in> set xs" "case redis_exp e of None \<Rightarrow> True | Some x \<Rightarrow> until \<le> x"
    "db (user_set_key ns user) = Some e"
    using listed_live [OF assms(2, 3)] .
  show ?thesis
  proof (cases cmd)
    case (Sadd k x)
    with e show ?thesis
      by (cases "k = user_set_key ns user")
        (auto simp: listed_until_def split: option.splits redis_value.splits)
  next
    case (Expire k n)
    with e assms(1) show ?thesis
      by (cases "k = user_set_key ns user")
        (auto simp: listed_until_def keeps_listing_def split: option.splits)
  next
    case (Srem k x)
    with e assms(1) show ?thesis
      by (cases "k = user_set_key ns user")
        (auto simp: listed_until_def keeps_listing_def Let_def removeAll_keeps split: option.splits redis_value.splits)
  qed (use e assms(1) in \<open>auto simp: listed_until_def keeps_listing_def\<close>)
qed

definition covered_until :: "string \<Rightarrow> string \<Rightarrow> string \<Rightarrow> nat \<Rightarrow> redis_db \<Rightarrow> bool" where
  "covered_until ns user jti until db \<longleftrightarrow>
     listed_until ns user jti until db \<or> revoked_until ns jti until db"

lemma covered_kept:
  assumes "keeps_revocation ns jti until t cmd" "keeps_listing ns user jti until t cmd" "t < until"
    and "covered_until ns user jti until db"
  shows "covered_until ns user jti until (redis_after cmd t db)"
  using assms revocation_kept [OF assms(1)] listing_kept [OF assms(2)]
  unfolding covered_until_def by blast

text \<open>A call and a sequence of calls keep what their commands keep.\<close>

lemma call_keeps_revocation:
  assumes "redis_documented srv" "keeps_revocation ns jti until t cmd" "revoked_until ns jti until db"
  shows "revoked_until ns jti until (snd (redis_call srv msg cmd t db))"
  by (rule redis_call_keeps [where P = "revoked_until ns jti until"])
    (use assms revocation_kept in auto)

lemma call_keeps_covered:
  assumes "redis_documented srv" "keeps_revocation ns jti until t cmd"
    "keeps_listing ns user jti until t cmd" "t < until" "covered_until ns user jti until db"
  shows "covered_until ns user jti until (snd (redis_call srv msg cmd t db))"
  by (rule redis_call_keeps [where P = "covered_until ns user jti until"])
    (use assms covered_kept in auto)

lemma redis_then_case_keeps:
  assumes "P (snd r)" and "\<And>x db. P db \<Longrightarrow> P (snd (f x db))"
  shows "P (snd (redis_then r f))"
  using assms by (auto intro: redis_then_keeps)

lemma revoke_tokens_revocation:
  assumes "redis_documented srv" "until \<le> t + 1000 * n" "revoked_until ns jti until db"
  shows "revoked_until ns jti until (snd (revoke_tokens srv ns jtis n t db))"
  using assms(3)
proof (induction jtis arbitrary: db)
  case (Cons j js)
  then show ?case
    by (auto intro!: redis_then_case_keeps [where P = "revoked_until ns jti until"]
        call_keeps_revocation [OF assms(1)] simp: keeps_revocation_def assms(2))
qed simp

lemma store_step_revocation:
  assumes "redis_documented srv" "until \<le> t + 1000 * max ttl 1" "revoked_until ns jti until db"
  shows "revoked_until ns jti until (snd (store_step srv ns ttl ev t db))"
  using assms(3)
  by (cases ev)
    (auto simp: store_step_def register_def revoke_def revoke_user_def Let_def keeps_revocation_def
        assms(2) [unfolded One_nat_def]
      intro!: redis_then_case_keeps [where P = "revoked_until ns jti until"]
        call_keeps_revocation [OF assms(1)] revoke_tokens_revocation [OF assms(1)]
      split: redis_reply.split)

lemma store_run_revocation:
  assumes "redis_documented srv" "\<forall>(t, ev) \<in> set evs. until \<le> t + 1000 * max ttl 1"
    and "revoked_until ns jti until db"
  shows "revoked_until ns jti until (snd (store_run srv ns ttl evs db))"
  using assms(2, 3)
proof (induction evs arbitrary: db)
  case (Cons e evs)
  obtain t ev where e: "e = (t, ev)" by (cases e)
  obtain r db1 where st: "store_step srv ns ttl ev t db = (r, db1)" by fastforce
  have "revoked_until ns jti until (snd (store_step srv ns ttl ev t db))"
    by (rule store_step_revocation [OF assms(1)]) (use Cons.prems e in auto)
  with st Cons have "revoked_until ns jti until (snd (store_run srv ns ttl evs db1))" by simp
  then show ?case by (cases "store_run srv ns ttl evs db1") (simp add: e st)
qed simp

text \<open>A revocation that returned is recorded for its time to live; so are those of all the tokens of
  \<^verbatim>\<open>revoke_user\<close>.\<close>

lemma revoke_recorded:
  assumes "redis_documented srv" "revoke srv ns user jti ttl t db = (Inr (), db')"
  shows "revoked_until ns jti (t + 1000 * max ttl 1) db'"
  using assms(2)
  by (auto simp: revoke_def Let_def redis_then_Inr revoked_until_def
      dest!: redis_call_Inr [OF assms(1)])

lemma revoke_tokens_recorded:
  assumes "redis_documented srv" "revoke_tokens srv ns jtis n t db = (Inr (), db')" "jti \<in> set jtis"
  shows "revoked_until ns jti (t + 1000 * n) db'"
  using assms(2, 3)
proof (induction jtis arbitrary: db)
  case (Cons j js)
  then obtain x db1 y db2 where
    s: "redis_call srv ''failed to set revoked key'' (SetEx (revoked_key ns j) ''1'' n) t db1 = (Inr y, db2)"
    and rest: "revoke_tokens srv ns js n t db2 = (Inr (), db')"
    by (auto simp: redis_then_Inr)
  show ?case
  proof (cases "jti = j")
    case True
    have "revoked_until ns jti (t + 1000 * n) db2"
      using redis_call_Inr [OF assms(1) s] True by (simp add: revoked_until_def)
    then show ?thesis using revoke_tokens_revocation [OF assms(1) order.refl, of ns jti t n db2 js] rest
      by simp
  qed (use Cons rest in auto)
qed simp

lemma revoke_tokens_listing:
  assumes "redis_documented srv" "listed_until ns user jti until db" "t < until"
  shows "listed_until ns user jti until (snd (revoke_tokens srv ns jtis n t db))"
  using assms(2)
proof (induction jtis arbitrary: db)
  case (Cons j js)
  have call: "listed_until ns user jti until (snd (redis_call srv msg cmd t db))"
    if "keeps_listing ns user jti until t cmd" "listed_until ns user jti until db" for msg cmd db
    by (rule redis_call_keeps [where P = "listed_until ns user jti until"])
      (use that assms(1, 3) listing_kept in auto)
  show ?case
    by (auto intro!: redis_then_case_keeps [where P = "listed_until ns user jti until"] call
        Cons.IH Cons.prems simp: keeps_listing_def)
qed simp

lemma revoke_tokens_covers:
  assumes "redis_documented srv" "revoke_tokens srv ns toks n t db = (Inr (), db')"
    and "covered_until ns user jti until db" "t < until" "until \<le> t + 1000 * n"
    and "set toks = set (redis_members t db (user_set_key ns user))"
  shows "revoked_until ns jti until db'"
proof (cases "revoked_until ns jti until db")
  case True
  then show ?thesis using revoke_tokens_revocation [OF assms(1, 5), of ns jti db toks] assms(2) by simp
next
  case False
  then have "listed_until ns user jti until db" using assms(3) by (simp add: covered_until_def)
  then obtain e xs where "redis_live t db (user_set_key ns user) = Some e"
    "redis_val e = RedisSet xs" "jti \<in> set xs"
    using listed_live [OF _ assms(4)] by metis
  then have "jti \<in> set toks" by (simp add: assms(6) redis_members_def)
  from revoke_tokens_recorded [OF assms(1, 2) this] assms(5)
  show ?thesis unfolding revoked_until_def by (meson order.trans)
qed

lemma revoke_user_cases:
  assumes "revoke_user srv ns user ttl t db = (Inr (), db')"
  obtains x0 db0 toks db1 db2 x3 where
    "redis_call srv ''failed to get redis connection'' GetConnection t db = (Inr x0, db0)"
    "redis_call srv ''failed to fetch user token set'' (Smembers (user_set_key ns user)) t db0
       = (Inr (ReplyMembers toks), db1)"
    "revoke_tokens srv ns toks (max ttl 1) t db1 = (Inr (), db2)"
    "redis_call srv ''failed to delete user token set'' (Del (user_set_key ns user)) t db2 = (Inr x3, db')"
proof -
  obtain x0 db0 r db1 where
    c: "redis_call srv ''failed to get redis connection'' GetConnection t db = (Inr x0, db0)"
    and m: "redis_call srv ''failed to fetch user token set'' (Smembers (user_set_key ns user)) t db0
              = (Inr r, db1)"
    and f: "(case r of
            ReplyMembers tokens \<Rightarrow>
              redis_then (revoke_tokens srv ns tokens (max ttl 1) t db1) (\<lambda>_ db.
              redis_then (redis_call srv ''failed to delete user token set''
                (Del (user_set_key ns user)) t db) (\<lambda>_ db. (Inr (), db)))
          | _ \<Rightarrow> (Inl ''failed to fetch user token set'', db1)) = (Inr (), db')"
    using assms unfolding revoke_user_def Let_def redis_then_Inr by blast
  from f show thesis
  proof (cases r)
    case (ReplyMembers toks)
    with f obtain db2 x3 where "revoke_tokens srv ns toks (max ttl 1) t db1 = (Inr (), db2)"
      "redis_call srv ''failed to delete user token set'' (Del (user_set_key ns user)) t db2 = (Inr x3, db')"
      by (auto simp: redis_then_Inr)
    with that [OF c] m ReplyMembers show thesis by blast
  qed simp_all
qed

lemma revoke_user_recorded:
  assumes "redis_documented srv" "revoke_user srv ns user ttl t db = (Inr (), db')"
    and "covered_until ns user jti until db" "t < until" "until \<le> t + 1000 * max ttl 1"
  shows "revoked_until ns jti until db'"
proof -
  obtain x0 db0 toks db1 db2 x3 where
    c: "redis_call srv ''failed to get redis connection'' GetConnection t db = (Inr x0, db0)"
    and m: "redis_call srv ''failed to fetch user token set'' (Smembers (user_set_key ns user)) t db0
              = (Inr (ReplyMembers toks), db1)"
    and r: "revoke_tokens srv ns toks (max ttl 1) t db1 = (Inr (), db2)"
    and d: "redis_call srv ''failed to delete user token set'' (Del (user_set_key ns user)) t db2
              = (Inr x3, db')"
    by (rule revoke_user_cases [OF assms(2)])
  have db: "db0 = db" "db1 = db" "set toks = set (redis_members t db (user_set_key ns user))"
    "db' = db2(user_set_key ns user := None)"
    using redis_call_Inr [OF assms(1) c] redis_call_Inr [OF assms(1) m] redis_call_Inr [OF assms(1) d]
    by (auto simp: redis_reply_ok_def)
  have "revoked_until ns jti until db2"
    by (rule revoke_tokens_covers [OF assms(1) r [unfolded db(2)] assms(3-5) db(3)])
  then show ?thesis by (auto simp: revoked_until_def db(4))
qed

lemma revoke_tokens_covered:
  assumes "redis_documented srv" "covered_until ns user jti until db" "t < until" "until \<le> t + 1000 * n"
  shows "covered_until ns user jti until (snd (revoke_tokens srv ns jtis n t db))"
  using assms(2)
proof (induction jtis arbitrary: db)
  case (Cons j js)
  show ?case
    by (auto intro!: redis_then_case_keeps [where P = "covered_until ns user jti until"]
        call_keeps_covered [OF assms(1) _ _ assms(3)] Cons.IH Cons.prems
        simp: keeps_listing_def keeps_revocation_def assms(4))
qed simp

lemma revoke_user_covered:
  assumes doc: "redis_documented srv" and t: "t < until" "until \<le> t + 1000 * max ttl 1"
    and cov: "covered_until ns user jti until db"
  shows "covered_until ns user jti until (snd (revoke_user srv ns u ttl t db))"
proof -
  let ?P = "covered_until ns user jti until" and ?k = "user_set_key ns u"
  note call = call_keeps_covered [OF doc _ _ t(1)]
  have del: "?P (snd (redis_then (redis_call srv msg (Del ?k) t db2) (\<lambda>_ db. (Inr (), db))))"
    if "?P db2" "u = user \<Longrightarrow> revoked_until ns jti until db2" for msg db2
  proof (rule redis_then_case_keeps [where P = ?P])
    show "?P (snd (redis_call srv msg (Del ?k) t db2))"
    proof (cases "u = user")
      case True
      have "revoked_until ns jti until (snd (redis_call srv msg (Del ?k) t db2))"
        by (rule call_keeps_revocation [OF doc]) (use that True in \<open>simp_all add: keeps_revocation_def\<close>)
      then show ?thesis by (simp add: covered_until_def)
    next
      case False
      then show ?thesis
        by (intro call) (use that in \<open>simp_all add: keeps_revocation_def keeps_listing_def\<close>)
    qed
  qed simp
  show ?thesis unfolding revoke_user_def Let_def
  proof (rule redis_then_keeps [where P = ?P])
    fix x0 db0
    assume db0: "?P db0"
    show "?P (snd (redis_then (redis_call srv ''failed to fetch user token set'' (Smembers ?k) t db0)
       (\<lambda>r db. case r of
            ReplyMembers tokens \<Rightarrow>
              redis_then (revoke_tokens srv ns tokens (max ttl 1) t db) (\<lambda>_ db.
              redis_then (redis_call srv ''failed to delete user token set'' (Del ?k) t db) (\<lambda>_ db.
              (Inr (), db)))
          | _ \<Rightarrow> (Inl ''failed to fetch user token set'', db))))"
    proof (rule redis_then_keeps [where P = ?P])
      fix r db1
      assume m: "redis_call srv ''failed to fetch user token set'' (Smembers ?k) t db0 = (Inr r, db1)"
        and db1: "?P db1"
      have members: "r = ReplyMembers toks \<Longrightarrow> set toks = set (redis_members t db1 ?k)" for toks
        using redis_call_Inr [OF doc m] by (simp add: redis_reply_ok_def)
      show "?P (snd (case r of
            ReplyMembers tokens \<Rightarrow>
              redis_then (revoke_tokens srv ns tokens (max ttl 1) t db1) (\<lambda>_ db.
              redis_then (redis_call srv ''failed to delete user token set'' (Del ?k) t db) (\<lambda>_ db.
              (Inr (), db)))
          | _ \<Rightarrow> (Inl ''failed to fetch user token set'', db1)))"
      proof (cases r)
        case (ReplyMembers toks)
        have "?P (snd (redis_then (revoke_tokens srv ns toks (max ttl 1) t db1) (\<lambda>_ db.
              redis_then (redis_call srv ''failed to delete user token set'' (Del ?k) t db) (\<lambda>_ db.
              (Inr (), db)))))"
        proof (rule redis_then_keeps [where P = ?P])
          fix x db2
          assume r2: "revoke_tokens srv ns toks (max ttl 1) t db1 = (Inr x, db2)" and "?P db2"
          then show "?P (snd (redis_then (redis_call srv ''failed to delete user token set'' (Del ?k) t db2)
              (\<lambda>_ db. (Inr (), db))))"
            using revoke_tokens_covers [OF doc _ db1 t, of toks db2] members [OF ReplyMembers]
            by (intro del) auto
        qed (rule revoke_tokens_covered [OF doc db1 t])
        with ReplyMembers show ?thesis by simp
      qed (use db1 in auto)
    qed (rule call, use db0 in \<open>simp_all add: keeps_revocation_def keeps_listing_def\<close>)
  qed (rule call, use cov in \<open>simp_all add: keeps_revocation_def keeps_listing_def\<close>)
qed

text \<open>Registration lists the token; every later operation that is not a failed revocation of this very
  token keeps it listed or revoked.\<close>

lemma register_listed:
  assumes "redis_documented srv" "register srv ns user jti ttl t db = (Inr (), db')" "ttl < 2 ^ 63"
  shows "listed_until ns user jti (t + 1000 * max ttl 1) db'"
proof -
  let ?n = "max ttl 1" and ?k = "user_set_key ns user"
  obtain x0 db0 x1 db1 x2 db2 x3 where
    a: "redis_call srv ''failed to add token to user set'' (Sadd ?k jti) t db1 = (Inr x2, db2)"
    and x: "redis_call srv ''failed to set user set ttl'' (Expire ?k (i64_of_u64 ?n)) t db2 = (Inr x3, db')"
    using assms(2) by (auto simp: register_def Let_def redis_then_Inr)
  have db2: "db2 = redis_after (Sadd ?k jti) t db1" "\<not> redis_is_text t db1 ?k"
    and db': "db' = redis_after (Expire ?k (i64_of_u64 ?n)) t db2"
    using redis_call_Inr [OF assms(1) a] redis_call_Inr [OF assms(1) x] by (auto simp: redis_reply_ok_def)
  obtain e xs where e: "redis_live t db2 ?k = Some e" "redis_val e = RedisSet xs" "jti \<in> set xs"
    using db2 by (auto simp: redis_live_def redis_is_text_def split: option.splits redis_value.splits if_splits)
  have "i64_of_u64 ?n = int ?n" using assms(3) by (simp add: i64_of_u64_def)
  then have "db' = db2(?k \<mapsto> e\<lparr>redis_exp := Some (t + 1000 * ?n)\<rparr>)"
    using db' e(1) by simp
  with e show ?thesis by (simp add: listed_until_def)
qed

lemma i64_small: "n < 2 ^ 63 \<Longrightarrow> i64_of_u64 n = int n"
  by (simp add: i64_of_u64_def)

lemma store_step_covered:
  assumes doc: "redis_documented srv" and ttl: "ttl < 2 ^ 63" and t: "t < until" "until \<le> t + 1000 * max ttl 1"
    and ok: "\<And>u. ev = RevokeOp u jti \<Longrightarrow> \<exists>x. fst (store_step srv ns ttl ev t db) = Inr x"
    and cov: "covered_until ns user jti until db"
  shows "covered_until ns user jti until (snd (store_step srv ns ttl ev t db))"
proof (cases ev)
  case (RegisterOp u j)
  have n: "0 < i64_of_u64 (max ttl 1)" "until \<le> t + 1000 * nat (i64_of_u64 (max ttl 1))"
    using ttl t by (simp_all add: i64_small)
  show ?thesis
    using cov n
    by (auto simp: RegisterOp store_step_def register_def Let_def keeps_revocation_def keeps_listing_def
        intro!: redis_then_case_keeps [where P = "covered_until ns user jti until"]
          call_keeps_covered [OF doc _ _ t(1)])
next
  case (RevokeOp u j)
  show ?thesis
  proof (cases "j = jti")
    case True
    with ok RevokeOp obtain db' where "store_step srv ns ttl ev t db = (Inr (), db')"
      by (metis prod.collapse unit.exhaust)
    then show ?thesis
      using revoke_recorded [OF doc, of ns u j ttl t db db'] t(2) RevokeOp True
      by (auto simp: store_step_def covered_until_def revoked_until_def intro: order.trans)
  next
    case False
    with cov show ?thesis
      by (auto simp: RevokeOp store_step_def revoke_def Let_def keeps_revocation_def keeps_listing_def
        intro!: redis_then_case_keeps [where P = "covered_until ns user jti until"]
          call_keeps_covered [OF doc _ _ t(1)])
  qed
next
  case (RevokeUserOp u)
  with revoke_user_covered [OF doc t cov] show ?thesis by (simp add: store_step_def)
qed

lemma store_run_covered:
  assumes doc: "redis_documented srv" and ttl: "ttl < 2 ^ 63"
    and "\<forall>(t, ev) \<in> set evs. t < until \<and> until \<le> t + 1000 * max ttl 1"
    and "\<forall>((t, ev), r) \<in> set (zip evs (fst (store_run srv ns ttl evs db))).
           \<forall>u. ev = RevokeOp u jti \<longrightarrow> r = Inr ()"
    and "covered_until ns user jti until db"
  shows "covered_until ns user jti until (snd (store_run srv ns ttl evs db))"
  using assms(3-5)
proof (induction evs arbitrary: db)
  case (Cons e evs)
  obtain t ev where e: "e = (t, ev)" by (cases e)
  obtain r db1 where st: "store_step srv ns ttl ev t db = (r, db1)" by fastforce
  obtain rs db2 where rest: "store_run srv ns ttl evs db1 = (rs, db2)" by fastforce
  have "covered_until ns user jti until (snd (store_step srv ns ttl ev t db))"
    by (rule store_step_covered [OF doc ttl]) (use Cons.prems e st rest in auto)
  then have "covered_until ns user jti until (snd (store_run srv ns ttl evs db1))"
    using Cons.prems by (intro Cons.IH) (auto simp: e st rest)
  then show ?case by (simp add: e st rest)
qed simp

lemma is_revoked_sound:
  assumes "redis_documented srv" "revoked_until ns jti until db" "t < until"
    and "is_revoked srv ns jti t db = (Inr b, db')"
  shows "b"
proof -
  obtain x0 db0 r db1 where
    c: "redis_call srv ''failed to get redis connection'' GetConnection t db = (Inr x0, db0)"
    and m: "redis_call srv ''failed to check revoked key'' (ExistsKey (revoked_key ns jti)) t db0 = (Inr r, db1)"
    and f: "(case r of ReplyBool b \<Rightarrow> (Inr b, db1) | _ \<Rightarrow> (Inl ''failed to check revoked key'', db1)) = (Inr b, db')"
    using assms(4) unfolding is_revoked_def redis_then_Inr by blast
  have "db0 = db" using redis_call_Inr [OF assms(1) c] by simp
  moreover have "redis_reply_ok (ExistsKey (revoked_key ns jti)) t db0 r"
    using redis_call_Inr [OF assms(1) m] by simp
  ultimately show ?thesis using f assms(2, 3)
    by (auto simp: redis_reply_ok_def revoked_until_def redis_live_def split: redis_reply.splits option.splits)
qed

section \<open>Properties\<close>

text \<open>
  A token that was registered and then revoked, by itself or with all the tokens of its user,
  is found revoked at every time of its time to live, whatever other operations of the store happen
  before and after, on whatever tokens and users, with whatever results; only a failed revocation of
  this token before the revocation of the user can prevent it. Checking either fails or says so.
\<close>

theorem revocation_holds:
  assumes "redis_documented srv" and "ttl < 2 ^ 63"
    and "register srv ns user jti ttl s db0 = (Inr (), db1)"
    and "store_run srv ns ttl evs db1 = (rs, db2)"
    and "store_step srv ns ttl ev t db2 = (Inr (), db3)"
    and "(\<exists>u. ev = RevokeOp u jti) \<or> ev = RevokeUserOp user"
    and "store_run srv ns ttl evs2 db3 = (rs2, db4)"
    and "s \<le> t" and "t < s + 1000 * max ttl 1"
    and "\<forall>(t1, ev1) \<in> set evs. s \<le> t1 \<and> t1 \<le> t"
    and "\<forall>(t2, ev2) \<in> set evs2. t \<le> t2"
    and "\<forall>((t1, ev1), r) \<in> set (zip evs rs). \<forall>u. ev1 = RevokeOp u jti \<longrightarrow> r = Inr ()"
    and "now < s + 1000 * max ttl 1"
  shows "\<forall>b db5. is_revoked srv ns jti now db4 = (Inr b, db5) \<longrightarrow> b"
proof -
  let ?until = "s + 1000 * max ttl 1"
  have "covered_until ns user jti ?until db1"
    using register_listed [OF assms(1, 3, 2)] by (simp add: covered_until_def)
  then have "covered_until ns user jti ?until (snd (store_run srv ns ttl evs db1))"
    by (rule store_run_covered [OF assms(1, 2), rotated 2]) (use assms(4, 8-10, 12) in auto)
  then have cov: "covered_until ns user jti ?until db2" using assms(4) by simp
  have "revoked_until ns jti ?until db3"
    using assms(6)
  proof (elim disjE exE)
    fix u assume "ev = RevokeOp u jti"
    with assms(5) have "revoke srv ns u jti ttl t db2 = (Inr (), db3)" by (simp add: store_step_def)
    from revoke_recorded [OF assms(1) this] assms(8) show ?thesis
      unfolding revoked_until_def by (meson add_le_mono1 order.trans)
  next
    assume "ev = RevokeUserOp user"
    with assms(5) have "revoke_user srv ns user ttl t db2 = (Inr (), db3)" by (simp add: store_step_def)
    then show ?thesis
      by (rule revoke_user_recorded [OF assms(1) _ cov assms(9)]) (use assms(8) in simp)
  qed
  then have "revoked_until ns jti ?until (snd (store_run srv ns ttl evs2 db3))"
    by (rule store_run_revocation [OF assms(1), rotated]) (use assms(8, 11) in auto)
  then have "revoked_until ns jti ?until db4" using assms(7) by simp
  then show ?thesis using is_revoked_sound [OF assms(1) _ assms(13)] by blast
qed

text \<open>A server that answers every command.\<close>

definition plain_redis :: redis_server where
  "plain_redis cmd t db =
     (case cmd of
        Smembers k \<Rightarrow> if redis_is_text t db k then (Inl ''WRONGTYPE'', db)
                      else (Inr (ReplyMembers (redis_members t db k)), db)
      | ExistsKey k \<Rightarrow> (Inr (ReplyBool (redis_live t db k \<noteq> None)), db)
      | Sadd k x \<Rightarrow> if redis_is_text t db k then (Inl ''WRONGTYPE'', db)
                    else (Inr ReplyUnit, redis_after cmd t db)
      | Srem k x \<Rightarrow> if redis_is_text t db k then (Inl ''WRONGTYPE'', db)
                    else (Inr ReplyUnit, redis_after cmd t db)
      | _ \<Rightarrow> (Inr ReplyUnit, redis_after cmd t db))"

lemma plain_redis_documented: "redis_documented plain_redis"
  unfolding redis_documented_def plain_redis_def redis_reply_ok_def
  by (auto split: redis_cmd.splits)

lemma plain_calls [simp]:
  "redis_call plain_redis msg GetConnection t db = (Inr ReplyUnit, db)"
  "redis_call plain_redis msg (SetEx k v n) t db = (Inr ReplyUnit, redis_after (SetEx k v n) t db)"
  "redis_call plain_redis msg (Expire k m) t db = (Inr ReplyUnit, redis_after (Expire k m) t db)"
  "redis_call plain_redis msg (Del k) t db = (Inr ReplyUnit, redis_after (Del k) t db)"
  "redis_call plain_redis msg (ExistsKey k) t db = (Inr (ReplyBool (redis_live t db k \<noteq> None)), db)"
  "\<not> redis_is_text t db k \<Longrightarrow>
     redis_call plain_redis msg (Sadd k x) t db = (Inr ReplyUnit, redis_after (Sadd k x) t db)"
  "\<not> redis_is_text t db k \<Longrightarrow>
     redis_call plain_redis msg (Smembers k) t db = (Inr (ReplyMembers (redis_members t db k)), db)"
  "\<not> redis_is_text t db k \<Longrightarrow>
     redis_call plain_redis msg (Srem k x) t db = (Inr ReplyUnit, redis_after (Srem k x) t db)"
  by (simp_all add: redis_call_def plain_redis_def)

lemma redis_then_Inr_simp [simp]: "redis_then (Inr x, db) f = f x db"
  by (simp add: redis_then_def)

lemmas redis_eval = register_def revoke_def revoke_user_def is_revoked_def store_step_def Let_def
  redis_live_def redis_is_text_def redis_members_def i64_small List.insert_def

text \<open>A user's two tokens, both revoked with the user; the first is still found revoked at the end of
  its life, after a third was issued.\<close>

theorem revocation_holds_witness:
  "\<exists>db1 db2 db3 db4 rs rs2.
     register plain_redis ''n'' ''u'' ''a'' 60 0 Map.empty = (Inr (), db1)
   \<and> store_run plain_redis ''n'' 60 [(5, RegisterOp ''u'' ''b'')] db1 = (rs, db2)
   \<and> store_step plain_redis ''n'' 60 (RevokeUserOp ''u'') 10 db2 = (Inr (), db3)
   \<and> store_run plain_redis ''n'' 60 [(20, RegisterOp ''u'' ''c'')] db3 = (rs2, db4)
   \<and> fst (is_revoked plain_redis ''n'' ''a'' 59999 db4) = Inr True"
proof -
  obtain db1 where 1: "register plain_redis ''n'' ''u'' ''a'' 60 0 Map.empty = (Inr (), db1)"
    by (simp add: redis_eval)
  obtain db2 where 2: "store_run plain_redis ''n'' 60 [(5, RegisterOp ''u'' ''b'')] db1 = ([Inr ()], db2)"
    using 1 by (auto simp: redis_eval)
  obtain db3 where 3: "store_step plain_redis ''n'' 60 (RevokeUserOp ''u'') 10 db2 = (Inr (), db3)"
    using 1 2 by (auto simp: redis_eval)
  obtain db4 where 4: "store_run plain_redis ''n'' 60 [(20, RegisterOp ''u'' ''c'')] db3 = ([Inr ()], db4)"
    using 1 2 3 by (auto simp: redis_eval)
  obtain b db5 where 5: "is_revoked plain_redis ''n'' ''a'' 59999 db4 = (Inr b, db5)"
    by (simp add: is_revoked_def)
  have "b"
    using revocation_holds [OF plain_redis_documented _ 1 2 3 _ 4, of 59999] 5 by auto
  with 1 2 3 4 5 show ?thesis by auto
qed

text \<open>
  When the last command of a revocation fails, the token is no longer listed for its user and not
  recorded as revoked: revoking the user afterwards does not reach it.
\<close>

definition flaky_redis :: "nat \<Rightarrow> redis_server" where
  "flaky_redis bad cmd t db =
     (case cmd of
        SetEx k v n \<Rightarrow> if t = bad then (Inl ''timeout'', db) else plain_redis cmd t db
      | _ \<Rightarrow> plain_redis cmd t db)"

lemma flaky_redis_documented: "redis_documented (flaky_redis bad)"
proof -
  have "case flaky_redis bad cmd t db of
        (Inr r, db') \<Rightarrow> db' = redis_after cmd t db \<and> redis_reply_ok cmd t db r
      | (Inl err, db') \<Rightarrow> db' \<in> {db, redis_after cmd t db}" for cmd t db
    using plain_redis_documented [unfolded redis_documented_def, rule_format,
      where cmd = cmd and t = t and db = db]
    by (cases cmd) (simp_all add: flaky_redis_def)
  then show ?thesis by (simp add: redis_documented_def)
qed

lemma flaky_call_fails [simp]:
  "redis_call (flaky_redis bad) msg (SetEx k v n) bad db = (Inl (msg @ '': timeout''), db)"
  by (simp add: redis_call_def flaky_redis_def)

lemma flaky_call_works [simp]:
  "redis_call (flaky_redis bad) msg GetConnection t db = redis_call plain_redis msg GetConnection t db"
  "redis_call (flaky_redis bad) msg (Sadd k x) t db = redis_call plain_redis msg (Sadd k x) t db"
  "redis_call (flaky_redis bad) msg (Expire k i) t db = redis_call plain_redis msg (Expire k i) t db"
  "redis_call (flaky_redis bad) msg (Del k) t db = redis_call plain_redis msg (Del k) t db"
  "redis_call (flaky_redis bad) msg (Srem k x) t db = redis_call plain_redis msg (Srem k x) t db"
  "redis_call (flaky_redis bad) msg (Smembers k) t db = redis_call plain_redis msg (Smembers k) t db"
  "redis_call (flaky_redis bad) msg (ExistsKey k) t db = redis_call plain_redis msg (ExistsKey k) t db"
  "t \<noteq> bad \<Longrightarrow>
     redis_call (flaky_redis bad) msg (SetEx k v n) t db = redis_call plain_redis msg (SetEx k v n) t db"
  by (simp_all add: redis_call_def flaky_redis_def)

theorem failed_revocation_lost:
  "\<exists>db1 db2 db3 db4. register (flaky_redis 10) ''n'' ''u'' ''a'' 60 0 Map.empty = (Inr (), db1)
   \<and> revoke (flaky_redis 10) ''n'' ''u'' ''a'' 60 10 db1 = (Inl ''failed to set revoked key: timeout'', db2)
   \<and> revoke_user (flaky_redis 10) ''n'' ''u'' 60 20 db2 = (Inr (), db3)
   \<and> is_revoked (flaky_redis 10) ''n'' ''a'' 30 db3 = (Inr False, db4)"
  by (simp add: redis_eval redis_then_def [of "(Inl _, _)"])

end
