(* ===== verification/Auth_Token.thy ===== *)
theory Auth_Token
  imports Auth_Store
begin

text \<open>
  Tokens and principals of \<^verbatim>\<open>flare-core-infra/src/auth\<close>: the token service (\<^verbatim>\<open>token.rs\<close>), the
  validator with more than one issuer (\<^verbatim>\<open>composite.rs\<close>), principals and scopes (\<^verbatim>\<open>principal.rs\<close>),
  the providers (\<^verbatim>\<open>provider.rs\<close>).

  The JWT library is a parameter: an encoder and a decoder. Of the decoder the code relies on what
  \<open>jwt_documented\<close> says: it gives back the claims encoded under the same secret when the issuer is
  the expected one and the expiry is at most the library's default leeway of 60 seconds ago, and it
  accepts no other issuer, no older expiry, and no other claims than the token holds. Times are milliseconds; the claims hold seconds. The
  store of the service is a record of the two operations it calls, on a state of its own.
\<close>

section \<open>The token service\<close>

record token_claims =
  tc_sub :: string
  tc_iss :: string
  tc_exp :: nat
  tc_iat :: nat
  tc_jti :: string
  tc_device :: "string option"
  tc_tenant :: "string option"

record jwt =
  jwt_encode :: "token_claims \<Rightarrow> string \<Rightarrow> string + string"
  jwt_decode :: "string \<Rightarrow> string \<Rightarrow> nat \<Rightarrow> string \<Rightarrow> string + token_claims"

definition JWT_LEEWAY :: nat where
  "JWT_LEEWAY = 60"

definition jwt_documented :: "jwt \<Rightarrow> bool" where
  "jwt_documented j \<longleftrightarrow>
     (\<forall>c secret token now. jwt_encode j c secret = Inr token \<and> now \<le> tc_exp c + JWT_LEEWAY
        \<longrightarrow> jwt_decode j secret (tc_iss c) now token = Inr c)
   \<and> (\<forall>secret iss now token c. jwt_decode j secret iss now token = Inr c
        \<longrightarrow> tc_iss c = iss \<and> now \<le> tc_exp c + JWT_LEEWAY)
   \<and> (\<forall>c secret token secret' iss now c'. jwt_encode j c secret = Inr token
        \<and> jwt_decode j secret' iss now token = Inr c' \<longrightarrow> c' = c)"

record 's token_store =
  ts_register :: "string \<Rightarrow> string \<Rightarrow> nat \<Rightarrow> nat \<Rightarrow> 's \<Rightarrow> (string + unit) \<times> 's"
  ts_is_revoked :: "string \<Rightarrow> nat \<Rightarrow> 's \<Rightarrow> (string + bool) \<times> 's"

text \<open>The Redis store as the service's store.\<close>

definition redis_token_store :: "redis_server \<Rightarrow> string \<Rightarrow> redis_db token_store" where
  "redis_token_store srv ns =
     \<lparr>ts_register = (\<lambda>user jti ttl t db. register srv ns user jti ttl t db),
      ts_is_revoked = (\<lambda>jti t db. is_revoked srv ns jti t db)\<rparr>"

record 's token_service =
  svc_secret :: string
  svc_issuer :: string
  svc_ttl :: nat
  svc_store :: "'s token_store option"

definition token_service_new :: "string \<Rightarrow> string \<Rightarrow> nat \<Rightarrow> 's token_service" where
  "token_service_new secret iss ttl_seconds =
     \<lparr>svc_secret = secret, svc_issuer = iss, svc_ttl = max ttl_seconds 60, svc_store = None\<rparr>"

definition with_store :: "'s token_store \<Rightarrow> 's token_service \<Rightarrow> 's token_service" where
  "with_store st svc = svc\<lparr>svc_store := Some st\<rparr>"

text \<open>
  \<^verbatim>\<open>generate_token\<close> at a time, or at the error of reading it, with the new identifier. The sum of the
  time and the time to live panics beyond 64 bits of seconds: \<open>None\<close>.
\<close>

definition generate_token ::
    "jwt \<Rightarrow> string \<Rightarrow> string + nat \<Rightarrow> 's token_service \<Rightarrow> string \<Rightarrow> string option \<Rightarrow> string option
     \<Rightarrow> 's \<Rightarrow> ((string + string) \<times> 's) option" where
  "generate_token j uuid clock svc user device tenant s =
     (case clock of
        Inl err \<Rightarrow> Some (Inl (''system time error: '' @ err), s)
      | Inr now \<Rightarrow>
          if now div 1000 + svc_ttl svc \<ge> 2 ^ 64 then None
          else
            (let claims = \<lparr>tc_sub = user, tc_iss = svc_issuer svc, tc_exp = now div 1000 + svc_ttl svc,
                           tc_iat = now div 1000, tc_jti = uuid, tc_device = device, tc_tenant = tenant\<rparr>
             in case jwt_encode j claims (svc_secret svc) of
                  Inl err \<Rightarrow> Some (Inl (''failed to encode token: '' @ err), s)
                | Inr token \<Rightarrow>
                    (case svc_store svc of
                       None \<Rightarrow> Some (Inr token, s)
                     | Some st \<Rightarrow>
                         (case ts_register st user uuid (svc_ttl svc) now s of
                            (Inl err, s') \<Rightarrow> Some (Inl err, s')
                          | (Inr u, s') \<Rightarrow> Some (Inr token, s')))))"

definition decode_claims :: "jwt \<Rightarrow> 's token_service \<Rightarrow> nat \<Rightarrow> string \<Rightarrow> string + token_claims" where
  "decode_claims j svc now token =
     (case jwt_decode j (svc_secret svc) (svc_issuer svc) (now div 1000) token of
        Inl err \<Rightarrow> Inl (''invalid token: '' @ err)
      | Inr c \<Rightarrow> Inr c)"

definition validate_token ::
    "jwt \<Rightarrow> 's token_service \<Rightarrow> nat \<Rightarrow> string \<Rightarrow> 's \<Rightarrow> (string + token_claims) \<times> 's" where
  "validate_token j svc now token s =
     (case decode_claims j svc now token of
        Inl err \<Rightarrow> (Inl err, s)
      | Inr claims \<Rightarrow>
          (case svc_store svc of
             None \<Rightarrow> (Inr claims, s)
           | Some st \<Rightarrow>
               (case ts_is_revoked st (tc_jti claims) now s of
                  (Inl err, s') \<Rightarrow> (Inl err, s')
                | (Inr revoked, s') \<Rightarrow>
                    if revoked then (Inl ''token revoked'', s') else (Inr claims, s'))))"

section \<open>More than one issuer\<close>

record trusted_issuer =
  ti_secret :: string
  ti_issuer :: string

definition trusted_validate ::
    "jwt \<Rightarrow> trusted_issuer \<Rightarrow> nat \<Rightarrow> string \<Rightarrow> string + token_claims" where
  "trusted_validate j ti now token =
     (case jwt_decode j (ti_secret ti) (ti_issuer ti) (now div 1000) token of
        Inl err \<Rightarrow> Inl (''invalid token for issuer '' @ ti_issuer ti @ '': '' @ err)
      | Inr c \<Rightarrow> Inr c)"

record 's composite_validator =
  cv_primary :: "'s token_service"
  cv_trusted :: "trusted_issuer list"

definition composite_new :: "'s token_service \<Rightarrow> 's composite_validator" where
  "composite_new svc = \<lparr>cv_primary = svc, cv_trusted = []\<rparr>"

definition with_trusted_issuer ::
    "string \<Rightarrow> string \<Rightarrow> 's composite_validator \<Rightarrow> 's composite_validator" where
  "with_trusted_issuer secret iss v =
     v\<lparr>cv_trusted := cv_trusted v @ [\<lparr>ti_secret = secret, ti_issuer = iss\<rparr>]\<rparr>"

text \<open>The loop over the other issuers, with the last error.\<close>

fun trusted_loop ::
    "jwt \<Rightarrow> trusted_issuer list \<Rightarrow> nat \<Rightarrow> string \<Rightarrow> string option \<Rightarrow> string + token_claims" where
  "trusted_loop j [] now token last_err =
     Inl (case last_err of Some err \<Rightarrow> err | None \<Rightarrow> ''token validation failed'')"
| "trusted_loop j (ti # tis) now token last_err =
     (case trusted_validate j ti now token of
        Inr c \<Rightarrow> Inr c
      | Inl err \<Rightarrow> trusted_loop j tis now token (Some err))"

definition composite_validate ::
    "jwt \<Rightarrow> 's composite_validator \<Rightarrow> nat \<Rightarrow> string \<Rightarrow> 's \<Rightarrow> (string + token_claims) \<times> 's" where
  "composite_validate j v now token s =
     (case validate_token j (cv_primary v) now token s of
        (Inr c, s') \<Rightarrow> (Inr c, s')
      | (Inl err, s') \<Rightarrow> (trusted_loop j (cv_trusted v) now token None, s'))"

section \<open>Principals and scopes\<close>

record principal =
  pr_user :: string
  pr_tenant :: "string option"
  pr_device :: "string option"
  pr_app :: "string option"
  pr_expires :: "int option"
  pr_scopes :: "string list"
  pr_metadata :: "string \<rightharpoonup> string"

text \<open>The cast of \<^verbatim>\<open>usize\<close> to \<^verbatim>\<open>i64\<close>.\<close>

definition principal_of_claims :: "token_claims \<Rightarrow> principal" where
  "principal_of_claims c =
     \<lparr>pr_user = tc_sub c, pr_tenant = tc_tenant c, pr_device = tc_device c, pr_app = None,
      pr_expires = Some (i64_of_u64 (tc_exp c)), pr_scopes = [], pr_metadata = Map.empty\<rparr>"

definition strip_suffix :: "string \<Rightarrow> string \<Rightarrow> string option" where
  "strip_suffix x s = map_option rev (strip_prefix (rev x) (rev s))"

definition scope_matches :: "string \<Rightarrow> string \<Rightarrow> bool" where
  "scope_matches granted required =
     (let g = trim granted; r = trim required
      in if g = ''*'' \<or> g = r then True
         else case strip_suffix '':*'' g of
                Some p \<Rightarrow> r = p \<or> starts_with (p @ '':'') r
              | None \<Rightarrow> False)"

definition has_scope :: "principal \<Rightarrow> string \<Rightarrow> bool" where
  "has_scope p required \<longleftrightarrow> (\<exists>scope \<in> set (pr_scopes p). scope_matches scope required)"

definition has_any_scope :: "principal \<Rightarrow> string list \<Rightarrow> bool" where
  "has_any_scope p required \<longleftrightarrow> (\<exists>scope \<in> set required. has_scope p scope)"

definition has_gateway_admin_scope :: "principal \<Rightarrow> bool" where
  "has_gateway_admin_scope p = has_any_scope p
     [''admin_gateway:admin'', ''admin_gateway:admin:*'', ''core_gateway:admin'',
      ''core_gateway:admin:*'', ''gateway:admin'', ''flare:admin'', ''admin:*'', ''admin'']"

datatype auth_error =
    MissingToken
  | InvalidToken string
  | Forbidden string
  | ProviderUnavailable string

fun show_auth_error :: "auth_error \<Rightarrow> string" where
  "show_auth_error MissingToken = ''authorization token is missing''"
| "show_auth_error (InvalidToken m) = ''authorization token is invalid: '' @ m"
| "show_auth_error (Forbidden m) = ''authenticated principal is not allowed: '' @ m"
| "show_auth_error (ProviderUnavailable m) = ''auth provider is unavailable: '' @ m"

section \<open>Providers\<close>

datatype auth_provider_mode = CoreJwt | HttpHook

definition auth_mode_from_str :: "string \<Rightarrow> string + auth_provider_mode" where
  "auth_mode_from_str v =
     (let m = map lower_char (trim v)
      in if m = ''core_jwt'' then Inr CoreJwt
         else if m = ''http_hook'' then Inr HttpHook
         else Inl (''unsupported auth provider mode: '' @ m))"

record auth_provider_config =
  ap_mode :: auth_provider_mode
  ap_hook_url :: "string option"
  ap_hook_timeout_ms :: u64
  ap_hook_secret_header :: string
  ap_hook_secret :: "string option"

definition default_auth_hook_timeout_ms :: u64 where
  "default_auth_hook_timeout_ms = 800"

definition default_auth_hook_secret_header :: string where
  "default_auth_hook_secret_header = ''x-flare-auth-hook-secret''"

definition auth_provider_default :: auth_provider_config where
  "auth_provider_default =
     \<lparr>ap_mode = CoreJwt, ap_hook_url = None, ap_hook_timeout_ms = default_auth_hook_timeout_ms,
      ap_hook_secret_header = default_auth_hook_secret_header, ap_hook_secret = None\<rparr>"

record validation_request =
  vr_token :: string
  vr_trace :: "string option"
  vr_request :: "string option"
  vr_path :: "string option"
  vr_method :: "string option"

record hook_validator =
  hv_timeout_ms :: u64
  hv_endpoint :: string
  hv_secret_header :: string
  hv_secret :: "string option"

text \<open>The check of a header name and the building of the client are parameters, by their errors.\<close>

definition hook_validator_new ::
    "(string \<Rightarrow> bool) \<Rightarrow> (u64 \<Rightarrow> bool) \<Rightarrow> auth_provider_config \<Rightarrow> string + hook_validator" where
  "hook_validator_new header_ok client_ok cfg =
     (case ap_hook_url cfg of
        None \<Rightarrow> Inl ''auth hook URL is required for http_hook auth mode''
      | Some url \<Rightarrow>
          if \<not> header_ok (ap_hook_secret_header cfg)
          then Inl ''auth hook secret header is not a valid HTTP header name''
          else if \<not> client_ok (ap_hook_timeout_ms cfg)
          then Inl ''failed to build auth hook HTTP client''
          else Inr \<lparr>hv_timeout_ms = ap_hook_timeout_ms cfg, hv_endpoint = url,
                    hv_secret_header = ap_hook_secret_header cfg, hv_secret = ap_hook_secret cfg\<rparr>)"

record hook_response =
  hr_active :: bool
  hr_user :: "string option"
  hr_tenant :: "string option"
  hr_device :: "string option"
  hr_app :: "string option"
  hr_expires :: "int option"
  hr_scopes :: "string list"
  hr_metadata :: "string \<rightharpoonup> string"

definition filter_opt :: "('a \<Rightarrow> bool) \<Rightarrow> 'a option \<Rightarrow> 'a option" where
  "filter_opt P o1 = (case o1 of Some x \<Rightarrow> if P x then Some x else None | None \<Rightarrow> None)"

definition into_principal :: "hook_response \<Rightarrow> auth_error + principal" where
  "into_principal r =
     (if \<not> hr_active r then Inl (InvalidToken ''auth hook returned inactive token'')
      else case filter_opt (\<lambda>v. v \<noteq> []) (map_option trim (hr_user r)) of
        None \<Rightarrow> Inl (ProviderUnavailable ''auth hook returned active principal without user_id'')
      | Some user \<Rightarrow>
          Inr \<lparr>pr_user = user,
               pr_tenant = filter_opt (\<lambda>v. trim v \<noteq> []) (hr_tenant r),
               pr_device = filter_opt (\<lambda>v. trim v \<noteq> []) (hr_device r),
               pr_app = filter_opt (\<lambda>v. trim v \<noteq> []) (hr_app r),
               pr_expires = hr_expires r, pr_scopes = hr_scopes r, pr_metadata = hr_metadata r\<rparr>)"

text \<open>
  The HTTP exchange is a parameter: from the endpoint, the header (if there is a secret) and the
  request to an error, or a status, its text, and the body as read.
\<close>

type_synonym http_exchange =
  "string \<Rightarrow> (string \<times> string) option \<Rightarrow> validation_request
     \<Rightarrow> string + nat \<times> string \<times> (string + hook_response)"

definition hook_validate ::
    "http_exchange \<Rightarrow> hook_validator \<Rightarrow> validation_request \<Rightarrow> auth_error + principal" where
  "hook_validate send hv req =
     (case send (hv_endpoint hv) (map_option (\<lambda>sec. (hv_secret_header hv, sec)) (hv_secret hv)) req of
        Inl err \<Rightarrow> Inl (ProviderUnavailable err)
      | Inr (status, shown, body) \<Rightarrow>
          if status = 401 \<or> status = 403
          then Inl (InvalidToken (''auth hook rejected token with status '' @ shown))
          else if \<not> (200 \<le> status \<and> status < 300)
          then Inl (ProviderUnavailable (''auth hook returned status '' @ shown))
          else (case body of
                  Inl err \<Rightarrow> Inl (ProviderUnavailable err)
                | Inr r \<Rightarrow> into_principal r))"

definition core_jwt_validate ::
    "jwt \<Rightarrow> 's composite_validator \<Rightarrow> nat \<Rightarrow> validation_request \<Rightarrow> 's \<Rightarrow> (auth_error + principal) \<times> 's" where
  "core_jwt_validate j v now req s =
     (case composite_validate j v now (vr_token req) s of
        (r, s') \<Rightarrow> (map_sum InvalidToken principal_of_claims r, s'))"

record trusted_issuer_config =
  tic_issuer :: string
  tic_secret :: string

fun push_trusted ::
    "trusted_issuer_config list \<Rightarrow> 's composite_validator \<Rightarrow> string + 's composite_validator" where
  "push_trusted [] v = Inr v"
| "push_trusted (t # ts) v =
     (let issuer = trim (tic_issuer t); secret = trim (tic_secret t)
      in if issuer = [] \<or> secret = []
         then Inl ''trusted token issuer and secret cannot be empty''
         else push_trusted ts (with_trusted_issuer secret issuer v))"

datatype 's any_validator = CoreValidator "'s composite_validator" | HookValidator hook_validator

definition build_core_jwt_token_validator ::
    "'s token_service \<Rightarrow> trusted_issuer_config list \<Rightarrow> string + 's any_validator" where
  "build_core_jwt_token_validator svc trusted =
     map_sum id CoreValidator (push_trusted trusted (composite_new svc))"

definition build_http_hook_token_validator ::
    "(string \<Rightarrow> bool) \<Rightarrow> (u64 \<Rightarrow> bool) \<Rightarrow> auth_provider_config \<Rightarrow> string + 's any_validator" where
  "build_http_hook_token_validator header_ok client_ok cfg =
     map_sum id HookValidator (hook_validator_new header_ok client_ok cfg)"

definition build_token_validator ::
    "(string \<Rightarrow> bool) \<Rightarrow> (u64 \<Rightarrow> bool) \<Rightarrow> auth_provider_config \<Rightarrow> 's token_service
     \<Rightarrow> trusted_issuer_config list \<Rightarrow> string + 's any_validator" where
  "build_token_validator header_ok client_ok cfg svc trusted =
     (case ap_mode cfg of
        CoreJwt \<Rightarrow> build_core_jwt_token_validator svc trusted
      | HttpHook \<Rightarrow> build_http_hook_token_validator header_ok client_ok cfg)"

definition any_validate ::
    "jwt \<Rightarrow> http_exchange \<Rightarrow> 's any_validator \<Rightarrow> nat \<Rightarrow> validation_request \<Rightarrow> 's
     \<Rightarrow> (auth_error + principal) \<times> 's" where
  "any_validate j send v now req s =
     (case v of
        CoreValidator cv \<Rightarrow> core_jwt_validate j cv now req s
      | HookValidator hv \<Rightarrow> (hook_validate send hv req, s))"

section \<open>Lemmas\<close>

lemma strip_suffix_Some: "strip_suffix x s = Some p \<longleftrightarrow> s = p @ x"
proof -
  have "strip_suffix x s = Some p \<longleftrightarrow> strip_prefix (rev x) (rev s) = Some (rev p)"
    by (cases "strip_prefix (rev x) (rev s)") (auto simp: strip_suffix_def)
  also have "\<dots> \<longleftrightarrow> s = p @ x"
    by (simp add: strip_prefix_Some_iff) (metis rev_append rev_rev_ident)
  finally show ?thesis .
qed

lemma strip_suffix_append [simp]: "strip_suffix x (p @ x) = Some p"
  by (simp add: strip_suffix_Some)

lemma generate_token_Some:
  assumes "generate_token j uuid (Inr now) svc user device tenant s = Some (Inr token, s')"
  shows "now div 1000 + svc_ttl svc < 2 ^ 64
   \<and> jwt_encode j \<lparr>tc_sub = user, tc_iss = svc_issuer svc, tc_exp = now div 1000 + svc_ttl svc,
        tc_iat = now div 1000, tc_jti = uuid, tc_device = device, tc_tenant = tenant\<rparr> (svc_secret svc)
      = Inr token
   \<and> (case svc_store svc of
        None \<Rightarrow> s' = s
      | Some st \<Rightarrow> ts_register st user uuid (svc_ttl svc) now s = (Inr (), s'))"
  using assms
  by (auto simp: generate_token_def Let_def split: if_splits sum.splits option.splits prod.splits)

lemma jwt_documented_decodes:
  "jwt_documented j \<Longrightarrow> jwt_encode j c secret = Inr token \<Longrightarrow> tc_iss c = iss
     \<Longrightarrow> now \<le> tc_exp c + JWT_LEEWAY \<Longrightarrow> jwt_decode j secret iss now token = Inr c"
  unfolding jwt_documented_def by blast

lemma jwt_documented_decoded:
  "jwt_documented j \<Longrightarrow> jwt_encode j c secret = Inr token \<Longrightarrow> jwt_decode j secret' iss now token = Inr c'
     \<Longrightarrow> c' = c \<and> tc_iss c = iss \<and> now \<le> tc_exp c + JWT_LEEWAY"
  unfolding jwt_documented_def by blast

definition issued_claims ::
    "'s token_service \<Rightarrow> nat \<Rightarrow> string \<Rightarrow> string \<Rightarrow> string option \<Rightarrow> string option \<Rightarrow> token_claims" where
  "issued_claims svc t uuid user device tenant =
     \<lparr>tc_sub = user, tc_iss = svc_issuer svc, tc_exp = t div 1000 + svc_ttl svc, tc_iat = t div 1000,
      tc_jti = uuid, tc_device = device, tc_tenant = tenant\<rparr>"

lemma issued_claims_sel [simp]:
  "tc_iss (issued_claims svc t uuid user device tenant) = svc_issuer svc"
  "tc_exp (issued_claims svc t uuid user device tenant) = t div 1000 + svc_ttl svc"
  "tc_jti (issued_claims svc t uuid user device tenant) = uuid"
  by (simp_all add: issued_claims_def)

lemma decode_generated:
  assumes "jwt_documented j" "generate_token j uuid (Inr t) svc user device tenant s = Some (Inr token, s')"
  shows "decode_claims j svc now token = Inr c \<longleftrightarrow>
     c = issued_claims svc t uuid user device tenant \<and> now div 1000 \<le> t div 1000 + svc_ttl svc + JWT_LEEWAY"
proof -
  let ?c = "issued_claims svc t uuid user device tenant"
  have e: "jwt_encode j ?c (svc_secret svc) = Inr token"
    using generate_token_Some [OF assms(2)] by (simp add: issued_claims_def)
  show ?thesis
    using jwt_documented_decodes [OF assms(1) e, of "svc_issuer svc" "now div 1000"]
      jwt_documented_decoded [OF assms(1) e, of "svc_secret svc" "svc_issuer svc" "now div 1000"]
    by (auto simp: decode_claims_def split: sum.splits)
qed

lemma validate_token_Inr:
  "validate_token j svc now token s = (Inr c, s') \<longleftrightarrow>
     decode_claims j svc now token = Inr c
     \<and> (case svc_store svc of
          None \<Rightarrow> s' = s
        | Some st \<Rightarrow> ts_is_revoked st (tc_jti c) now s = (Inr False, s'))"
  by (auto simp: validate_token_def split: sum.splits option.splits prod.splits if_splits)

lemma split_on_append: "split_on sep (p @ sep # q) = split_on sep p @ split_on sep q"
  by (induction p) (auto split: list.splits)

lemma join_with_Cons_hd: "ws \<noteq> [] \<Longrightarrow> join_with sep ((c # w) # ws) = c # join_with sep (w # ws)"
  by (cases ws) simp_all

lemma join_with_split_on: "join_with sep (split_on sep s) = s"
proof (induction s)
  case (Cons c s)
  obtain w ws where ws: "split_on sep s = w # ws" by (cases "split_on sep s") auto
  with Cons show ?case by (cases ws) auto
qed simp

lemma join_with_append:
  "xs \<noteq> [] \<Longrightarrow> ys \<noteq> [] \<Longrightarrow> join_with sep (xs @ ys) = join_with sep xs @ sep # join_with sep ys"
proof (induction xs)
  case (Cons x xs)
  then show ?case by (cases xs; cases ys) auto
qed simp

lemma prefix_segments:
  "prefix (split_on sep p) (split_on sep r) \<longleftrightarrow> r = p \<or> (\<exists>q. r = p @ sep # q)"
proof
  assume "prefix (split_on sep p) (split_on sep r)"
  then obtain zs where zs: "split_on sep r = split_on sep p @ zs" by (auto simp: prefix_def)
  show "r = p \<or> (\<exists>q. r = p @ sep # q)"
  proof (cases zs)
    case Nil
    with zs have "join_with sep (split_on sep r) = join_with sep (split_on sep p)" by simp
    then show ?thesis by (simp add: join_with_split_on)
  next
    case (Cons z zz)
    with zs have "join_with sep (split_on sep r) = join_with sep (split_on sep p) @ sep # join_with sep zs"
      by (simp add: join_with_append)
    then show ?thesis by (simp add: join_with_split_on)
  qed
qed (auto simp: split_on_append)

section \<open>Properties\<close>

text \<open>The reading of scopes by segments: a last segment that is a star stands for any number of them.\<close>

definition scope_covers :: "string list \<Rightarrow> string list \<Rightarrow> bool" where
  "scope_covers g r \<longleftrightarrow>
     g = [''*''] \<or> g = r \<or> (1 < length g \<and> last g = ''*'' \<and> prefix (butlast g) r)"

text \<open>
  Claim C33. A granted scope matches a required one exactly when, segment by segment between the
  colons, it is the same, or the star, or ends in a star segment whose other segments begin the
  required scope. So a wildcard never reaches into the middle of a segment.
\<close>

theorem scope_matches_segments:
  "scope_matches granted required =
     scope_covers (split_on CHR '':'' (trim granted)) (split_on CHR '':'' (trim required))"
proof -
  let ?g = "trim granted" and ?r = "trim required"
  have inj: "split_on CHR '':'' a = split_on CHR '':'' b \<longleftrightarrow> a = b" for a b
    by (metis join_with_split_on)
  have star: "split_on CHR '':'' ?g = [''*''] \<longleftrightarrow> ?g = ''*''"
    using inj [of ?g "''*''"] by simp
  have wild: "1 < length (split_on CHR '':'' ?g) \<and> last (split_on CHR '':'' ?g) = ''*''
      \<and> prefix (butlast (split_on CHR '':'' ?g)) (split_on CHR '':'' ?r)
    \<longleftrightarrow> (\<exists>p. ?g = p @ '':*'' \<and> (?r = p \<or> starts_with (p @ '':'') ?r))"
  proof
    assume w: "1 < length (split_on CHR '':'' ?g) \<and> last (split_on CHR '':'' ?g) = ''*''
      \<and> prefix (butlast (split_on CHR '':'' ?g)) (split_on CHR '':'' ?r)"
    let ?ps = "butlast (split_on CHR '':'' ?g)"
    have ne: "?ps \<noteq> []" using w by (cases "split_on CHR '':'' ?g" rule: rev_cases) auto
    have g: "split_on CHR '':'' ?g = ?ps @ [''*'']"
      using w by (metis append_butlast_last_id split_on_not_Nil)
    have "?g = join_with CHR '':'' (?ps @ [''*''])" by (metis g join_with_split_on)
    then have g2: "?g = join_with CHR '':'' ?ps @ '':*''" using ne by (simp add: join_with_append)
    have "\<forall>w \<in> set ?ps. CHR '':'' \<notin> set w" by (meson in_set_butlastD split_on_pieces_free)
    then have "split_on CHR '':'' (join_with CHR '':'' ?ps) = ?ps" by (rule split_on_join_with [OF ne])
    with w have "prefix (split_on CHR '':'' (join_with CHR '':'' ?ps)) (split_on CHR '':'' ?r)" by simp
    then show "\<exists>p. ?g = p @ '':*'' \<and> (?r = p \<or> starts_with (p @ '':'') ?r)"
      using g2 unfolding prefix_segments by (fastforce simp: starts_with_iff)
  next
    assume "\<exists>p. ?g = p @ '':*'' \<and> (?r = p \<or> starts_with (p @ '':'') ?r)"
    then obtain p where p: "?g = p @ '':*''" "?r = p \<or> (\<exists>q. ?r = p @ CHR '':'' # q)"
      by (auto simp: starts_with_iff)
    then have "split_on CHR '':'' ?g = split_on CHR '':'' p @ [''*'']"
      using split_on_append [of "CHR '':''" p "''*''"] by simp
    with p(2) show "1 < length (split_on CHR '':'' ?g) \<and> last (split_on CHR '':'' ?g) = ''*''
      \<and> prefix (butlast (split_on CHR '':'' ?g)) (split_on CHR '':'' ?r)"
      by (simp add: prefix_segments Suc_lessI)
  qed
  show ?thesis
    unfolding scope_covers_def star inj wild
    by (auto simp: scope_matches_def Let_def strip_suffix_Some split: option.splits)
qed

lemma redis_token_store_simps [simp]:
  "ts_register (redis_token_store srv ns) user jti ttl t db = register srv ns user jti ttl t db"
  "ts_is_revoked (redis_token_store srv ns) jti t db = is_revoked srv ns jti t db"
  by (simp_all add: redis_token_store_def)


text \<open>A JWT library for the witnesses: the secret and the fields as texts with their lengths.\<close>

definition opt_text :: "string option \<Rightarrow> string" where
  "opt_text o1 = (case o1 of None \<Rightarrow> [] | Some x \<Rightarrow> CHR ''s'' # x)"

definition text_opt :: "string \<Rightarrow> string option" where
  "text_opt s = (if s = [] then None else Some (tl s))"

lemma text_opt_text [simp]: "text_opt (opt_text o1) = o1"
  by (cases o1) (simp_all add: text_opt_def opt_text_def)

definition plain_token :: "token_claims \<Rightarrow> string \<Rightarrow> string" where
  "plain_token c secret = encode_text secret @ encode_text (tc_sub c) @ encode_text (tc_iss c)
     @ encode_text (unary_int (int (tc_exp c))) @ encode_text (unary_int (int (tc_iat c)))
     @ encode_text (tc_jti c) @ encode_text (opt_text (tc_device c)) @ encode_text (opt_text (tc_tenant c))"

definition plain_jwt :: jwt where
  "plain_jwt =
     \<lparr>jwt_encode = (\<lambda>c secret. Inr (plain_token c secret)),
      jwt_decode = (\<lambda>secret iss now token.
        (let (k, b0) = decode_text token; (sub, b1) = decode_text b0; (i, b2) = decode_text b1;
             (e, b3) = decode_text b2; (a, b4) = decode_text b3; (t, b5) = decode_text b4;
             (d, b6) = decode_text b5; (n, b7) = decode_text b6
         in if k \<noteq> secret then Inl ''InvalidSignature''
            else if i \<noteq> iss then Inl ''InvalidIssuer''
            else if nat (int_of_unary e) + JWT_LEEWAY < now then Inl ''ExpiredSignature''
            else Inr \<lparr>tc_sub = sub, tc_iss = i, tc_exp = nat (int_of_unary e),
                      tc_iat = nat (int_of_unary a), tc_jti = t, tc_device = text_opt d,
                      tc_tenant = text_opt n\<rparr>))\<rparr>"

lemma plain_jwt_decodes:
  "jwt_decode plain_jwt secret iss now (plain_token c k) =
     (if k \<noteq> secret then Inl ''InvalidSignature''
      else if tc_iss c \<noteq> iss then Inl ''InvalidIssuer''
      else if tc_exp c + JWT_LEEWAY < now then Inl ''ExpiredSignature''
      else Inr c)"
  by (simp add: plain_jwt_def plain_token_def)

lemma plain_jwt_accepts:
  "jwt_decode plain_jwt secret iss now token = Inr c \<Longrightarrow> tc_iss c = iss \<and> now \<le> tc_exp c + JWT_LEEWAY"
  by (auto simp: plain_jwt_def Let_def split: prod.splits if_splits)

lemma plain_jwt_encode: "jwt_encode plain_jwt c secret = Inr (plain_token c secret)"
  by (simp add: plain_jwt_def)

lemma plain_jwt_documented: "jwt_documented plain_jwt"
  unfolding jwt_documented_def
  by (auto simp: plain_jwt_encode plain_jwt_decodes split: if_splits dest: plain_jwt_accepts)

definition plain_service :: "redis_db token_service" where
  "plain_service = with_store (redis_token_store plain_redis ''n'') (token_service_new ''k'' ''i'' 60)"

lemma plain_service_simps [simp]:
  "svc_store plain_service = Some (redis_token_store plain_redis ''n'')" "svc_ttl plain_service = 60"
  by (simp_all add: plain_service_def with_store_def token_service_new_def)

lemma plain_generate:
  obtains token db1 where
    "generate_token plain_jwt ''a'' (Inr 0) plain_service ''u'' None None Map.empty = Some (Inr token, db1)"
    "register plain_redis ''n'' ''u'' ''a'' 60 0 Map.empty = (Inr (), db1)"
  by (simp add: generate_token_def Let_def plain_jwt_encode redis_eval)


text \<open>
  Claim C35. The leeway outlives the revocation: a token revoked in its first minute with the time to
  live of its service is accepted again once that time has passed, until a minute after its expiry,
  whenever the check of the store answers.
\<close>

theorem revoked_token_returns:
  assumes "redis_documented srv" and "jwt_documented j"
    and "svc_store svc = Some (redis_token_store srv ns)" and "0 < svc_ttl svc"
    and "generate_token j jti (Inr s) svc user device tenant db0 = Some (Inr token, db1)"
    and "revoke srv ns user jti (svc_ttl svc) t db1 = (Inr (), db2)"
    and "t + 1000 * svc_ttl svc \<le> now" and "now div 1000 \<le> s div 1000 + svc_ttl svc + JWT_LEEWAY"
    and "is_revoked srv ns jti now db2 = (Inr b, db3)"
  shows "validate_token j svc now token db2 = (Inr (issued_claims svc s jti user device tenant), db3)"
proof -
  have ttl: "max (svc_ttl svc) 1 = svc_ttl svc" using assms(4) by simp
  obtain x1 dbx x2 where
    "redis_call srv ''failed to set revoked key'' (SetEx (revoked_key ns jti) ''1'' (svc_ttl svc)) t dbx = (Inr x2, db2)"
    using assms(6) unfolding revoke_def Let_def redis_then_Inr ttl by auto
  from redis_call_Inr [OF assms(1) this] have dead: "redis_live now db2 (revoked_key ns jti) = None"
    using assms(7) by (simp add: redis_live_def)
  obtain x0 db' r db'' where
    c: "redis_call srv ''failed to get redis connection'' GetConnection now db2 = (Inr x0, db')"
    and m: "redis_call srv ''failed to check revoked key'' (ExistsKey (revoked_key ns jti)) now db' = (Inr r, db'')"
    and f: "(case r of ReplyBool b \<Rightarrow> (Inr b, db'') | _ \<Rightarrow> (Inl ''failed to check revoked key'', db'')) = (Inr b, db3)"
    using assms(9) unfolding is_revoked_def redis_then_Inr by blast
  have "redis_reply_ok (ExistsKey (revoked_key ns jti)) now db2 r"
    using redis_call_Inr [OF assms(1) c] redis_call_Inr [OF assms(1) m] by simp
  with f dead have "\<not> b" by (auto simp: redis_reply_ok_def split: redis_reply.splits)
  then show ?thesis
    using assms(3, 8, 9) decode_generated [OF assms(2, 5)] by (simp add: validate_token_Inr)
qed

theorem revoked_token_returns_witness:
  "\<exists>token db1 db2 db3.
     generate_token plain_jwt ''a'' (Inr 0) plain_service ''u'' None None Map.empty = Some (Inr token, db1)
   \<and> revoke plain_redis ''n'' ''u'' ''a'' 60 10000 db1 = (Inr (), db2)
   \<and> is_revoked plain_redis ''n'' ''a'' 69999 db2 = (Inr True, db2)
   \<and> validate_token plain_jwt plain_service 70000 token db2
       = (Inr (issued_claims plain_service 0 ''a'' ''u'' None None), db3)"
proof -
  obtain token db1 where
    1: "generate_token plain_jwt ''a'' (Inr 0) plain_service ''u'' None None Map.empty = Some (Inr token, db1)"
    and r: "register plain_redis ''n'' ''u'' ''a'' 60 0 Map.empty = (Inr (), db1)"
    by (rule plain_generate)
  obtain db2 where 2: "revoke plain_redis ''n'' ''u'' ''a'' 60 10000 db1 = (Inr (), db2)"
    and 3: "is_revoked plain_redis ''n'' ''a'' 69999 db2 = (Inr True, db2)"
    and 4: "is_revoked plain_redis ''n'' ''a'' 70000 db2 = (Inr False, db2)"
    using r by (auto simp: redis_eval)
  have "validate_token plain_jwt plain_service 70000 token db2
       = (Inr (issued_claims plain_service 0 ''a'' ''u'' None None), db2)"
    by (rule revoked_token_returns [OF plain_redis_documented plain_jwt_documented _ _ 1 _ _ _ 4])
      (use 2 in \<open>auto simp: JWT_LEEWAY_def\<close>)
  with 1 2 3 show ?thesis by blast
qed

text \<open>
  A further issuer with the secret and the issuer of the primary service accepts the tokens that the
  primary service has revoked: the store is not asked for it.
\<close>

theorem trusted_twin_ignores_revocation:
  assumes "decode_claims j (cv_primary v) now token = Inr c"
    and "\<lparr>ti_secret = svc_secret (cv_primary v), ti_issuer = svc_issuer (cv_primary v)\<rparr> \<in> set (cv_trusted v)"
  shows "\<exists>c'. fst (composite_validate j v now token s) = Inr c'"
proof -
  have d: "jwt_decode j (svc_secret (cv_primary v)) (svc_issuer (cv_primary v)) (now div 1000) token = Inr c"
    using assms(1) by (simp add: decode_claims_def split: sum.splits)
  have loop: "\<exists>c'. trusted_loop j tis now token e = Inr c'"
    if "\<lparr>ti_secret = svc_secret (cv_primary v), ti_issuer = svc_issuer (cv_primary v)\<rparr> \<in> set tis" for tis e
    using that by (induction tis arbitrary: e) (auto simp: trusted_validate_def d split: sum.splits)
  show ?thesis
    using loop [OF assms(2), of None]
    by (auto simp: composite_validate_def split: prod.splits sum.splits)
qed

end
