(* ===== verification/Http_Api.thy ===== *)
theory Http_Api
  imports Auth_Token Error_Values
begin

text \<open>
  The HTTP side of \<^verbatim>\<open>flare-core-transport/src/http\<close>: the context read from headers (\<^verbatim>\<open>context.rs\<close>), the
  two authentication middlewares (\<^verbatim>\<open>middleware/auth.rs\<close>), the response body and the status of an error
  (\<^verbatim>\<open>response/mod.rs\<close>, \<^verbatim>\<open>error.rs\<close>). The rate limiter is in \<open>Limits\<close>.

  A header map is the list of values of each lower-case name. Which values are text is a parameter
  \<open>vis\<close> of the header library: \<^verbatim>\<open>to_str\<close> and \<^verbatim>\<open>HeaderValue::from_str\<close> succeed exactly on those.
\<close>

section \<open>Header maps\<close>

type_synonym http_headers = "string \<Rightarrow> string list"

definition hget :: "http_headers \<Rightarrow> string \<Rightarrow> string option" where
  "hget m k = (case m k of [] \<Rightarrow> None | v # vs \<Rightarrow> Some v)"

definition hinsert :: "string \<Rightarrow> string \<Rightarrow> http_headers \<Rightarrow> http_headers" where
  "hinsert k v m = m(k := [v])"

definition hremove :: "string \<Rightarrow> http_headers \<Rightarrow> http_headers" where
  "hremove k m = m(k := [])"

lemma hget_simps [simp]:
  "hget (hinsert k v m) k' = (if k' = k then Some v else hget m k')"
  "hget (hremove k m) k' = (if k' = k then None else hget m k')"
  by (simp_all add: hget_def hinsert_def hremove_def)

definition header_value :: "(string \<Rightarrow> bool) \<Rightarrow> http_headers \<Rightarrow> string \<Rightarrow> string option" where
  "header_value vis m k =
     filter_opt (\<lambda>v. v \<noteq> []) (map_option trim (filter_opt vis (hget m k)))"

text \<open>The two identifiers are those generated when the headers have none.\<close>

definition from_headers ::
    "(string \<Rightarrow> bool) \<Rightarrow> string \<Rightarrow> string \<Rightarrow> http_headers \<Rightarrow> request_context" where
  "from_headers vis fresh_request fresh_trace m =
     (let get = header_value vis m;
          set_if = (\<lambda>v f c. case v of Some x \<Rightarrow> f x c | None \<Rightarrow> c);
          req = (case get ''x-request-id'' of Some r \<Rightarrow> r | None \<Rightarrow> fresh_request);
          tr = (case get ''x-trace-id'' of Some t \<Rightarrow> t | None \<Rightarrow> fresh_trace);
          c0 = with_trace_id tr (with_request_id req);
          c1 = set_if (get ''x-user-id'') with_user_id c0;
          c2 = set_if (get ''x-tenant-id'') with_tenant_id c1;
          c3 = set_if (get ''x-device-id'') with_device_id c2;
          c4 = set_if (case get ''x-platform'' of Some p \<Rightarrow> Some p | None \<Rightarrow> get ''x-device-platform'')
                 with_platform c3
      in set_if (get ''x-session-id'') with_session_id c4)"

definition http_require_user_id :: "request_context \<Rightarrow> string + string" where
  "http_require_user_id c =
     (case filter_opt (\<lambda>v. v \<noteq> []) (user_id c) of
        Some u \<Rightarrow> Inr u
      | None \<Rightarrow> Inl ''User ID is required but not present in context'')"

section \<open>Responses and errors\<close>

record 'a api_response =
  api_code :: int
  api_data :: "'a option"
  api_reason :: "string option"
  api_message :: "string option"
  api_track :: "string option"

definition api_success :: "'a \<Rightarrow> 'a api_response" where
  "api_success x =
     \<lparr>api_code = 0, api_data = Some x, api_reason = None, api_message = None, api_track = None\<rparr>"

definition api_error :: "int \<Rightarrow> string \<Rightarrow> string \<Rightarrow> 'a api_response" where
  "api_error c rsn msg =
     \<lparr>api_code = c, api_data = None, api_reason = Some rsn, api_message = Some msg, api_track = None\<rparr>"

definition api_error_with_track :: "int \<Rightarrow> string \<Rightarrow> string \<Rightarrow> string \<Rightarrow> 'a api_response" where
  "api_error_with_track c rsn msg track =
     \<lparr>api_code = c, api_data = None, api_reason = Some rsn, api_message = Some msg,
      api_track = Some track\<rparr>"

definition api_is_success :: "'a api_response \<Rightarrow> bool" where
  "api_is_success r \<longleftrightarrow> api_code r = 0"

definition api_is_error :: "'a api_response \<Rightarrow> bool" where
  "api_is_error r \<longleftrightarrow> api_code r > 0"

definition api_from_code :: "error_code \<Rightarrow> 'a api_response" where
  "api_from_code c =
     \<lparr>api_code = sint (as_u32 c), api_data = None, api_reason = Some (code_str c),
      api_message = Some (code_str c), api_track = None\<rparr>"

definition is_http_error_code :: "int \<Rightarrow> bool" where
  "is_http_error_code c \<longleftrightarrow> 400 \<le> c \<and> c \<le> 599"

definition api_from_flare :: "flare_error \<Rightarrow> 'a api_response" where
  "api_from_flare err =
     (let (original_code, rsn, msg) = (case err of
          Localized c r d ps t \<Rightarrow>
            (sint (as_u32 c), r, (case d of Some x \<Rightarrow> x | None \<Rightarrow> []))
        | SystemError m \<Rightarrow> (sint (as_u32 InternalError), ''internal'', m)
        | IoError m \<Rightarrow> (sint (as_u32 NetworkError), ''network'', m));
          final_code = (if is_http_error_code original_code then original_code
                        else sint (as_u32 HttpInternalServerError))
      in \<lparr>api_code = final_code, api_data = None, api_reason = Some rsn, api_message = Some msg,
          api_track = None\<rparr>)"

definition api_from_proto_error :: "error_detail \<Rightarrow> 'a api_response" where
  "api_from_proto_error d =
     \<lparr>api_code = (if is_http_error_code (detail_code d) then detail_code d
                  else sint (as_u32 HttpInternalServerError)),
      api_data = None, api_reason = Some (detail_reason d), api_message = Some (detail_message d),
      api_track = Some (detail_track d)\<rparr>"

definition or_empty :: "string option \<Rightarrow> string" where
  "or_empty v = (case v of Some x \<Rightarrow> x | None \<Rightarrow> [])"

definition api_to_proto_error :: "'a api_response \<Rightarrow> error_detail option" where
  "api_to_proto_error r =
     (if api_is_error r then
        Some \<lparr>detail_code = api_code r, detail_reason = or_empty (api_reason r),
              detail_message = or_empty (api_message r), detail_track = or_empty (api_track r)\<rparr>
      else None)"

text \<open>HTTP statuses as their numbers.\<close>

definition status_from_flare_error :: "flare_error \<Rightarrow> nat" where
  "status_from_flare_error e =
     (case flare_code e of
        Some HttpBadRequest \<Rightarrow> 400
      | Some HttpUnauthorized \<Rightarrow> 401
      | Some HttpForbidden \<Rightarrow> 403
      | Some HttpNotFound \<Rightarrow> 404
      | Some HttpMethodNotAllowed \<Rightarrow> 405
      | Some HttpRequestTimeout \<Rightarrow> 408
      | Some HttpConflict \<Rightarrow> 409
      | Some HttpUnprocessableEntity \<Rightarrow> 422
      | Some HttpTooManyRequests \<Rightarrow> 429
      | Some HttpBadGateway \<Rightarrow> 502
      | Some HttpServiceUnavailable \<Rightarrow> 503
      | Some HttpGatewayTimeout \<Rightarrow> 504
      | Some HttpInternalServerError \<Rightarrow> 500
      | _ \<Rightarrow> 500)"

definition http_error_response :: "flare_error \<Rightarrow> nat \<times> unit api_response" where
  "http_error_response e = (status_from_flare_error e, api_from_flare e)"

definition http_not_found :: "timestamp \<Rightarrow> string \<Rightarrow> flare_error" where
  "http_not_found now msg =
     build_error now (builder_details msg (error_builder_new HttpNotFound ''NOT_FOUND''))"

definition http_bad_request :: "timestamp \<Rightarrow> string \<Rightarrow> string \<Rightarrow> flare_error" where
  "http_bad_request now rsn msg =
     build_error now (builder_details msg (error_builder_new HttpBadRequest rsn))"

definition http_internal :: "timestamp \<Rightarrow> string \<Rightarrow> string \<Rightarrow> flare_error" where
  "http_internal now rsn msg =
     build_error now (builder_details msg (error_builder_new HttpInternalServerError rsn))"

definition http_of_json :: "timestamp \<Rightarrow> string \<Rightarrow> flare_error" where
  "http_of_json now err = http_bad_request now ''SERIALIZATION_ERROR'' err"

definition http_of_status :: "timestamp \<Rightarrow> grpc_status \<Rightarrow> flare_error" where
  "http_of_status now st =
     build_error now (builder_details (status_message st) (error_builder_new HttpBadGateway ''GRPC_ERROR''))"

definition http_of_anyhow :: "timestamp \<Rightarrow> string \<Rightarrow> flare_error" where
  "http_of_anyhow now err = http_internal now ''INTERNAL_ERROR'' err"

section \<open>Authentication\<close>

datatype http_outcome = Respond nat "unit api_response" | PassOn http_headers

definition unauthorized :: http_outcome where
  "unauthorized = Respond 401 (api_from_code HttpUnauthorized)"

definition strip_identity :: "http_headers \<Rightarrow> http_headers" where
  "strip_identity m = hremove ''x-tenant-id'' (hremove ''x-device-id'' (hremove ''x-user-id'' m))"

definition insert_if :: "(string \<Rightarrow> bool) \<Rightarrow> string \<Rightarrow> string option \<Rightarrow> http_headers \<Rightarrow> http_headers" where
  "insert_if vis k v m = (case v of Some x \<Rightarrow> if vis x then hinsert k x m else m | None \<Rightarrow> m)"

definition inject_claims :: "(string \<Rightarrow> bool) \<Rightarrow> token_claims \<Rightarrow> http_headers \<Rightarrow> http_headers" where
  "inject_claims vis c m =
     insert_if vis ''x-tenant-id'' (tc_tenant c)
       (insert_if vis ''x-device-id'' (tc_device c)
         (insert_if vis ''x-user-id'' (Some (tc_sub c)) m))"

definition auth_middleware ::
    "(string \<Rightarrow> bool) \<Rightarrow> jwt \<Rightarrow> 's token_service \<Rightarrow> nat \<Rightarrow> http_headers \<Rightarrow> 's \<Rightarrow> http_outcome \<times> 's" where
  "auth_middleware vis j svc now m s =
     (case filter_opt vis (hget m ''authorization'') of
        None \<Rightarrow> (unauthorized, s)
      | Some auth_header \<Rightarrow>
          if \<not> starts_with ''Bearer '' auth_header then (unauthorized, s)
          else
            (let token = drop 7 auth_header
             in if token = [] then (unauthorized, s)
                else (case validate_token j svc now token s of
                        (Inr claims, s') \<Rightarrow> (PassOn (inject_claims vis claims (strip_identity m)), s')
                      | (Inl err, s') \<Rightarrow> (unauthorized, s'))))"

definition optional_auth_middleware ::
    "(string \<Rightarrow> bool) \<Rightarrow> jwt \<Rightarrow> 's token_service \<Rightarrow> nat \<Rightarrow> http_headers \<Rightarrow> 's \<Rightarrow> http_outcome \<times> 's" where
  "optional_auth_middleware vis j svc now m s =
     (let m1 = strip_identity m
      in case filter_opt vis (hget m1 ''authorization'') of
           None \<Rightarrow> (PassOn m1, s)
         | Some auth_header \<Rightarrow>
             if starts_with ''Bearer '' auth_header then
               (case validate_token j svc now (drop 7 auth_header) s of
                  (Inr claims, s') \<Rightarrow> (PassOn (inject_claims vis claims m1), s')
                | (Inl err, s') \<Rightarrow> (PassOn m1, s'))
             else (PassOn m1, s))"

section \<open>Properties\<close>

lemma validate_token_cases:
  obtains c s' where "validate_token j svc now token s = (Inr c, s')"
  | err s' where "validate_token j svc now token s = (Inl err, s')"
  by (cases "validate_token j svc now token s"; cases "fst (validate_token j svc now token s)") auto

lemma hget_insert_if:
  "hget (insert_if vis k v m) k' =
     (if k' = k \<and> filter_opt vis v \<noteq> None then filter_opt vis v else hget m k')"
  by (auto simp: insert_if_def filter_opt_def split: option.splits)

lemma hget_strip_identity:
  "hget (strip_identity m) k =
     (if k \<in> {''x-user-id'', ''x-device-id'', ''x-tenant-id''} then None else hget m k)"
  by (simp add: strip_identity_def)

lemma header_value_hget: "hget m k = hget m' k' \<Longrightarrow> header_value vis m k = header_value vis m' k'"
  by (simp add: header_value_def)

text \<open>What of a claim arrives in a context: text that is not only white space, trimmed.\<close>

definition claim_text :: "(string \<Rightarrow> bool) \<Rightarrow> string option \<Rightarrow> string option" where
  "claim_text vis v = filter_opt (\<lambda>x. x \<noteq> []) (map_option trim (filter_opt vis v))"

lemma filter_opt_idem [simp]: "filter_opt P (filter_opt P v) = filter_opt P v"
  by (cases v) (simp_all add: filter_opt_def)

lemma injected_values:
  "header_value vis (inject_claims vis c (strip_identity m)) ''x-user-id'' = claim_text vis (Some (tc_sub c))"
  "header_value vis (inject_claims vis c (strip_identity m)) ''x-device-id'' = claim_text vis (tc_device c)"
  "header_value vis (inject_claims vis c (strip_identity m)) ''x-tenant-id'' = claim_text vis (tc_tenant c)"
  by (simp_all add: header_value_def inject_claims_def hget_insert_if hget_strip_identity claim_text_def
      del: hget_simps) (auto simp: filter_opt_def)

lemma stripped_values:
  "k \<in> {''x-user-id'', ''x-device-id'', ''x-tenant-id''} \<Longrightarrow> header_value vis (strip_identity m) k = None"
  by (auto simp: header_value_def hget_strip_identity filter_opt_def simp del: hget_simps)

lemma from_headers_identity:
  "user_id (from_headers vis fr ft m) = header_value vis m ''x-user-id''"
  "tenant_id (from_headers vis fr ft m) = header_value vis m ''x-tenant-id''"
  "device_id (from_headers vis fr ft m) = header_value vis m ''x-device-id''"
  by (simp_all add: from_headers_def Let_def context_builders split: option.split)

definition identity_of :: "request_context \<Rightarrow> string option \<times> string option \<times> string option" where
  "identity_of c = (user_id c, tenant_id c, device_id c)"

definition token_identity ::
    "(string \<Rightarrow> bool) \<Rightarrow> token_claims \<Rightarrow> string option \<times> string option \<times> string option" where
  "token_identity vis c =
     (claim_text vis (Some (tc_sub c)), claim_text vis (tc_tenant c), claim_text vis (tc_device c))"

lemma injected_identity:
  "identity_of (from_headers vis fr ft (inject_claims vis c (strip_identity m))) = token_identity vis c"
  by (simp add: identity_of_def token_identity_def from_headers_identity injected_values)

lemma stripped_identity: "identity_of (from_headers vis fr ft (strip_identity m)) = (None, None, None)"
  by (simp add: identity_of_def from_headers_identity stripped_values)

lemma bearer_prefix: "starts_with ''Bearer '' h \<Longrightarrow> h = ''Bearer '' @ drop 7 h"
  by (auto simp: starts_with_iff)

text \<open>
  Claim C5. A request that passes the authentication carries the identity of its token and nothing
  else: the bearer token was validated, and user, tenant and device of the context read from the
  passed headers are the token's (when they are visible text), whatever the client has put into the
  headers of these names; any other request gets status 401. The optional middleware passes every
  request, with the identity of a valid token or with none.
\<close>

theorem http_identity_from_token:
  "(case fst (auth_middleware vis j svc now m s) of
      Respond status body \<Rightarrow> status = 401
    | PassOn m1 \<Rightarrow> \<exists>token claims. hget m ''authorization'' = Some (''Bearer '' @ token)
        \<and> fst (validate_token j svc now token s) = Inr claims
        \<and> identity_of (from_headers vis fr ft m1) = token_identity vis claims)
   \<and> (case fst (optional_auth_middleware vis j svc now m s) of
      Respond status body \<Rightarrow> False
    | PassOn m2 \<Rightarrow> identity_of (from_headers vis fr ft m2) = (None, None, None)
        \<or> (\<exists>token claims. hget m ''authorization'' = Some (''Bearer '' @ token)
            \<and> fst (validate_token j svc now token s) = Inr claims
            \<and> identity_of (from_headers vis fr ft m2) = token_identity vis claims))"
proof (cases "\<exists>h. hget m ''authorization'' = Some h \<and> vis h \<and> starts_with ''Bearer '' h")
  case False
  then show ?thesis
    by (auto simp: auth_middleware_def optional_auth_middleware_def unauthorized_def filter_opt_def
        hget_strip_identity stripped_identity split: option.splits simp del: hget_simps)
next
  case True
  then obtain h where h: "hget m ''authorization'' = Some h" "vis h" "starts_with ''Bearer '' h" by blast
  have h2: "hget (strip_identity m) ''authorization'' = Some h"
    by (simp add: hget_strip_identity h(1) del: hget_simps)
  have tok: "hget m ''authorization'' = Some (''Bearer '' @ drop 7 h)"
    using h(1) bearer_prefix [OF h(3)] by simp
  show ?thesis
  proof (cases rule: validate_token_cases [of j svc now "drop 7 h" s])
    case (1 c s')
    have a: "\<exists>token claims. hget m ''authorization'' = Some (''Bearer '' @ token)
        \<and> fst (validate_token j svc now token s) = Inr claims
        \<and> identity_of (from_headers vis fr ft (inject_claims vis c (strip_identity m))) = token_identity vis claims"
      using tok 1 injected_identity by (intro exI [of _ "drop 7 h"] exI [of _ c]) simp
    have "fst (auth_middleware vis j svc now m s) = (if drop 7 h = [] then unauthorized
        else PassOn (inject_claims vis c (strip_identity m)))"
      using h 1 by (simp add: auth_middleware_def filter_opt_def Let_def del: drop_eq_Nil)
    moreover have "fst (optional_auth_middleware vis j svc now m s)
        = PassOn (inject_claims vis c (strip_identity m))"
      using h h2 1 by (simp add: optional_auth_middleware_def filter_opt_def Let_def)
    ultimately show ?thesis using a by (simp add: unauthorized_def)
  next
    case (2 err s')
    have "fst (auth_middleware vis j svc now m s) = unauthorized"
      using h 2 by (simp add: auth_middleware_def filter_opt_def Let_def)
    moreover have "fst (optional_auth_middleware vis j svc now m s) = PassOn (strip_identity m)"
      using h h2 2 by (simp add: optional_auth_middleware_def filter_opt_def Let_def)
    ultimately show ?thesis by (simp add: unauthorized_def stripped_identity)
  qed
qed

lemma as_i32: "sint (as_u32 c) = int (unat (as_u32 c))"
  by (rule sint_as_u32)

text \<open>
  The body of an error's HTTP response carries the response's own status as its code, it is
  one of 400 to 599, and it is read back as an error with that code by the protocol's form.
\<close>

theorem error_body_has_status:
  "let (status, body) = http_error_response e
   in api_code body = int status \<and> 400 \<le> status \<and> status \<le> 599 \<and> api_is_error body
    \<and> (\<exists>d. api_to_proto_error body = Some d
         \<and> api_code (api_from_proto_error d) = int status
         \<and> api_reason (api_from_proto_error d) = api_reason body)"
proof -
  have code: "(if is_http_error_code (sint (as_u32 c)) then sint (as_u32 c)
      else sint (as_u32 HttpInternalServerError)) = int (status_from_flare_error (Localized c r d ps t))" for c r d ps t
    by (cases c) (simp_all add: status_from_flare_error_def is_http_error_code_def)
  have range: "400 \<le> status_from_flare_error e \<and> status_from_flare_error e \<le> 599"
    by (auto simp: status_from_flare_error_def split: option.split error_code.split)
  have body: "api_code (api_from_flare e :: unit api_response) = int (status_from_flare_error e)"
  proof (cases e)
    case (Localized c r d ps t)
    then show ?thesis using code [of c r d ps t] by (simp add: api_from_flare_def del: as_u32.simps)
  qed (simp_all add: api_from_flare_def is_http_error_code_def status_from_flare_error_def)
  moreover have "\<exists>r. api_reason (api_from_flare e :: unit api_response) = Some r"
    by (cases e) (simp_all add: api_from_flare_def)
  ultimately show ?thesis using range
    by (auto simp: http_error_response_def api_is_error_def api_to_proto_error_def
        api_from_proto_error_def is_http_error_code_def or_empty_def)
qed

end
