(* ===== verification/Limits.thy ===== *)
theory Limits
  imports Error_Values
begin

text \<open>
  The request limits of \<^verbatim>\<open>flare-core-transport\<close>: the token buckets of \<^verbatim>\<open>http/middleware/rate_limit.rs\<close>,
  the concurrency limit of \<^verbatim>\<open>grpc/middleware/rate_limit.rs\<close>, and the retry policies of
  \<^verbatim>\<open>grpc/retry\<close>.

  Times are nanoseconds. The number of tokens earned in a time is computed with floating point
  numbers, \<^verbatim>\<open>(elapsed.as_secs_f64() * rate as f64) as u32\<close>: it is a parameter \<open>earn\<close>, of which the
  properties assume nothing. The addition of a release build wraps around.
\<close>

section \<open>Token buckets\<close>

record client_state =
  cl_tokens :: u32
  cl_update :: nat

record rate_limiter =
  rl_rate :: u32
  rl_burst :: u32
  rl_clients :: "string \<rightharpoonup> client_state"

definition rate_limiter_new :: "u32 \<Rightarrow> u32 \<Rightarrow> rate_limiter" where
  "rate_limiter_new rate burst = \<lparr>rl_rate = rate, rl_burst = burst, rl_clients = Map.empty\<rparr>"

text \<open>The difference of two instants is zero when the second is the later.\<close>

definition limiter_entry :: "nat \<Rightarrow> string \<Rightarrow> rate_limiter \<Rightarrow> client_state" where
  "limiter_entry now client lim =
     (case rl_clients lim client of
        Some st \<Rightarrow> st
      | None \<Rightarrow> \<lparr>cl_tokens = rl_burst lim, cl_update = now\<rparr>)"

definition check_limit ::
    "(nat \<Rightarrow> u32 \<Rightarrow> u32) \<Rightarrow> nat \<Rightarrow> string \<Rightarrow> rate_limiter \<Rightarrow> bool \<times> rate_limiter" where
  "check_limit earn now client lim =
     (let st = limiter_entry now client lim;
          elapsed = now - cl_update st;
          tokens_to_add = earn elapsed (rl_rate lim);
          tokens = min (cl_tokens st + tokens_to_add) (rl_burst lim)
      in if tokens > 0
         then (True, lim\<lparr>rl_clients := (rl_clients lim)(client \<mapsto>
                 \<lparr>cl_tokens = tokens - 1, cl_update = now\<rparr>)\<rparr>)
         else (False, lim\<lparr>rl_clients := (rl_clients lim)(client \<mapsto>
                 \<lparr>cl_tokens = tokens, cl_update = now\<rparr>)\<rparr>))"

text \<open>A sequence of requests, each with its time and client; the answers in order.\<close>

fun limiter_run ::
    "(nat \<Rightarrow> u32 \<Rightarrow> u32) \<Rightarrow> (nat \<times> string) list \<Rightarrow> rate_limiter \<Rightarrow> bool list \<times> rate_limiter" where
  "limiter_run earn [] lim = ([], lim)"
| "limiter_run earn ((now, client) # rs) lim =
     (case check_limit earn now client lim of
        (b, lim1) \<Rightarrow> (case limiter_run earn rs lim1 of (bs, lim2) \<Rightarrow> (b # bs, lim2)))"

fun admitted :: "string \<Rightarrow> (nat \<times> string) list \<Rightarrow> bool list \<Rightarrow> nat" where
  "admitted client ((now, c) # rs) (b # bs) =
     (if c = client \<and> b then 1 else 0) + admitted client rs bs"
| "admitted client rs bs = 0"

text \<open>What a client earns over a sequence of requests, from its last one on.\<close>

fun earned :: "(nat \<Rightarrow> u32 \<Rightarrow> u32) \<Rightarrow> u32 \<Rightarrow> string \<Rightarrow> nat option \<Rightarrow> (nat \<times> string) list \<Rightarrow> nat" where
  "earned earn rate client prev [] = 0"
| "earned earn rate client prev ((now, c) # rs) =
     (if c = client
      then unat (earn (case prev of Some p \<Rightarrow> now - p | None \<Rightarrow> 0) rate)
             + earned earn rate client (Some now) rs
      else earned earn rate client prev rs)"

text \<open>The number of a client's tokens: all of the burst before its first request.\<close>

definition tokens_of :: "rate_limiter \<Rightarrow> string \<Rightarrow> nat" where
  "tokens_of lim client =
     (case rl_clients lim client of Some st \<Rightarrow> unat (cl_tokens st) | None \<Rightarrow> unat (rl_burst lim))"

definition last_seen :: "rate_limiter \<Rightarrow> string \<Rightarrow> nat option" where
  "last_seen lim client = map_option cl_update (rl_clients lim client)"

definition limiter_ok :: "rate_limiter \<Rightarrow> bool" where
  "limiter_ok lim \<longleftrightarrow> (\<forall>c st. rl_clients lim c = Some st \<longrightarrow> cl_tokens st \<le> rl_burst lim)"

section \<open>Other limits\<close>

record concurrency_layer =
  max_concurrent :: nat

definition concurrency_layer_new :: "nat \<Rightarrow> concurrency_layer" where
  "concurrency_layer_new n = \<lparr>max_concurrent = max n 1\<rparr>"

text \<open>\<open>limit\<close> is what the library makes of a number of permits and a service.\<close>

definition concurrency_layer_apply :: "(nat \<Rightarrow> 'svc \<Rightarrow> 'lim) \<Rightarrow> concurrency_layer \<Rightarrow> 'svc \<Rightarrow> 'lim" where
  "concurrency_layer_apply limit l svc = limit (max_concurrent l) svc"

text \<open>The two retry policies; durations are milliseconds.\<close>

record fixed_policy =
  fp_attempts :: nat
  fp_delay :: nat

record exponential_policy =
  xp_attempts :: nat
  xp_base :: nat
  xp_max :: nat

definition retryable_grpc :: "grpc_code \<Rightarrow> bool" where
  "retryable_grpc c \<longleftrightarrow> c \<in> {GrpcUnavailable, GrpcDeadlineExceeded, GrpcResourceExhausted}"

definition fixed_should_retry :: "fixed_policy \<Rightarrow> nat \<Rightarrow> grpc_status \<Rightarrow> bool" where
  "fixed_should_retry p attempt st \<longleftrightarrow>
     (if attempt \<ge> fp_attempts p then False else retryable_grpc (status_code st))"

definition fixed_backoff :: "fixed_policy \<Rightarrow> nat \<Rightarrow> nat" where
  "fixed_backoff p attempt = fp_delay p"

definition exponential_should_retry :: "exponential_policy \<Rightarrow> nat \<Rightarrow> grpc_status \<Rightarrow> bool" where
  "exponential_should_retry p attempt st \<longleftrightarrow>
     (if attempt \<ge> xp_attempts p then False else retryable_grpc (status_code st))"

text \<open>The product is one of \<^verbatim>\<open>u64\<close> values.\<close>

definition exponential_backoff :: "exponential_policy \<Rightarrow> nat \<Rightarrow> nat" where
  "exponential_backoff p attempt =
     (let delay_ms = (of_nat (xp_base p) :: u64) * push_bit (min attempt 10) 1
      in min (unat delay_ms) (xp_max p))"

lemma exponential_backoff_exact:
  "xp_base p * 1024 < 2 ^ 64 \<Longrightarrow>
     exponential_backoff p attempt = min (xp_base p * 2 ^ min attempt 10) (xp_max p)"
proof -
  assume b: "xp_base p * 1024 < 2 ^ 64"
  have "(2 :: nat) ^ min attempt 10 \<le> 2 ^ 10" by (rule power_increasing) simp_all
  then have "xp_base p * 2 ^ min attempt 10 \<le> xp_base p * 1024" by simp
  with b have "xp_base p * 2 ^ min attempt 10 < 2 ^ 64" by linarith
  moreover have "(of_nat (xp_base p) :: u64) * push_bit (min attempt 10) 1
      = of_nat (xp_base p * 2 ^ min attempt 10)"
    by (simp add: push_bit_eq_mult)
  ultimately show ?thesis
    by (simp only: exponential_backoff_def Let_def unat_of_nat take_bit_nat_eq_self) simp
qed

section \<open>Properties\<close>

lemma check_limit_other:
  "c \<noteq> client \<Longrightarrow> rl_clients (snd (check_limit earn now client lim)) c = rl_clients lim c"
  by (auto simp: check_limit_def Let_def)

lemma check_limit_config [simp]:
  "rl_rate (snd (check_limit earn now client lim)) = rl_rate lim"
  "rl_burst (snd (check_limit earn now client lim)) = rl_burst lim"
  by (simp_all add: check_limit_def Let_def)

lemma unat_min_word: "unat (min x y) = min (unat x) (unat y)" for x y :: u32
  by (auto simp: min_def word_le_nat_alt)

lemma check_limit_tokens:
  "tokens_of (snd (check_limit earn now client lim)) client
      + (if fst (check_limit earn now client lim) then 1 else 0)
    = min (unat (cl_tokens (limiter_entry now client lim)
               + earn (now - cl_update (limiter_entry now client lim)) (rl_rate lim)))
          (unat (rl_burst lim))"
proof -
  let ?st = "limiter_entry now client lim"
  define t where "t = min (cl_tokens ?st + earn (now - cl_update ?st) (rl_rate lim)) (rl_burst lim)"
  have step: "check_limit earn now client lim =
     (t > 0, lim\<lparr>rl_clients := (rl_clients lim)(client \<mapsto>
        \<lparr>cl_tokens = if t > 0 then t - 1 else t, cl_update = now\<rparr>)\<rparr>)"
    by (simp only: check_limit_def Let_def t_def [symmetric]) simp
  have "tokens_of (snd (check_limit earn now client lim)) client
      + (if fst (check_limit earn now client lim) then 1 else 0) = unat t"
  proof (cases "t > 0")
    case True
    then have "t \<noteq> 0" by simp
    then have "unat (t - 1) + 1 = unat t" by (simp add: unat_minus_one unat_gt_0 Suc_leI)
    then show ?thesis using True by (simp add: step tokens_of_def)
  next
    case False
    then show ?thesis by (simp add: step tokens_of_def)
  qed
  then show ?thesis by (simp only: unat_min_word t_def)
qed

lemma check_limit_seen:
  "last_seen (snd (check_limit earn now client lim)) c = (if c = client then Some now else last_seen lim c)"
  by (auto simp: check_limit_def Let_def last_seen_def)

lemma tokens_of_entry: "unat (cl_tokens (limiter_entry now client lim)) = tokens_of lim client"
  by (simp add: limiter_entry_def tokens_of_def split: option.split)

lemma entry_elapsed:
  "now - cl_update (limiter_entry now client lim)
     = (case last_seen lim client of Some p \<Rightarrow> now - p | None \<Rightarrow> 0)"
  by (simp add: limiter_entry_def last_seen_def split: option.split)

lemma unat_plus_le: "unat (x + y) \<le> unat x + unat y" for x y :: u32
  by (simp add: unat_word_ariths)

text \<open>One request: the tokens left and the token taken are covered by the tokens before and earned.\<close>

lemma check_limit_budget:
  "tokens_of (snd (check_limit earn now client lim)) client
      + (if fst (check_limit earn now client lim) then 1 else 0)
    \<le> tokens_of lim client
      + unat (earn (case last_seen lim client of Some p \<Rightarrow> now - p | None \<Rightarrow> 0) (rl_rate lim))"
  using check_limit_tokens [of earn now client lim]
    unat_plus_le [of "cl_tokens (limiter_entry now client lim)"
      "earn (now - cl_update (limiter_entry now client lim)) (rl_rate lim)"]
  by (simp add: tokens_of_entry entry_elapsed)

lemma check_limit_burst: "tokens_of (snd (check_limit earn now client lim)) client \<le> unat (rl_burst lim)"
  using check_limit_tokens [of earn now client lim] by linarith

lemma tokens_of_other:
  "c \<noteq> client \<Longrightarrow> tokens_of (snd (check_limit earn now client lim)) c = tokens_of lim c"
  by (simp add: tokens_of_def check_limit_other split: option.split)

lemma limiter_run_budget:
  "admitted client rs (fst (limiter_run earn rs lim)) + tokens_of (snd (limiter_run earn rs lim)) client
     \<le> tokens_of lim client + earned earn (rl_rate lim) client (last_seen lim client) rs"
proof (induction rs arbitrary: lim)
  case Nil
  show ?case by simp
next
  case (Cons r rs)
  obtain now c where r: "r = (now, c)" by (cases r)
  obtain b lim1 where st: "check_limit earn now c lim = (b, lim1)" by fastforce
  obtain bs lim2 where rest: "limiter_run earn rs lim1 = (bs, lim2)" by fastforce
  have rate: "rl_rate lim1 = rl_rate lim" using check_limit_config(1) [of earn now c lim] st by simp
  have ih: "admitted client rs bs + tokens_of lim2 client
      \<le> tokens_of lim1 client + earned earn (rl_rate lim) client (last_seen lim1 client) rs"
    using Cons [of lim1] rest rate by simp
  have seen: "last_seen lim1 client = (if client = c then Some now else last_seen lim client)"
    using check_limit_seen [of earn now c lim client] st by simp
  show ?case
  proof (cases "c = client")
    case True
    have "tokens_of lim1 client + (if b then 1 else 0) \<le> tokens_of lim client
        + unat (earn (case last_seen lim client of Some p \<Rightarrow> now - p | None \<Rightarrow> 0) (rl_rate lim))"
      using check_limit_budget [of earn now c lim] st True by simp
    moreover have "check_limit earn now client lim = (b, lim1)" using st True by simp
    ultimately show ?thesis using ih seen True rest by (simp add: r)
  next
    case False
    have "tokens_of lim1 client = tokens_of lim client"
      using tokens_of_other [of client c earn now lim] st False by simp
    with ih seen False show ?thesis by (simp add: r st rest)
  qed
qed

text \<open>
  Claim C29. Over any sequence of requests of any clients, a new limiter admits of one client at most
  the burst and what the client has earned between its own requests, however the earnings are
  computed, wrapped or rounded. So a client whose requests never come far enough apart to earn one
  token is never admitted again after its burst, however long it goes on.
\<close>

theorem limiter_admits_at_most:
  "admitted client rs (fst (limiter_run earn rs (rate_limiter_new rate burst)))
     \<le> unat burst + earned earn rate client None rs"
  using limiter_run_budget [of client rs earn "rate_limiter_new rate burst"]
  by (simp add: rate_limiter_new_def tokens_of_def last_seen_def)

text \<open>A client that asks twice a second at one token a second is served its burst and then never again.\<close>

definition exact_earn :: "nat \<Rightarrow> u32 \<Rightarrow> u32" where
  "exact_earn ns rate = of_nat (min (ns * unat rate div 1000000000) (2 ^ 32 - 1))"

lemma earned_in_steps:
  "earned exact_earn 1 c (Some p) (map (\<lambda>i. (p + 500000000 * i, c)) [1..<n]) = 0"
proof -
  have "earned exact_earn 1 c (Some (p + 500000000 * m)) (map (\<lambda>i. (p + 500000000 * i, c)) [Suc m..<Suc m + k]) = 0" for m k
  proof (induction k arbitrary: m)
    case (Suc k)
    have "[Suc m..<Suc m + Suc k] = Suc m # [Suc (Suc m)..<Suc (Suc m) + k]"
      by (simp add: upt_rec del: upt_Suc)
    with Suc [of "Suc m"] show ?case by (simp add: exact_earn_def del: upt_Suc)
  qed simp
  from this [of 0 "n - 1"] show ?thesis by (cases n) (simp_all del: upt_Suc)
qed

theorem starved_client:
  "admitted c (map (\<lambda>i. (500000000 * i, c)) [0..<n])
     (fst (limiter_run exact_earn (map (\<lambda>i. (500000000 * i, c)) [0..<n]) (rate_limiter_new 1 burst)))
     \<le> unat burst"
proof (cases n)
  case (Suc k)
  have "earned exact_earn 1 c None (map (\<lambda>i. (500000000 * i, c)) [0..<n])
      = unat (exact_earn 0 1) + earned exact_earn 1 c (Some 0) (map (\<lambda>i. (0 + 500000000 * i, c)) [1..<n])"
    by (simp add: Suc upt_rec [of 0] del: upt_Suc)
  also have "\<dots> = 0" by (simp only: earned_in_steps) (simp add: exact_earn_def)
  finally show ?thesis
    using limiter_run_budget [of c "map (\<lambda>i. (500000000 * i, c)) [0..<n]" exact_earn "rate_limiter_new 1 burst"]
    by (simp add: rate_limiter_new_def tokens_of_def last_seen_def)
qed simp

end
