(* ===== verification/Grpc_Context.thy ===== *)
theory Grpc_Context
  imports Http_Api
begin

text \<open>
  The request context over gRPC, \<^verbatim>\<open>flare-core-transport/src/grpc\<close>: the codec between a context and the
  metadata of a request (\<^verbatim>\<open>utils/metadata_codec.rs\<close>), the client's interceptor (\<^verbatim>\<open>client/context.rs\<close>,
  \<^verbatim>\<open>client/interceptor.rs\<close>), the server's context layer (\<^verbatim>\<open>middleware/context.rs\<close>, and its copy under
  \<^verbatim>\<open>server\<close>), the functions that read it (\<^verbatim>\<open>utils/context_utils.rs\<close>), and the interceptors of
  authentication (\<^verbatim>\<open>interceptor\<close>).

  Metadata is the list of values of each name. Which values are text (\<open>vis\<close>), to which name a text is
  parsed (\<open>mkey\<close>) and which names are not binary (\<open>ascii\<close>) are parameters of the metadata library. The
  attributes of an actor are encoded in the order of an unordered map: the list \<open>entries\<close> of its
  pairs is an argument. \<open>fresh\<close> stands for a generated identifier.
\<close>

section \<open>The codec\<close>

type_synonym metadata = http_headers

definition put_text :: "(string \<Rightarrow> bool) \<Rightarrow> string \<Rightarrow> string option \<Rightarrow> metadata \<Rightarrow> metadata" where
  "put_text vis k v md =
     (case v of Some x \<Rightarrow> if x \<noteq> [] \<and> vis x then hinsert k x md else md | None \<Rightarrow> md)"

fun put_roles :: "(string \<Rightarrow> bool) \<Rightarrow> string list \<Rightarrow> metadata \<Rightarrow> metadata" where
  "put_roles vis [] md = md"
| "put_roles vis (r # rs) md =
     put_roles vis rs
       (if r \<noteq> [] \<and> vis r then md(''x-actor-roles'' := md ''x-actor-roles'' @ [r]) else md)"

fun put_entries ::
    "(string \<Rightarrow> bool) \<Rightarrow> (string \<Rightarrow> string option) \<Rightarrow> (string \<times> string) list \<Rightarrow> metadata \<Rightarrow> metadata" where
  "put_entries vis mkey [] md = md"
| "put_entries vis mkey ((k, v) # es) md =
     put_entries vis mkey es
       (case mkey (attr_prefix @ k) of
          Some h \<Rightarrow> if vis v then hinsert h v md else md
        | None \<Rightarrow> md)"

definition encode_actor_to_metadata ::
    "(string \<Rightarrow> bool) \<Rightarrow> (string \<Rightarrow> string option) \<Rightarrow> (string \<times> string) list \<Rightarrow> actor_context
     \<Rightarrow> metadata \<Rightarrow> metadata" where
  "encode_actor_to_metadata vis mkey entries a md =
     (let md1 = (if actor_id a \<noteq> [] \<and> vis (actor_id a)
                 then (let m0 = hinsert ''x-actor-id'' (actor_id a) md
                       in if actor_type a = User then hinsert ''x-user-id'' (actor_id a) m0 else m0)
                 else md);
          code = show_int (actor_type_code (actor_type a));
          md2 = (if actor_type a \<noteq> Unspecified \<and> vis code then hinsert ''x-actor-type'' code md1 else md1)
      in put_entries vis mkey entries (put_roles vis (roles a) md2))"

definition put_fields :: "(string \<Rightarrow> bool) \<Rightarrow> request_context \<Rightarrow> metadata \<Rightarrow> metadata" where
  "put_fields vis c md =
     put_text vis ''x-session-id'' (session_id c)
       (put_text vis ''x-platform'' (platform c)
         (put_text vis ''x-device-id'' (device_id c)
           (put_text vis ''x-user-id'' (user_id c)
             (put_text vis ''x-tenant-id'' (tenant_id c)
               (put_text vis ''x-trace-id'' (Some (trace_id c))
                 (put_text vis ''x-request-id'' (Some (request_id c)) md))))))"

definition encode_context_to_metadata ::
    "(string \<Rightarrow> bool) \<Rightarrow> (string \<Rightarrow> string option) \<Rightarrow> (string \<times> string) list \<Rightarrow> request_context
     \<Rightarrow> metadata \<Rightarrow> metadata" where
  "encode_context_to_metadata vis mkey entries c md =
     (let fields = put_fields vis c md
      in case actor c of
           Some a \<Rightarrow> encode_actor_to_metadata vis mkey entries a fields
         | None \<Rightarrow> fields)"

definition md_text :: "(string \<Rightarrow> bool) \<Rightarrow> metadata \<Rightarrow> string \<Rightarrow> string option" where
  "md_text vis md k = filter_opt (\<lambda>v. v \<noteq> []) (filter_opt vis (hget md k))"

definition decode_md_attributes :: "(string \<Rightarrow> bool) \<Rightarrow> (string \<Rightarrow> bool) \<Rightarrow> metadata \<Rightarrow> headers" where
  "decode_md_attributes vis ascii md =
     (\<lambda>k. if ascii (attr_prefix @ k)
          then (case filter vis (md (attr_prefix @ k)) of [] \<Rightarrow> None | v # vs \<Rightarrow> Some (last (v # vs)))
          else None)"

definition decode_actor_from_metadata ::
    "(string \<Rightarrow> bool) \<Rightarrow> (string \<Rightarrow> bool) \<Rightarrow> metadata \<Rightarrow> actor_context option" where
  "decode_actor_from_metadata vis ascii md =
     (let raw = (case hget md ''x-actor-id'' of Some v \<Rightarrow> Some v | None \<Rightarrow> hget md ''x-user-id'')
      in case filter_opt (\<lambda>v. v \<noteq> []) (filter_opt vis raw) of
           None \<Rightarrow> None
         | Some n \<Rightarrow>
             (let ty = (case filter_opt vis (hget md ''x-actor-type'') of
                          None \<Rightarrow> Unspecified
                        | Some s \<Rightarrow> (case parse_signed 32 s of
                                      None \<Rightarrow> Unspecified | Some v \<Rightarrow> actor_type_of v));
                  a0 = with_type ty (actor_new n);
                  a1 = fold with_role (filter (\<lambda>r. vis r \<and> r \<noteq> []) (md ''x-actor-roles'')) a0
              in Some (a1\<lparr>attributes := decode_md_attributes vis ascii md\<rparr>)))"

definition set_some :: "'a option \<Rightarrow> ('a \<Rightarrow> 'c \<Rightarrow> 'c) \<Rightarrow> 'c \<Rightarrow> 'c" where
  "set_some v f c = (case v of Some x \<Rightarrow> f x c | None \<Rightarrow> c)"

text \<open>The result of decoding is always a context: the code's option is never empty.\<close>

definition decode_context_from_metadata ::
    "(string \<Rightarrow> bool) \<Rightarrow> (string \<Rightarrow> bool) \<Rightarrow> string \<Rightarrow> metadata \<Rightarrow> request_context option" where
  "decode_context_from_metadata vis ascii fresh md =
     (let get = md_text vis md;
          c0 = with_request_id (case get ''x-request-id'' of Some r \<Rightarrow> r | None \<Rightarrow> fresh);
          c1 = set_some (get ''x-tenant-id'') with_tenant_id c0;
          c2 = set_some (get ''x-trace-id'') with_trace_id c1;
          c3 = set_some (get ''x-user-id'') with_user_id c2;
          c4 = set_some (get ''x-device-id'') with_device_id c3;
          raw_platform = (case hget md ''x-platform'' of
                            Some p \<Rightarrow> Some p | None \<Rightarrow> hget md ''x-device-platform'');
          c5 = set_some (filter_opt (\<lambda>v. v \<noteq> []) (filter_opt vis raw_platform)) with_platform c4;
          c6 = set_some (get ''x-session-id'') with_session_id c5
      in Some (set_some (decode_actor_from_metadata vis ascii md) with_actor c6))"

section \<open>Requests, the server's layer and the readers\<close>

record grpc_request =
  rq_metadata :: metadata
  rq_context :: "request_context option"

definition set_context_metadata ::
    "(string \<Rightarrow> bool) \<Rightarrow> (string \<Rightarrow> string option) \<Rightarrow> (string \<times> string) list \<Rightarrow> request_context
     \<Rightarrow> grpc_request \<Rightarrow> grpc_request" where
  "set_context_metadata vis mkey entries c rq =
     rq\<lparr>rq_metadata := encode_context_to_metadata vis mkey entries c (rq_metadata rq)\<rparr>"

definition request_with_context ::
    "(string \<Rightarrow> bool) \<Rightarrow> (string \<Rightarrow> string option) \<Rightarrow> (string \<times> string) list \<Rightarrow> request_context
     \<Rightarrow> grpc_request" where
  "request_with_context vis mkey entries c =
     set_context_metadata vis mkey entries c \<lparr>rq_metadata = (\<lambda>_. []), rq_context = None\<rparr>"

record context_layer =
  allow_missing :: bool
  default_tenant :: "string option"

definition context_layer_new :: context_layer where
  "context_layer_new = \<lparr>allow_missing = False, default_tenant = None\<rparr>"

definition layer_allow_missing :: "context_layer \<Rightarrow> context_layer" where
  "layer_allow_missing l = l\<lparr>allow_missing := True\<rparr>"

definition layer_default_tenant :: "string \<Rightarrow> context_layer \<Rightarrow> context_layer" where
  "layer_default_tenant t l = l\<lparr>default_tenant := Some t\<rparr>"

text \<open>
  The layer copies the headers value by value with \<^verbatim>\<open>insert\<close>, which replaces: of the text values of a
  name the last one stays. A name that is no metadata key is left out (the names of a header map are
  in the form to which they are parsed).
\<close>

definition copy_headers :: "(string \<Rightarrow> bool) \<Rightarrow> (string \<Rightarrow> bool) \<Rightarrow> http_headers \<Rightarrow> metadata" where
  "copy_headers vis ascii m =
     (\<lambda>k. if ascii k then (case filter vis (m k) of [] \<Rightarrow> [] | v # vs \<Rightarrow> [last (v # vs)]) else [])"

definition context_service ::
    "(string \<Rightarrow> bool) \<Rightarrow> (string \<Rightarrow> bool) \<Rightarrow> string \<Rightarrow> context_layer \<Rightarrow> grpc_request \<Rightarrow> grpc_request" where
  "context_service vis ascii fresh l rq =
     (let md = copy_headers vis ascii (rq_metadata rq);
          ctx_opt = (case rq_context rq of
                       Some c \<Rightarrow> Some c
                     | None \<Rightarrow> decode_context_from_metadata vis ascii fresh md)
      in case ctx_opt of
           None \<Rightarrow>
             if allow_missing l
             then rq\<lparr>rq_context := Some (case default_tenant l of
                                         Some t \<Rightarrow> with_tenant_id t root | None \<Rightarrow> root)\<rparr>
             else rq\<lparr>rq_context := Some root\<rparr>
         | Some c \<Rightarrow>
             if tenant_id c = None then
               (case default_tenant l of
                  Some t \<Rightarrow> rq\<lparr>rq_context := Some (with_tenant_id t c)\<rparr>
                | None \<Rightarrow> rq\<lparr>rq_context := Some c\<rparr>)
             else rq\<lparr>rq_context := Some c\<rparr>)"

definition blank :: "string option \<Rightarrow> bool" where
  "blank v \<longleftrightarrow> (case v of None \<Rightarrow> True | Some s \<Rightarrow> s = [])"

definition merge_request_context ::
    "(string \<Rightarrow> bool) \<Rightarrow> (string \<Rightarrow> bool) \<Rightarrow> string \<Rightarrow> grpc_request \<Rightarrow> request_context option" where
  "merge_request_context vis ascii fresh rq =
     (case (rq_context rq, decode_context_from_metadata vis ascii fresh (rq_metadata rq)) of
        (Some ext, Some md) \<Rightarrow>
          (let set_if = (\<lambda>old v f c. if blank old then (case filter_opt (\<lambda>x. x \<noteq> []) v of
                                        Some x \<Rightarrow> f x c | None \<Rightarrow> c) else c);
               c1 = set_if (user_id ext) (user_id md) with_user_id ext;
               c2 = set_if (tenant_id c1) (tenant_id md) with_tenant_id c1;
               c3 = (if trace_id c2 = [] \<and> trace_id md \<noteq> [] then with_trace_id (trace_id md) c2 else c2)
           in Some (set_if (device_id c3) (device_id md) with_device_id c3))
      | (Some ext, None) \<Rightarrow> Some ext
      | (None, Some md) \<Rightarrow> Some md
      | (None, None) \<Rightarrow> None)"

definition require_ctx_from_request ::
    "(string \<Rightarrow> bool) \<Rightarrow> (string \<Rightarrow> bool) \<Rightarrow> string \<Rightarrow> grpc_request \<Rightarrow> grpc_status + request_context" where
  "require_ctx_from_request vis ascii fresh rq =
     (case merge_request_context vis ascii fresh rq of
        Some c \<Rightarrow> Inr c
      | None \<Rightarrow> Inl (status_new GrpcInternal ''Context not found in request metadata''))"

definition grpc_require_tenant_id ::
    "(string \<Rightarrow> bool) \<Rightarrow> (string \<Rightarrow> bool) \<Rightarrow> string \<Rightarrow> grpc_request \<Rightarrow> grpc_status + string" where
  "grpc_require_tenant_id vis ascii fresh rq =
     bind_res (require_ctx_from_request vis ascii fresh rq) (\<lambda>c.
       case filter_opt (\<lambda>x. x \<noteq> []) (tenant_id c) of
         Some t \<Rightarrow> Inr t
       | None \<Rightarrow> Inl (status_new GrpcInvalidArgument ''Tenant ID is required in context''))"

definition grpc_require_user_id ::
    "(string \<Rightarrow> bool) \<Rightarrow> (string \<Rightarrow> bool) \<Rightarrow> string \<Rightarrow> grpc_request \<Rightarrow> grpc_status + string" where
  "grpc_require_user_id vis ascii fresh rq =
     bind_res (require_ctx_from_request vis ascii fresh rq) (\<lambda>c.
       let by_field = (case filter_opt (\<lambda>x. x \<noteq> []) (user_id c) of
             Some u \<Rightarrow> Inr u
           | None \<Rightarrow> Inl (status_new GrpcInvalidArgument ''User ID is required in context''))
       in case actor c of
            Some a \<Rightarrow> if actor_id a \<noteq> [] then Inr (actor_id a) else by_field
          | None \<Rightarrow> by_field)"

definition grpc_session_id ::
    "(string \<Rightarrow> bool) \<Rightarrow> (string \<Rightarrow> bool) \<Rightarrow> string \<Rightarrow> grpc_request \<Rightarrow> string option" where
  "grpc_session_id vis ascii fresh rq =
     (case merge_request_context vis ascii fresh rq of Some c \<Rightarrow> session_id c | None \<Rightarrow> None)"

definition grpc_require_request_id ::
    "(string \<Rightarrow> bool) \<Rightarrow> (string \<Rightarrow> bool) \<Rightarrow> string \<Rightarrow> grpc_request \<Rightarrow> grpc_status + string" where
  "grpc_require_request_id vis ascii fresh rq =
     bind_res (require_ctx_from_request vis ascii fresh rq) (\<lambda>c.
       if request_id c = []
       then Inl (status_new GrpcInvalidArgument ''Request ID is required in context'')
       else Inr (request_id c))"

definition create_traced_metadata :: "(string \<Rightarrow> bool) \<Rightarrow> string \<Rightarrow> metadata" where
  "create_traced_metadata vis t = (if vis t then hinsert ''x-trace-id'' t (\<lambda>_. []) else (\<lambda>_. []))"

definition error_to_status :: "string \<Rightarrow> grpc_status" where
  "error_to_status err = status_new GrpcInternal err"

text \<open>The readers of the layer's module see the injected context only.\<close>

definition extract_context :: "grpc_request \<Rightarrow> grpc_status + request_context" where
  "extract_context rq =
     (case rq_context rq of
        Some c \<Rightarrow> Inr c
      | None \<Rightarrow> Inl (status_new GrpcInternal ''Context not found in request extensions''))"

definition extract_tenant_id :: "grpc_request \<Rightarrow> string option" where
  "extract_tenant_id rq = (case rq_context rq of Some c \<Rightarrow> tenant_id c | None \<Rightarrow> None)"

definition layer_require_tenant_id :: "grpc_request \<Rightarrow> grpc_status + string" where
  "layer_require_tenant_id rq =
     (case extract_tenant_id rq of
        Some t \<Rightarrow> Inr t
      | None \<Rightarrow> Inl (status_new GrpcInvalidArgument ''tenant_id required (ContextLayer + x-tenant-id)''))"

definition extract_user_id :: "grpc_request \<Rightarrow> string option" where
  "extract_user_id rq =
     (case rq_context rq of
        None \<Rightarrow> None
      | Some c \<Rightarrow> (case user_id c of Some u \<Rightarrow> Some u | None \<Rightarrow> map_option actor_id (actor c)))"

definition layer_require_user_id :: "grpc_request \<Rightarrow> grpc_status + string" where
  "layer_require_user_id rq =
     (case extract_user_id rq of
        Some u \<Rightarrow> Inr u
      | None \<Rightarrow> Inl (status_new GrpcInvalidArgument ''user_id required (x-user-id or actor)''))"

definition extract_request_id :: "grpc_request \<Rightarrow> string option" where
  "extract_request_id rq = map_option request_id (rq_context rq)"

definition layer_require_request_id :: "grpc_request \<Rightarrow> grpc_status + string" where
  "layer_require_request_id rq =
     (case extract_request_id rq of
        Some r \<Rightarrow> Inr r
      | None \<Rightarrow> Inl (status_new GrpcInvalidArgument ''request_id required''))"

definition extract_actor_id :: "grpc_request \<Rightarrow> string option" where
  "extract_actor_id rq =
     (case rq_context rq of
        None \<Rightarrow> None
      | Some c \<Rightarrow> filter_opt (\<lambda>x. x \<noteq> []) (map_option actor_id (actor c)))"

definition require_actor_id :: "grpc_request \<Rightarrow> grpc_status + string" where
  "require_actor_id rq =
     (case extract_actor_id rq of
        Some a \<Rightarrow> Inr a
      | None \<Rightarrow> Inl (status_new GrpcInvalidArgument
                      ''actor_id required (x-actor-id or actor in Context)''))"

section \<open>The client's interceptor\<close>

record client_context_config =
  auto_request_id :: bool
  auto_trace_id :: bool
  cc_default_tenant :: "string option"
  cc_default_context :: "request_context option"

definition client_context_default :: client_context_config where
  "client_context_default =
     \<lparr>auto_request_id = True, auto_trace_id = True, cc_default_tenant = None, cc_default_context = None\<rparr>"

definition cc_with_default_tenant :: "string \<Rightarrow> client_context_config \<Rightarrow> client_context_config" where
  "cc_with_default_tenant t cfg = cfg\<lparr>cc_default_tenant := Some t\<rparr>"

definition cc_with_default_context ::
    "request_context \<Rightarrow> client_context_config \<Rightarrow> client_context_config" where
  "cc_with_default_context c cfg = cfg\<lparr>cc_default_context := Some c\<rparr>"

definition disable_auto_request_id :: "client_context_config \<Rightarrow> client_context_config" where
  "disable_auto_request_id cfg = cfg\<lparr>auto_request_id := False\<rparr>"

definition disable_auto_trace_id :: "client_context_config \<Rightarrow> client_context_config" where
  "disable_auto_trace_id cfg = cfg\<lparr>auto_trace_id := False\<rparr>"

definition set_missing ::
    "'a option \<Rightarrow> 'a option \<Rightarrow> ('a \<Rightarrow> request_context \<Rightarrow> request_context) \<Rightarrow> request_context \<Rightarrow> request_context" where
  "set_missing old v f c = (if old = None then (case v of Some x \<Rightarrow> f x c | None \<Rightarrow> c) else c)"

definition merge_default :: "request_context \<Rightarrow> request_context \<Rightarrow> request_context" where
  "merge_default d c =
     (let c1 = set_missing (tenant_id c) (tenant_id d) with_tenant_id c;
          c2 = (if trace_id c1 = [] \<and> trace_id d \<noteq> [] then with_trace_id (trace_id d) c1 else c1);
          c3 = set_missing (user_id c2) (user_id d) with_user_id c2;
          c4 = set_missing (device_id c3) (device_id d) with_device_id c3;
          c5 = set_missing (platform c4) (platform d) with_platform c4;
          c6 = set_missing (session_id c5) (session_id d) with_session_id c5
      in set_missing (actor c6) (actor d) with_actor c6)"

definition regenerate_request_id :: "string \<Rightarrow> request_context \<Rightarrow> request_context" where
  "regenerate_request_id fresh old =
     (let c0 = with_user_id (or_empty (user_id old))
                 (with_tenant_id (or_empty (tenant_id old))
                   (with_trace_id (trace_id old) (with_request_id fresh)));
          c1 = set_some (session_id old) with_session_id c0;
          c2 = set_some (device_id old) with_device_id c1;
          c3 = set_some (platform old) with_platform c2
      in set_some (actor old) with_actor c3)"

text \<open>The context that the interceptor encodes; three identifiers may be generated.\<close>

definition client_context ::
    "(string \<Rightarrow> bool) \<Rightarrow> (string \<Rightarrow> bool) \<Rightarrow> string \<Rightarrow> string \<Rightarrow> string \<Rightarrow> client_context_config
     \<Rightarrow> metadata \<Rightarrow> request_context" where
  "client_context vis ascii fresh1 fresh2 fresh3 cfg md =
     (let c0 = (case decode_context_from_metadata vis ascii fresh1 md of Some c \<Rightarrow> c | None \<Rightarrow> root);
          c1 = (case cc_default_context cfg of Some d \<Rightarrow> merge_default d c0 | None \<Rightarrow> c0);
          c2 = (case cc_default_tenant cfg of
                  Some t \<Rightarrow> if tenant_id c1 = None then with_tenant_id t c1 else c1
                | None \<Rightarrow> c1);
          c3 = (if auto_request_id cfg \<and> request_id c2 = [] then regenerate_request_id fresh2 c2 else c2)
      in if auto_trace_id cfg \<and> trace_id c3 = [] then with_trace_id fresh3 c3 else c3)"

definition client_interceptor_call ::
    "(string \<Rightarrow> bool) \<Rightarrow> (string \<Rightarrow> string option) \<Rightarrow> (string \<Rightarrow> bool) \<Rightarrow> (string \<times> string) list
     \<Rightarrow> string \<Rightarrow> string \<Rightarrow> string \<Rightarrow> client_context_config \<Rightarrow> grpc_request \<Rightarrow> grpc_request" where
  "client_interceptor_call vis mkey ascii entries fresh1 fresh2 fresh3 cfg rq =
     rq\<lparr>rq_metadata := encode_context_to_metadata vis mkey entries
          (client_context vis ascii fresh1 fresh2 fresh3 cfg (rq_metadata rq)) (rq_metadata rq)\<rparr>"

definition interceptor_with_tenant_and_user :: "string \<Rightarrow> string \<Rightarrow> client_context_config" where
  "interceptor_with_tenant_and_user t u =
     cc_with_default_context (with_user_id u (with_tenant_id t root)) client_context_default"

section \<open>The server's interceptors\<close>

definition auth_intercept ::
    "(string \<Rightarrow> bool) \<Rightarrow> jwt \<Rightarrow> 's token_service \<Rightarrow> nat \<Rightarrow> grpc_request \<Rightarrow> 's
     \<Rightarrow> (grpc_status + grpc_request) \<times> 's" where
  "auth_intercept vis j svc now rq s =
     (case filter_opt vis (hget (rq_metadata rq) ''authorization'') of
        None \<Rightarrow> (Inl (status_new GrpcUnauthenticated ''Missing authorization token''), s)
      | Some v \<Rightarrow>
          (let token = (case strip_prefix ''Bearer '' v of Some t \<Rightarrow> t | None \<Rightarrow> v)
           in case validate_token j svc now token s of
                (Inr claims, s') \<Rightarrow> (Inr rq, s')
              | (Inl err, s') \<Rightarrow> (Inl (status_new GrpcUnauthenticated ''Invalid token''), s')))"

text \<open>Tracing and logging let every request through as it is.\<close>

definition extract_trace_info :: "(string \<Rightarrow> bool) \<Rightarrow> metadata \<Rightarrow> (string \<times> string) option" where
  "extract_trace_info vis md =
     (let t = or_empty (filter_opt vis (hget md ''x-trace-id''));
          r = or_empty (filter_opt vis (hget md ''x-request-id''))
      in if t = [] \<and> r = [] then None else Some (t, r))"

record 's composite_interceptor =
  ci_auth :: "'s token_service option"
  ci_tracing :: bool
  ci_logging :: bool

definition composite_interceptor_new :: "'s composite_interceptor" where
  "composite_interceptor_new = \<lparr>ci_auth = None, ci_tracing = False, ci_logging = False\<rparr>"

definition ci_with_auth :: "'s token_service \<Rightarrow> 's composite_interceptor \<Rightarrow> 's composite_interceptor" where
  "ci_with_auth svc ci = ci\<lparr>ci_auth := Some svc\<rparr>"

definition tracing_intercept :: "grpc_request \<Rightarrow> grpc_status + grpc_request" where
  "tracing_intercept rq = Inr rq"

definition logging_intercept :: "grpc_request \<Rightarrow> grpc_status + grpc_request" where
  "logging_intercept rq = Inr rq"

definition composite_intercept ::
    "(string \<Rightarrow> bool) \<Rightarrow> jwt \<Rightarrow> 's composite_interceptor \<Rightarrow> nat \<Rightarrow> grpc_request \<Rightarrow> 's
     \<Rightarrow> (grpc_status + grpc_request) \<times> 's" where
  "composite_intercept vis j ci now rq s =
     (let (r1, s1) = (case ci_auth ci of
            Some svc \<Rightarrow> auth_intercept vis j svc now rq s
          | None \<Rightarrow> (Inr rq, s));
          r2 = bind_res r1 (\<lambda>rq. if ci_tracing ci then tracing_intercept rq else Inr rq);
          r3 = bind_res r2 (\<lambda>rq. if ci_logging ci then logging_intercept rq else Inr rq)
      in (r3, s1))"

section \<open>What a context keeps on the way\<close>

lemma hget_put_text:
  "hget (put_text vis k v md) k' =
     (if k' = k then (case filter_opt (\<lambda>x. x \<noteq> [] \<and> vis x) v of Some x \<Rightarrow> Some x | None \<Rightarrow> hget md k)
      else hget md k')"
  by (auto simp: put_text_def filter_opt_def split: option.splits)

lemma put_text_values: "k' \<noteq> k \<Longrightarrow> put_text vis k v md k' = md k'"
  by (auto simp: put_text_def hinsert_def split: option.splits)

lemma put_roles_values:
  "put_roles vis rs md k =
     (if k = ''x-actor-roles'' then md k @ filter (\<lambda>r. vis r \<and> r \<noteq> []) rs else md k)"
  by (induction vis rs md rule: put_roles.induct) auto

text \<open>Entries with text values whose names are parsed to themselves.\<close>

lemma put_entries_values:
  assumes "\<forall>(k, v) \<in> set es. vis v \<and> mkey (attr_prefix @ k) = Some (attr_prefix @ k)"
    and "distinct (map fst es)"
  shows "put_entries vis mkey es md h =
     (case strip_prefix attr_prefix h of
        None \<Rightarrow> md h
      | Some a \<Rightarrow> (case map_of es a of Some v \<Rightarrow> [v] | None \<Rightarrow> md h))"
  using assms
proof (induction es arbitrary: md)
  case Nil
  then show ?case by (simp split: option.split)
next
  case (Cons e es)
  obtain k v where e: "e = (k, v)" by (cases e)
  have step: "put_entries vis mkey (e # es) md = put_entries vis mkey es (hinsert (attr_prefix @ k) v md)"
    using Cons.prems(1) e by simp
  have "k \<notin> fst ` set es" using Cons.prems(2) e by auto
  then have fresh: "map_of es k = None" by (simp add: map_of_eq_None_iff)
  have ih: "put_entries vis mkey es (hinsert (attr_prefix @ k) v md) h =
     (case strip_prefix attr_prefix h of
        None \<Rightarrow> hinsert (attr_prefix @ k) v md h
      | Some a \<Rightarrow> (case map_of es a of Some v \<Rightarrow> [v] | None \<Rightarrow> hinsert (attr_prefix @ k) v md h))"
    using Cons.prems by (intro Cons.IH) auto
  show ?case
  proof (cases "strip_prefix attr_prefix h")
    case None
    then have "h \<noteq> attr_prefix @ k" by auto
    with None show ?thesis unfolding step ih by (simp add: hinsert_def)
  next
    case (Some a)
    then have h: "h = attr_prefix @ a" by (simp add: strip_prefix_Some_iff)
    show ?thesis unfolding step ih using fresh by (cases "a = k") (simp_all add: e h hinsert_def split: option.split)
  qed
qed

lemma field_not_attribute [simp]:
  "strip_prefix attr_prefix ''x-request-id'' = None" "strip_prefix attr_prefix ''x-trace-id'' = None"
  "strip_prefix attr_prefix ''x-tenant-id'' = None" "strip_prefix attr_prefix ''x-user-id'' = None"
  "strip_prefix attr_prefix ''x-device-id'' = None" "strip_prefix attr_prefix ''x-platform'' = None"
  "strip_prefix attr_prefix ''x-session-id'' = None" "strip_prefix attr_prefix ''x-actor-id'' = None"
  "strip_prefix attr_prefix ''x-actor-type'' = None" "strip_prefix attr_prefix ''x-actor-roles'' = None"
  "strip_prefix attr_prefix ''x-device-platform'' = None" "strip_prefix attr_prefix ''authorization'' = None"
  by (simp_all add: attr_prefix_def)

lemma hget_put_roles: "k \<noteq> ''x-actor-roles'' \<Longrightarrow> hget (put_roles vis rs md) k = hget md k"
  by (simp add: hget_def put_roles_values)

lemma hget_put_entries:
  assumes "\<forall>(k, v) \<in> set es. vis v \<and> mkey (attr_prefix @ k) = Some (attr_prefix @ k)"
    and "distinct (map fst es)" and "strip_prefix attr_prefix h = None"
  shows "hget (put_entries vis mkey es md) h = hget md h"
  using put_entries_values [OF assms(1, 2), of md h] assms(3) by (simp add: hget_def)

text \<open>
  A context whose texts are text for the metadata library, and whose actor (if any) has an identifier,
  roles and attributes that are, too, under names that are parsed to themselves.
\<close>

definition sendable ::
    "(string \<Rightarrow> bool) \<Rightarrow> (string \<Rightarrow> string option) \<Rightarrow> (string \<Rightarrow> bool) \<Rightarrow> (string \<times> string) list
     \<Rightarrow> request_context \<Rightarrow> bool" where
  "sendable vis mkey ascii entries c \<longleftrightarrow>
     vis (request_id c) \<and> vis (trace_id c)
   \<and> (\<forall>v \<in> {tenant_id c, user_id c, device_id c, platform c, session_id c}. v \<noteq> None \<longrightarrow> vis (the v))
   \<and> (case actor c of
        None \<Rightarrow> entries = []
      | Some a \<Rightarrow> actor_id a \<noteq> [] \<and> vis (actor_id a) \<and> vis (show_int (actor_type_code (actor_type a)))
          \<and> (\<forall>r \<in> set (roles a). r \<noteq> [] \<and> vis r)
          \<and> map_of entries = attributes a \<and> distinct (map fst entries)
          \<and> (\<forall>(k, v) \<in> set entries. vis v \<and> mkey (attr_prefix @ k) = Some (attr_prefix @ k)
               \<and> ascii (attr_prefix @ k)))"

definition no_metadata :: metadata where
  "no_metadata = (\<lambda>_. [])"

lemma filter_opt_sendable: "(v \<noteq> None \<longrightarrow> vis (the v)) \<Longrightarrow> filter_opt (\<lambda>x. x \<noteq> [] \<and> vis x) v = without_empty v"
  by (cases v) (auto simp: filter_opt_def without_empty_def)

text \<open>The metadata of such a context, name by name.\<close>

lemma encoded_fields:
  assumes "sendable vis mkey ascii entries c"
  defines "md \<equiv> encode_context_to_metadata vis mkey entries c no_metadata"
  shows "hget md ''x-request-id'' = without_empty (Some (request_id c))"
    and "hget md ''x-trace-id'' = without_empty (Some (trace_id c))"
    and "hget md ''x-tenant-id'' = without_empty (tenant_id c)"
    and "hget md ''x-device-id'' = without_empty (device_id c)"
    and "hget md ''x-platform'' = without_empty (platform c)"
    and "hget md ''x-session-id'' = without_empty (session_id c)"
    and "hget md ''x-user-id'' = (case actor c of
           Some a \<Rightarrow> if actor_type a = User then Some (actor_id a) else without_empty (user_id c)
         | None \<Rightarrow> without_empty (user_id c))"
    and "hget md ''x-device-platform'' = None"
proof -
  define fields where "fields = put_fields vis c no_metadata"
  have v: "filter_opt (\<lambda>x. x \<noteq> [] \<and> vis x) (Some (request_id c)) = without_empty (Some (request_id c))"
    "filter_opt (\<lambda>x. x \<noteq> [] \<and> vis x) (Some (trace_id c)) = without_empty (Some (trace_id c))"
    "filter_opt (\<lambda>x. x \<noteq> [] \<and> vis x) (tenant_id c) = without_empty (tenant_id c)"
    "filter_opt (\<lambda>x. x \<noteq> [] \<and> vis x) (user_id c) = without_empty (user_id c)"
    "filter_opt (\<lambda>x. x \<noteq> [] \<and> vis x) (device_id c) = without_empty (device_id c)"
    "filter_opt (\<lambda>x. x \<noteq> [] \<and> vis x) (platform c) = without_empty (platform c)"
    "filter_opt (\<lambda>x. x \<noteq> [] \<and> vis x) (session_id c) = without_empty (session_id c)"
    using assms(1) by (auto simp: sendable_def intro!: filter_opt_sendable)
  have none: "hget no_metadata k = None" for k by (simp add: hget_def no_metadata_def)
  have f: "hget fields ''x-request-id'' = without_empty (Some (request_id c))"
    "hget fields ''x-trace-id'' = without_empty (Some (trace_id c))"
    "hget fields ''x-tenant-id'' = without_empty (tenant_id c)"
    "hget fields ''x-user-id'' = without_empty (user_id c)"
    "hget fields ''x-device-id'' = without_empty (device_id c)"
    "hget fields ''x-platform'' = without_empty (platform c)"
    "hget fields ''x-session-id'' = without_empty (session_id c)"
    "hget fields ''x-device-platform'' = None"
    unfolding fields_def put_fields_def by (simp_all add: hget_put_text v none cong: option.case_cong)
  show "hget md ''x-request-id'' = without_empty (Some (request_id c))"
    "hget md ''x-trace-id'' = without_empty (Some (trace_id c))"
    "hget md ''x-tenant-id'' = without_empty (tenant_id c)"
    "hget md ''x-device-id'' = without_empty (device_id c)"
    "hget md ''x-platform'' = without_empty (platform c)"
    "hget md ''x-session-id'' = without_empty (session_id c)"
    "hget md ''x-user-id'' = (case actor c of
           Some a \<Rightarrow> if actor_type a = User then Some (actor_id a) else without_empty (user_id c)
         | None \<Rightarrow> without_empty (user_id c))"
    "hget md ''x-device-platform'' = None"
  proof -
    have e: "\<forall>(k, v) \<in> set entries. vis v \<and> mkey (attr_prefix @ k) = Some (attr_prefix @ k)"
      "distinct (map fst entries)"
      using assms(1) by (auto simp: sendable_def split: option.splits)
    note entry = hget_put_entries [where mkey = mkey and vis = vis, OF e]
    have md: "md = (case actor c of
           Some a \<Rightarrow> encode_actor_to_metadata vis mkey entries a fields
         | None \<Rightarrow> fields)"
      unfolding md_def encode_context_to_metadata_def fields_def Let_def ..
    have a: "hget (encode_actor_to_metadata vis mkey entries a fields) k =
        (if k = ''x-user-id'' \<and> actor_type a = User then Some (actor_id a) else hget fields k)"
      if "actor c = Some a" "strip_prefix attr_prefix k = None"
        "k \<notin> {''x-actor-id'', ''x-actor-type'', ''x-actor-roles''}" for a k
      using that assms(1)
      by (simp add: encode_actor_to_metadata_def Let_def entry hget_put_roles sendable_def)
    show "hget md ''x-request-id'' = without_empty (Some (request_id c))"
      "hget md ''x-trace-id'' = without_empty (Some (trace_id c))"
      "hget md ''x-tenant-id'' = without_empty (tenant_id c)"
      "hget md ''x-device-id'' = without_empty (device_id c)"
      "hget md ''x-platform'' = without_empty (platform c)"
      "hget md ''x-session-id'' = without_empty (session_id c)"
      "hget md ''x-user-id'' = (case actor c of
           Some a \<Rightarrow> if actor_type a = User then Some (actor_id a) else without_empty (user_id c)
         | None \<Rightarrow> without_empty (user_id c))"
      "hget md ''x-device-platform'' = None"
      unfolding md by (cases "actor c"; simp add: a f)+
  qed
qed

lemma set_some_sel:
  "request_id (set_some v f c) = (case v of None \<Rightarrow> request_id c | Some x \<Rightarrow> request_id (f x c))"
  "trace_id (set_some v f c) = (case v of None \<Rightarrow> trace_id c | Some x \<Rightarrow> trace_id (f x c))"
  "tenant_id (set_some v f c) = (case v of None \<Rightarrow> tenant_id c | Some x \<Rightarrow> tenant_id (f x c))"
  "user_id (set_some v f c) = (case v of None \<Rightarrow> user_id c | Some x \<Rightarrow> user_id (f x c))"
  "device_id (set_some v f c) = (case v of None \<Rightarrow> device_id c | Some x \<Rightarrow> device_id (f x c))"
  "platform (set_some v f c) = (case v of None \<Rightarrow> platform c | Some x \<Rightarrow> platform (f x c))"
  "session_id (set_some v f c) = (case v of None \<Rightarrow> session_id c | Some x \<Rightarrow> session_id (f x c))"
  "data (set_some v f c) = (case v of None \<Rightarrow> data c | Some x \<Rightarrow> data (f x c))"
  by (cases v; simp add: set_some_def)+

lemma actor_set_some: "actor (set_some v with_actor c) = (case v of None \<Rightarrow> actor c | Some a \<Rightarrow> Some a)"
  by (simp add: set_some_def split: option.split)

lemma case_option_const [simp]: "(case v of None \<Rightarrow> x | Some y \<Rightarrow> x) = x"
  by (cases v) simp_all

lemma case_option_id [simp]: "(case v of None \<Rightarrow> None | Some y \<Rightarrow> Some y) = v"
  by (cases v) simp_all

lemma decoded_fields:
  assumes "decode_context_from_metadata vis ascii fresh md = Some c"
  shows "request_id c = (case md_text vis md ''x-request-id'' of Some r \<Rightarrow> r | None \<Rightarrow> fresh)"
    and "trace_id c = (case md_text vis md ''x-trace-id'' of Some r \<Rightarrow> r | None \<Rightarrow> [])"
    and "tenant_id c = md_text vis md ''x-tenant-id''"
    and "user_id c = md_text vis md ''x-user-id''"
    and "device_id c = md_text vis md ''x-device-id''"
    and "platform c = filter_opt (\<lambda>v. v \<noteq> []) (filter_opt vis
           (case hget md ''x-platform'' of Some p \<Rightarrow> Some p | None \<Rightarrow> hget md ''x-device-platform''))"
    and "session_id c = md_text vis md ''x-session-id''"
    and "actor c = decode_actor_from_metadata vis ascii md"
proof -
  have c: "c = the (decode_context_from_metadata vis ascii fresh md)" using assms by simp
  have a: "actor c = decode_actor_from_metadata vis ascii md"
    unfolding c decode_context_from_metadata_def Let_def option.sel
    by (simp add: actor_set_some actor_no_data set_some_sel context_builders cong: option.case_cong)
  note sel = set_some_sel context_builders with_actor_fields
  show "request_id c = (case md_text vis md ''x-request-id'' of Some r \<Rightarrow> r | None \<Rightarrow> fresh)"
    "trace_id c = (case md_text vis md ''x-trace-id'' of Some r \<Rightarrow> r | None \<Rightarrow> [])"
    "tenant_id c = md_text vis md ''x-tenant-id''"
    "user_id c = md_text vis md ''x-user-id''"
    "device_id c = md_text vis md ''x-device-id''"
    "platform c = filter_opt (\<lambda>v. v \<noteq> []) (filter_opt vis
           (case hget md ''x-platform'' of Some p \<Rightarrow> Some p | None \<Rightarrow> hget md ''x-device-platform''))"
    "session_id c = md_text vis md ''x-session-id''"
    unfolding c decode_context_from_metadata_def Let_def option.sel
    by (simp_all add: sel cong: option.case_cong)
  show "actor c = decode_actor_from_metadata vis ascii md" by (rule a)
qed

lemma decode_never_None: "decode_context_from_metadata vis ascii fresh md \<noteq> None"
  unfolding decode_context_from_metadata_def Let_def by simp

lemma fold_with_role: "fold with_role rs a = a\<lparr>roles := roles a @ rs\<rparr>"
  by (induction rs arbitrary: a) (simp_all add: with_role_def)

lemma md_text_sendable:
  "hget md k = without_empty v \<Longrightarrow> v \<noteq> None \<longrightarrow> vis (the v) \<Longrightarrow> md_text vis md k = without_empty v"
  by (cases v) (auto simp: md_text_def without_empty_def filter_opt_def)

text \<open>The actor that arrives: the one sent, or one made of the user of a context without actor.\<close>

lemma encoded_actor:
  assumes s: "sendable vis mkey ascii entries c" and a: "actor c = Some a"
  shows "decode_actor_from_metadata vis ascii (encode_context_to_metadata vis mkey entries c no_metadata)
     = Some a"
proof -
  define fields where "fields = put_fields vis c no_metadata"
  let ?md = "encode_actor_to_metadata vis mkey entries a fields"
  have md: "encode_context_to_metadata vis mkey entries c no_metadata = ?md"
    using a unfolding encode_context_to_metadata_def fields_def Let_def by simp
  have as: "actor_id a \<noteq> []" "vis (actor_id a)" "vis (show_int (actor_type_code (actor_type a)))"
    "\<forall>r \<in> set (roles a). r \<noteq> [] \<and> vis r" "map_of entries = attributes a" "distinct (map fst entries)"
    and e: "\<forall>(k, v) \<in> set entries. vis v \<and> mkey (attr_prefix @ k) = Some (attr_prefix @ k)"
    and asc: "\<forall>(k, v) \<in> set entries. vis v \<and> ascii (attr_prefix @ k)"
    using s a by (auto simp: sendable_def)
  note entry = hget_put_entries [where mkey = mkey and vis = vis, OF e as(6)]
  have plain: "fields ''x-actor-roles'' = []" "hget fields ''x-actor-type'' = None" "fields (attr_prefix @ k) = []" for k
    unfolding fields_def put_fields_def by (simp_all add: put_text_values hget_def no_metadata_def attr_prefix_def)
  have id: "hget ?md ''x-actor-id'' = Some (actor_id a)"
    using as(1,2) by (simp add: encode_actor_to_metadata_def Let_def entry hget_put_roles)
  have ty: "hget ?md ''x-actor-type'' = (if actor_type a = Unspecified then None
      else Some (show_int (actor_type_code (actor_type a))))"
    using as(1-3) plain(2) by (simp add: encode_actor_to_metadata_def Let_def entry hget_put_roles)
  have rs: "?md ''x-actor-roles'' = roles a"
  proof -
    have "filter (\<lambda>r. vis r \<and> r \<noteq> []) (roles a) = roles a" using as(4) by (intro filter_True) auto
    then show ?thesis
      using as(1,2) plain(1)
      by (simp add: encode_actor_to_metadata_def Let_def put_entries_values [OF e as(6)] put_roles_values
          hinsert_def)
  qed
  have attr: "?md (attr_prefix @ k) = (case attributes a k of Some v \<Rightarrow> [v] | None \<Rightarrow> [])" for k
    using as(1,2,5) plain(3) [of k]
    by (simp add: encode_actor_to_metadata_def Let_def put_entries_values [OF e as(6)] put_roles_values
        hinsert_def split: option.split)
  have at: "decode_md_attributes vis ascii ?md = attributes a"
  proof
    fix k
    show "decode_md_attributes vis ascii ?md k = attributes a k"
    proof (cases "attributes a k")
      case None
      then show ?thesis by (simp add: decode_md_attributes_def attr)
    next
      case (Some v)
      then have "(k, v) \<in> set entries" using as(5) by (metis map_of_SomeD)
      with asc Some show ?thesis by (auto simp: decode_md_attributes_def attr)
    qed
  qed
  have role: "filter (\<lambda>r. vis r \<and> r \<noteq> []) (roles a) = roles a" using as(4) by (intro filter_True) auto
  have tyv: "(case filter_opt vis (hget ?md ''x-actor-type'') of
                None \<Rightarrow> Unspecified
              | Some s \<Rightarrow> (case parse_signed 32 s of None \<Rightarrow> Unspecified | Some v \<Rightarrow> actor_type_of v))
      = actor_type a"
    using as(3) by (simp add: ty filter_opt_def parse_actor_type actor_type_roundtrip
        del: actor_type_of.simps actor_type_code.simps)
  show ?thesis
    unfolding md decode_actor_from_metadata_def Let_def tyv
    using as(1,2) by (simp add: id filter_opt_def fold_with_role with_type_def actor_new_def rs role at)
qed

lemma encoded_no_actor:
  assumes s: "sendable vis mkey ascii entries c" and a: "actor c = None"
  shows "decode_actor_from_metadata vis ascii (encode_context_to_metadata vis mkey entries c no_metadata)
     = map_option (\<lambda>u. \<lparr>actor_id = u, actor_type = Unspecified, roles = [], attributes = Map.empty\<rparr>)
         (without_empty (user_id c))"
proof -
  let ?md = "put_fields vis c no_metadata"
  have md: "encode_context_to_metadata vis mkey entries c no_metadata = ?md"
    using a by (simp add: encode_context_to_metadata_def)
  have plain: "?md ''x-actor-roles'' = []" "hget ?md ''x-actor-type'' = None"
    "hget ?md ''x-actor-id'' = None" "?md (attr_prefix @ k) = []" for k
    unfolding put_fields_def by (simp_all add: put_text_values hget_def no_metadata_def attr_prefix_def)
  have u: "hget ?md ''x-user-id'' = without_empty (user_id c)"
    using encoded_fields(7) [OF s] a md by simp
  have vis: "user_id c \<noteq> None \<longrightarrow> vis (the (user_id c))" using s by (simp add: sendable_def)
  have "filter_opt (\<lambda>v. v \<noteq> []) (filter_opt vis (without_empty (user_id c))) = without_empty (user_id c)"
    using vis by (cases "user_id c") (auto simp: without_empty_def filter_opt_def)
  moreover have "decode_md_attributes vis ascii ?md = Map.empty"
    by (rule ext) (simp add: decode_md_attributes_def plain(4))
  ultimately show ?thesis
    unfolding md decode_actor_from_metadata_def Let_def
    by (simp add: plain u fold_with_role with_type_def actor_new_def split: option.split)
      (auto simp: filter_opt_def split: option.split)
qed

lemma grpc_context_decoded:
  assumes "sendable vis mkey ascii entries c"
    and "decode_context_from_metadata vis ascii fresh
           (encode_context_to_metadata vis mkey entries c no_metadata) = Some c'"
  shows "request_id c' = (if request_id c = [] then fresh else request_id c)
   \<and> trace_id c' = trace_id c \<and> tenant_id c' = without_empty (tenant_id c)
   \<and> device_id c' = without_empty (device_id c) \<and> platform c' = without_empty (platform c)
   \<and> session_id c' = without_empty (session_id c)
   \<and> (case actor c of
        Some a \<Rightarrow> actor c' = Some a
          \<and> user_id c' = (if actor_type a = User then Some (actor_id a) else without_empty (user_id c))
      | None \<Rightarrow> user_id c' = without_empty (user_id c)
          \<and> actor c' = map_option (\<lambda>u. \<lparr>actor_id = u, actor_type = Unspecified, roles = [],
                                        attributes = Map.empty\<rparr>) (without_empty (user_id c)))"
proof -
  let ?md = "encode_context_to_metadata vis mkey entries c no_metadata"
  note d = decoded_fields [OF assms(2)] and f = encoded_fields [OF assms(1)]
  have v: "vis (request_id c)" "vis (trace_id c)" "tenant_id c \<noteq> None \<longrightarrow> vis (the (tenant_id c))"
    "device_id c \<noteq> None \<longrightarrow> vis (the (device_id c))" "platform c \<noteq> None \<longrightarrow> vis (the (platform c))"
    "session_id c \<noteq> None \<longrightarrow> vis (the (session_id c))" "user_id c \<noteq> None \<longrightarrow> vis (the (user_id c))"
    using assms(1) by (auto simp: sendable_def)
  have "md_text vis ?md ''x-request-id'' = without_empty (Some (request_id c))"
    "md_text vis ?md ''x-trace-id'' = without_empty (Some (trace_id c))"
    "md_text vis ?md ''x-tenant-id'' = without_empty (tenant_id c)"
    "md_text vis ?md ''x-device-id'' = without_empty (device_id c)"
    "md_text vis ?md ''x-session-id'' = without_empty (session_id c)"
    by (rule md_text_sendable, rule f, use v in simp)+
  moreover have "platform c' = without_empty (platform c)"
    using v(5) by (cases "platform c") (auto simp: d(6) f(5,8) without_empty_def filter_opt_def)
  moreover have "user_id c' = (case actor c of
           Some a \<Rightarrow> if actor_type a = User then Some (actor_id a) else without_empty (user_id c)
         | None \<Rightarrow> without_empty (user_id c))"
  proof (cases "actor c")
    case None
    then show ?thesis using md_text_sendable [of ?md "''x-user-id''" "user_id c" vis] f(7) v(7) d(4) by simp
  next
    case (Some a)
    then have "actor_id a \<noteq> []" "vis (actor_id a)" using assms(1) by (auto simp: sendable_def)
    with Some show ?thesis
      using md_text_sendable [of ?md "''x-user-id''" "user_id c" vis] f(7) v(7) d(4)
      by (auto simp: md_text_def filter_opt_def)
  qed
  moreover have "actor c' = (case actor c of Some a \<Rightarrow> Some a
      | None \<Rightarrow> map_option (\<lambda>u. \<lparr>actor_id = u, actor_type = Unspecified, roles = [],
                                 attributes = Map.empty\<rparr>) (without_empty (user_id c)))"
    using encoded_actor [OF assms(1)] encoded_no_actor [OF assms(1)] by (simp add: d(8) split: option.split)
  ultimately show ?thesis
    by (simp add: d(1-3,5,7) without_empty_def split: option.split)
qed


text \<open>A library that takes every value as text and every name as it is.\<close>

definition any_text :: "string \<Rightarrow> bool" where
  "any_text s = True"

definition any_key :: "string \<Rightarrow> string option" where
  "any_key s = Some s"

definition sample_actor :: actor_context where
  "sample_actor = \<lparr>actor_id = ''a1'', actor_type = User, roles = [''ops, night'', ''dev''],
     attributes = [''zone'' \<mapsto> ''eu'']\<rparr>"

definition sample_context :: request_context where
  "sample_context = with_actor sample_actor (with_user_id ''u1'' (with_tenant_id ''t1'' (with_request_id ''r1'')))"

lemma sample_sendable: "sendable any_text any_key any_text [(''zone'', ''eu'')] sample_context"
  by (simp add: sendable_def sample_context_def any_text_def any_key_def sample_actor_def
      context_builders fun_eq_iff)

lemma sample_context_sel [simp]:
  "request_id sample_context = ''r1''" "tenant_id sample_context = Some ''t1''"
  "user_id sample_context = Some ''u1''" "actor sample_context = Some sample_actor"
  by (simp_all add: sample_context_def context_builders)


text \<open>The values under the names of the actor.\<close>

lemma encoded_actor_values:
  assumes s: "sendable vis mkey ascii entries c" and a: "actor c = Some a"
  defines "md \<equiv> encode_context_to_metadata vis mkey entries c no_metadata"
  shows "md ''x-actor-roles'' = roles a" and "md ''x-actor-id'' = [actor_id a]"
proof -
  have as: "actor_id a \<noteq> []" "vis (actor_id a)" "distinct (map fst entries)"
    and e: "\<forall>(k, v) \<in> set entries. vis v \<and> mkey (attr_prefix @ k) = Some (attr_prefix @ k)"
    and r: "filter (\<lambda>r. vis r \<and> r \<noteq> []) (roles a) = roles a"
    using s a by (auto simp: sendable_def intro!: filter_True)
  have "put_fields vis c no_metadata ''x-actor-roles'' = []"
    unfolding put_fields_def by (simp add: put_text_values no_metadata_def)
  then show "md ''x-actor-roles'' = roles a" and "md ''x-actor-id'' = [actor_id a]"
    using as(1,2) r
    by (simp_all add: md_def encode_context_to_metadata_def a encode_actor_to_metadata_def Let_def
        put_entries_values [OF e as(3)] put_roles_values hinsert_def)
qed

lemma hget_copy_headers:
  "ascii k \<Longrightarrow> m k = [v] \<Longrightarrow> vis v \<Longrightarrow> hget (copy_headers vis ascii m) k = Some v"
  by (simp add: hget_def copy_headers_def)

text \<open>The layer injects a context in any case; without one in the request, the one of the copied
  headers.\<close>

lemma context_service_injects:
  assumes "rq_context rq = None"
  obtains c where "rq_context (context_service vis ascii fresh l rq) = Some c"
    and "actor c = decode_actor_from_metadata vis ascii (copy_headers vis ascii (rq_metadata rq))"
    and "rq_metadata (context_service vis ascii fresh l rq) = rq_metadata rq"
proof -
  obtain c0 where c0: "decode_context_from_metadata vis ascii fresh (copy_headers vis ascii (rq_metadata rq)) = Some c0"
    using decode_never_None by fast
  have a0: "actor c0 = decode_actor_from_metadata vis ascii (copy_headers vis ascii (rq_metadata rq))"
    by (rule decoded_fields(8) [OF c0])
  have t: "actor (with_tenant_id t c0) = actor c0" for t
    by (simp add: with_tenant_id_def actor_def get_data_def)
  let ?c = "if tenant_id c0 = None then (case default_tenant l of Some t \<Rightarrow> with_tenant_id t c0 | None \<Rightarrow> c0) else c0"
  show thesis
  proof (rule that)
    show "rq_context (context_service vis ascii fresh l rq) = Some ?c"
      using assms c0 by (auto simp: context_service_def Let_def split: option.split)
    show "actor ?c = decode_actor_from_metadata vis ascii (copy_headers vis ascii (rq_metadata rq))"
      using a0 t by (auto split: option.split)
    show "rq_metadata (context_service vis ascii fresh l rq) = rq_metadata rq"
      using assms c0 by (auto simp: context_service_def Let_def split: option.split)
  qed
qed

lemma decoded_actor:
  assumes "hget md ''x-actor-id'' = Some n" "n \<noteq> []" "vis n"
  obtains a where "decode_actor_from_metadata vis ascii md = Some a" "actor_id a = n"
    "roles a = filter (\<lambda>r. vis r \<and> r \<noteq> []) (md ''x-actor-roles'')"
  using assms
  by (simp add: decode_actor_from_metadata_def Let_def filter_opt_def fold_with_role with_type_def actor_new_def)

text \<open>
  The context layer of the server drops all roles of an actor but the last: a context sent
  with an actor of several roles, received through the layer, has an actor with the last one only.
\<close>

theorem context_layer_keeps_last_role:
  assumes "sendable vis mkey ascii entries c" and "actor c = Some a" and "roles a \<noteq> []"
    and "ascii ''x-actor-id''" and "ascii ''x-actor-roles''"
  shows "\<exists>c' a'. rq_context (context_service vis ascii fresh l (request_with_context vis mkey entries c)) = Some c'
    \<and> actor c' = Some a' \<and> actor_id a' = actor_id a \<and> roles a' = [last (roles a)]"
proof -
  let ?rq = "request_with_context vis mkey entries c"
  let ?md = "encode_context_to_metadata vis mkey entries c no_metadata"
  have rq: "rq_context ?rq = None" "rq_metadata ?rq = ?md"
    by (simp_all add: request_with_context_def set_context_metadata_def no_metadata_def)
  have s: "actor_id a \<noteq> []" "vis (actor_id a)" "\<forall>r \<in> set (roles a). r \<noteq> [] \<and> vis r"
    using assms(1, 2) by (auto simp: sendable_def)
  note v = encoded_actor_values [OF assms(1, 2)]
  obtain c' where c': "rq_context (context_service vis ascii fresh l ?rq) = Some c'"
    "actor c' = decode_actor_from_metadata vis ascii (copy_headers vis ascii ?md)"
    using context_service_injects [OF rq(1), of vis ascii fresh l] rq(2) by metis
  have id: "hget (copy_headers vis ascii ?md) ''x-actor-id'' = Some (actor_id a)"
    by (rule hget_copy_headers) (use assms(4) v(2) s(2) in auto)
  have last: "last (roles a) \<noteq> [] \<and> vis (last (roles a))" using s(3) assms(3) by simp
  have "filter vis (roles a) = roles a" using s(3) by (intro filter_True) auto
  then have copied: "copy_headers vis ascii ?md ''x-actor-roles'' = [last (roles a)]"
    using assms(3, 5) v(1) by (cases "roles a") (simp_all add: copy_headers_def)
  obtain a' where "decode_actor_from_metadata vis ascii (copy_headers vis ascii ?md) = Some a'"
    "actor_id a' = actor_id a"
    "roles a' = filter (\<lambda>r. vis r \<and> r \<noteq> []) (copy_headers vis ascii ?md ''x-actor-roles'')"
    by (rule decoded_actor [where vis = vis and ascii = ascii, OF id s(1,2)])
  with c' copied last show ?thesis by auto
qed

theorem context_layer_keeps_last_role_witness:
  "\<exists>c' a'. rq_context (context_service any_text any_text ''fresh'' context_layer_new
        (request_with_context any_text any_key [(''zone'', ''eu'')] sample_context)) = Some c'
    \<and> actor c' = Some a' \<and> actor_id a' = ''a1'' \<and> roles a' = [''dev'']"
  using context_layer_keeps_last_role [OF sample_sendable sample_context_sel(4)]
  by (simp add: sample_actor_def any_text_def)

text \<open>
  Claim C36. The authentication of gRPC requests does not bind the identity: a request with any valid
  token passes the interceptor as it is, and the user identifier that a handler reads behind the
  context layer is the one the client has written into the metadata, not that of the token.
\<close>

theorem grpc_identity_from_client:
  assumes "fst (validate_token j svc now token s) = Inr claims"
    and "hget (rq_metadata rq) ''authorization'' = Some (''Bearer '' @ token)" and "vis (''Bearer '' @ token)"
    and "rq_metadata rq ''x-actor-id'' = [u]" and "u \<noteq> []" and "vis u"
    and "ascii ''x-actor-id''" and "rq_context rq = None"
  shows "fst (composite_intercept vis j (ci_with_auth svc composite_interceptor_new) now rq s) = Inr rq
    \<and> grpc_require_user_id vis ascii fresh (context_service vis ascii fresh l rq) = Inr u"
proof
  obtain s' where "validate_token j svc now token s = (Inr claims, s')"
    using assms(1) by (metis prod.collapse)
  then have "auth_intercept vis j svc now rq s = (Inr rq, s')"
    using assms(2, 3) by (simp add: auth_intercept_def filter_opt_def)
  then show "fst (composite_intercept vis j (ci_with_auth svc composite_interceptor_new) now rq s) = Inr rq"
    by (simp add: composite_intercept_def ci_with_auth_def composite_interceptor_new_def
        tracing_intercept_def logging_intercept_def)
next
  let ?rq = "context_service vis ascii fresh l rq"
  obtain c where c: "rq_context ?rq = Some c"
    "actor c = decode_actor_from_metadata vis ascii (copy_headers vis ascii (rq_metadata rq))"
    "rq_metadata ?rq = rq_metadata rq"
    using context_service_injects [OF assms(8), of vis ascii fresh l] by metis
  have id: "hget (copy_headers vis ascii (rq_metadata rq)) ''x-actor-id'' = Some u"
    by (rule hget_copy_headers) (use assms(4, 6, 7) in auto)
  obtain a where a: "actor c = Some a" "actor_id a = u"
    using decoded_actor [where vis = vis and ascii = ascii, OF id assms(5, 6)] c(2) by metis
  obtain d where d: "decode_context_from_metadata vis ascii fresh (rq_metadata ?rq) = Some d"
    using decode_never_None by fast
  have keep: "actor (with_user_id x e) = actor e" "actor (with_tenant_id x e) = actor e"
    "actor (with_trace_id x e) = actor e" "actor (with_device_id x e) = actor e" for x e
    by (simp_all add: context_builders actor_def get_data_def)
  obtain m where m: "merge_request_context vis ascii fresh ?rq = Some m" "actor m = actor c"
    using c(1) d by (auto simp: merge_request_context_def Let_def keep split: option.splits)
  then show "grpc_require_user_id vis ascii fresh ?rq = Inr u"
    using a assms(5) by (simp add: grpc_require_user_id_def require_ctx_from_request_def)
qed

definition alice_claims :: token_claims where
  "alice_claims = \<lparr>tc_sub = ''alice'', tc_iss = ''i'', tc_exp = 60, tc_iat = 0, tc_jti = ''a'',
     tc_device = None, tc_tenant = None\<rparr>"

definition storeless_service :: "unit token_service" where
  "storeless_service = token_service_new ''k'' ''i'' 60"

lemma alice_valid: "validate_token plain_jwt storeless_service 0 (plain_token alice_claims ''k'') () = (Inr alice_claims, ())"
  by (simp add: validate_token_Inr decode_claims_def storeless_service_def token_service_new_def
      plain_jwt_decodes alice_claims_def)

definition mallory_request :: grpc_request where
  "mallory_request = \<lparr>rq_metadata = no_metadata(''authorization'' := [''Bearer '' @ plain_token alice_claims ''k''],
     ''x-actor-id'' := [''mallory'']), rq_context = None\<rparr>"

theorem grpc_identity_from_client_witness:
  "fst (composite_intercept any_text plain_jwt (ci_with_auth storeless_service composite_interceptor_new) 0
      mallory_request ()) = Inr mallory_request
   \<and> grpc_require_user_id any_text any_text ''fresh''
       (context_service any_text any_text ''fresh'' context_layer_new mallory_request) = Inr ''mallory''"
proof (rule grpc_identity_from_client)
  show "fst (validate_token plain_jwt storeless_service 0 (plain_token alice_claims ''k'') ()) = Inr alice_claims"
    by (simp add: alice_valid)
qed (simp_all add: mallory_request_def hget_def any_text_def)

end
