(* ===== verification/Context_Tokens.thy ===== *)
theory Context_Tokens
  imports Context_Core Error_Values
begin

text \<open>
  Cancellation and deadlines of \<^verbatim>\<open>flare-core-base/src/context/core.rs\<close>: every context has a token, a derived
  context has a child of its base's token or the same one, and a deadline starts a task that sleeps until
  then and cancels the token. The tokens belong to a library: its calls are the record \<open>token_lib\<close>,
  \<open>tokens_documented\<close> says what its documentation promises. The sleeping tasks are the list of timers of the
  state; a timer may fire at any time from its deadline on. Data and metadata are those of \<open>Context_Core\<close>.
\<close>

section \<open>Tokens\<close>

record ('t, 's) token_lib =
  tk_new :: "'s \<Rightarrow> 't \<times> 's"
  tk_child :: "'t \<Rightarrow> 's \<Rightarrow> 't \<times> 's"
  tk_cancel :: "'t \<Rightarrow> 's \<Rightarrow> 's"
  tk_cancelled :: "'t \<Rightarrow> 's \<Rightarrow> bool"

text \<open>
  \<open>known\<close> are the tokens that were created, \<open>lineage s t\<close> has \<open>t\<close>, its parent, the parent of this one and so
  on. A call changes nothing else about the tokens known before: they keep their lineage and
  whether they are cancelled, except that cancelling a token cancels all tokens whose lineage it is in.
\<close>

definition tokens_documented ::
    "('t, 's) token_lib \<Rightarrow> ('s \<Rightarrow> 't set) \<Rightarrow> ('s \<Rightarrow> 't \<Rightarrow> 't set) \<Rightarrow> bool" where
  "tokens_documented lib known lineage \<longleftrightarrow>
     (\<forall>s t. t \<in> known s \<longrightarrow> t \<in> lineage s t \<and> lineage s t \<subseteq> known s) \<and>
     (\<forall>s t s1. tk_new lib s = (t, s1) \<longrightarrow>
        t \<notin> known s \<and> known s1 = insert t (known s) \<and> lineage s1 t = {t} \<and> \<not> tk_cancelled lib t s1 \<and>
        (\<forall>u \<in> known s. lineage s1 u = lineage s u \<and> tk_cancelled lib u s1 = tk_cancelled lib u s)) \<and>
     (\<forall>s p t s1. p \<in> known s \<longrightarrow> tk_child lib p s = (t, s1) \<longrightarrow>
        t \<notin> known s \<and> known s1 = insert t (known s) \<and> lineage s1 t = insert t (lineage s p) \<and>
        tk_cancelled lib t s1 = tk_cancelled lib p s \<and>
        (\<forall>u \<in> known s. lineage s1 u = lineage s u \<and> tk_cancelled lib u s1 = tk_cancelled lib u s)) \<and>
     (\<forall>s t. t \<in> known s \<longrightarrow>
        known (tk_cancel lib t s) = known s \<and>
        (\<forall>u \<in> known s. lineage (tk_cancel lib t s) u = lineage s u \<and>
           (tk_cancelled lib u (tk_cancel lib t s) \<longleftrightarrow> tk_cancelled lib u s \<or> t \<in> lineage s u)))"

lemma token_lineage:
  "tokens_documented lib known lineage \<Longrightarrow> t \<in> known s \<Longrightarrow> t \<in> lineage s t \<and> lineage s t \<subseteq> known s"
  unfolding tokens_documented_def by (elim conjE) metis

lemma token_new:
  "tokens_documented lib known lineage \<Longrightarrow> tk_new lib s = (t, s1) \<Longrightarrow>
     t \<notin> known s \<and> known s1 = insert t (known s) \<and> lineage s1 t = {t} \<and> \<not> tk_cancelled lib t s1 \<and>
     (\<forall>u \<in> known s. lineage s1 u = lineage s u \<and> tk_cancelled lib u s1 = tk_cancelled lib u s)"
  unfolding tokens_documented_def by (elim conjE) metis

lemma token_child:
  "tokens_documented lib known lineage \<Longrightarrow> p \<in> known s \<Longrightarrow> tk_child lib p s = (t, s1) \<Longrightarrow>
     t \<notin> known s \<and> known s1 = insert t (known s) \<and> lineage s1 t = insert t (lineage s p) \<and>
     tk_cancelled lib t s1 = tk_cancelled lib p s \<and>
     (\<forall>u \<in> known s. lineage s1 u = lineage s u \<and> tk_cancelled lib u s1 = tk_cancelled lib u s)"
  unfolding tokens_documented_def by (elim conjE) metis

lemma token_cancel:
  "tokens_documented lib known lineage \<Longrightarrow> t \<in> known s \<Longrightarrow>
     known (tk_cancel lib t s) = known s \<and>
     (\<forall>u \<in> known s. lineage (tk_cancel lib t s) u = lineage s u \<and>
        (tk_cancelled lib u (tk_cancel lib t s) \<longleftrightarrow> tk_cancelled lib u s \<or> t \<in> lineage s u))"
  unfolding tokens_documented_def by (elim conjE) metis

section \<open>Contexts with tokens\<close>

record 't live_context =
  lc_context :: request_context
  lc_token :: 't

record ('t, 's) live_state =
  ls_tokens :: 's
  ls_timers :: "(nat \<times> 't) list"

definition live_root ::
    "('t, 's) token_lib \<Rightarrow> request_context \<Rightarrow> ('t, 's) live_state \<Rightarrow> 't live_context \<times> ('t, 's) live_state" where
  "live_root lib c w =
     (case tk_new lib (ls_tokens w) of
        (t, s) \<Rightarrow> (\<lparr>lc_context = c, lc_token = t\<rparr>, w\<lparr>ls_tokens := s\<rparr>))"

text \<open>\<^verbatim>\<open>child\<close>, and every method that sets a field: the new context has a token of its own.\<close>

definition live_child ::
    "('t, 's) token_lib \<Rightarrow> (request_context \<Rightarrow> request_context) \<Rightarrow> 't live_context \<Rightarrow> ('t, 's) live_state
     \<Rightarrow> 't live_context \<times> ('t, 's) live_state" where
  "live_child lib f c w =
     (case tk_child lib (lc_token c) (ls_tokens w) of
        (t, s) \<Rightarrow> (\<lparr>lc_context = f (child (lc_context c)), lc_token = t\<rparr>, w\<lparr>ls_tokens := s\<rparr>))"

definition earlier_deadline :: "nat \<Rightarrow> request_context \<Rightarrow> nat" where
  "earlier_deadline t c = (case deadline c of Some d \<Rightarrow> if d < t then d else t | None \<Rightarrow> t)"

definition live_with_deadline ::
    "('t, 's) token_lib \<Rightarrow> nat \<Rightarrow> nat \<Rightarrow> 't live_context \<Rightarrow> ('t, 's) live_state
     \<Rightarrow> 't live_context \<times> ('t, 's) live_state" where
  "live_with_deadline lib now t c w =
     (case live_child lib (with_deadline t) c w of
        (ch, w1) \<Rightarrow>
          (let effective = earlier_deadline t (lc_context c)
           in (ch, if effective \<le> now
                   then w1\<lparr>ls_tokens := tk_cancel lib (lc_token ch) (ls_tokens w1)\<rparr>
                   else w1\<lparr>ls_timers := ls_timers w1 @ [(effective, lc_token ch)]\<rparr>)))"

text \<open>The methods that change the data share the token of the context they are called on.\<close>

definition live_same :: "(request_context \<Rightarrow> request_context) \<Rightarrow> 't live_context \<Rightarrow> 't live_context" where
  "live_same f c = c\<lparr>lc_context := f (lc_context c)\<rparr>"

text \<open>
  The methods that derive a context. A time limit reads the clock twice: \<open>started\<close> is the first
  reading, the other one is the argument \<open>now\<close> of \<open>derive\<close>.
\<close>

datatype derivation =
  DChild
| DDeadline nat
| DTimeout nat nat
| DTimeoutMs nat u64
| DTask nat "u64 option"
| DTraceId string
| DUserId string
| DTenantId string
| DDeviceId string
| DPlatform string
| DSessionId string
| DInsert data_value
| DRemove type_id

fun derive ::
    "('t, 's) token_lib \<Rightarrow> nat \<Rightarrow> derivation \<Rightarrow> 't live_context \<Rightarrow> ('t, 's) live_state
     \<Rightarrow> 't live_context \<times> ('t, 's) live_state" where
  "derive lib now DChild c w = live_child lib id c w"
| "derive lib now (DDeadline t) c w = live_with_deadline lib now t c w"
| "derive lib now (DTimeout started d) c w = live_with_deadline lib now (started + d) c w"
| "derive lib now (DTimeoutMs started ms) c w = live_with_deadline lib now (started + unat ms) c w"
| "derive lib now (DTask started tm) c w =
     (case tm of Some ms \<Rightarrow> live_with_deadline lib now (started + unat ms) c w | None \<Rightarrow> live_child lib id c w)"
| "derive lib now (DTraceId v) c w = live_child lib (with_trace_id v) c w"
| "derive lib now (DUserId v) c w = live_child lib (with_user_id v) c w"
| "derive lib now (DTenantId v) c w = live_child lib (with_tenant_id v) c w"
| "derive lib now (DDeviceId v) c w = live_child lib (with_device_id v) c w"
| "derive lib now (DPlatform v) c w = live_child lib (with_platform v) c w"
| "derive lib now (DSessionId v) c w = live_child lib (with_session_id v) c w"
| "derive lib now (DInsert v) c w = (live_same (insert_data v) c, w)"
| "derive lib now (DRemove t) c w = (live_same (\<lambda>rc. fst (remove_data t rc)) c, w)"

definition shares_token :: "derivation \<Rightarrow> bool" where
  "shares_token d = (case d of DInsert _ \<Rightarrow> True | DRemove _ \<Rightarrow> True | _ \<Rightarrow> False)"

definition live_cancel ::
    "('t, 's) token_lib \<Rightarrow> 't live_context \<Rightarrow> ('t, 's) live_state \<Rightarrow> ('t, 's) live_state" where
  "live_cancel lib c w = w\<lparr>ls_tokens := tk_cancel lib (lc_token c) (ls_tokens w)\<rparr>"

definition live_cancelled :: "('t, 's) token_lib \<Rightarrow> 't live_context \<Rightarrow> ('t, 's) live_state \<Rightarrow> bool" where
  "live_cancelled lib c w = tk_cancelled lib (lc_token c) (ls_tokens w)"

definition ensure_not_cancelled ::
    "('t, 's) token_lib \<Rightarrow> 't live_context \<Rightarrow> ('t, 's) live_state \<Rightarrow> context_error + unit" where
  "ensure_not_cancelled lib c w = (if live_cancelled lib c w then Inl ContextCancelled else Inr ())"

definition check_cancelled ::
    "('t, 's) token_lib \<Rightarrow> 't live_context \<Rightarrow> ('t, 's) live_state \<Rightarrow> context_error + unit" where
  "check_cancelled lib c w = ensure_not_cancelled lib c w"

text \<open>A sleeping task wakes up, not before its time, cancels its token and is gone.\<close>

definition timer_fires ::
    "('t, 's) token_lib \<Rightarrow> nat \<Rightarrow> nat \<Rightarrow> ('t, 's) live_state \<Rightarrow> ('t, 's) live_state option" where
  "timer_fires lib k now w =
     (if k < length (ls_timers w) \<and> fst (ls_timers w ! k) \<le> now
      then Some (w\<lparr>ls_tokens := tk_cancel lib (snd (ls_timers w ! k)) (ls_tokens w),
                   ls_timers := take k (ls_timers w) @ drop (Suc k) (ls_timers w)\<rparr>)
      else None)"

section \<open>Running a future under a context\<close>

text \<open>
  \<^verbatim>\<open>run\<close> awaits a future until the context is cancelled or its deadline passes. \<open>fut\<close> is the time at
  which the future is done, with its value, and \<open>cancel\<close> the time at which the token is cancelled, if ever;
  what has happened before the call happens at its start. When both come at once \<^verbatim>\<open>select\<close> takes either:
  \<open>coin\<close> says whether it takes the future. A time limit looks at what it waits for first. The result is
  \<open>None\<close> when the call never returns.
\<close>

definition select_run :: "bool \<Rightarrow> nat \<Rightarrow> (nat \<times> 'a) option \<Rightarrow> nat option \<Rightarrow> (nat \<times> 'a option) option" where
  "select_run coin now fut cancel =
     (case (fut, cancel) of
        (None, None) \<Rightarrow> None
      | (Some (f, v), None) \<Rightarrow> Some (max now f, Some v)
      | (None, Some k) \<Rightarrow> Some (max now k, None)
      | (Some (f, v), Some k) \<Rightarrow>
          if max now f < max now k \<or> max now f = max now k \<and> coin then Some (max now f, Some v)
          else Some (max now k, None))"

definition context_run ::
    "bool \<Rightarrow> nat \<Rightarrow> nat option \<Rightarrow> (nat \<times> 'a) option \<Rightarrow> nat option \<Rightarrow> 'a option option" where
  "context_run coin now dl fut cancel =
     (case dl of
        Some d \<Rightarrow>
          (if d - now = 0 then Some None
           else (case select_run coin now fut cancel of
                   Some (t, r) \<Rightarrow> if t \<le> now + (d - now) then Some r else Some None
                 | None \<Rightarrow> Some None))
      | None \<Rightarrow> (case select_run coin now fut cancel of Some (t, r) \<Rightarrow> Some r | None \<Rightarrow> None))"

section \<open>Runs\<close>

text \<open>
  A run creates contexts, derives contexts from others, cancels some and lets timers fire, in any order.
  A context is known by its number.
\<close>

record ('t, 's) ctx_world =
  cw_contexts :: "'t live_context list"
  cw_state :: "('t, 's) live_state"

datatype ctx_event =
  NewContext "string option"
| DeriveFrom nat derivation nat
| CancelContext nat
| TimerFires nat nat

definition with_new ::
    "('t, 's) ctx_world \<Rightarrow> 't live_context \<times> ('t, 's) live_state \<Rightarrow> ('t, 's) ctx_world" where
  "with_new st cw = \<lparr>cw_contexts = cw_contexts st @ [fst cw], cw_state = snd cw\<rparr>"

fun ctx_step :: "('t, 's) token_lib \<Rightarrow> ctx_event \<Rightarrow> ('t, 's) ctx_world \<Rightarrow> ('t, 's) ctx_world option" where
  "ctx_step lib (NewContext r) st =
     Some (with_new st (live_root lib (case r of None \<Rightarrow> root | Some s \<Rightarrow> with_request_id s) (cw_state st)))"
| "ctx_step lib (DeriveFrom i d now) st =
     (if i < length (cw_contexts st)
      then Some (with_new st (derive lib now d (cw_contexts st ! i) (cw_state st))) else None)"
| "ctx_step lib (CancelContext i) st =
     (if i < length (cw_contexts st)
      then Some (st\<lparr>cw_state := live_cancel lib (cw_contexts st ! i) (cw_state st)\<rparr>) else None)"
| "ctx_step lib (TimerFires k now) st =
     map_option (\<lambda>w. st\<lparr>cw_state := w\<rparr>) (timer_fires lib k now (cw_state st))"

fun ctx_steps :: "('t, 's) token_lib \<Rightarrow> ctx_event list \<Rightarrow> ('t, 's) ctx_world \<Rightarrow> ('t, 's) ctx_world option" where
  "ctx_steps lib [] st = Some st"
| "ctx_steps lib (e # es) st = Option.bind (ctx_step lib e st) (ctx_steps lib es)"

definition no_contexts :: "'s \<Rightarrow> ('t, 's) ctx_world" where
  "no_contexts s = \<lparr>cw_contexts = [], cw_state = \<lparr>ls_tokens = s, ls_timers = []\<rparr>\<rparr>"

fun event_time :: "ctx_event \<Rightarrow> nat option" where
  "event_time (DeriveFrom i d now) = Some now"
| "event_time (TimerFires k now) = Some now"
| "event_time (NewContext c) = None"
| "event_time (CancelContext i) = None"

definition is_cancel :: "ctx_event \<Rightarrow> bool" where
  "is_cancel e = (case e of CancelContext _ \<Rightarrow> True | _ \<Rightarrow> False)"

section \<open>What deriving does\<close>

lemma derive_cases [consumes 1, case_names child deadline same]:
  assumes "derive lib now d c w = (c1, w1)"
  obtains (child) f where "\<And>rc. deadline (f rc) = deadline rc" "live_child lib f c w = (c1, w1)" "\<not> shares_token d"
  | (deadline) t where "live_with_deadline lib now t c w = (c1, w1)" "\<not> shares_token d"
  | (same) f where "\<And>rc. deadline (f rc) = deadline rc" "c1 = live_same f c" "w1 = w" "shares_token d"
proof (cases d)
  case (DTask started tm)
  then show ?thesis using assms child [of id] deadline by (auto simp: shares_token_def split: option.splits)
next
  case (DRemove t)
  have "\<And>rc. deadline (fst (remove_data t rc)) = deadline rc" by (simp add: remove_data_def split: prod.split)
  with DRemove show ?thesis using assms same [of "\<lambda>rc. fst (remove_data t rc)"]
    by (auto simp: shares_token_def)
next
  case (DInsert v)
  then show ?thesis using assms same [of "insert_data v"] by (auto simp: shares_token_def insert_data_def)
qed (use assms child [of id] deadline child [of "with_trace_id v" for v] child [of "with_user_id v" for v]
       child [of "with_tenant_id v" for v] child [of "with_device_id v" for v] child [of "with_platform v" for v]
       child [of "with_session_id v" for v] in \<open>auto simp: shares_token_def context_builders\<close>)

lemma deadline_with_deadline [simp]: "deadline (with_deadline t c) = Some (earlier_deadline t c)"
  by (simp add: with_deadline_def earlier_deadline_def Let_def split: option.split)

text \<open>What all operations keep: known tokens, their lineage, and that they are cancelled.\<close>

definition token_le ::
    "('t, 's) token_lib \<Rightarrow> ('s \<Rightarrow> 't set) \<Rightarrow> ('s \<Rightarrow> 't \<Rightarrow> 't set) \<Rightarrow> 's \<Rightarrow> 's \<Rightarrow> bool" where
  "token_le lib known lineage s s1 \<longleftrightarrow>
     known s \<subseteq> known s1 \<and>
     (\<forall>u \<in> known s. lineage s1 u = lineage s u \<and> (tk_cancelled lib u s \<longrightarrow> tk_cancelled lib u s1))"

lemma token_le_refl: "token_le lib known lineage s s"
  by (simp add: token_le_def)

lemma token_le_trans:
  "token_le lib known lineage s s1 \<Longrightarrow> token_le lib known lineage s1 s2 \<Longrightarrow> token_le lib known lineage s s2"
  unfolding token_le_def by (metis subset_eq)

lemma token_le_new:
  "tokens_documented lib known lineage \<Longrightarrow> tk_new lib s = (t, s1) \<Longrightarrow> token_le lib known lineage s s1"
  using token_new [of lib known lineage s t s1] by (auto simp: token_le_def)

lemma token_le_child:
  "tokens_documented lib known lineage \<Longrightarrow> p \<in> known s \<Longrightarrow> tk_child lib p s = (t, s1) \<Longrightarrow>
   token_le lib known lineage s s1"
  using token_child [of lib known lineage p s t s1] by (auto simp: token_le_def)

lemma token_le_cancel:
  "tokens_documented lib known lineage \<Longrightarrow> t \<in> known s \<Longrightarrow> token_le lib known lineage s (tk_cancel lib t s)"
  using token_cancel [of lib known lineage t s] by (auto simp: token_le_def)

lemma live_childD:
  assumes "tokens_documented lib known lineage" and "lc_token c \<in> known (ls_tokens w)"
    and "live_child lib f c w = (c1, w1)"
  shows "lc_context c1 = f (lc_context c)" and "ls_timers w1 = ls_timers w"
    and "tk_child lib (lc_token c) (ls_tokens w) = (lc_token c1, ls_tokens w1)"
  using assms by (auto simp: live_child_def split: prod.splits)

section \<open>Deadlines are watched\<close>

text \<open>A context with a deadline is cancelled, or a timer that fires in time is in its lineage.\<close>

definition watched ::
    "('t, 's) token_lib \<Rightarrow> ('s \<Rightarrow> 't set) \<Rightarrow> ('s \<Rightarrow> 't \<Rightarrow> 't set) \<Rightarrow> ('t, 's) live_state
     \<Rightarrow> 't live_context \<Rightarrow> bool" where
  "watched lib known lineage w c \<longleftrightarrow>
     lc_token c \<in> known (ls_tokens w) \<and>
     (\<forall>d. deadline (lc_context c) = Some d \<longrightarrow> live_cancelled lib c w \<or>
        (\<exists>(d', t') \<in> set (ls_timers w). d' \<le> d \<and> t' \<in> lineage (ls_tokens w) (lc_token c)))"

definition world_watched ::
    "('t, 's) token_lib \<Rightarrow> ('s \<Rightarrow> 't set) \<Rightarrow> ('s \<Rightarrow> 't \<Rightarrow> 't set) \<Rightarrow> ('t, 's) ctx_world \<Rightarrow> bool" where
  "world_watched lib known lineage st \<longleftrightarrow>
     (\<forall>c \<in> set (cw_contexts st). watched lib known lineage (cw_state st) c) \<and>
     snd ` set (ls_timers (cw_state st)) \<subseteq> known (ls_tokens (cw_state st))"

lemma watched_mono:
  assumes "watched lib known lineage w c" and "token_le lib known lineage (ls_tokens w) (ls_tokens w1)"
    and "set (ls_timers w) \<subseteq> set (ls_timers w1)"
  shows "watched lib known lineage w1 c"
proof -
  from assms(1) have "lc_token c \<in> known (ls_tokens w)" by (simp add: watched_def)
  with assms(2) have "lc_token c \<in> known (ls_tokens w1)"
    and "lineage (ls_tokens w1) (lc_token c) = lineage (ls_tokens w) (lc_token c)"
    and "live_cancelled lib c w \<Longrightarrow> live_cancelled lib c w1"
    by (auto simp: token_le_def live_cancelled_def)
  with assms(1,3) show ?thesis by (fastforce simp: watched_def)
qed

lemma watched_child:
  assumes doc: "tokens_documented lib known lineage" and c: "watched lib known lineage w c"
    and "live_child lib f c w = (c1, w1)" and "\<And>rc. deadline (f rc) = deadline rc"
  shows "watched lib known lineage w1 c1"
proof -
  note ch = live_childD [OF doc _ assms(3)]
  from c have k: "lc_token c \<in> known (ls_tokens w)" by (simp add: watched_def)
  from token_child [OF doc k ch(3) [OF k]] c show ?thesis
    by (fastforce simp: watched_def live_cancelled_def ch(1) [OF k] ch(2) [OF k] assms(4))
qed

lemma live_with_deadlineD:
  assumes doc: "tokens_documented lib known lineage" and k: "lc_token c \<in> known (ls_tokens w)"
    and "live_with_deadline lib now t c w = (c1, w1)"
  shows "\<exists>w0. live_child lib (with_deadline t) c w = (c1, w0) \<and>
     (if earlier_deadline t (lc_context c) \<le> now
      then w1 = live_cancel lib c1 w0
      else w1 = w0\<lparr>ls_timers := ls_timers w @ [(earlier_deadline t (lc_context c), lc_token c1)]\<rparr>)"
  using assms(3) live_childD [OF doc k]
  by (auto simp: live_with_deadline_def live_cancel_def Let_def split: prod.splits if_splits)

lemma watched_with_deadline:
  assumes doc: "tokens_documented lib known lineage" and c: "watched lib known lineage w c"
    and d: "live_with_deadline lib now t c w = (c1, w1)"
  shows "watched lib known lineage w1 c1"
proof -
  from c have k: "lc_token c \<in> known (ls_tokens w)" by (simp add: watched_def)
  from live_with_deadlineD [OF doc k d] obtain w0 where ch: "live_child lib (with_deadline t) c w = (c1, w0)"
    and w1: "if earlier_deadline t (lc_context c) \<le> now then w1 = live_cancel lib c1 w0
      else w1 = w0\<lparr>ls_timers := ls_timers w @ [(earlier_deadline t (lc_context c), lc_token c1)]\<rparr>" by blast
  note ch = live_childD [OF doc k ch]
  note new = token_child [OF doc k ch(3)]
  then have k1: "lc_token c1 \<in> known (ls_tokens w0)" by blast
  from token_cancel [OF doc k1] token_lineage [OF doc k1] k1 w1 ch show ?thesis
    by (auto simp: watched_def live_cancelled_def live_cancel_def split: if_splits)
qed

lemma derive_watched:
  assumes doc: "tokens_documented lib known lineage" and c: "watched lib known lineage w c"
    and d: "derive lib now d c w = (c1, w1)"
  shows "watched lib known lineage w1 c1 \<and> token_le lib known lineage (ls_tokens w) (ls_tokens w1) \<and>
    set (ls_timers w) \<subseteq> set (ls_timers w1) \<and> snd ` set (ls_timers w1) \<subseteq> insert (lc_token c1) (snd ` set (ls_timers w))"
  using d
proof (cases rule: derive_cases)
  case (child f)
  from c have k: "lc_token c \<in> known (ls_tokens w)" by (simp add: watched_def)
  note ch = live_childD [OF doc k child(2)]
  from watched_child [OF doc c child(2,1)] token_le_child [OF doc k ch(3)] ch(2) show ?thesis by auto
next
  case (deadline t)
  from c have k: "lc_token c \<in> known (ls_tokens w)" by (simp add: watched_def)
  from live_with_deadlineD [OF doc k deadline(1)] obtain w0
    where ch: "live_child lib (with_deadline t) c w = (c1, w0)"
      and w1: "if earlier_deadline t (lc_context c) \<le> now then w1 = live_cancel lib c1 w0
        else w1 = w0\<lparr>ls_timers := ls_timers w @ [(earlier_deadline t (lc_context c), lc_token c1)]\<rparr>" by blast
  note ch = live_childD [OF doc k ch]
  from token_child [OF doc k ch(3)] have k1: "lc_token c1 \<in> known (ls_tokens w0)" by blast
  have "token_le lib known lineage (ls_tokens w0) (ls_tokens w1)"
    using w1 token_le_cancel [OF doc k1] by (auto simp: live_cancel_def token_le_refl split: if_splits)
  with token_le_child [OF doc k ch(3)] have "token_le lib known lineage (ls_tokens w) (ls_tokens w1)"
    by (rule token_le_trans)
  moreover have "set (ls_timers w) \<subseteq> set (ls_timers w1)"
    and "snd ` set (ls_timers w1) \<subseteq> insert (lc_token c1) (snd ` set (ls_timers w))"
    using w1 ch(2) by (auto simp: live_cancel_def split: if_splits)
  ultimately show ?thesis using watched_with_deadline [OF doc c deadline(1)] by blast
next
  case (same f)
  with c show ?thesis by (auto simp: token_le_refl watched_def live_same_def live_cancelled_def)
qed

lemma timer_firesD:
  assumes "timer_fires lib k now w = Some w1"
  obtains d t where "(d, t) \<in> set (ls_timers w)" "d \<le> now" "ls_tokens w1 = tk_cancel lib t (ls_tokens w)"
    "set (ls_timers w) = insert (d, t) (set (ls_timers w1))"
proof -
  let ?tm = "ls_timers w"
  from assms have k: "k < length ?tm" "fst (?tm ! k) \<le> now"
    and w1: "w1 = w\<lparr>ls_tokens := tk_cancel lib (snd (?tm ! k)) (ls_tokens w), ls_timers := take k ?tm @ drop (Suc k) ?tm\<rparr>"
    by (auto simp: timer_fires_def split: if_splits)
  have "set ?tm = insert (?tm ! k) (set (take k ?tm @ drop (Suc k) ?tm))"
    using arg_cong [OF id_take_nth_drop [OF k(1)], of set] by simp
  with k w1 that [of "fst (?tm ! k)" "snd (?tm ! k)"] show ?thesis by simp
qed

lemma timer_watched:
  assumes doc: "tokens_documented lib known lineage" and tm: "snd ` set (ls_timers w) \<subseteq> known (ls_tokens w)"
    and c: "watched lib known lineage w c" and f: "timer_fires lib k now w = Some w1"
  shows "watched lib known lineage w1 c"
proof -
  from f obtain d t where dt: "(d, t) \<in> set (ls_timers w)" and w1: "ls_tokens w1 = tk_cancel lib t (ls_tokens w)"
    "set (ls_timers w) = insert (d, t) (set (ls_timers w1))" by (rule timer_firesD)
  from dt tm have "t \<in> known (ls_tokens w)" by force
  note cn = token_cancel [OF doc this]
  from c cn have "lc_token c \<in> known (ls_tokens w1)" by (simp add: w1(1) watched_def)
  moreover have "live_cancelled lib c w1 \<or>
      (\<exists>(d', t') \<in> set (ls_timers w1). d' \<le> e \<and> t' \<in> lineage (ls_tokens w1) (lc_token c))"
    if "deadline (lc_context c) = Some e" for e
    using c that cn w1 by (fastforce simp: watched_def live_cancelled_def)
  ultimately show ?thesis by (auto simp: watched_def)
qed

lemma ctx_step_watched:
  assumes doc: "tokens_documented lib known lineage" and st: "world_watched lib known lineage st"
    and e: "ctx_step lib e st = Some st1"
  shows "world_watched lib known lineage st1"
proof (cases e)
  case (NewContext r)
  obtain c1 w1 where n: "live_root lib (case r of None \<Rightarrow> root | Some s \<Rightarrow> with_request_id s) (cw_state st) = (c1, w1)"
    by (metis surj_pair)
  then have tk: "tk_new lib (ls_tokens (cw_state st)) = (lc_token c1, ls_tokens w1)"
    and tm: "ls_timers w1 = ls_timers (cw_state st)" and "deadline (lc_context c1) = None"
    by (auto simp: live_root_def context_builders split: prod.splits option.splits)
  with token_new [OF doc tk] have "watched lib known lineage w1 c1" by (simp add: watched_def)
  moreover note le = token_le_new [OF doc tk]
  moreover have "snd ` set (ls_timers w1) \<subseteq> known (ls_tokens w1)"
    using st le unfolding tm world_watched_def token_le_def by (meson subset_trans)
  moreover have "watched lib known lineage w1 c" if "c \<in> set (cw_contexts st)" for c
    using watched_mono [OF _ le] st that tm by (simp add: world_watched_def)
  moreover have "st1 = \<lparr>cw_contexts = cw_contexts st @ [c1], cw_state = w1\<rparr>"
    using e NewContext n by (simp add: with_new_def)
  ultimately show ?thesis by (simp add: world_watched_def)
next
  case (DeriveFrom i d now)
  obtain c1 w1 where n: "derive lib now d (cw_contexts st ! i) (cw_state st) = (c1, w1)" by (metis surj_pair)
  from e DeriveFrom have i: "cw_contexts st ! i \<in> set (cw_contexts st)"
    and st1: "st1 = \<lparr>cw_contexts = cw_contexts st @ [c1], cw_state = w1\<rparr>"
    by (auto simp: with_new_def n split: if_splits)
  from st i have "watched lib known lineage (cw_state st) (cw_contexts st ! i)" by (simp add: world_watched_def)
  note dw = derive_watched [OF doc this n]
  then have "watched lib known lineage w1 c" if "c \<in> set (cw_contexts st)" for c
    using st that watched_mono by (fastforce simp: world_watched_def)
  moreover have "snd ` set (ls_timers w1) \<subseteq> known (ls_tokens w1)"
  proof -
    from st have "snd ` set (ls_timers (cw_state st)) \<subseteq> known (ls_tokens (cw_state st))"
      by (simp add: world_watched_def)
    also have "\<dots> \<subseteq> known (ls_tokens w1)" using dw by (simp add: token_le_def)
    finally have "insert (lc_token c1) (snd ` set (ls_timers (cw_state st))) \<subseteq> known (ls_tokens w1)"
      using dw by (simp add: watched_def)
    with dw show ?thesis by (meson order_trans)
  qed
  ultimately show ?thesis using dw by (auto simp: world_watched_def st1)
next
  case (CancelContext i)
  with e st have k: "lc_token (cw_contexts st ! i) \<in> known (ls_tokens (cw_state st))"
    and st1: "st1 = st\<lparr>cw_state := live_cancel lib (cw_contexts st ! i) (cw_state st)\<rparr>"
    by (auto simp: world_watched_def watched_def split: if_splits)
  from token_le_cancel [OF doc k] st show ?thesis
    using watched_mono [of lib known lineage "cw_state st"]
    by (auto simp: world_watched_def st1 live_cancel_def token_le_def)
next
  case (TimerFires k now)
  with e obtain w1 where f: "timer_fires lib k now (cw_state st) = Some w1" and st1: "st1 = st\<lparr>cw_state := w1\<rparr>"
    by auto
  from f obtain d t where dt: "(d, t) \<in> set (ls_timers (cw_state st))"
    and w1: "ls_tokens w1 = tk_cancel lib t (ls_tokens (cw_state st))"
      "set (ls_timers (cw_state st)) = insert (d, t) (set (ls_timers w1))" by (rule timer_firesD)
  from dt st have "t \<in> known (ls_tokens (cw_state st))" by (force simp: world_watched_def)
  with token_cancel [OF doc this] w1 st timer_watched [OF doc _ _ f] show ?thesis
    by (auto simp: world_watched_def st1)
qed

section \<open>Without calls of cancel, only deadlines cancel\<close>

definition just_cancelled ::
    "('t, 's) token_lib \<Rightarrow> ('s \<Rightarrow> 't \<Rightarrow> 't set) \<Rightarrow> nat \<Rightarrow> ('t, 's) live_state \<Rightarrow> 't live_context \<Rightarrow> bool" where
  "just_cancelled lib lineage T w c \<longleftrightarrow>
     (\<forall>(d', t') \<in> set (ls_timers w). t' \<in> lineage (ls_tokens w) (lc_token c) \<longrightarrow>
        (\<exists>d \<le> d'. deadline (lc_context c) = Some d)) \<and>
     (live_cancelled lib c w \<longrightarrow> (\<exists>d \<le> T. deadline (lc_context c) = Some d))"

text \<open>A new token is in no old lineage.\<close>

lemma just_cancelled_frame:
  assumes doc: "tokens_documented lib known lineage" and "lc_token u \<in> known (ls_tokens w)"
    and j: "just_cancelled lib lineage T w u" and "lineage (ls_tokens w1) (lc_token u) = lineage (ls_tokens w) (lc_token u)"
    and "live_cancelled lib u w1 = live_cancelled lib u w"
    and "set (ls_timers w1) \<subseteq> insert (e, t) (set (ls_timers w))" and "t \<notin> known (ls_tokens w)"
  shows "just_cancelled lib lineage T w1 u"
proof -
  have "t \<notin> lineage (ls_tokens w) (lc_token u)" using token_lineage [OF doc assms(2)] assms(7) by blast
  then have "(d', t') \<in> set (ls_timers w)"
    if "(d', t') \<in> set (ls_timers w1)" "t' \<in> lineage (ls_tokens w1) (lc_token u)" for d' t'
    using that assms(4,6) by auto
  with j show ?thesis unfolding just_cancelled_def assms(4,5) by blast
qed

lemma just_child:
  assumes doc: "tokens_documented lib known lineage" and k: "lc_token c \<in> known (ls_tokens w)"
    and tm: "snd ` set (ls_timers w) \<subseteq> known (ls_tokens w)" and j: "just_cancelled lib lineage T w c"
    and ch: "live_child lib f c w = (c1, w1)"
    and dl: "\<And>d. deadline (lc_context c) = Some d \<Longrightarrow> \<exists>d' \<le> d. deadline (f (lc_context c)) = Some d'"
  shows "just_cancelled lib lineage T w1 c1"
proof -
  note ch = live_childD [OF doc k ch]
  note new = token_child [OF doc k ch(3)]
  have "\<exists>d \<le> d'. deadline (lc_context c1) = Some d"
    if "(d', t') \<in> set (ls_timers w1)" "t' \<in> lineage (ls_tokens w1) (lc_token c1)" for d' t'
  proof -
    from that(1) tm ch(2) have "t' \<in> known (ls_tokens w)" by force
    with that(2) new have "t' \<in> lineage (ls_tokens w) (lc_token c)" by auto
    with that(1) j ch(2) obtain d where "d \<le> d'" "deadline (lc_context c) = Some d"
      by (fastforce simp: just_cancelled_def)
    with dl ch(1) show ?thesis by (metis order_trans)
  qed
  moreover have "\<exists>d \<le> T. deadline (lc_context c1) = Some d" if "live_cancelled lib c1 w1"
  proof -
    from that new j obtain d where "d \<le> T" "deadline (lc_context c) = Some d"
      by (auto simp: just_cancelled_def live_cancelled_def)
    with dl ch(1) show ?thesis by (metis order_trans)
  qed
  ultimately show ?thesis by (auto simp: just_cancelled_def)
qed

lemma earlier_deadline_le: "deadline c = Some d \<Longrightarrow> earlier_deadline t c \<le> d"
  by (simp add: earlier_deadline_def)

lemma derive_just:
  assumes doc: "tokens_documented lib known lineage" and k: "lc_token c \<in> known (ls_tokens w)"
    and tm: "snd ` set (ls_timers w) \<subseteq> known (ls_tokens w)" and j: "just_cancelled lib lineage T w c"
    and d: "derive lib now d c w = (c1, w1)" and T: "now \<le> T"
  shows "just_cancelled lib lineage T w1 c1 \<and>
    (\<forall>u. lc_token u \<in> known (ls_tokens w) \<longrightarrow> just_cancelled lib lineage T w u \<longrightarrow> just_cancelled lib lineage T w1 u)"
  using d
proof (cases rule: derive_cases)
  case (child f)
  note ch = live_childD [OF doc k child(2)]
  note new = token_child [OF doc k ch(3)]
  have "just_cancelled lib lineage T w1 u"
    if "lc_token u \<in> known (ls_tokens w)" "just_cancelled lib lineage T w u" for u
    by (rule just_cancelled_frame [OF doc that, of _ 0 "lc_token c1"])
      (use new that(1) ch(2) in \<open>auto simp: live_cancelled_def\<close>)
  moreover have "just_cancelled lib lineage T w1 c1"
    by (rule just_child [OF doc k tm j child(2)]) (simp add: child(1))
  ultimately show ?thesis by blast
next
  case (deadline t)
  let ?e = "earlier_deadline t (lc_context c)"
  from live_with_deadlineD [OF doc k deadline(1)] obtain w0
    where ch0: "live_child lib (with_deadline t) c w = (c1, w0)"
      and w1: "if ?e \<le> now then w1 = live_cancel lib c1 w0
        else w1 = w0\<lparr>ls_timers := ls_timers w @ [(?e, lc_token c1)]\<rparr>" by blast
  note ch = live_childD [OF doc k ch0]
  note new = token_child [OF doc k ch(3)]
  then have k1: "lc_token c1 \<in> known (ls_tokens w0)" by blast
  note cancel = token_cancel [OF doc k1]
  have old: "just_cancelled lib lineage T w1 u"
    if u: "lc_token u \<in> known (ls_tokens w)" "just_cancelled lib lineage T w u" for u
  proof (rule just_cancelled_frame [OF doc u, of _ ?e "lc_token c1"])
    from u(1) token_lineage [OF doc u(1)] new have "lc_token c1 \<notin> lineage (ls_tokens w0) (lc_token u)" by auto
    then show "lineage (ls_tokens w1) (lc_token u) = lineage (ls_tokens w) (lc_token u)"
      and "live_cancelled lib u w1 = live_cancelled lib u w"
      using u(1) new cancel w1 by (auto simp: live_cancelled_def live_cancel_def split: if_splits)
  qed (use new w1 ch(2) in \<open>auto simp: live_cancel_def split: if_splits\<close>)
  have "just_cancelled lib lineage T w0 c1"
    by (rule just_child [OF doc k tm j ch0]) (simp add: earlier_deadline_le)
  then have "just_cancelled lib lineage T w1 c1"
    using w1 cancel k1 ch(1,2) T
    by (auto simp: just_cancelled_def live_cancelled_def live_cancel_def split: if_splits)
  with old show ?thesis by blast
next
  case (same f)
  with j show ?thesis by (simp add: just_cancelled_def live_same_def live_cancelled_def)
qed

definition world_just ::
    "('t, 's) token_lib \<Rightarrow> ('s \<Rightarrow> 't \<Rightarrow> 't set) \<Rightarrow> nat \<Rightarrow> ('t, 's) ctx_world \<Rightarrow> bool" where
  "world_just lib lineage T st \<longleftrightarrow> (\<forall>c \<in> set (cw_contexts st). just_cancelled lib lineage T (cw_state st) c)"

lemma timer_just:
  assumes doc: "tokens_documented lib known lineage" and tm: "snd ` set (ls_timers w) \<subseteq> known (ls_tokens w)"
    and k: "lc_token c \<in> known (ls_tokens w)" and j: "just_cancelled lib lineage T w c"
    and f: "timer_fires lib n now w = Some w1" and T: "now \<le> T"
  shows "just_cancelled lib lineage T w1 c"
proof -
  from f obtain d t where dt: "(d, t) \<in> set (ls_timers w)" "d \<le> now"
    and w1: "ls_tokens w1 = tk_cancel lib t (ls_tokens w)" "set (ls_timers w) = insert (d, t) (set (ls_timers w1))"
    by (rule timer_firesD)
  from dt tm have "t \<in> known (ls_tokens w)" by force
  note cn = token_cancel [OF doc this]
  have "\<exists>e \<le> T. deadline (lc_context c) = Some e" if "t \<in> lineage (ls_tokens w) (lc_token c)"
    using j dt that T unfolding just_cancelled_def by (fastforce intro: order_trans)
  with j cn k w1 show ?thesis by (auto simp: just_cancelled_def live_cancelled_def)
qed

lemma ctx_step_just:
  assumes doc: "tokens_documented lib known lineage" and st: "world_watched lib known lineage st"
    and j: "world_just lib lineage T st" and e: "ctx_step lib e st = Some st1" and "\<not> is_cancel e"
    and T: "\<And>t. event_time e = Some t \<Longrightarrow> t \<le> T"
  shows "world_just lib lineage T st1"
proof -
  from st have tm: "snd ` set (ls_timers (cw_state st)) \<subseteq> known (ls_tokens (cw_state st))"
    and k: "\<And>c. c \<in> set (cw_contexts st) \<Longrightarrow> lc_token c \<in> known (ls_tokens (cw_state st))"
    by (auto simp: world_watched_def watched_def)
  show ?thesis
  proof (cases e)
    case (NewContext r)
    obtain c1 w1 where n: "live_root lib (case r of None \<Rightarrow> root | Some s \<Rightarrow> with_request_id s) (cw_state st) = (c1, w1)"
      by (metis surj_pair)
    then have tk: "tk_new lib (ls_tokens (cw_state st)) = (lc_token c1, ls_tokens w1)"
      and tm1: "ls_timers w1 = ls_timers (cw_state st)"
      by (auto simp: live_root_def split: prod.splits)
    note new = token_new [OF doc tk]
    have "just_cancelled lib lineage T w1 u" if "u \<in> set (cw_contexts st)" for u
      using that j by (intro just_cancelled_frame [OF doc k, of u T w1 0 "lc_token c1"])
        (use new k [OF that] tm1 in \<open>auto simp: world_just_def live_cancelled_def\<close>)
    moreover have "just_cancelled lib lineage T w1 c1"
      using new tm by (force simp: just_cancelled_def live_cancelled_def tm1)
    moreover have "st1 = \<lparr>cw_contexts = cw_contexts st @ [c1], cw_state = w1\<rparr>"
      using e NewContext n by (simp add: with_new_def)
    ultimately show ?thesis by (simp add: world_just_def)
  next
    case (DeriveFrom i d now)
    obtain c1 w1 where n: "derive lib now d (cw_contexts st ! i) (cw_state st) = (c1, w1)" by (metis surj_pair)
    from e DeriveFrom have i: "cw_contexts st ! i \<in> set (cw_contexts st)"
      and st1: "st1 = \<lparr>cw_contexts = cw_contexts st @ [c1], cw_state = w1\<rparr>"
      by (auto simp: with_new_def n split: if_splits)
    from i j have "just_cancelled lib lineage T (cw_state st) (cw_contexts st ! i)" by (simp add: world_just_def)
    from derive_just [OF doc k [OF i] tm this n] T DeriveFrom j k show ?thesis by (simp add: world_just_def st1)
  next
    case (CancelContext i)
    with assms(5) show ?thesis by (simp add: is_cancel_def)
  next
    case (TimerFires n now)
    with e obtain w1 where f: "timer_fires lib n now (cw_state st) = Some w1" and st1: "st1 = st\<lparr>cw_state := w1\<rparr>"
      by auto
    from timer_just [OF doc tm k _ f] j T TimerFires show ?thesis by (simp add: world_just_def st1)
  qed
qed

lemma ctx_steps_watched:
  "tokens_documented lib known lineage \<Longrightarrow> world_watched lib known lineage st \<Longrightarrow>
   ctx_steps lib es st = Some st1 \<Longrightarrow> world_watched lib known lineage st1"
  by (induction es arbitrary: st) (auto simp: bind_eq_Some_conv dest: ctx_step_watched)

lemma ctx_steps_just:
  assumes doc: "tokens_documented lib known lineage"
  shows "world_watched lib known lineage st \<Longrightarrow> world_just lib lineage T st \<Longrightarrow> ctx_steps lib es st = Some st1 \<Longrightarrow>
    list_all (\<lambda>e. \<not> is_cancel e \<and> (\<forall>t \<in> set_option (event_time e). t \<le> T)) es \<Longrightarrow> world_just lib lineage T st1"
proof (induction es arbitrary: st)
  case (Cons e es)
  from Cons.prems(3) obtain st0 where e: "ctx_step lib e st = Some st0" and es: "ctx_steps lib es st0 = Some st1"
    by (auto simp: bind_eq_Some_conv)
  from Cons.prems(4) have "world_just lib lineage T st0"
    by (intro ctx_step_just [OF doc Cons.prems(1,2) e]) auto
  with Cons.IH [OF ctx_step_watched [OF doc Cons.prems(1) e] _ es] Cons.prems(4) show ?case by simp
qed simp

lemma no_contexts_inv: "world_watched lib known lineage (no_contexts s) \<and> world_just lib lineage T (no_contexts s)"
  by (simp add: world_watched_def world_just_def no_contexts_def)

lemma expired_is_cancelled:
  assumes "world_watched lib known lineage st" and "list_all (\<lambda>(d, t). T < d) (ls_timers (cw_state st))"
    and "c \<in> set (cw_contexts st)" and "deadline (lc_context c) = Some d" and "d \<le> T"
  shows "live_cancelled lib c (cw_state st)"
  using assms by (force simp: world_watched_def watched_def list_all_iff)

section \<open>The reach of a cancellation\<close>

fun derive_all ::
    "('t, 's) token_lib \<Rightarrow> (nat \<times> derivation) list \<Rightarrow> 't live_context \<Rightarrow> ('t, 's) live_state
     \<Rightarrow> 't live_context \<times> ('t, 's) live_state" where
  "derive_all lib [] c w = (c, w)"
| "derive_all lib ((now, d) # ds) c w = (case derive lib now d c w of (c1, w1) \<Rightarrow> derive_all lib ds c1 w1)"

lemma derive_lineage:
  assumes doc: "tokens_documented lib known lineage" and k: "lc_token c \<in> known (ls_tokens w)"
    and d: "derive lib now d c w = (c1, w1)"
  shows "token_le lib known lineage (ls_tokens w) (ls_tokens w1) \<and> lc_token c1 \<in> known (ls_tokens w1) \<and>
    lineage (ls_tokens w1) (lc_token c1) = insert (lc_token c1) (lineage (ls_tokens w) (lc_token c)) \<and>
    (if shares_token d then lc_token c1 = lc_token c else lc_token c1 \<notin> known (ls_tokens w))"
  using d
proof (cases rule: derive_cases)
  case (child f)
  note ch = live_childD [OF doc k child(2)]
  from token_le_child [OF doc k ch(3)] token_child [OF doc k ch(3)] child(3) show ?thesis by simp
next
  case (deadline t)
  from live_with_deadlineD [OF doc k deadline(1)] obtain w0
    where ch: "live_child lib (with_deadline t) c w = (c1, w0)"
      and w1: "ls_tokens w1 = ls_tokens w0 \<or> ls_tokens w1 = tk_cancel lib (lc_token c1) (ls_tokens w0)"
    by (auto simp: live_cancel_def split: if_splits)
  note ch = live_childD [OF doc k ch]
  note new = token_child [OF doc k ch(3)]
  then have k1: "lc_token c1 \<in> known (ls_tokens w0)" by blast
  have "token_le lib known lineage (ls_tokens w0) (ls_tokens w1)"
    using w1 token_le_cancel [OF doc k1] token_le_refl by metis
  from this token_le_trans [OF token_le_child [OF doc k ch(3)] this] new k1 deadline(2) show ?thesis
    by (auto simp: token_le_def)
next
  case (same f)
  with k token_lineage [OF doc k] show ?thesis by (auto simp: token_le_refl live_same_def insert_absorb)
qed

lemma derive_all_lineage:
  assumes doc: "tokens_documented lib known lineage"
  shows "lc_token c \<in> known (ls_tokens w) \<Longrightarrow> derive_all lib ds c w = (c1, w1) \<Longrightarrow>
    token_le lib known lineage (ls_tokens w) (ls_tokens w1) \<and> lc_token c1 \<in> known (ls_tokens w1) \<and>
    lineage (ls_tokens w) (lc_token c) \<subseteq> lineage (ls_tokens w1) (lc_token c1) \<and>
    (if list_all (\<lambda>(now, d). shares_token d) ds then lc_token c1 = lc_token c else lc_token c1 \<notin> known (ls_tokens w))"
proof (induction ds arbitrary: c w)
  case Nil
  then show ?case by (simp add: token_le_refl)
next
  case (Cons x ds)
  obtain now d where x: "x = (now, d)" by fastforce
  obtain c0 w0 where d: "derive lib now d c w = (c0, w0)" by (metis surj_pair)
  note one = derive_lineage [OF doc Cons.prems(1) d]
  from Cons.prems(2) have "derive_all lib ds c0 w0 = (c1, w1)" by (simp add: x d)
  note rest = Cons.IH [OF _ this]
  have "known (ls_tokens w) \<subseteq> known (ls_tokens w0)" using one by (simp add: token_le_def)
  then have "if list_all (\<lambda>(now, d). shares_token d) (x # ds) then lc_token c1 = lc_token c
      else lc_token c1 \<notin> known (ls_tokens w)"
    using one rest by (auto simp: x split: if_splits)
  with one rest token_le_trans [of lib known lineage "ls_tokens w" "ls_tokens w0" "ls_tokens w1"] show ?case
    by auto
qed

section \<open>Tokens of a concrete library\<close>

text \<open>A token is a number; the state has for each token the tokens above it and whether it is cancelled.\<close>

definition list_tokens :: "(nat, (nat list \<times> bool) list) token_lib" where
  "list_tokens =
     \<lparr>tk_new = (\<lambda>s. (length s, s @ [([], False)])),
      tk_child = (\<lambda>p s. (length s, s @ [(p # filter (\<lambda>u. u < p) (fst (s ! p)), snd (s ! p))])),
      tk_cancel = (\<lambda>t s. map (\<lambda>(u, us, b). (us, b \<or> u = t \<or> t < u \<and> t \<in> set us)) (List.enumerate 0 s)),
      tk_cancelled = (\<lambda>t s. t < length s \<and> snd (s ! t))\<rparr>"

definition list_known :: "(nat list \<times> bool) list \<Rightarrow> nat set" where
  "list_known s = {..<length s}"

definition list_lineage :: "(nat list \<times> bool) list \<Rightarrow> nat \<Rightarrow> nat set" where
  "list_lineage s t = insert t (set (fst (s ! t)) \<inter> {..<t})"

lemma list_tokens_documented: "tokens_documented list_tokens list_known list_lineage"
  unfolding tokens_documented_def
proof (intro conjI allI impI, goal_cases)
  case (1 s t)
  then show ?case by (simp add: list_lineage_def)
next
  case (2 s t)
  then show ?case by (auto simp: list_lineage_def list_known_def)
qed (auto simp: list_tokens_def list_known_def list_lineage_def nth_append nth_enumerate_eq split: prod.splits)

section \<open>Properties\<close>

text \<open>
  Claim C15. Without calls of \<^verbatim>\<open>cancel\<close> a context is cancelled exactly by its deadline: whatever contexts are
  created and derived, in whatever order and with whatever data, and however the timers are delayed, as
  soon as the due timers have fired a context is cancelled if and only if it has a deadline and that
  has passed. A deadline set on a derived context never cancels the context it was derived from, and a later
  deadline never outlives an earlier one of its base.
\<close>

theorem cancelled_iff_expired:
  assumes "tokens_documented lib known lineage" and "ctx_steps lib es (no_contexts s) = Some st"
    and "list_all (\<lambda>e. \<not> is_cancel e \<and> (\<forall>t \<in> set_option (event_time e). t \<le> T)) es"
    and "list_all (\<lambda>(d, t). T < d) (ls_timers (cw_state st))" and "c \<in> set (cw_contexts st)"
  shows "live_cancelled lib c (cw_state st) \<longleftrightarrow> (\<exists>d \<le> T. deadline (lc_context c) = Some d)"
proof
  have j: "world_just lib lineage T st"
    using ctx_steps_just [OF assms(1) _ _ assms(2,3)] no_contexts_inv [of lib known lineage s T] by blast
  assume "live_cancelled lib c (cw_state st)"
  with j assms(5) show "\<exists>d \<le> T. deadline (lc_context c) = Some d" by (auto simp: world_just_def just_cancelled_def)
next
  have w: "world_watched lib known lineage st"
    by (rule ctx_steps_watched [OF assms(1) conjunct1 [OF no_contexts_inv] assms(2)])
  assume "\<exists>d \<le> T. deadline (lc_context c) = Some d"
  then show "live_cancelled lib c (cw_state st)" using expired_is_cancelled [OF w assms(4,5)] by blast
qed

text \<open>A context with a deadline at 5, a context derived from it with a deadline at 9, and the timer at 5.\<close>

definition deadline_run :: "ctx_event list" where
  "deadline_run = [NewContext None, DeriveFrom 0 (DDeadline 5) 1, DeriveFrom 1 (DDeadline 9) 2, TimerFires 0 6,
                   TimerFires 0 7, DeriveFrom 2 (DUserId ''u'') 7]"

theorem cancelled_iff_expired_witness:
  "\<exists>st. ctx_steps list_tokens deadline_run (no_contexts []) = Some st \<and>
     map (\<lambda>c. live_cancelled list_tokens c (cw_state st)) (cw_contexts st) = [False, True, True, True]"
proof -
  define st where "st = the (ctx_steps list_tokens deadline_run (no_contexts []))"
  have "\<not> Option.is_none (ctx_steps list_tokens deadline_run (no_contexts []))" by code_simp
  then have run: "ctx_steps list_tokens deadline_run (no_contexts []) = Some st"
    by (simp add: st_def Option.is_none_def)
  have tm: "ls_timers (cw_state st) = []" unfolding st_def by code_simp
  have dl: "map (\<lambda>c. deadline (lc_context c)) (cw_contexts st) = [None, Some 5, Some 5, Some 5]"
    unfolding st_def by code_simp
  have "map (\<lambda>c. live_cancelled list_tokens c (cw_state st)) (cw_contexts st) =
      map (\<lambda>c. \<exists>d \<le> 7. deadline (lc_context c) = Some d) (cw_contexts st)"
    by (rule map_cong [OF refl], rule cancelled_iff_expired [OF list_tokens_documented run])
      (simp_all add: deadline_run_def is_cancel_def tm)
  also have "\<dots> = map (\<lambda>e. \<exists>d \<le> 7. e = Some d) (map (\<lambda>c. deadline (lc_context c)) (cw_contexts st))"
    by (simp add: comp_def)
  also have "\<dots> = [False, True, True, True]" unfolding dl by simp
  finally show ?thesis by (intro exI [of _ st] conjI run)
qed

text \<open>
  Claim C24. Cancelling a context cancels all that is derived from it, by any methods and at any time, and
  cancelling what is derived cancels the base exactly if only data was changed on the way:
  \<^verbatim>\<open>insert_data\<close>, \<^verbatim>\<open>with_actor\<close> and their like share the token of their base, while every method that sets a
  field makes a child.
\<close>

theorem cancellation_reach:
  assumes "tokens_documented lib known lineage" and "lc_token c \<in> known (ls_tokens w)"
    and "derive_all lib ds c w = (c1, w1)"
  shows "live_cancelled lib c1 (live_cancel lib c w1) \<and>
    (live_cancelled lib c (live_cancel lib c1 w1) \<longleftrightarrow>
       live_cancelled lib c w1 \<or> list_all (\<lambda>(now, d). shares_token d) ds)"
proof -
  note d = derive_all_lineage [OF assms]
  from d assms(2) have k: "lc_token c \<in> known (ls_tokens w1)" and k1: "lc_token c1 \<in> known (ls_tokens w1)"
    and l: "lineage (ls_tokens w1) (lc_token c) = lineage (ls_tokens w) (lc_token c)" by (auto simp: token_le_def)
  note tc = token_lineage [OF assms(1,2)] token_lineage [OF assms(1) k]
  have "live_cancelled lib c1 (live_cancel lib c w1)"
    using token_cancel [OF assms(1) k] k1 d tc by (auto simp: live_cancelled_def live_cancel_def)
  moreover have "lc_token c1 \<in> lineage (ls_tokens w1) (lc_token c) \<longleftrightarrow> list_all (\<lambda>(now, d). shares_token d) ds"
    using d tc l by (auto split: if_splits)
  ultimately show ?thesis
    using token_cancel [OF assms(1) k1] k by (auto simp: live_cancelled_def live_cancel_def)
qed

theorem cancellation_reach_witness:
  "let (c, w) = live_root list_tokens root \<lparr>ls_tokens = [], ls_timers = []\<rparr>;
       (a, w1) = derive_all list_tokens [(0, DInsert (OtherData 0 ''x''))] c w;
       (b, w2) = derive_all list_tokens [(0, DInsert (OtherData 0 ''x'')), (0, DUserId ''u'')] c w
   in live_cancelled list_tokens c (live_cancel list_tokens a w1) \<and>
      \<not> live_cancelled list_tokens c (live_cancel list_tokens b w2)"
proof -
  define cw where "cw = live_root list_tokens root \<lparr>ls_tokens = [], ls_timers = []\<rparr>"
  let ?c = "fst cw" and ?w = "snd cw"
  have k: "lc_token ?c \<in> list_known (ls_tokens ?w)"
    by (simp add: cw_def live_root_def list_tokens_def list_known_def)
  let ?d = "derive_all list_tokens [(0, DInsert (OtherData 0 ''x''))] ?c ?w"
  let ?e = "derive_all list_tokens [(0, DInsert (OtherData 0 ''x'')), (0, DUserId ''u'')] ?c ?w"
  have "\<not> live_cancelled list_tokens ?c (snd ?e)" unfolding cw_def by code_simp
  with cancellation_reach [OF list_tokens_documented k surjective_pairing [of ?e]]
    cancellation_reach [OF list_tokens_documented k surjective_pairing [of ?d]]
  show ?thesis by (simp add: cw_def [symmetric] split_beta shares_token_def)
qed

text \<open>
  A future that is run under a context gives its value exactly if the context's deadline has not passed at
  the call, the future is done by the deadline and the context is not cancelled before that; the
  call never returns exactly if there is no deadline, no cancellation and the future is never done.
\<close>

theorem context_run_outcome:
  "(context_run coin now dl fut cancel = Some (Some v) \<longleftrightarrow>
      (\<exists>f. fut = Some (f, v) \<and> (\<forall>d \<in> set_option dl. now < d \<and> f \<le> d) \<and>
         (\<forall>k \<in> set_option cancel. max now f < max now k \<or> max now f = max now k \<and> coin))) \<and>
   (context_run coin now dl fut cancel = None \<longleftrightarrow> dl = None \<and> fut = None \<and> cancel = None)"
  by (cases dl; cases fut; cases cancel) (auto simp: context_run_def select_run_def split: if_splits)

theorem context_run_outcome_witness:
  "context_run True 3 (Some 10) (Some (5, ''v'')) (Some 5) = Some (Some ''v'')"
  using context_run_outcome [of True 3 "Some 10" "Some (5, ''v'')" "Some 5" "''v''"] by simp

end
