(* ===== verification/Json.thy ===== *)
theory Json
  imports Prelude
begin

text \<open>
  Values of JSON documents and the readers of \<^verbatim>\<open>serde_json::Value\<close> that the code calls on them
  (\<^verbatim>\<open>get\<close>, \<^verbatim>\<open>as_str\<close>, \<^verbatim>\<open>as_u64\<close>, \<^verbatim>\<open>as_i64\<close>, \<^verbatim>\<open>as_array\<close>). Reading and writing the text of a document is
  left to the library and is a parameter wherever it is used.

  A number that is no integer keeps its text, since no code looks at it.
\<close>

datatype json =
  JNull
| JBool bool
| JInt int
| JFloat string
| JString string
| JArray "json list"
| JObject "(string \<times> json) list"

definition json_get :: "string \<Rightarrow> json \<Rightarrow> json option" where
  "json_get k j = (case j of JObject m \<Rightarrow> map_of m k | _ \<Rightarrow> None)"

definition as_str :: "json \<Rightarrow> string option" where
  "as_str j = (case j of JString s \<Rightarrow> Some s | _ \<Rightarrow> None)"

definition as_array :: "json \<Rightarrow> json list option" where
  "as_array j = (case j of JArray xs \<Rightarrow> Some xs | _ \<Rightarrow> None)"

definition as_u64 :: "json \<Rightarrow> nat option" where
  "as_u64 j = (case j of JInt i \<Rightarrow> if 0 \<le> i \<and> i < 2 ^ 64 then Some (nat i) else None | _ \<Rightarrow> None)"

definition as_i64 :: "json \<Rightarrow> int option" where
  "as_i64 j = (case j of JInt i \<Rightarrow> if - (2 ^ 63) \<le> i \<and> i < 2 ^ 63 then Some i else None | _ \<Rightarrow> None)"

definition as_bool :: "json \<Rightarrow> bool option" where
  "as_bool j = (case j of JBool b \<Rightarrow> Some b | _ \<Rightarrow> None)"

lemma json_readers [simp]:
  "json_get k (JObject m) = map_of m k"
  "as_str (JString s) = Some s"
  "as_array (JArray xs) = Some xs"
  "as_bool (JBool b) = Some b"
  by (simp_all add: json_get_def as_str_def as_array_def as_bool_def)

lemma as_u64_of_nat [simp]: "n < 2 ^ 64 \<Longrightarrow> as_u64 (JInt (int n)) = Some n"
  by (simp add: as_u64_def)

lemma as_u64_bound: "as_u64 j = Some n \<Longrightarrow> n < 2 ^ 64"
  by (auto simp: as_u64_def split: json.splits if_splits)

text \<open>The texts of an array all of whose elements are texts.\<close>

fun all_some :: "'a option list \<Rightarrow> 'a list option" where
  "all_some [] = Some []"
| "all_some (None # xs) = None"
| "all_some (Some x # xs) = map_option ((#) x) (all_some xs)"

lemma all_some_map_Some [simp]: "all_some (map (\<lambda>x. Some (f x)) xs) = Some (map f xs)"
  by (induction xs) simp_all

lemma all_some_Some_iff: "all_some os = Some xs \<longleftrightarrow> os = map Some xs"
  by (induction os arbitrary: xs rule: all_some.induct) (auto simp: Cons_eq_map_conv)

end
