(* ===== verification/Kafka_Wire.thy ===== *)
theory Kafka_Wire
  imports Nats_Wire
begin

text \<open>
  The Kafka side of messaging, \<^verbatim>\<open>flare-core-messaging/src/mq/kafka/\<close>: the settings that are handed to the
  client library (\<^verbatim>\<open>config.rs\<close>, the constructors), what a producer puts into a record (\<^verbatim>\<open>producer.rs\<close>), how the
  consumer reads a record back and how it settles a message by committing an offset (\<^verbatim>\<open>consumer.rs\<close>).

  The client library is a parameter: whether it accepts settings and topics, what becomes of a record
  and of a commit. The headers of a record are a function from names to the values under a name, in
  their order. \<open>lossy\<close> is the standard library's reading of bytes as UTF-8.
\<close>

section \<open>Configuration\<close>

record kafka_producer_config =
  kc_brokers :: "string list"
  kc_client_id :: string
  kc_acks :: string
  kc_compression :: string
  kc_linger_ms :: u64
  kc_batch_size_bytes :: u64
  kc_message_timeout_ms :: u64
  kc_request_timeout_ms :: u64
  kc_enable_idempotence :: bool
  kc_max_in_flight :: u32
  kc_options :: headers

text \<open>The default methods of the trait; the brokers have none.\<close>

definition kafka_producer_defaults :: "string list \<Rightarrow> kafka_producer_config" where
  "kafka_producer_defaults brokers =
     \<lparr>kc_brokers = brokers, kc_client_id = ''flare-im'', kc_acks = ''all'', kc_compression = ''none'',
      kc_linger_ms = 5, kc_batch_size_bytes = 1024 * 1024, kc_message_timeout_ms = 30000,
      kc_request_timeout_ms = 10000, kc_enable_idempotence = True, kc_max_in_flight = 5,
      kc_options = Map.empty\<rparr>"

record kafka_consumer_config =
  kk_producer :: kafka_producer_config
  kk_consumer_group :: string
  kk_enable_auto_commit :: bool
  kk_auto_offset_reset :: string

definition kafka_consumer_defaults :: "string list \<Rightarrow> string \<Rightarrow> kafka_consumer_config" where
  "kafka_consumer_defaults brokers grp =
     \<lparr>kk_producer = kafka_producer_defaults brokers, kk_consumer_group = grp,
      kk_enable_auto_commit = False, kk_auto_offset_reset = ''earliest''\<rparr>"

definition show_bool :: "bool \<Rightarrow> string" where
  "show_bool b = (if b then ''true'' else ''false'')"

text \<open>The options of the configuration come last and replace any setting.\<close>

definition kafka_consumer_settings :: "kafka_consumer_config \<Rightarrow> headers" where
  "kafka_consumer_settings cfg =
     [''bootstrap.servers'' \<mapsto> join_with CHR '','' (kc_brokers (kk_producer cfg)),
      ''group.id'' \<mapsto> kk_consumer_group cfg,
      ''client.id'' \<mapsto> kc_client_id (kk_producer cfg),
      ''enable.auto.commit'' \<mapsto> show_bool (kk_enable_auto_commit cfg),
      ''auto.offset.reset'' \<mapsto> kk_auto_offset_reset cfg,
      ''enable.partition.eof'' \<mapsto> ''false'',
      ''session.timeout.ms'' \<mapsto> ''10000'',
      ''max.poll.interval.ms'' \<mapsto> ''300000''] ++ kc_options (kk_producer cfg)"

definition kafka_producer_settings :: "kafka_producer_config \<Rightarrow> headers" where
  "kafka_producer_settings cfg =
     [''bootstrap.servers'' \<mapsto> join_with CHR '','' (kc_brokers cfg),
      ''client.id'' \<mapsto> kc_client_id cfg,
      ''acks'' \<mapsto> kc_acks cfg,
      ''compression.type'' \<mapsto> kc_compression cfg,
      ''linger.ms'' \<mapsto> show_word (kc_linger_ms cfg),
      ''batch.size'' \<mapsto> show_word (kc_batch_size_bytes cfg),
      ''message.timeout.ms'' \<mapsto> show_word (kc_message_timeout_ms cfg),
      ''request.timeout.ms'' \<mapsto> show_word (kc_request_timeout_ms cfg),
      ''enable.idempotence'' \<mapsto> show_bool (kc_enable_idempotence cfg),
      ''max.in.flight.requests.per.connection'' \<mapsto> show_word (kc_max_in_flight cfg)] ++ kc_options cfg"

record kafka_client =
  kl_create :: "headers \<Rightarrow> string + unit"
  kl_subscribe :: "string list \<Rightarrow> string + unit"

definition as_configuration :: "string + unit \<Rightarrow> consumer_error + unit" where
  "as_configuration r = (case r of Inl e \<Rightarrow> Inl (CConfiguration e) | Inr u \<Rightarrow> Inr u)"

text \<open>A fetcher is known by its settings and its topics.\<close>

record kafka_fetcher =
  kf_settings :: headers
  kf_topics :: "string list"

definition kafka_fetcher_new ::
    "kafka_client \<Rightarrow> kafka_consumer_config \<Rightarrow> string list \<Rightarrow> consumer_error + kafka_fetcher" where
  "kafka_fetcher_new client cfg ts =
     (if ts = [] then Inl (CConfiguration ''Kafka consumer topics is empty'')
      else if kc_brokers (kk_producer cfg) = [] then Inl (CConfiguration ''Kafka brokers is empty'')
      else (let settings = kafka_consumer_settings cfg
            in bind_res (as_configuration (kl_create client settings)) (\<lambda>_.
                 bind_res (as_configuration (kl_subscribe client ts)) (\<lambda>_.
                   Inr \<lparr>kf_settings = settings, kf_topics = ts\<rparr>))))"

record kafka_producer =
  kp_settings :: headers
  kp_timeout_ms :: u64

definition kafka_producer_new :: "kafka_client \<Rightarrow> kafka_producer_config \<Rightarrow> producer_error + kafka_producer" where
  "kafka_producer_new client cfg =
     (if kc_brokers cfg = [] then Inl (PConfiguration ''kafka brokers is empty'')
      else (case kl_create client (kafka_producer_settings cfg) of
              Inl e \<Rightarrow> Inl (PConfiguration e)
            | Inr u \<Rightarrow> Inr \<lparr>kp_settings = kafka_producer_settings cfg,
                             kp_timeout_ms = max (kc_message_timeout_ms cfg) 1\<rparr>))"

text \<open>One task for all topics of the dispatcher.\<close>

record kafka_task =
  kt_name :: string
  kt_fetcher :: kafka_fetcher

definition build_kafka_consumer_tasks_with_failure_publishers ::
    "kafka_client \<Rightarrow> kafka_consumer_config \<Rightarrow> string list \<Rightarrow> string \<Rightarrow> consumer_error + kafka_task list" where
  "build_kafka_consumer_tasks_with_failure_publishers client cfg ts pfx =
     (if ts = [] then Inl (CConfiguration ''Kafka consumer dispatcher has no registered topics'')
      else bind_res (kafka_fetcher_new client cfg (remdups_adj (sort ts))) (\<lambda>f.
             Inr [\<lparr>kt_name = pfx, kt_fetcher = f\<rparr>]))"

definition build_kafka_consumer_tasks ::
    "kafka_client \<Rightarrow> kafka_consumer_config \<Rightarrow> string list \<Rightarrow> string \<Rightarrow> consumer_error + kafka_task list" where
  "build_kafka_consumer_tasks client cfg ts pfx =
     build_kafka_consumer_tasks_with_failure_publishers client cfg ts pfx"

section \<open>Producing\<close>

type_synonym record_headers = "string \<rightharpoonup> string option list"

record kafka_record =
  kr_topic :: string
  kr_partition :: int
  kr_offset :: int
  kr_key :: "string option"
  kr_payload :: "string option"
  kr_headers :: "record_headers option"

definition put_default :: "string \<Rightarrow> string \<Rightarrow> headers \<Rightarrow> headers" where
  "put_default k v m = (case m k of Some w \<Rightarrow> m | None \<Rightarrow> m(k \<mapsto> v))"

definition merged_headers :: "request_context \<Rightarrow> string option \<Rightarrow> headers option \<Rightarrow> headers" where
  "merged_headers c key ho =
     (let m0 = (case ho of Some h \<Rightarrow> h | None \<Rightarrow> Map.empty);
          m1 = merge_ctx_to_headers m0 c;
          m2 = (case key of
                  Some k \<Rightarrow> if k \<noteq> [] then put_default ''x-message-key'' k m1 else m1
                | None \<Rightarrow> m1)
      in put_default ''content-type'' ''application/protobuf'' m2)"

definition build_headers :: "request_context \<Rightarrow> string option \<Rightarrow> headers option \<Rightarrow> record_headers" where
  "build_headers c key ho = (\<lambda>k. map_option (\<lambda>v. [Some v]) (merged_headers c key ho k))"

text \<open>The broker chooses the partition and the offset.\<close>

definition record_of ::
    "request_context \<Rightarrow> string \<Rightarrow> string option \<Rightarrow> string \<Rightarrow> headers option \<Rightarrow> int \<Rightarrow> int \<Rightarrow> kafka_record" where
  "record_of c t key pay ho part offset =
     \<lparr>kr_topic = t, kr_partition = part, kr_offset = offset, kr_key = key, kr_payload = Some pay,
      kr_headers = Some (build_headers c key ho)\<rparr>"

text \<open>
  The client's answer to a record, after at most the time limit of the producer: where the record went,
  or an error.
\<close>

definition kafka_send_result :: "string + int \<times> int \<Rightarrow> producer_error + unit" where
  "kafka_send_result answer = (case answer of Inl e \<Rightarrow> Inl (PSend e) | Inr po \<Rightarrow> Inr ())"

text \<open>A batch: the sends run at once, \<open>answers\<close> are theirs in the order in which they come in.\<close>

fun kafka_batch_result :: "(string + int \<times> int) list \<Rightarrow> producer_error + unit" where
  "kafka_batch_result [] = Inr ()"
| "kafka_batch_result (a # answers) = bind_res (kafka_send_result a) (\<lambda>_. kafka_batch_result answers)"

section \<open>Consuming\<close>

definition last_value :: "(string \<Rightarrow> string) \<Rightarrow> string option list \<Rightarrow> string option" where
  "last_value lossy vs =
     fold (\<lambda>v acc. case v of Some b \<Rightarrow> Some (lossy b) | None \<Rightarrow> acc) vs None"

definition record_header_map :: "(string \<Rightarrow> string) \<Rightarrow> record_headers option \<Rightarrow> headers" where
  "record_header_map lossy ho =
     (case ho of
        None \<Rightarrow> Map.empty
      | Some h \<Rightarrow> (\<lambda>k. Option.bind (h k) (last_value lossy)))"

definition kafka_message_id :: "headers \<Rightarrow> kafka_record \<Rightarrow> string" where
  "kafka_message_id h r =
     (case h ''x-message-id'' of
        Some i \<Rightarrow> i
      | None \<Rightarrow> kr_topic r @ '':'' @ show_int (kr_partition r) @ '':'' @ show_int (kr_offset r))"

text \<open>The handle of a message is its topic, partition and offset, which the message itself has.\<close>

definition kafka_decode :: "(string \<Rightarrow> string) \<Rightarrow> string \<Rightarrow> nat \<Rightarrow> kafka_record \<Rightarrow> message" where
  "kafka_decode lossy fresh now r =
     (let h = record_header_map lossy (kr_headers r);
          mc = \<lparr>msg_ctx = mq_headers_to_ctx fresh h, message_id = kafka_message_id h r, topic = kr_topic r,
                msg_partition = kr_partition r, msg_offset = kr_offset r,
                msg_key = (case map_option lossy (kr_key r) of Some k \<Rightarrow> Some k | None \<Rightarrow> h ''x-message-key''),
                msg_headers = h, started = now, retry_count = retry_count_from_headers h,
                metadata = Map.empty\<rparr>;
          ct = (case Option.bind (h ''content-type'') content_type_from_str of Some t \<Rightarrow> t | None \<Rightarrow> Protobuf)
      in with_ack_handle \<lparr>handle_id = 0, native_retry = False\<rparr>
           (message_new (case kr_payload r of Some p \<Rightarrow> p | None \<Rightarrow> []) ct mc))"

definition kafka_fetch ::
    "(string \<Rightarrow> string) \<Rightarrow> string \<Rightarrow> nat \<Rightarrow> string + kafka_record \<Rightarrow> consumer_error + message option" where
  "kafka_fetch lossy fresh now ev =
     (case ev of
        Inr r \<Rightarrow> Inr (Some (kafka_decode lossy fresh now r))
      | Inl e \<Rightarrow> Inl (CConnection e))"

section \<open>Settling\<close>

type_synonym 's commit = "string \<Rightarrow> int \<Rightarrow> int \<Rightarrow> 's \<Rightarrow> (string + unit) \<times> 's"

definition next_offset :: "int \<Rightarrow> int" where
  "next_offset n = min (n + 1) (2 ^ 63 - 1)"

definition commit_offset_inner :: "'s commit \<Rightarrow> message \<Rightarrow> 's \<Rightarrow> (consumer_error + unit) \<times> 's" where
  "commit_offset_inner commit m s =
     (case commit (topic (mctx m)) (msg_partition (mctx m)) (next_offset (msg_offset (mctx m))) s of
        (Inl e, s1) \<Rightarrow> (Inl (CConnection e), s1)
      | (Inr u, s1) \<Rightarrow> (Inr u, s1))"

fun kafka_settle :: "'s commit \<Rightarrow> settlement \<Rightarrow> message \<Rightarrow> 's \<Rightarrow> (consumer_error + unit) \<times> 's" where
  "kafka_settle commit SettleAck m s = commit_offset_inner commit m s"
| "kafka_settle commit SettleNack m s =
     (Inl (CConfiguration ''Kafka consumer nack requires a retry publisher or DLQ handoff''), s)"
| "kafka_settle commit SettleTerm m s = commit_offset_inner commit m s"

text \<open>The same with the counters of calls.\<close>

definition record_kafka_process_ack :: "settlement \<Rightarrow> consumer_error + unit \<Rightarrow> ack_counts \<Rightarrow> ack_counts" where
  "record_kafka_process_ack a r =
     record_process_ack ''kafka'' (ack_operation a)
       (if a = SettleNack then ''unsupported'' else case r of Inr _ \<Rightarrow> ''success'' | Inl _ \<Rightarrow> ''error'')"

definition kafka_settle_counted ::
    "'s commit \<Rightarrow> settlement \<Rightarrow> message \<Rightarrow> 's \<times> ack_counts \<Rightarrow> (consumer_error + unit) \<times> 's \<times> ack_counts" where
  "kafka_settle_counted commit a m sc =
     (case kafka_settle commit a m (fst sc) of
        (r, s1) \<Rightarrow> (r, s1, record_kafka_process_ack a r (snd sc)))"

definition kafka_settle_all :: "'s commit \<Rightarrow> (settlement \<times> message) list \<Rightarrow> 's \<Rightarrow> 's" where
  "kafka_settle_all commit = fold (\<lambda>(a, m) s. snd (kafka_settle commit a m s))"

section \<open>Headers\<close>

lemma record_header_map_at:
  "record_header_map lossy (Some (build_headers c key ho)) k = map_option lossy (merged_headers c key ho k)"
  by (cases "merged_headers c key ho k") (simp_all add: record_header_map_def build_headers_def last_value_def)

lemma record_header_map_built:
  assumes "\<And>v. v \<in> ran (merged_headers c key ho) \<Longrightarrow> lossy v = v"
  shows "record_header_map lossy (Some (build_headers c key ho)) = merged_headers c key ho"
proof
  fix k
  show "record_header_map lossy (Some (build_headers c key ho)) k = merged_headers c key ho k"
    using assms by (cases "merged_headers c key ho k") (auto simp: record_header_map_at intro: ranI)
qed

text \<open>The context is read from its own keys only.\<close>

lemma map_to_ctx_cong:
  assumes fields: "\<And>k. k \<in> set context_keys \<Longrightarrow> m k = m' k"
    and attrs: "\<And>k. m (attr_prefix @ k) = m' (attr_prefix @ k)"
  shows "map_to_ctx fresh m = map_to_ctx fresh m'"
proof -
  have f: "m ''x-request-id'' = m' ''x-request-id''" "m ''x-trace-id'' = m' ''x-trace-id''"
    "m ''x-tenant-id'' = m' ''x-tenant-id''" "m ''x-user-id'' = m' ''x-user-id''"
    "m ''x-device-id'' = m' ''x-device-id''" "m ''x-platform'' = m' ''x-platform''"
    "m ''x-session-id'' = m' ''x-session-id''" "m ''x-actor-id'' = m' ''x-actor-id''"
    "m ''x-actor-type'' = m' ''x-actor-type''" "m ''x-actor-roles'' = m' ''x-actor-roles''"
    by (rule fields, simp add: context_keys_def)+
  then have n: "nonempty_at m k = nonempty_at m' k" if "k \<in> set context_keys" for k
    using fields [OF that] by (simp add: nonempty_at_def)
  then have roles: "nonempty_at m ''x-actor-roles'' = nonempty_at m' ''x-actor-roles''"
    by (simp add: context_keys_def)
  have a: "decode_attributes m = decode_attributes m'"
    by (simp add: decode_attributes_def nonempty_at_def attrs)
  have "fields_of_headers fresh m = fields_of_headers fresh m'"
    by (simp add: fields_of_headers_def n context_keys_def)
  moreover have "decode_actor_from_map m = decode_actor_from_map m'"
    unfolding decode_actor_from_map_def a f roles ..
  ultimately show ?thesis by (simp add: map_to_ctx_def)
qed

lemma put_default_other: "k' \<noteq> k \<Longrightarrow> put_default k v m k' = m k'"
  and put_default_same: "put_default k v m k = Some (case m k of Some w \<Rightarrow> w | None \<Rightarrow> v)"
  by (simp_all add: put_default_def split: option.split)

lemma put_default_keeps: "m k = Some v \<Longrightarrow> put_default k' w m k = Some v"
  by (auto simp: put_default_def split: option.split)

lemma merged_headers_other:
  assumes "k \<noteq> ''x-message-key''" and "k \<noteq> ''content-type''"
  shows "merged_headers c key (Some h) k = (case ctx_to_map c k of Some v \<Rightarrow> Some v | None \<Rightarrow> h k)"
  using assms
  by (simp add: merged_headers_def Let_def put_default_other merge_ctx_to_headers_def ctx_to_mq_headers_def
      map_add_def split: option.split)

lemma field_headers_None:
  "k \<notin> set context_keys \<Longrightarrow> field_headers c k = None"
  by (simp add: field_headers_def context_keys_def put_nonempty_other)

lemma ctx_to_map_None:
  assumes "k \<notin> set context_keys" and "\<not> starts_with attr_prefix k"
  shows "ctx_to_map c k = None"
  using assms(1) field_headers_None [OF assms(1), of c]
  by (simp add: ctx_to_map_def encode_actor_def Let_def put_attributes_other [OF assms(2)] context_keys_def
      split: option.split)

lemma merged_headers_context:
  assumes "\<not> carries_context h"
  shows "map_to_ctx fresh (merged_headers c key (Some h)) = map_to_ctx fresh (ctx_to_map c)"
proof (rule map_to_ctx_cong)
  fix k
  assume k: "k \<in> set context_keys"
  then have "k \<noteq> ''x-message-key''" "k \<noteq> ''content-type''" by (auto simp: context_keys_def)
  with k assms show "merged_headers c key (Some h) k = ctx_to_map c k"
    by (simp add: merged_headers_other carries_context_None split: option.split)
next
  fix k
  have "attr_prefix @ k \<noteq> ''x-message-key''" "attr_prefix @ k \<noteq> ''content-type''"
    by (simp_all add: attr_prefix_def)
  moreover have "starts_with attr_prefix (attr_prefix @ k)" by simp
  ultimately show "merged_headers c key (Some h) (attr_prefix @ k) = ctx_to_map c (attr_prefix @ k)"
    using carries_context_None [OF assms, of "attr_prefix @ k"]
    by (simp add: merged_headers_other split: option.split)
qed

lemma merged_headers_own:
  assumes "\<not> carries_context h" and "h k = Some v"
  shows "merged_headers c key (Some h) k = Some v"
proof -
  have none: "ctx_to_map c k = None"
    using assms by (intro ctx_to_map_None) (auto simp: carries_context_def)
  then have "(h ++ ctx_to_map c) k = Some v" using assms(2) by (simp add: map_add_def)
  then show ?thesis
    by (simp add: merged_headers_def Let_def merge_ctx_to_headers_def ctx_to_mq_headers_def put_default_keeps
        del: map_add_Some_iff split: option.split)
qed

section \<open>Properties\<close>



text \<open>
  What the broker documents of commits, in the order in which it takes them: an accepted commit is the
  place from which the group goes on after a restart, a refused one changes nothing.
\<close>

definition commits_documented :: "'s commit \<Rightarrow> ('s \<Rightarrow> string \<times> int \<Rightarrow> int option) \<Rightarrow> bool" where
  "commits_documented commit committed \<longleftrightarrow>
     (\<forall>t p n s. case commit t p n s of
        (r, s1) \<Rightarrow> committed s1 = (if r = Inr () then (committed s)((t, p) \<mapsto> n) else committed s))"

definition committing :: "string \<Rightarrow> int \<Rightarrow> settlement \<times> message \<Rightarrow> bool" where
  "committing t p am \<longleftrightarrow>
     fst am \<noteq> SettleNack \<and> topic (mctx (snd am)) = t \<and> msg_partition (mctx (snd am)) = p"

lemma commit_offset_inner_state:
  "snd (commit_offset_inner commit m s)
     = snd (commit (topic (mctx m)) (msg_partition (mctx m)) (next_offset (msg_offset (mctx m))) s)"
  by (simp add: commit_offset_inner_def split: prod.split sum.split)

lemma kafka_settle_committed:
  fixes commit :: "'s commit"
  assumes "commits_documented commit committed" and "\<And>t p n s. fst (commit t p n s) = Inr ()"
  shows "committed (snd (kafka_settle commit a m s)) =
    (if a = SettleNack then committed s
     else (committed s)((topic (mctx m), msg_partition (mctx m)) \<mapsto> next_offset (msg_offset (mctx m))))"
proof -
  have "committed (snd (commit t p n s)) = (committed s)((t, p) \<mapsto> n)" for t p n
  proof -
    have "fst (commit t p n s) = Inr ()" by (rule assms(2))
    moreover have "case commit t p n s of
        (r, s1) \<Rightarrow> committed s1 = (if r = Inr () then (committed s)((t, p) \<mapsto> n) else committed s)"
      by (rule assms(1) [unfolded commits_documented_def, THEN spec, THEN spec, THEN spec, THEN spec])
    ultimately show ?thesis by (simp split: prod.splits)
  qed
  then show ?thesis
    by (cases a) (simp_all add: commit_offset_inner_state)
qed


definition at_offset :: "int \<Rightarrow> message" where
  "at_offset n = kafka_decode id ''uuid'' 0 (record_of (with_request_id ''req'') ''orders'' None ''body'' None 0 n)"

definition toy_commit :: "(string \<times> int \<Rightarrow> int option) commit" where
  "toy_commit t p n s = (Inr (), s((t, p) \<mapsto> n))"


text \<open>The tasks: one, for the topics in order and without repetition, or an error.\<close>

lemma kafka_tasks_topics:
  assumes "build_kafka_consumer_tasks client cfg ts pfx = Inr built"
  obtains f where "built = [\<lparr>kt_name = pfx, kt_fetcher = f\<rparr>]" "set (kf_topics f) = set ts"
    "sorted (kf_topics f)" "distinct (kf_topics f)"
proof -
  obtain f where f: "kafka_fetcher_new client cfg (remdups_adj (sort ts)) = Inr f"
    "built = [\<lparr>kt_name = pfx, kt_fetcher = f\<rparr>]"
    using assms by (auto simp: build_kafka_consumer_tasks_def bind_res_Inr_iff
        build_kafka_consumer_tasks_with_failure_publishers_def split: if_splits)
  then have "kf_topics f = remdups_adj (sort ts)"
    by (auto simp: kafka_fetcher_new_def bind_res_Inr_iff Let_def split: if_splits)
  then show thesis using that [OF f(2)] distinct_sorted_topics [of ts] by simp
qed

end
