(* ===== verification/Event_Bus.thy ===== *)
theory Event_Bus
  imports Kafka_Wire Error_Values
begin

text \<open>
  The event bus, \<^verbatim>\<open>flare-core-messaging/src/eventbus/\<close>: the envelope (\<^verbatim>\<open>envelope.rs\<close>), the interfaces
  (\<^verbatim>\<open>event_bus.rs\<close>, \<^verbatim>\<open>topic_event_bus.rs\<close>), the bus over a message broker and its handlers (\<^verbatim>\<open>mq_topic.rs\<close>), the
  buses inside a process (\<^verbatim>\<open>in_memory_*.rs\<close>); with them the readers of messages (\<^verbatim>\<open>mq/consumer/types.rs\<close>) and
  the configuration and errors of producers (\<^verbatim>\<open>mq/producer.rs\<close>).

  The libraries that write and read JSON and protobuf are parameters, as are the broadcast channel and
  the producer. \<open>proto\<close> says whether the crate is built with its feature of that name.
\<close>

section \<open>Producers\<close>

record producer_config =
  pc_timeout_ms :: u64
  pc_enable_idempotence :: bool
  pc_compression_type :: string
  pc_batch_size :: u64
  pc_linger_ms :: u64
  pc_retries :: u32
  pc_retry_backoff_ms :: u64

definition producer_config_default :: producer_config where
  "producer_config_default =
     \<lparr>pc_timeout_ms = 5000, pc_enable_idempotence = True, pc_compression_type = ''snappy'',
      pc_batch_size = 64 * 1024, pc_linger_ms = 10, pc_retries = 3, pc_retry_backoff_ms = 100\<rparr>"

definition pc_with_timeout_ms :: "u64 \<Rightarrow> producer_config \<Rightarrow> producer_config" where
  "pc_with_timeout_ms ms c = c\<lparr>pc_timeout_ms := ms\<rparr>"

definition pc_with_idempotence :: "bool \<Rightarrow> producer_config \<Rightarrow> producer_config" where
  "pc_with_idempotence b c = c\<lparr>pc_enable_idempotence := b\<rparr>"

definition pc_with_compression :: "string \<Rightarrow> producer_config \<Rightarrow> producer_config" where
  "pc_with_compression s c = c\<lparr>pc_compression_type := s\<rparr>"

definition pc_with_batch_size :: "u64 \<Rightarrow> producer_config \<Rightarrow> producer_config" where
  "pc_with_batch_size n c = c\<lparr>pc_batch_size := n\<rparr>"

definition pc_with_linger_ms :: "u64 \<Rightarrow> producer_config \<Rightarrow> producer_config" where
  "pc_with_linger_ms ms c = c\<lparr>pc_linger_ms := ms\<rparr>"

definition pc_with_retries :: "u32 \<Rightarrow> producer_config \<Rightarrow> producer_config" where
  "pc_with_retries n c = c\<lparr>pc_retries := n\<rparr>"

definition producer_error_code :: "producer_error \<Rightarrow> error_code" where
  "producer_error_code e =
     (case e of
        PSerialization s \<Rightarrow> SerializationError
      | PConfiguration s \<Rightarrow> ConfigurationError
      | _ \<Rightarrow> ServiceUnavailable)"

definition producer_default_reason :: "producer_error \<Rightarrow> string" where
  "producer_default_reason e =
     (case e of
        PConnection s \<Rightarrow> ''message broker connection unavailable''
      | PSerialization s \<Rightarrow> ''message broker payload serialization failed''
      | PTimeout s \<Rightarrow> ''message broker publish timed out''
      | PConfiguration s \<Rightarrow> ''message broker producer is misconfigured''
      | PSend s \<Rightarrow> ''message broker publish failed''
      | PBatch s \<Rightarrow> ''message broker batch publish failed'')"

definition flare_of_producer_error :: "timestamp \<Rightarrow> producer_error \<Rightarrow> flare_error" where
  "flare_of_producer_error now e =
     build_error now (builder_param ''producer_error_kind'' (producer_error_kind e)
       (builder_details (producer_error_display e)
         (error_builder_new (producer_error_code e) (producer_default_reason e))))"

text \<open>An error that a caller may try again is exactly one of the broker or the way to it.\<close>

lemma producer_error_retryable:
  "flare_retryable (flare_of_producer_error now e) \<longleftrightarrow>
     (\<nexists>s. e = PSerialization s \<or> e = PConfiguration s)"
  by (cases e) (simp_all add: flare_of_producer_error_def build_error_def builder_param_def builder_details_def
      error_builder_new_def producer_error_code_def flare_retryable_def code_retryable_def)

section \<open>Reading messages\<close>

fun debug_content_type :: "content_type \<Rightarrow> string" where
  "debug_content_type Json = ''Json''"
| "debug_content_type Protobuf = ''Protobuf''"
| "debug_content_type Avro = ''Avro''"
| "debug_content_type Raw = ''Raw''"

definition decode_json :: "(string \<Rightarrow> string + 'a) \<Rightarrow> message \<Rightarrow> consumer_error + 'a" where
  "decode_json dec m =
     (case dec (payload m) of
        Inl e \<Rightarrow> Inl (CDeserialization (''JSON deserialization failed: '' @ e))
      | Inr x \<Rightarrow> Inr x)"

definition to_json :: "(string \<Rightarrow> string + 'a) \<Rightarrow> message \<Rightarrow> consumer_error + 'a" where
  "to_json dec m =
     (if msg_content_type m \<noteq> Json
      then Inl (CDeserialization (''Expected JSON, got '' @ debug_content_type (msg_content_type m)))
      else decode_json dec m)"

definition decode_protobuf :: "(string \<Rightarrow> string + 'a) \<Rightarrow> message \<Rightarrow> consumer_error + 'a" where
  "decode_protobuf dec m =
     (case dec (payload m) of
        Inl e \<Rightarrow> Inl (CDeserialization (''Protobuf deserialization failed: '' @ e))
      | Inr x \<Rightarrow> Inr x)"

definition to_protobuf :: "(string \<Rightarrow> string + 'a) \<Rightarrow> message \<Rightarrow> consumer_error + 'a" where
  "to_protobuf dec m =
     (if msg_content_type m \<noteq> Protobuf
      then Inl (CDeserialization (''Expected Protobuf, got '' @ debug_content_type (msg_content_type m)))
      else decode_protobuf dec m)"

text \<open>\<open>utf8_error\<close> is the error of the standard library for bytes that are no UTF-8.\<close>

definition message_text :: "(string \<Rightarrow> string option) \<Rightarrow> message \<Rightarrow> consumer_error + string" where
  "message_text utf8_error m =
     (case utf8_error (payload m) of
        Some e \<Rightarrow> Inl (CDeserialization (''Failed to convert to string: '' @ e))
      | None \<Rightarrow> Inr (payload m))"

section \<open>The envelope\<close>

record event_envelope =
  ev_id :: string
  ev_type :: string
  ev_partition_key :: string
  ev_seq :: u64
  ev_payload :: string
  ev_timestamp_ms :: "u64 option"
  ev_source :: "string option"

text \<open>The message of the protocol library, whose fields have no absent value; the time is an \<^verbatim>\<open>i64\<close>.\<close>

record proto_envelope =
  pe_event_id :: string
  pe_event_type :: string
  pe_partition_key :: string
  pe_seq :: u64
  pe_payload :: string
  pe_occurred_at :: int
  pe_source :: string

record envelope_codec =
  ec_json_write :: "event_envelope \<Rightarrow> string + string"
  ec_json_read :: "string \<Rightarrow> string + event_envelope"
  ec_proto_write :: "proto_envelope \<Rightarrow> string"
  ec_proto_read :: "string \<Rightarrow> string + proto_envelope"

definition event_envelope_new :: "string \<Rightarrow> string \<Rightarrow> string \<Rightarrow> u64 \<Rightarrow> string \<Rightarrow> event_envelope" where
  "event_envelope_new uuid ty key seq pay =
     \<lparr>ev_id = uuid, ev_type = ty, ev_partition_key = key, ev_seq = seq, ev_payload = pay,
      ev_timestamp_ms = None, ev_source = None\<rparr>"

definition with_timestamp_millis :: "u64 \<Rightarrow> event_envelope \<Rightarrow> event_envelope" where
  "with_timestamp_millis ms env = env\<lparr>ev_timestamp_ms := Some ms\<rparr>"

definition with_source :: "string \<Rightarrow> event_envelope \<Rightarrow> event_envelope" where
  "with_source s env = env\<lparr>ev_source := Some s\<rparr>"

definition is_operation :: "event_envelope \<Rightarrow> bool" where
  "is_operation env \<longleftrightarrow> starts_with ''operation.'' (ev_type env)"

definition show_envelope :: "event_envelope \<Rightarrow> string" where
  "show_envelope env =
     ''EventEnvelope('' @ ev_id env @ '' type='' @ ev_type env @ '' key='' @ ev_partition_key env
       @ '' seq='' @ show_word (ev_seq env) @ '')''"

definition to_json_bytes :: "envelope_codec \<Rightarrow> timestamp \<Rightarrow> event_envelope \<Rightarrow> flare_error + string" where
  "to_json_bytes cd now env =
     (case ec_json_write cd env of Inl e \<Rightarrow> Inl (serialization_error now e) | Inr b \<Rightarrow> Inr b)"

text \<open>\<^verbatim>\<open>as i64\<close> and \<^verbatim>\<open>as u64\<close> keep the 64 bits.\<close>

definition proto_of_envelope :: "event_envelope \<Rightarrow> proto_envelope" where
  "proto_of_envelope env =
     \<lparr>pe_event_id = ev_id env, pe_event_type = ev_type env, pe_partition_key = ev_partition_key env,
      pe_seq = ev_seq env, pe_payload = ev_payload env,
      pe_occurred_at = sint (case ev_timestamp_ms env of Some ms \<Rightarrow> ms | None \<Rightarrow> 0),
      pe_source = (case ev_source env of Some s \<Rightarrow> s | None \<Rightarrow> [])\<rparr>"

definition envelope_of_proto :: "proto_envelope \<Rightarrow> event_envelope" where
  "envelope_of_proto msg =
     \<lparr>ev_id = pe_event_id msg, ev_type = pe_event_type msg, ev_partition_key = pe_partition_key msg,
      ev_seq = pe_seq msg, ev_payload = pe_payload msg,
      ev_timestamp_ms = (if pe_occurred_at msg = 0 then None else Some (word_of_int (pe_occurred_at msg))),
      ev_source = (if pe_source msg = [] then None else Some (pe_source msg))\<rparr>"

definition to_proto_bytes :: "envelope_codec \<Rightarrow> event_envelope \<Rightarrow> flare_error + string" where
  "to_proto_bytes cd env = Inr (ec_proto_write cd (proto_of_envelope env))"

definition from_proto_bytes :: "envelope_codec \<Rightarrow> timestamp \<Rightarrow> string \<Rightarrow> flare_error + event_envelope" where
  "from_proto_bytes cd now bytes =
     (case ec_proto_read cd bytes of
        Inl e \<Rightarrow> Inl (deserialization_error now e)
      | Inr msg \<Rightarrow> Inr (envelope_of_proto msg))"

section \<open>Publishing\<close>

definition EVENT_ENVELOPE_CONTENT_TYPE :: string where
  "EVENT_ENVELOPE_CONTENT_TYPE = ''application/json''"

definition EVENT_ENVELOPE_PROTO_CONTENT_TYPE :: string where
  "EVENT_ENVELOPE_PROTO_CONTENT_TYPE = ''application/protobuf''"

definition HEADER_CONTENT_TYPE :: string where
  "HEADER_CONTENT_TYPE = ''content-type''"

definition envelope_publish_headers :: "bool \<Rightarrow> headers" where
  "envelope_publish_headers proto =
     [HEADER_CONTENT_TYPE \<mapsto>
        (if proto then EVENT_ENVELOPE_PROTO_CONTENT_TYPE else EVENT_ENVELOPE_CONTENT_TYPE)]"

type_synonym 'w mq_producer =
  "request_context \<Rightarrow> string \<Rightarrow> string option \<Rightarrow> string \<Rightarrow> headers option \<Rightarrow> 'w \<Rightarrow> (producer_error + unit) \<times> 'w"

definition publish_payload ::
    "bool \<Rightarrow> envelope_codec \<Rightarrow> timestamp \<Rightarrow> event_envelope \<Rightarrow> flare_error + string" where
  "publish_payload proto cd now env = (if proto then to_proto_bytes cd env else to_json_bytes cd now env)"

definition mq_publish ::
    "bool \<Rightarrow> envelope_codec \<Rightarrow> timestamp \<Rightarrow> 'w mq_producer \<Rightarrow> request_context \<Rightarrow> string \<Rightarrow> event_envelope \<Rightarrow> 'w
     \<Rightarrow> (flare_error + unit) \<times> 'w" where
  "mq_publish proto cd now send c t env w =
     (case publish_payload proto cd now env of
        Inl e \<Rightarrow> (Inl e, w)
      | Inr pay \<Rightarrow>
          (case send c t (Some (ev_partition_key env)) pay (Some (envelope_publish_headers proto)) w of
             (Inl e, w1) \<Rightarrow> (Inl (message_send_failed now (producer_error_display e)), w1)
           | (Inr u, w1) \<Rightarrow> (Inr (), w1)))"

text \<open>The default \<^verbatim>\<open>publish_batch\<close> of both interfaces.\<close>

fun publish_batch ::
    "(event_envelope \<Rightarrow> 'w \<Rightarrow> (flare_error + unit) \<times> 'w) \<Rightarrow> event_envelope list \<Rightarrow> 'w \<Rightarrow> (flare_error + unit) \<times> 'w" where
  "publish_batch publish [] w = (Inr (), w)"
| "publish_batch publish (env # envs) w =
     (case publish env w of
        (Inl e, w1) \<Rightarrow> (Inl e, w1)
      | (Inr u, w1) \<Rightarrow> publish_batch publish envs w1)"

section \<open>Buses inside a process\<close>

definition DEFAULT_TOPIC_BROADCAST_CAPACITY :: nat where
  "DEFAULT_TOPIC_BROADCAST_CAPACITY = 1024"

record topic_broadcast =
  tb_topic :: string
  tb_ctx :: request_context
  tb_envelope :: event_envelope

text \<open>\<open>send\<close> hands a value to the broadcast channel: how many receivers it has, or an error.\<close>

definition in_memory_publish ::
    "timestamp \<Rightarrow> (topic_broadcast \<Rightarrow> 'w \<Rightarrow> (string + nat) \<times> 'w) \<Rightarrow> request_context \<Rightarrow> string \<Rightarrow> event_envelope \<Rightarrow> 'w
     \<Rightarrow> (flare_error + unit) \<times> 'w" where
  "in_memory_publish now send c t env w =
     (case send \<lparr>tb_topic = t, tb_ctx = c, tb_envelope = env\<rparr> w of
        (Inl e, w1) \<Rightarrow> (Inl (message_send_failed now (''in-memory topic bus broadcast: '' @ e)), w1)
      | (Inr n, w1) \<Rightarrow> (Inr (), w1))"

definition domain_publish ::
    "timestamp \<Rightarrow> ('e \<Rightarrow> 'w \<Rightarrow> (string + nat) \<times> 'w) \<Rightarrow> 'e \<Rightarrow> 'w \<Rightarrow> (flare_error + unit) \<times> 'w" where
  "domain_publish now send event w =
     (case send event w of
        (Inl e, w1) \<Rightarrow> (Inl (message_send_failed now (''in-memory event bus broadcast: '' @ e)), w1)
      | (Inr n, w1) \<Rightarrow> (Inr (), w1))"

section \<open>Handling\<close>

record 'w event_handler =
  eh_name :: string
  eh_handle :: "request_context \<Rightarrow> event_envelope \<Rightarrow> 'w \<Rightarrow> (flare_error + unit) \<times> 'w"

definition event_envelope_from_message ::
    "bool \<Rightarrow> envelope_codec \<Rightarrow> timestamp \<Rightarrow> message \<Rightarrow> consumer_error + event_envelope" where
  "event_envelope_from_message proto cd now m =
     (case msg_content_type m of
        Json \<Rightarrow>
          (case to_json (ec_json_read cd) m of
             Inl e \<Rightarrow> Inl (CDeserialization (consumer_error_display e))
           | Inr env \<Rightarrow> Inr env)
      | Protobuf \<Rightarrow>
          (if proto
           then (case from_proto_bytes cd now (payload m) of
                   Inl e \<Rightarrow> Inl (CDeserialization (show_flare_error e))
                 | Inr env \<Rightarrow> Inr env)
           else Inl (CDeserialization
             ''received protobuf EventEnvelope but flare-server-core compiled without proto feature''))
      | other \<Rightarrow>
          Inl (CDeserialization (''topic event bus expects EventEnvelope JSON('' @ EVENT_ENVELOPE_CONTENT_TYPE
            @ '') or Protobuf('' @ EVENT_ENVELOPE_PROTO_CONTENT_TYPE @ ''), got '' @ debug_content_type other)))"

definition mq_event_handle ::
    "bool \<Rightarrow> envelope_codec \<Rightarrow> timestamp \<Rightarrow> 'w event_handler \<Rightarrow> 'w \<Rightarrow> message \<Rightarrow> 'w \<times> (consumer_error + message_result)" where
  "mq_event_handle proto cd now h w m =
     (case event_envelope_from_message proto cd now m of
        Inl e \<Rightarrow> (w, Inl e)
      | Inr env \<Rightarrow>
          (case eh_handle h (msg_ctx (mctx m)) env w of
             (Inl e, w1) \<Rightarrow> (w1, Inl (CHandler (show_flare_error e)))
           | (Inr u, w1) \<Rightarrow> (w1, Inr Ack)))"

text \<open>\<^verbatim>\<open>MqEventHandler\<close> keeps the default batch methods.\<close>

definition mq_event_handler ::
    "bool \<Rightarrow> envelope_codec \<Rightarrow> timestamp \<Rightarrow> 'w event_handler \<Rightarrow> 'w handler" where
  "mq_event_handler proto cd now h = simple_handler (eh_name h) (mq_event_handle proto cd now h)"

fun register_topics :: "'w handler \<Rightarrow> string list \<Rightarrow> 'w registry \<Rightarrow> consumer_error + 'w registry" where
  "register_topics wrapped [] d = Inr d"
| "register_topics wrapped (t # ts) d =
     (case topic_register t wrapped d of
        (d1, Inl e) \<Rightarrow> Inl e
      | (d1, Inr u) \<Rightarrow> register_topics wrapped ts d1)"

definition register_event_handler ::
    "bool \<Rightarrow> envelope_codec \<Rightarrow> timestamp \<Rightarrow> 'w event_handler \<Rightarrow> string list \<Rightarrow> consumer_error + 'w registry" where
  "register_event_handler proto cd now h ts = register_topics (mq_event_handler proto cd now h) ts []"

text \<open>
  \<^verbatim>\<open>MqEventBus::subscribe\<close> registers the handler with a dispatcher of its own and drops it on return: the
  result is all that is left of the call.
\<close>

definition mq_subscribe_with_consumer_group ::
    "bool \<Rightarrow> envelope_codec \<Rightarrow> timestamp \<Rightarrow> string \<Rightarrow> string option \<Rightarrow> 'w event_handler \<Rightarrow> flare_error + unit" where
  "mq_subscribe_with_consumer_group proto cd now t grp h =
     (case topic_register t (mq_event_handler proto cd now h) [] of
        (dispatcher, Inl e) \<Rightarrow> Inl (general_error now (consumer_error_display e))
      | (dispatcher, Inr u) \<Rightarrow> Inr ())"

definition mq_subscribe ::
    "bool \<Rightarrow> envelope_codec \<Rightarrow> timestamp \<Rightarrow> string \<Rightarrow> 'w event_handler \<Rightarrow> flare_error + unit" where
  "mq_subscribe proto cd now t h = mq_subscribe_with_consumer_group proto cd now t None h"

text \<open>Running a consumer: the result of the consumer's runtime with its error rewritten.\<close>

definition event_bus_run :: "timestamp \<Rightarrow> consumer_error + unit \<Rightarrow> flare_error + unit" where
  "event_bus_run now r =
     (case r of Inl e \<Rightarrow> Inl (general_error now (consumer_error_display e)) | Inr u \<Rightarrow> Inr ())"

section \<open>The envelope over the wire\<close>

text \<open>What the libraries document: reading undoes writing.\<close>

definition codec_documented :: "envelope_codec \<Rightarrow> bool" where
  "codec_documented cd \<longleftrightarrow>
     (\<forall>env b. ec_json_write cd env = Inr b \<longrightarrow> ec_json_read cd b = Inr env)
     \<and> (\<forall>msg. ec_proto_read cd (ec_proto_write cd msg) = Inr msg)"

text \<open>Protobuf has no absent values: a time of zero and an empty source arrive as absent.\<close>

definition proto_normal :: "event_envelope \<Rightarrow> event_envelope" where
  "proto_normal env =
     env\<lparr>ev_timestamp_ms := (if ev_timestamp_ms env = Some 0 then None else ev_timestamp_ms env),
         ev_source := without_empty (ev_source env)\<rparr>"

lemma sint_zero_iff: "sint w = 0 \<longleftrightarrow> w = 0" for w :: u64
  by (metis signed_0 signed_word_eqI)

lemma envelope_of_proto_of: "envelope_of_proto (proto_of_envelope env) = proto_normal env"
  by (cases env) (auto simp: sint_zero_iff envelope_of_proto_def proto_of_envelope_def proto_normal_def without_empty_def
      split: option.split)

text \<open>
  An envelope comes back from protobuf as it was exactly when its time is not zero and its source
  not empty; every 64-bit time otherwise survives the signed field, large ones as negative numbers.
\<close>

theorem proto_roundtrip_iff:
  assumes "codec_documented cd" and "to_proto_bytes cd env = Inr b"
  shows "from_proto_bytes cd now b = Inr env \<longleftrightarrow> ev_timestamp_ms env \<noteq> Some 0 \<and> ev_source env \<noteq> Some []"
proof -
  have "from_proto_bytes cd now b = Inr (proto_normal env)"
    using assms by (auto simp: to_proto_bytes_def from_proto_bytes_def codec_documented_def envelope_of_proto_of)
  moreover have "proto_normal env = env \<longleftrightarrow> ev_timestamp_ms env \<noteq> Some 0 \<and> ev_source env \<noteq> Some []"
    by (cases env; cases "ev_source env") (auto simp: proto_normal_def without_empty_def)
  ultimately show ?thesis by simp
qed

text \<open>A library that writes every field with its length, and no JSON.\<close>

definition plain_proto_write :: "proto_envelope \<Rightarrow> string" where
  "plain_proto_write msg =
     encode_text (pe_event_id msg) @ encode_text (pe_event_type msg) @ encode_text (pe_partition_key msg)
     @ encode_text (unary_int (uint (pe_seq msg))) @ encode_text (pe_payload msg)
     @ encode_text (unary_int (pe_occurred_at msg)) @ encode_text (pe_source msg)"

definition plain_proto_read :: "string \<Rightarrow> string + proto_envelope" where
  "plain_proto_read b =
     (let (i, b1) = decode_text b; (ty, b2) = decode_text b1; (key, b3) = decode_text b2;
          (seq, b4) = decode_text b3; (pay, b5) = decode_text b4; (tm, b6) = decode_text b5;
          (src, b7) = decode_text b6
      in Inr \<lparr>pe_event_id = i, pe_event_type = ty, pe_partition_key = key,
              pe_seq = word_of_int (int_of_unary seq), pe_payload = pay,
              pe_occurred_at = int_of_unary tm, pe_source = src\<rparr>)"

definition plain_codec :: envelope_codec where
  "plain_codec =
     \<lparr>ec_json_write = (\<lambda>env. Inl ''no JSON''), ec_json_read = (\<lambda>b. Inl ''no JSON''),
      ec_proto_write = plain_proto_write, ec_proto_read = plain_proto_read\<rparr>"

lemma plain_codec_documented: "codec_documented plain_codec"
  by (simp add: codec_documented_def plain_codec_def plain_proto_write_def plain_proto_read_def Let_def)

definition shipped :: event_envelope where
  "shipped = with_timestamp_millis 5 (event_envelope_new ''e1'' ''order.shipped'' ''o-1'' 7 ''body'')"

theorem proto_roundtrip_iff_witness:
  "from_proto_bytes plain_codec 0 (ec_proto_write plain_codec (proto_of_envelope shipped)) = Inr shipped
   \<and> from_proto_bytes plain_codec 0 (ec_proto_write plain_codec (proto_of_envelope (with_timestamp_millis 0 shipped)))
       \<noteq> Inr (with_timestamp_millis 0 shipped)"
proof -
  have "to_proto_bytes plain_codec env = Inr (ec_proto_write plain_codec (proto_of_envelope env))" for env
    by (simp add: to_proto_bytes_def)
  from proto_roundtrip_iff [OF plain_codec_documented this] show ?thesis
    by (simp add: shipped_def with_timestamp_millis_def event_envelope_new_def)
qed

text \<open>
  A message of the given content type and payload is read as what was published, from whatever
  broker it comes.
\<close>

lemma read_published:
  assumes "codec_documented cd" and "publish_payload proto cd now env = Inr pay"
    and "msg_content_type m = (if proto then Protobuf else Json)" and "payload m = pay"
  shows "event_envelope_from_message proto cd now m = Inr (if proto then proto_normal env else env)"
proof (cases proto)
  case True
  with assms show ?thesis
    by (simp add: event_envelope_from_message_def publish_payload_def to_proto_bytes_def from_proto_bytes_def
        codec_documented_def envelope_of_proto_of [symmetric] split: sum.split) auto
next
  case False
  with assms have "ec_json_write cd env = Inr pay"
    by (simp add: publish_payload_def to_json_bytes_def split: sum.splits)
  with assms(1) have "ec_json_read cd pay = Inr env" by (simp add: codec_documented_def)
  with False assms(3, 4) show ?thesis
    by (simp add: event_envelope_from_message_def to_json_def decode_json_def)
qed

lemma publish_headers_free: "\<not> carries_context (envelope_publish_headers proto)"
  by (simp add: carries_context_def envelope_publish_headers_def HEADER_CONTENT_TYPE_def context_keys_def
      attr_prefix_def)

lemma publish_content_type:
  "Option.bind (envelope_publish_headers proto ''content-type'') content_type_from_str
     = Some (if proto then Protobuf else Json)"
  using content_type_roundtrip [of Protobuf] content_type_roundtrip [of Json]
  by (simp add: envelope_publish_headers_def HEADER_CONTENT_TYPE_def EVENT_ENVELOPE_CONTENT_TYPE_def
      EVENT_ENVELOPE_PROTO_CONTENT_TYPE_def)

lemma kafka_decode_published:
  assumes "\<And>v. v \<in> ran (envelope_publish_headers proto) \<Longrightarrow> lossy v = v"
  shows "msg_content_type (kafka_decode lossy fresh now
      (record_of c t (Some key) pay (Some (envelope_publish_headers proto)) p n)) = (if proto then Protobuf else Json)"
    and "payload (kafka_decode lossy fresh now
      (record_of c t (Some key) pay (Some (envelope_publish_headers proto)) p n)) = pay"
proof -
  obtain v where v: "envelope_publish_headers proto ''content-type'' = Some v"
    by (simp add: envelope_publish_headers_def HEADER_CONTENT_TYPE_def)
  have "lossy v = v" by (rule assms) (rule ranI, rule v)
  with v have "record_header_map lossy (Some (build_headers c (Some key) (Some (envelope_publish_headers proto))))
      ''content-type'' = Some v"
    using merged_headers_own [OF publish_headers_free v]
    by (simp add: record_header_map_at)
  then show "msg_content_type (kafka_decode lossy fresh now
      (record_of c t (Some key) pay (Some (envelope_publish_headers proto)) p n)) = (if proto then Protobuf else Json)"
    using publish_content_type [of proto] v
    by (simp add: kafka_decode_def record_of_def Let_def message_new_def with_ack_handle_def)
qed (simp add: kafka_decode_def record_of_def Let_def message_new_def with_ack_handle_def)

lemma nats_decode_published:
  "msg_content_type (decode_message i r now b
     (wire_message_of fresh c subject (Some key) pay (Some (envelope_publish_headers proto))))
     = (if proto then Protobuf else Json)"
  "payload (decode_message i r now b
     (wire_message_of fresh c subject (Some key) pay (Some (envelope_publish_headers proto)))) = pay"
proof -
  obtain v where v: "envelope_publish_headers proto ''content-type'' = Some v"
    by (simp add: envelope_publish_headers_def HEADER_CONTENT_TYPE_def)
  have "sent_headers c (Some key) (envelope_publish_headers proto) ''content-type''
      = envelope_publish_headers proto ''content-type''"
    by (rule sent_headers_other) (simp_all add: context_keys_def attr_prefix_def)
  then show "msg_content_type (decode_message i r now b
     (wire_message_of fresh c subject (Some key) pay (Some (envelope_publish_headers proto))))
     = (if proto then Protobuf else Json)"
    using publish_content_type [of proto] v
    by (cases proto) (simp_all add: decode_message_def Let_def message_new_def with_ack_handle_def wire_headers_sent)
qed (simp add: decode_message_def Let_def message_new_def with_ack_handle_def wire_message_of_def)

text \<open>
  Claim C13. What is published on the bus reaches the handler: over Kafka and over NATS alike, a message made of
  what the bus hands to the producer is given to the event handler as the published envelope, up to what protobuf
  cannot say, whatever else the headers of the context are.
\<close>

theorem published_event_reaches_handler:
  assumes "codec_documented cd" and "publish_payload proto cd now env = Inr pay"
    and "\<And>v. v \<in> ran (envelope_publish_headers proto) \<Longrightarrow> lossy v = v"
    and "m = kafka_decode lossy fresh at
           (record_of c t (Some (ev_partition_key env)) pay (Some (envelope_publish_headers proto)) p n)
         \<or> m = decode_message i r at manual
           (wire_message_of fresh c t (Some (ev_partition_key env)) pay (Some (envelope_publish_headers proto)))"
  shows "mq_event_handle proto cd now h w m =
    (case eh_handle h (msg_ctx (mctx m)) (if proto then proto_normal env else env) w of
       (Inl e, w1) \<Rightarrow> (w1, Inl (CHandler (show_flare_error e)))
     | (Inr u, w1) \<Rightarrow> (w1, Inr Ack))"
proof -
  have "msg_content_type m = (if proto then Protobuf else Json)" and "payload m = pay"
    using assms(4) kafka_decode_published [OF assms(3)] nats_decode_published by (elim disjE; simp only:)+
  from read_published [OF assms(1, 2) this] show ?thesis by (simp add: mq_event_handle_def)
qed

definition envelope_notes :: "event_envelope list event_handler" where
  "envelope_notes = \<lparr>eh_name = ''notes'', eh_handle = (\<lambda>c env w. (Inr (), w @ [env]))\<rparr>"

theorem published_event_reaches_handler_witness:
  "mq_event_handle True plain_codec 0 envelope_notes []
     (kafka_decode id ''uuid'' 0 (record_of (with_request_id ''req'') ''orders'' (Some ''o-1'')
        (ec_proto_write plain_codec (proto_of_envelope shipped)) (Some (envelope_publish_headers True)) 0 4))
   = ([shipped], Inr Ack)"
proof -
  have pay: "publish_payload True plain_codec 0 shipped
      = Inr (ec_proto_write plain_codec (proto_of_envelope shipped))"
    by (simp add: publish_payload_def to_proto_bytes_def)
  have key: "ev_partition_key shipped = ''o-1''" "proto_normal shipped = shipped"
    by (simp_all add: shipped_def with_timestamp_millis_def event_envelope_new_def proto_normal_def without_empty_def)
  show ?thesis
    using published_event_reaches_handler [OF plain_codec_documented pay, where lossy = id and h = envelope_notes
        and w = "[]", OF _ disjI1 [OF refl]] key
    by (simp add: envelope_notes_def)
qed

text \<open>
  A batch is published up to the first failure: it succeeds if every envelope was published, in
  order; else the envelopes before the failing one were published, the error is the failing one's and the
  rest is not tried.
\<close>

theorem batch_stops_at_first_failure:
  "case publish_batch publish envs w of
     (Inr u, w1) \<Rightarrow> \<exists>ws. length ws = Suc (length envs) \<and> hd ws = w \<and> last ws = w1
       \<and> (\<forall>k < length envs. publish (envs ! k) (ws ! k) = (Inr (), ws ! Suc k))
   | (Inl e, w1) \<Rightarrow> \<exists>pre env post w2. envs = pre @ env # post
       \<and> publish_batch publish pre w = (Inr (), w2) \<and> publish env w2 = (Inl e, w1)"
proof (induction envs arbitrary: w)
  case Nil
  show ?case by (simp add: exI [of _ "[w]"])
next
  case (Cons env envs)
  obtain r w1 where p: "publish env w = (r, w1)" by fastforce
  show ?case
  proof (cases r)
    case (Inl e)
    with p have "env # envs = [] @ env # envs \<and> publish_batch publish [] w = (Inr (), w)
        \<and> publish env w = (Inl e, w1)"
      by simp
    then have "\<exists>pre env' post w2. env # envs = pre @ env' # post
        \<and> publish_batch publish pre w = (Inr (), w2) \<and> publish env' w2 = (Inl e, w1)"
      by blast
    then show ?thesis using p Inl by simp
  next
    case (Inr u)
    with p have step: "publish_batch publish (env # envs) w = publish_batch publish envs w1" by simp
    obtain r2 w2 where b: "publish_batch publish envs w1 = (r2, w2)" by fastforce
    show ?thesis
    proof (cases r2)
      case (Inr u2)
      with Cons.IH [of w1] b obtain ws where ws: "length ws = Suc (length envs)" "hd ws = w1" "last ws = w2"
        "\<forall>k < length envs. publish (envs ! k) (ws ! k) = (Inr (), ws ! Suc k)"
        by auto
      have "\<forall>k < length (env # envs). publish ((env # envs) ! k) ((w # ws) ! k) = (Inr (), (w # ws) ! Suc k)"
        using ws p \<open>r = Inr u\<close> by (cases ws) (auto simp: less_Suc_eq_0_disj)
      then show ?thesis
        using ws b Inr step by (auto intro!: exI [of _ "w # ws"])
    next
      case (Inl e)
      with Cons.IH [of w1] b obtain pre env2 post w3 where
        "envs = pre @ env2 # post" "publish_batch publish pre w1 = (Inr (), w3)" "publish env2 w3 = (Inl e, w2)"
        by auto
      with p \<open>r = Inr u\<close> have "env # envs = (env # pre) @ env2 # post
          \<and> publish_batch publish (env # pre) w = (Inr (), w3) \<and> publish env2 w3 = (Inl e, w2)"
        by simp
      then have "\<exists>pre env' post w3. env # envs = pre @ env' # post
          \<and> publish_batch publish pre w = (Inr (), w3) \<and> publish env' w3 = (Inl e, w2)"
        by blast
      then show ?thesis using b Inl step by simp
    qed
  qed
qed

text \<open>A broker with room for one event.\<close>

definition up_to_one :: "timestamp \<Rightarrow> event_envelope \<Rightarrow> nat \<Rightarrow> (flare_error + unit) \<times> nat" where
  "up_to_one now env n = (if n = 0 then (Inr (), 1) else (Inl (message_send_failed now ''full''), n))"

theorem batch_stops_at_first_failure_witness:
  "\<exists>pre env post w2. [shipped, shipped, shipped] = pre @ env # post
     \<and> publish_batch (up_to_one 0) pre (0 :: nat) = (Inr (), w2)
     \<and> up_to_one 0 env w2 = (Inl (message_send_failed 0 ''full''), 1)"
proof -
  have "publish_batch (up_to_one 0) [shipped, shipped, shipped] 0
      = (Inl (message_send_failed 0 ''full''), 1)"
    by (simp add: up_to_one_def)
  with batch_stops_at_first_failure [where publish = "up_to_one 0" and envs = "[shipped, shipped, shipped]" and w = 0]
  show ?thesis by simp
qed

section \<open>Handlers\<close>

lemma register_topics_iff:
  "(\<exists>d1. register_topics wrapped ts d = Inr d1) \<longleftrightarrow> distinct ts \<and> set ts \<inter> dom (map_of d) = {}"
proof (induction ts arbitrary: d)
  case (Cons t ts)
  show ?case
  proof (cases "map_of d t")
    case None
    then have "register_topics wrapped (t # ts) d = register_topics wrapped ts (AList.update t wrapped d)"
      by (simp add: topic_register_def)
    with Cons.IH [of "AList.update t wrapped d"] None show ?thesis
      by (auto simp: update_conv' dom_def)
  next
    case (Some h)
    then show ?thesis by (auto simp: topic_register_def)
  qed
qed simp

lemma register_topics_map:
  "register_topics wrapped ts d = Inr d1 \<Longrightarrow>
   map_of d1 t = (if t \<in> set ts then Some wrapped else map_of d t)"
proof (induction ts arbitrary: d)
  case (Cons t' ts)
  then have "map_of d t' = None" and "register_topics wrapped ts (AList.update t' wrapped d) = Inr d1"
    by (auto simp: topic_register_def split: if_splits)
  with Cons.IH [of "AList.update t' wrapped d"] show ?case by (auto simp: update_conv')
qed simp

text \<open>
  A handler is registered for several topics exactly when no topic is named twice; then every message of
  one of these topics goes to it.
\<close>

theorem register_event_handler_iff:
  "(if distinct ts
    then \<exists>d. register_event_handler proto cd now h ts = Inr d
      \<and> (\<forall>w m. topic (mctx m) \<in> set ts \<longrightarrow> topic_dispatch ord d w m = mq_event_handle proto cd now h w m)
      \<and> fst ` set d = set ts
    else \<exists>e. register_event_handler proto cd now h ts = Inl e)"
proof (cases "distinct ts")
  case True
  let ?w = "mq_event_handler proto cd now h"
  obtain d where d: "register_topics ?w ts [] = Inr d"
    using register_topics_iff [of ?w ts "[]"] True by auto
  have m: "map_of d t = (if t \<in> set ts then Some ?w else None)" for t
    using register_topics_map [OF d, of t] by simp
  then have "dom (map_of d) = set ts" by (auto simp: dom_def split: if_splits)
  with m d True show ?thesis
    by (auto simp: register_event_handler_def topic_dispatch_def dispatch_with_def find_handler_def
        mq_event_handler_def simple_handler_def dom_map_of_conv_image_fst)
next
  case False
  then have "\<nexists>d. register_topics (mq_event_handler proto cd now h) ts [] = Inr d"
    using register_topics_iff [of "mq_event_handler proto cd now h" ts "[]"] by simp
  with False show ?thesis
    by (cases "register_event_handler proto cd now h ts") (auto simp: register_event_handler_def)
qed

theorem register_event_handler_iff_witness:
  "\<exists>d. register_event_handler True plain_codec 0 envelope_notes [''orders'', ''returns''] = Inr d
     \<and> topic_dispatch id d [] (at_offset 4)
       = mq_event_handle True plain_codec 0 envelope_notes [] (at_offset 4)"
proof -
  have "topic (mctx (at_offset 4)) = ''orders''"
    by (simp add: at_offset_def kafka_decode_def record_of_def message_new_def with_ack_handle_def Let_def)
  with register_event_handler_iff [of "[''orders'', ''returns'']" True plain_codec 0 envelope_notes id]
  show ?thesis by auto
qed

text \<open>
  Subscribing on the bus over a broker always succeeds and has no effect: the result is the same for
  every handler, topic and group, and nothing else comes out of the call.
\<close>

theorem mq_subscribe_has_no_effect:
  "mq_subscribe proto cd now t h = Inr () \<and> mq_subscribe_with_consumer_group proto cd now t grp h = Inr ()"
  by (simp add: mq_subscribe_def mq_subscribe_with_consumer_group_def topic_register_def)

text \<open>
  A message that is no envelope never reaches the handler and is not retried: with dead letters on,
  it goes there at once, while an error of the handler is retried first.
\<close>

theorem unreadable_event_dead_lettered:
  assumes "event_envelope_from_message proto cd now m = Inl e" and "enable_dlq pol"
  shows "mq_event_handle proto cd now h w m = (w, Inl e) \<and> action_for_error pol e n = DoDeadLetter
    \<and> action_for_error pol (CHandler s) n = (if n < max_retries pol then DoRetry else DoDeadLetter)"
proof -
  have "\<exists>s. e = CDeserialization s"
    using assms(1)
    by (auto simp: event_envelope_from_message_def split: content_type.splits sum.splits if_splits)
  with assms show ?thesis
    by (auto simp: mq_event_handle_def action_for_error_def retry_or_dead_letter_def)
qed

theorem unreadable_event_dead_lettered_witness:
  "\<exists>e. mq_event_handle True plain_codec 0 envelope_notes [] ((at_offset 4)\<lparr>msg_content_type := Raw\<rparr>) = ([], Inl e)
     \<and> action_for_error \<lparr>max_retries = 3, enable_dlq = True\<rparr> e 0 = DoDeadLetter"
proof -
  obtain e where e: "event_envelope_from_message True plain_codec 0 ((at_offset 4)\<lparr>msg_content_type := Raw\<rparr>) = Inl e"
    by (simp add: event_envelope_from_message_def)
  from unreadable_event_dead_lettered [OF e, of "\<lparr>max_retries = 3, enable_dlq = True\<rparr>" envelope_notes "[]"]
  show ?thesis by auto
qed

end
