(* ===== verification/Settings.thy ===== *)
theory Settings
  imports Json Error_Values
begin

text \<open>
  Configuration and translations of \<^verbatim>\<open>flare-core-base\<close>: the layered reader of settings
  (\<^verbatim>\<open>config/layered.rs\<close>), the records of a service's configuration (\<^verbatim>\<open>config/mod.rs\<close>) and the translation of
  errors (\<^verbatim>\<open>i18n/mod.rs\<close>). Files are what reading them returns; the parsers of TOML and JSON texts are
  parameters. A \<^verbatim>\<open>usize\<close> has 64 bits.
\<close>

section \<open>TOML documents\<close>

datatype toml =
  TomlString string
| TomlInteger int
| TomlFloat string
| TomlBoolean bool
| TomlDatetime string
| TomlArray "toml list"
| TomlTable "(string \<times> toml) list"

definition toml_get :: "string \<Rightarrow> toml \<Rightarrow> toml option" where
  "toml_get k t = (case t of TomlTable m \<Rightarrow> map_of m k | _ \<Rightarrow> None)"

definition toml_integer_value :: "toml \<Rightarrow> int option" where
  "toml_integer_value t = (case t of TomlInteger i \<Rightarrow> Some i | _ \<Rightarrow> None)"

definition toml_bool_value :: "toml \<Rightarrow> bool option" where
  "toml_bool_value t = (case t of TomlBoolean b \<Rightarrow> Some b | _ \<Rightarrow> None)"

definition toml_str_value :: "toml \<Rightarrow> string option" where
  "toml_str_value t = (case t of TomlString s \<Rightarrow> Some s | _ \<Rightarrow> None)"

section \<open>The layered reader\<close>

definition layered_default :: toml where
  "layered_default = TomlTable []"

text \<open>\<open>read\<close> is what the file of a path holds, or an error; without a path, or after an error, the table is empty.\<close>

definition from_optional_toml ::
    "(string \<Rightarrow> string + string) \<Rightarrow> (string \<Rightarrow> string + toml) \<Rightarrow> string option \<Rightarrow> toml" where
  "from_optional_toml read parse path =
     (case path of
        None \<Rightarrow> TomlTable []
      | Some p \<Rightarrow>
          (case read p of
             Inr raw \<Rightarrow> (case parse raw of Inr v \<Rightarrow> v | Inl e \<Rightarrow> TomlTable [])
           | Inl e \<Rightarrow> TomlTable []))"

fun walk :: "string list \<Rightarrow> toml \<Rightarrow> toml option" where
  "walk [] cur = Some cur"
| "walk (seg # segs) cur = (case toml_get seg cur of Some nxt \<Rightarrow> walk segs nxt | None \<Rightarrow> None)"

definition value_at :: "toml \<Rightarrow> string \<Rightarrow> toml option" where
  "value_at doc toml_path = walk (split_on CHR ''.'' toml_path) doc"

definition toml_integer :: "toml \<Rightarrow> string \<Rightarrow> int option" where
  "toml_integer doc toml_path = Option.bind (value_at doc toml_path) toml_integer_value"

type_synonym process_env = "string \<Rightarrow> string option"

text \<open>\<open>try_from_int\<close> is \<^verbatim>\<open>T::try_from(i64)\<close> for an unsigned type.\<close>

definition try_from_int :: "int \<Rightarrow> 'a::len word option" where
  "try_from_int n = (if 0 \<le> n \<and> n < 2 ^ LENGTH('a) then Some (word_of_int n) else None)"

definition resolve_word ::
    "(string \<Rightarrow> 'a::len word option) \<Rightarrow> process_env \<Rightarrow> toml \<Rightarrow> string \<Rightarrow> string \<Rightarrow> 'a word option" where
  "resolve_word parse env doc env_key toml_path =
     (case Option.bind (env env_key) parse of
        Some v \<Rightarrow> Some v
      | None \<Rightarrow> Option.bind (toml_integer doc toml_path) try_from_int)"

definition resolve_u64 :: "process_env \<Rightarrow> toml \<Rightarrow> string \<Rightarrow> string \<Rightarrow> u64 option" where
  "resolve_u64 = resolve_word parse_u64"

definition resolve_usize :: "process_env \<Rightarrow> toml \<Rightarrow> string \<Rightarrow> string \<Rightarrow> u64 option" where
  "resolve_usize = resolve_word parse_u64"

definition resolve_u32 :: "process_env \<Rightarrow> toml \<Rightarrow> string \<Rightarrow> string \<Rightarrow> u32 option" where
  "resolve_u32 = resolve_word parse_u32"

definition eq_ignore_case :: "string \<Rightarrow> string \<Rightarrow> bool" where
  "eq_ignore_case a b \<longleftrightarrow> map lower_char a = map lower_char b"

definition parse_bool :: "string \<Rightarrow> bool option" where
  "parse_bool raw =
     (let v = trim raw
      in if v \<in> {''1'', ''true'', ''yes'', ''on''} \<or> eq_ignore_case v ''true'' then Some True
         else if v \<in> {''0'', ''false'', ''no'', ''off''} \<or> eq_ignore_case v ''false'' then Some False
         else None)"

definition resolve_bool :: "process_env \<Rightarrow> toml \<Rightarrow> string \<Rightarrow> string \<Rightarrow> bool option" where
  "resolve_bool env doc env_key toml_path =
     (case Option.bind (env env_key) parse_bool of
        Some b \<Rightarrow> Some b
      | None \<Rightarrow> Option.bind (value_at doc toml_path) toml_bool_value)"

definition nonempty_trimmed :: "string \<Rightarrow> string option" where
  "nonempty_trimmed s = (if trim s = [] then None else Some (trim s))"

definition resolve_nonempty_string :: "process_env \<Rightarrow> toml \<Rightarrow> string \<Rightarrow> string \<Rightarrow> string option" where
  "resolve_nonempty_string env doc env_key toml_path =
     (case Option.bind (env env_key) nonempty_trimmed of
        Some s \<Rightarrow> Some s
      | None \<Rightarrow> Option.bind (Option.bind (value_at doc toml_path) toml_str_value) nonempty_trimmed)"

text \<open>\<open>into\<close> reads a value of the wanted type from a TOML value, \<open>parse_vec\<close> a list of them from JSON.\<close>

definition deserialize_toml_path :: "(toml \<Rightarrow> 'a option) \<Rightarrow> toml \<Rightarrow> string \<Rightarrow> 'a option" where
  "deserialize_toml_path into doc toml_path = Option.bind (value_at doc toml_path) into"

definition resolve_json_vec_or_toml_vec ::
    "(string \<Rightarrow> 'a list option) \<Rightarrow> (toml \<Rightarrow> 'a list option) \<Rightarrow> process_env \<Rightarrow> toml \<Rightarrow> string \<Rightarrow> string \<Rightarrow> 'a list option" where
  "resolve_json_vec_or_toml_vec parse_vec into env doc env_json_key toml_path =
     (case env env_json_key of
        Some raw \<Rightarrow> if trim raw = [] then Some [] else parse_vec (trim raw)
      | None \<Rightarrow> deserialize_toml_path into doc toml_path)"

section \<open>The configuration of a service\<close>

record storage_config =
  sg_storage_type :: string
  sg_endpoint :: "string option"
  sg_access_key :: "string option"
  sg_secret_key :: "string option"
  sg_bucket :: "string option"
  sg_region :: "string option"
  sg_use_ssl :: "bool option"

record service_identity =
  sc_name :: string
  sc_version :: string

record server_config =
  sv_address :: string
  sv_port :: u16

record registry_config =
  rc_registry_type :: string
  rc_endpoints :: "string list"
  rc_namespace :: string
  rc_ttl :: u64
  rc_load_balance_strategy :: string

record mesh_config =
  mh_enabled :: bool
  mh_service_name :: string
  mh_namespace :: string

record config =
  cf_service :: service_identity
  cf_server :: server_config
  cf_registry :: "registry_config option"
  cf_mesh :: "mesh_config option"
  cf_storage :: "storage_config option"

definition default_load_balance_strategy :: string where
  "default_load_balance_strategy = ''consistent_hash''"

definition default_registry_type :: string where
  "default_registry_type = ''etcd''"

definition load_config :: "(string \<Rightarrow> string + string) \<Rightarrow> (string \<Rightarrow> string + config) \<Rightarrow> string \<Rightarrow> string + config" where
  "load_config read parse path = bind_res (read path) parse"

section \<open>Translations\<close>

type_synonym translation_map = "string \<Rightarrow> string option"

record i18n =
  in_translations :: "string \<Rightarrow> translation_map option"
  in_default_locale :: string

definition i18n_new :: "string \<Rightarrow> i18n" where
  "i18n_new locale = \<lparr>in_translations = Map.empty, in_default_locale = locale\<rparr>"

definition i18n_default :: i18n where
  "i18n_default = i18n_new ''zh-CN''"

definition set_default_locale :: "string \<Rightarrow> i18n \<Rightarrow> i18n" where
  "set_default_locale locale st = st\<lparr>in_default_locale := locale\<rparr>"

definition load_translations :: "string \<Rightarrow> translation_map \<Rightarrow> i18n \<Rightarrow> i18n" where
  "load_translations locale tr st = st\<lparr>in_translations := (in_translations st)(locale \<mapsto> tr)\<rparr>"

text \<open>Both file formats: the content that was read and its parser.\<close>

definition load_from_text :: "(string \<Rightarrow> string + translation_map) \<Rightarrow> string \<Rightarrow> string + string \<Rightarrow> i18n \<Rightarrow> (string + unit) \<times> i18n" where
  "load_from_text parse locale content st =
     (case bind_res content parse of
        Inl e \<Rightarrow> (Inl e, st)
      | Inr tr \<Rightarrow> (Inr (), load_translations locale tr st))"

text \<open>An entry of a directory; the stem and the extension are present if they are readable texts.\<close>

record dir_entry =
  de_is_file :: bool
  de_stem :: "string option"
  de_extension :: "string option"
  de_content :: "string + string"

definition load_entry ::
    "(string \<Rightarrow> string + translation_map) \<Rightarrow> (string \<Rightarrow> string + translation_map) \<Rightarrow> dir_entry \<Rightarrow> i18n
     \<Rightarrow> (string + unit) \<times> i18n" where
  "load_entry parse_toml parse_json e st =
     (if \<not> de_is_file e then (Inr (), st)
      else (case de_stem e of
              None \<Rightarrow> (Inl ''Invalid file name'', st)
            | Some stem \<Rightarrow>
                (case de_extension e of
                   None \<Rightarrow> (Inl ''Invalid file extension'', st)
                 | Some ext \<Rightarrow>
                     if ext = ''toml'' then load_from_text parse_toml stem (de_content e) st
                     else if ext = ''json'' then load_from_text parse_json stem (de_content e) st
                     else (Inr (), st))))"

text \<open>The entries of the directory in the order in which the system returns them; reading one may fail.\<close>

fun load_from_dir ::
    "(string \<Rightarrow> string + translation_map) \<Rightarrow> (string \<Rightarrow> string + translation_map) \<Rightarrow> (string + dir_entry) list \<Rightarrow> i18n
     \<Rightarrow> (string + unit) \<times> i18n" where
  "load_from_dir parse_toml parse_json [] st = (Inr (), st)"
| "load_from_dir parse_toml parse_json (Inl e # es) st = (Inl e, st)"
| "load_from_dir parse_toml parse_json (Inr e # es) st =
     (case load_entry parse_toml parse_json e st of
        (Inl err, st1) \<Rightarrow> (Inl err, st1)
      | (Inr u, st1) \<Rightarrow> load_from_dir parse_toml parse_json es st1)"

text \<open>\<^verbatim>\<open>str::replace\<close> with a pattern that is not empty.\<close>

function replace_all :: "string \<Rightarrow> string \<Rightarrow> string \<Rightarrow> string" where
  "replace_all pat new [] = []"
| "replace_all pat new (c # cs) =
     (case strip_prefix pat (c # cs) of
        Some rest \<Rightarrow> if length rest < length (c # cs) then new @ replace_all pat new rest else c # cs
      | None \<Rightarrow> c # replace_all pat new cs)"
  by pat_completeness auto
termination by (relation "measure (\<lambda>(pat, new, s). length s)") auto

definition placeholder :: "string \<Rightarrow> string" where
  "placeholder key = ''{'' @ key @ ''}''"

text \<open>The parameters are a hash map, in whatever order it is walked.\<close>

definition interpolate :: "string \<Rightarrow> (string \<times> string) list \<Rightarrow> string" where
  "interpolate template params = fold (\<lambda>(key, value) result. replace_all (placeholder key) value result) params template"

definition translate_error ::
    "((string \<Rightarrow> string option) \<Rightarrow> (string \<times> string) list) \<Rightarrow> i18n \<Rightarrow> localized_error \<Rightarrow> string option \<Rightarrow> string" where
  "translate_error entries st e locale =
     (let l = (case locale of Some l \<Rightarrow> l | None \<Rightarrow> in_default_locale st)
      in case Option.bind (in_translations st l) (\<lambda>tr. tr (localized_code_str e)) of
           Some translated \<Rightarrow>
             (case le_params e of Some ps \<Rightarrow> interpolate translated (entries ps) | None \<Rightarrow> translated)
         | None \<Rightarrow> le_reason e)"

definition default_zh_cn_translations :: translation_map where
  "default_zh_cn_translations =
     [''CONNECTION_FAILED'' \<mapsto> utf8 [232, 191, 158, 230, 142, 165, 229, 164, 177, 232, 180, 165],
      ''CONNECTION_TIMEOUT'' \<mapsto> utf8 [232, 191, 158, 230, 142, 165, 232, 182, 133, 230, 151, 182],
      ''CONNECTION_CLOSED'' \<mapsto> utf8 [232, 191, 158, 230, 142, 165, 229, 183, 178, 229, 133, 179, 233, 151, 173],
      ''AUTHENTICATION_FAILED'' \<mapsto> utf8 [232, 174, 164, 232, 175, 129, 229, 164, 177, 232, 180, 165],
      ''AUTHENTICATION_EXPIRED'' \<mapsto> utf8 [232, 174, 164, 232, 175, 129, 229, 183, 178, 232, 191, 135, 230, 156, 159],
      ''PERMISSION_DENIED'' \<mapsto> utf8 [230, 157, 131, 233, 153, 144, 228, 184, 141, 232, 182, 179],
      ''USER_NOT_FOUND'' \<mapsto> utf8 [231, 148, 168, 230, 136, 183, 228, 184, 141, 229, 173, 152, 229, 156, 168],
      ''USER_OFFLINE'' \<mapsto> utf8 [231, 148, 168, 230, 136, 183, 231, 166, 187, 231, 186, 191],
      ''MESSAGE_SEND_FAILED'' \<mapsto> utf8 [230, 182, 136, 230, 129, 175, 229, 143, 145, 233, 128, 129, 229, 164, 177, 232, 180, 165],
      ''MESSAGE_NOT_FOUND'' \<mapsto> utf8 [230, 182, 136, 230, 129, 175, 228, 184, 141, 229, 173, 152, 229, 156, 168],
      ''INTERNAL_ERROR'' \<mapsto> utf8 [229, 134, 133, 233, 131, 168, 233, 148, 153, 232, 175, 175],
      ''SERVICE_UNAVAILABLE'' \<mapsto> utf8 [230, 156, 141, 229, 138, 161, 228, 184, 141, 229, 143, 175, 231, 148, 168]]"

definition default_en_us_translations :: translation_map where
  "default_en_us_translations =
     [''CONNECTION_FAILED'' \<mapsto> ''Connection failed'',
      ''CONNECTION_TIMEOUT'' \<mapsto> ''Connection timeout'',
      ''CONNECTION_CLOSED'' \<mapsto> ''Connection closed'',
      ''AUTHENTICATION_FAILED'' \<mapsto> ''Authentication failed'',
      ''AUTHENTICATION_EXPIRED'' \<mapsto> ''Authentication expired'',
      ''PERMISSION_DENIED'' \<mapsto> ''Permission denied'',
      ''USER_NOT_FOUND'' \<mapsto> ''User not found'',
      ''USER_OFFLINE'' \<mapsto> ''User offline'',
      ''MESSAGE_SEND_FAILED'' \<mapsto> ''Message send failed'',
      ''MESSAGE_NOT_FOUND'' \<mapsto> ''Message not found'',
      ''INTERNAL_ERROR'' \<mapsto> ''Internal error'',
      ''SERVICE_UNAVAILABLE'' \<mapsto> ''Service unavailable'']"

section \<open>Properties\<close>

text \<open>A document with one value under a path of tables.\<close>

fun nest :: "string list \<Rightarrow> toml \<Rightarrow> toml" where
  "nest [] v = v"
| "nest (seg # segs) v = TomlTable [(seg, nest segs v)]"

lemma walk_nest: "walk segs (nest segs v) = Some v"
  by (induction segs) (simp_all add: toml_get_def)

text \<open>
  A value is found under the dotted path of the tables it lies in, if no table has a dot in its
  name.
\<close>

theorem value_at_nested:
  assumes "segs \<noteq> []" and "list_all (\<lambda>seg. CHR ''.'' \<notin> set seg) segs"
  shows "value_at (nest segs v) (join_with CHR ''.'' segs) = Some v"
  using assms by (simp add: value_at_def list_all_iff split_on_join_with walk_nest)

theorem value_at_nested_witness:
  "value_at (TomlTable [(''grpc'', TomlTable [(''port'', TomlInteger 50051)])]) ''grpc.port'' = Some (TomlInteger 50051)"
  using value_at_nested [of "[''grpc'', ''port'']" "TomlInteger 50051"] by simp

text \<open>
  An unreadable value in the environment hides the file or not, depending on the reader: a number or
  a truth value that does not parse falls back to the file, a list that does not parse gives nothing at
  all, although it is reported as ignored.
\<close>

theorem unreadable_environment:
  assumes "env k = Some raw" and "parse_u64 raw = None" and "parse_bool raw = None"
    and "trim raw \<noteq> []" and "parse_vec (trim raw) = None"
  shows "resolve_u64 env doc k p = Option.bind (toml_integer doc p) try_from_int
    \<and> resolve_bool env doc k p = Option.bind (value_at doc p) toml_bool_value
    \<and> resolve_json_vec_or_toml_vec parse_vec into env doc k p = None"
  using assms by (simp add: resolve_u64_def resolve_word_def resolve_bool_def resolve_json_vec_or_toml_vec_def)

theorem unreadable_environment_witness:
  "resolve_u64 [''PEERS'' \<mapsto> ''a,b''] (TomlTable [(''peers'', TomlInteger 7)]) ''PEERS'' ''peers'' = Some 7
   \<and> resolve_json_vec_or_toml_vec (\<lambda>_. None) (\<lambda>_. Some [''a'']) [''PEERS'' \<mapsto> ''a,b'']
       (TomlTable [(''peers'', TomlInteger 7)]) ''PEERS'' ''peers'' = None"
proof -
  have "parse_u64 ''a,b'' = None" "parse_bool ''a,b'' = None" "trim ''a,b'' = ''a,b''" by code_simp+
  moreover have "toml_integer (TomlTable [(''peers'', TomlInteger 7)]) ''peers'' = Some 7"
    by (simp add: toml_integer_def value_at_def toml_get_def toml_integer_value_def)
  ultimately show ?thesis
    using unreadable_environment [of "[''PEERS'' \<mapsto> ''a,b'']" "''PEERS''" "''a,b''" "\<lambda>_. None"
        "TomlTable [(''peers'', TomlInteger 7)]" "''peers''" "\<lambda>_. Some [''a'']"]
    by (simp add: try_from_int_def)
qed

text \<open>A number from the file is taken as it is or not at all.\<close>

lemma try_from_int_exact: "try_from_int n = Some w \<Longrightarrow> uint w = n"
  by (auto simp: try_from_int_def uint_word_of_int split: if_splits)

text \<open>What an entry of a directory adds, if it adds something.\<close>

definition entry_translations ::
    "(string \<Rightarrow> string + translation_map) \<Rightarrow> (string \<Rightarrow> string + translation_map) \<Rightarrow> dir_entry
     \<Rightarrow> (string \<times> translation_map) option" where
  "entry_translations parse_toml parse_json e =
     (if \<not> de_is_file e then None
      else case (de_stem e, de_extension e) of
             (Some stem, Some ext) \<Rightarrow>
               (if ext = ''toml'' \<or> ext = ''json''
                then (case bind_res (de_content e) (if ext = ''toml'' then parse_toml else parse_json) of
                        Inr tr \<Rightarrow> Some (stem, tr) | Inl err \<Rightarrow> None)
                else None)
           | _ \<Rightarrow> None)"

lemma load_entry_adds:
  assumes "load_entry parse_toml parse_json e st = (Inr (), st1)"
  shows "in_translations st1 = (case entry_translations parse_toml parse_json e of
      Some (l, tr) \<Rightarrow> (in_translations st)(l \<mapsto> tr) | None \<Rightarrow> in_translations st)"
    and "in_default_locale st1 = in_default_locale st"
  using assms
  by (auto simp: load_entry_def entry_translations_def load_from_text_def load_translations_def
      split: if_splits option.splits sum.splits)

text \<open>
  Loading a directory adds what its files add, a later file of a locale replacing an earlier one, be
  it TOML or JSON; so with two files for one locale the order of the directory decides, and the first
  one's messages are lost, not merged.
\<close>

theorem load_from_dir_last_wins:
  assumes "load_from_dir parse_toml parse_json es st = (Inr (), st1)"
  shows "in_translations st1 = in_translations st ++
      map_of (rev (List.map_filter (entry_translations parse_toml parse_json) (map projr es)))
    \<and> in_default_locale st1 = in_default_locale st"
  using assms
proof (induction parse_toml parse_json es st rule: load_from_dir.induct)
  case (3 parse_toml parse_json e es st)
  then obtain st2 where st2: "load_entry parse_toml parse_json e st = (Inr (), st2)"
    "load_from_dir parse_toml parse_json es st2 = (Inr (), st1)"
    by (auto split: prod.splits sum.splits)
  note IH = 3(1) [OF st2(1) [symmetric] refl st2(2)]
  show ?case
    using IH load_entry_adds [OF st2(1)]
    by (auto simp: map_filter_simps map_add_assoc [symmetric] split: option.splits)
qed (simp_all add: map_filter_simps)

definition locale_file :: "string \<Rightarrow> string \<Rightarrow> dir_entry" where
  "locale_file ext txt = \<lparr>de_is_file = True, de_stem = Some ''en-US'', de_extension = Some ext, de_content = Inr txt\<rparr>"

definition one_message :: "string \<Rightarrow> string + translation_map" where
  "one_message txt = Inr [''USER_OFFLINE'' \<mapsto> txt]"

theorem load_from_dir_last_wins_witness:
  "in_translations (snd (load_from_dir one_message one_message
     [Inr (locale_file ''toml'' ''Offline''), Inr (locale_file ''json'' ''Gone'')] i18n_default)) ''en-US''
   = Some [''USER_OFFLINE'' \<mapsto> ''Gone'']"
proof -
  obtain st1 where st1: "load_from_dir one_message one_message
      [Inr (locale_file ''toml'' ''Offline''), Inr (locale_file ''json'' ''Gone'')] i18n_default = (Inr (), st1)"
    by (simp add: load_entry_def load_from_text_def locale_file_def one_message_def)
  from load_from_dir_last_wins [OF st1] st1 show ?thesis
    by (simp add: map_filter_simps entry_translations_def locale_file_def one_message_def)
qed

text \<open>
  A value that contains the placeholder of another parameter is replaced in its turn or not, depending on the
  order of the hash map.
\<close>

lemma interpolation_depends_on_order:
  "interpolate ''{a}'' [(''a'', ''{b}''), (''b'', ''x'')] = ''x''
   \<and> interpolate ''{a}'' [(''b'', ''x''), (''a'', ''{b}'')] = ''{b}''"
  by (simp add: interpolate_def placeholder_def)

text \<open>
  The built-in translations are for known error codes, the same ones in both languages: an error of
  such a code is translated, one of any other code keeps its reason.
\<close>

theorem default_translations_known:
  "dom default_zh_cn_translations = dom default_en_us_translations
   \<and> dom default_en_us_translations \<subseteq> range code_str
   \<and> translate_error entries (load_translations ''en-US'' default_en_us_translations i18n_default)
       (localized_new now UserOffline rsn) (Some ''en-US'') = ''User offline''"
proof -
  have keys: "map code_str [ServiceUnavailable, InternalError, MessageNotFound, MessageSendFailed,
       UserOffline, UserNotFound, PermissionDenied, AuthenticationExpired,
       AuthenticationFailed, ConnectionClosed, ConnectionTimeout, ConnectionFailed]
    = [''SERVICE_UNAVAILABLE'', ''INTERNAL_ERROR'', ''MESSAGE_NOT_FOUND'', ''MESSAGE_SEND_FAILED'',
       ''USER_OFFLINE'', ''USER_NOT_FOUND'', ''PERMISSION_DENIED'', ''AUTHENTICATION_EXPIRED'',
       ''AUTHENTICATION_FAILED'', ''CONNECTION_CLOSED'', ''CONNECTION_TIMEOUT'', ''CONNECTION_FAILED'']"
    by simp
  have "dom default_en_us_translations = set [''SERVICE_UNAVAILABLE'', ''INTERNAL_ERROR'', ''MESSAGE_NOT_FOUND'', ''MESSAGE_SEND_FAILED'',
       ''USER_OFFLINE'', ''USER_NOT_FOUND'', ''PERMISSION_DENIED'', ''AUTHENTICATION_EXPIRED'',
       ''AUTHENTICATION_FAILED'', ''CONNECTION_CLOSED'', ''CONNECTION_TIMEOUT'', ''CONNECTION_FAILED'']"
    by (simp only: default_en_us_translations_def dom_fun_upd option.distinct if_False list.set dom_empty)
  then have "dom default_en_us_translations \<subseteq> range code_str"
    unfolding keys [symmetric] set_map by (rule ord_eq_le_trans) (rule image_mono [OF subset_UNIV])
  moreover have "dom default_zh_cn_translations = dom default_en_us_translations"
    by (simp only: default_zh_cn_translations_def default_en_us_translations_def dom_fun_upd option.distinct
        if_False)
  moreover have "default_en_us_translations ''USER_OFFLINE'' = Some ''User offline''"
    by (simp add: default_en_us_translations_def)
  ultimately show ?thesis
    by (simp add: translate_error_def load_translations_def localized_new_def localized_code_str_def)
qed

end
