(* ===== verification/Discovery_Types.thy ===== *)
theory Discovery_Types
  imports Json "HOL-Library.Finite_Map" "HOL-Library.List_Lexorder" "HOL-Library.Char_ord"
begin

text \<open>
  The data of service discovery: \<^verbatim>\<open>transport/src/discovery/config.rs\<close> and \<^verbatim>\<open>instance.rs\<close>. Tags and other
  hash maps that are compared as a whole are finite maps, whose equality is that of the map.
  Socket addresses are printed and read as the standard library does it; only the text of the
  address inside the brackets of version 6 is a parameter.
\<close>

section \<open>Socket addresses\<close>

datatype ip_addr = V4 u8 u8 u8 u8 | V6 "u16 list"

record socket_addr =
  sa_ip :: ip_addr
  sa_port :: u16

text \<open>Printing and reading of version 6 addresses.\<close>

type_synonym v6_show = "u16 list \<Rightarrow> string"
type_synonym v6_read = "string \<Rightarrow> u16 list option"

definition is_ipv4 :: "ip_addr \<Rightarrow> bool" where
  "is_ipv4 a = (case a of V4 _ _ _ _ \<Rightarrow> True | V6 _ \<Rightarrow> False)"

definition is_unspecified :: "ip_addr \<Rightarrow> bool" where
  "is_unspecified a = (case a of
     V4 w x y z \<Rightarrow> w = 0 \<and> x = 0 \<and> y = 0 \<and> z = 0
   | V6 gs \<Rightarrow> (\<forall>g \<in> set gs. g = 0))"

definition show_ip :: "v6_show \<Rightarrow> ip_addr \<Rightarrow> string" where
  "show_ip show6 a = (case a of
     V4 w x y z \<Rightarrow> join_with CHR ''.'' [show_word w, show_word x, show_word y, show_word z]
   | V6 gs \<Rightarrow> show6 gs)"

definition show_socket :: "v6_show \<Rightarrow> socket_addr \<Rightarrow> string" where
  "show_socket show6 a =
     (if is_ipv4 (sa_ip a) then show_ip show6 (sa_ip a)
      else ''['' @ show_ip show6 (sa_ip a) @ '']'') @ '':'' @ show_word (sa_port a)"

text \<open>An octet has one to three digits, no leading zero, and a value up to 255.\<close>

definition read_octet :: "string \<Rightarrow> u8 option" where
  "read_octet s =
     (if s = [] \<or> 3 < length s \<or> (1 < length s \<and> hd s = CHR ''0'') then None
      else (case parse_digits 0 s of
              Some n \<Rightarrow> if n < 256 then Some (of_nat n) else None | None \<Rightarrow> None))"

definition read_port :: "string \<Rightarrow> u16 option" where
  "read_port s =
     (if s = [] then None
      else (case parse_digits 0 s of
              Some n \<Rightarrow> if n < 65536 then Some (of_nat n) else None | None \<Rightarrow> None))"

definition read_ipv4 :: "string \<Rightarrow> ip_addr option" where
  "read_ipv4 s =
     (case map read_octet (split_on CHR ''.'' s) of
        [Some w, Some x, Some y, Some z] \<Rightarrow> Some (V4 w x y z)
      | _ \<Rightarrow> None)"

definition read_ipv6 :: "v6_read \<Rightarrow> string \<Rightarrow> ip_addr option" where
  "read_ipv6 read6 s =
     (case s of
        c # r \<Rightarrow>
          if c = CHR ''['' \<and> r \<noteq> [] \<and> last r = CHR '']'' then map_option V6 (read6 (butlast r)) else None
      | [] \<Rightarrow> None)"

text \<open>
  \<^verbatim>\<open>str::parse::<SocketAddr>\<close>: the port stands behind the last colon; what is before it is a version 4
  address or a version 6 address in brackets.
\<close>

definition read_socket :: "v6_read \<Rightarrow> string \<Rightarrow> socket_addr option" where
  "read_socket read6 s =
     (let parts = split_on CHR '':'' s; a = join_with CHR '':'' (butlast parts)
      in if length parts < 2 then None
         else (case (case read_ipv4 a of None \<Rightarrow> read_ipv6 read6 a | Some i \<Rightarrow> Some i) of
                 None \<Rightarrow> None
               | Some i \<Rightarrow> map_option (\<lambda>p. \<lparr>sa_ip = i, sa_port = p\<rparr>) (read_port (last parts))))"

lemma digit_char_inj: "d < 10 \<Longrightarrow> e < 10 \<Longrightarrow> digit_char d = digit_char e \<Longrightarrow> d = e"
  by (metis digit_val_digit_char option.inject)

lemma set_show_nat: "set (show_nat n) \<subseteq> digit_char ` {..< 10}"
proof (induction n rule: show_nat.induct)
  case (1 n)
  show ?case using 1 by (cases "n < 10") (auto simp: show_nat.simps [of n])
qed

lemma set_show_word: "set (show_word x) \<subseteq> digit_char ` {..< 10}"
  by (simp add: show_word_def set_show_nat)

lemma digit_char_0: "digit_char 0 = CHR ''0''"
  by (simp add: digit_char_def char_of_def bit_0)

lemma not_digit_char:
  "digit_val c = None \<Longrightarrow> c \<notin> set (show_word x)"
  using set_show_word [of x] by (auto simp: subset_iff dest!: bspec)

lemma show_word_separators [simp]:
  "CHR ''.'' \<notin> set (show_word x)" "CHR '':'' \<notin> set (show_word x)" "CHR ''['' \<notin> set (show_word x)"
  by (rule not_digit_char, simp add: digit_val_def)+

lemma show_word_not_Nil [simp]: "show_word x \<noteq> []"
  by (simp add: show_word_def)

lemma length_show_nat: "n < 10 ^ Suc k \<Longrightarrow> length (show_nat n) \<le> Suc k"
proof (induction k arbitrary: n)
  case 0
  then show ?case by (simp add: show_nat.simps [of n])
next
  case (Suc k)
  have "n div 10 < 10 ^ Suc k" using Suc.prems by (simp add: less_mult_imp_div_less)
  with Suc.IH [of "n div 10"] show ?case by (cases "n < 10") (simp_all add: show_nat.simps [of n])
qed

lemma hd_show_nat_not_0: "10 \<le> n \<Longrightarrow> hd (show_nat n) \<noteq> CHR ''0''"
proof (induction n rule: show_nat.induct)
  case (1 n)
  have hd: "hd (show_nat n) = hd (show_nat (n div 10))"
    using 1(2) by (subst show_nat.simps) simp
  show ?case
  proof (cases "n div 10 < 10")
    case True
    have "n div 10 \<noteq> 0" using 1(2) by simp
    with True have "digit_char (n div 10) \<noteq> digit_char 0" by (metis digit_char_inj zero_less_numeral)
    moreover have "show_nat (n div 10) = [digit_char (n div 10)]"
      using True by (subst show_nat.simps) simp
    ultimately show ?thesis by (simp add: hd digit_char_0)
  next
    case False
    with 1 show ?thesis by (simp add: hd)
  qed
qed

lemma read_octet_show [simp]: "read_octet (show_word (x :: u8)) = Some x"
proof -
  have x: "unat x < 256" using unsigned_less [of x] by simp
  then have len: "length (show_word x) \<le> 3"
    using length_show_nat [of "unat x" 2] by (simp add: show_word_def)
  have hd: "1 < length (show_word x) \<Longrightarrow> hd (show_word x) \<noteq> CHR ''0''"
    using hd_show_nat_not_0 [of "unat x"] show_nat.simps [of "unat x"]
    by (cases "unat x < 10") (simp_all add: show_word_def)
  have parse: "parse_digits 0 (show_word x) = Some (unat x)"
    by (simp add: show_word_def parse_digits_show_nat)
  show ?thesis
    unfolding read_octet_def parse option.case using x len hd by (fastforce simp: not_less)
qed

lemma read_port_show [simp]: "read_port (show_word (x :: u16)) = Some x"
proof -
  have "unat x < 65536" using unsigned_less [of x] by simp
  then show ?thesis by (simp add: read_port_def show_word_def parse_digits_show_nat)
qed

lemma read_ipv4_show:
  "read_ipv4 (show_ip show6 (V4 w x y z)) = Some (V4 w x y z)"
proof -
  have "split_on CHR ''.'' (show_ip show6 (V4 w x y z))
      = [show_word w, show_word x, show_word y, show_word z]"
    unfolding show_ip_def by (simp only: ip_addr.case, rule split_on_join_with) simp_all
  then show ?thesis by (simp add: read_ipv4_def)
qed

lemma show_ipv4_no_colon: "is_ipv4 a \<Longrightarrow> CHR '':'' \<notin> set (show_ip show6 a)"
  by (cases a) (auto simp: show_ip_def is_ipv4_def)

lemma read_socket_ipv4:
  "CHR '':'' \<notin> set a \<Longrightarrow> CHR '':'' \<notin> set p \<Longrightarrow>
   read_socket read6 (a @ '':'' @ p) =
     (case read_ipv4 a of
        None \<Rightarrow> (case read_ipv6 read6 a of
                  None \<Rightarrow> None | Some i \<Rightarrow> map_option (\<lambda>p. \<lparr>sa_ip = i, sa_port = p\<rparr>) (read_port p))
      | Some i \<Rightarrow> map_option (\<lambda>p. \<lparr>sa_ip = i, sa_port = p\<rparr>) (read_port p))"
  by (simp add: read_socket_def Let_def split_on_append_sep split_on_no_sep split: option.split)

lemma read_socket_show:
  "is_ipv4 (sa_ip a) \<Longrightarrow> read_socket read6 (show_socket show6 a) = Some a"
proof -
  assume v4: "is_ipv4 (sa_ip a)"
  then obtain w x y z where ip: "sa_ip a = V4 w x y z" by (cases "sa_ip a") (auto simp: is_ipv4_def)
  have "read_socket read6 (show_ip show6 (sa_ip a) @ '':'' @ show_word (sa_port a)) = Some a"
    unfolding read_socket_ipv4 [OF show_ipv4_no_colon [OF v4] show_word_separators(2)]
    by (simp add: ip read_ipv4_show)
  then show ?thesis using v4 by (simp add: show_socket_def)
qed

section \<open>Configuration\<close>

datatype backend_type = Etcd | Consul | Dns | Mesh

definition lower :: "string \<Rightarrow> string" where
  "lower s = map lower_char s"

definition backend_type_from_str :: "string \<Rightarrow> string + backend_type" where
  "backend_type_from_str s =
     (let l = lower s
      in if l = ''etcd'' then Inr Etcd
         else if l = ''consul'' then Inr Consul
         else if l = ''dns'' \<or> l = ''dns-srv'' then Inr Dns
         else if l = ''mesh'' \<or> l = ''xds'' \<or> l = ''envoy'' then Inr Mesh
         else Inl (''Unknown backend type: '' @ s))"

datatype load_balance_strategy =
  RoundRobin | RandomChoice | ConsistentHash | LeastConnections | WeightedRoundRobin | WeightedRandom

definition load_balance_default :: load_balance_strategy where
  "load_balance_default = ConsistentHash"

definition load_balance_from_str :: "string \<Rightarrow> string + load_balance_strategy" where
  "load_balance_from_str s =
     (let l = map (\<lambda>c. if c = CHR ''-'' then CHR ''_'' else c) (lower s)
      in if l \<in> {''round_robin'', ''roundrobin''} then Inr RoundRobin
         else if l = ''random'' then Inr RandomChoice
         else if l \<in> {''consistent_hash'', ''consistenthash''} then Inr ConsistentHash
         else if l \<in> {''least_connections'', ''leastconnections'', ''least_conn''} then Inr LeastConnections
         else if l \<in> {''weighted_round_robin'', ''weightedroundrobin''} then Inr WeightedRoundRobin
         else if l \<in> {''weighted_random'', ''weightedrandom''} then Inr WeightedRandom
         else Inl (''Unknown load balance strategy: '' @ s))"

record namespace_config =
  ns_default :: "string option"
  ns_separator :: "string option"

definition namespace_config_default :: namespace_config where
  "namespace_config_default = \<lparr>ns_default = None, ns_separator = Some ''/''\<rparr>"

record version_config =
  ver_default :: "string option"
  ver_format :: "string option"
  ver_routing :: bool

definition version_config_default :: version_config where
  "version_config_default = \<lparr>ver_default = None, ver_format = Some ''semver'', ver_routing = True\<rparr>"

record tag_filter =
  tf_key :: string
  tf_value :: "string option"
  tf_pattern :: "string option"

record discovery_health_config =
  dh_interval :: u64
  dh_timeout :: u64
  dh_failure_threshold :: u32
  dh_success_threshold :: u32
  dh_path :: "string option"

definition discovery_health_default :: discovery_health_config where
  "discovery_health_default =
     \<lparr>dh_interval = 10, dh_timeout = 5, dh_failure_threshold = 3, dh_success_threshold = 2,
      dh_path = Some ''/health''\<rparr>"

record discovery_config =
  dc_backend :: backend_type
  dc_backend_config :: "string \<Rightarrow> json option"
  dc_namespace :: "namespace_config option"
  dc_version :: "version_config option"
  dc_tag_filters :: "tag_filter list"
  dc_load_balance :: load_balance_strategy
  dc_health_check :: "discovery_health_config option"
  dc_refresh_interval :: "u64 option"

text \<open>The environment of the process is a map from names to values.\<close>

type_synonym environment = "string \<Rightarrow> string option"

definition default_discovery_refresh_interval_secs :: "environment \<Rightarrow> u64" where
  "default_discovery_refresh_interval_secs env =
     (case Option.bind (env ''CONSUL_DISCOVERY_REFRESH_INTERVAL'') parse_u64 of
        Some v \<Rightarrow> if 5 \<le> v then v else 60
      | None \<Rightarrow> 60)"

lemma refresh_interval_at_least_5: "5 \<le> default_discovery_refresh_interval_secs env"
  by (simp add: default_discovery_refresh_interval_secs_def split: option.split)

section \<open>Service instances\<close>

type_synonym tag_map = "(string, string) fmap"

record instance_metadata =
  im_region :: "string option"
  im_zone :: "string option"
  im_environment :: "string option"
  im_custom :: tag_map

definition instance_metadata_default :: instance_metadata where
  "instance_metadata_default =
     \<lparr>im_region = None, im_zone = None, im_environment = None, im_custom = fmempty\<rparr>"

record service_instance =
  si_type :: string
  si_id :: string
  si_address :: socket_addr
  si_namespace :: "string option"
  si_version :: "string option"
  si_tags :: tag_map
  si_metadata :: instance_metadata
  si_healthy :: bool
  si_weight :: u32

definition service_instance_new :: "string \<Rightarrow> string \<Rightarrow> socket_addr \<Rightarrow> service_instance" where
  "service_instance_new t i a =
     \<lparr>si_type = t, si_id = i, si_address = a, si_namespace = None, si_version = None,
      si_tags = fmempty, si_metadata = instance_metadata_default, si_healthy = True, si_weight = 100\<rparr>"

definition inst_with_namespace :: "string \<Rightarrow> service_instance \<Rightarrow> service_instance" where
  "inst_with_namespace ns inst = inst\<lparr>si_namespace := Some ns\<rparr>"

definition inst_with_version :: "string \<Rightarrow> service_instance \<Rightarrow> service_instance" where
  "inst_with_version v inst = inst\<lparr>si_version := Some v\<rparr>"

definition inst_with_tag :: "string \<Rightarrow> string \<Rightarrow> service_instance \<Rightarrow> service_instance" where
  "inst_with_tag k v inst = inst\<lparr>si_tags := fmupd k v (si_tags inst)\<rparr>"

definition inst_with_weight :: "u32 \<Rightarrow> service_instance \<Rightarrow> service_instance" where
  "inst_with_weight w inst = inst\<lparr>si_weight := w\<rparr>"

definition inst_with_health :: "bool \<Rightarrow> service_instance \<Rightarrow> service_instance" where
  "inst_with_health h inst = inst\<lparr>si_healthy := h\<rparr>"

definition to_http_url :: "v6_show \<Rightarrow> service_instance \<Rightarrow> string" where
  "to_http_url show6 inst = ''http://'' @ show_socket show6 (si_address inst)"

definition to_grpc_uri :: "v6_show \<Rightarrow> service_instance \<Rightarrow> string" where
  "to_grpc_uri show6 inst = ''http://'' @ show_socket show6 (si_address inst)"

definition matches_tags :: "tag_map \<Rightarrow> service_instance \<Rightarrow> bool" where
  "matches_tags filters inst \<longleftrightarrow> fmpred (\<lambda>k v. fmlookup (si_tags inst) k = Some v) filters"

definition matches_version :: "string option \<Rightarrow> service_instance \<Rightarrow> bool" where
  "matches_version v inst \<longleftrightarrow>
     (case (v, si_version inst) of
        (None, _) \<Rightarrow> True
      | (Some v, Some iv) \<Rightarrow> v = iv
      | (Some _, None) \<Rightarrow> False)"

definition matches_namespace :: "string option \<Rightarrow> service_instance \<Rightarrow> bool" where
  "matches_namespace ns inst \<longleftrightarrow>
     (case (ns, si_namespace inst) of
        (None, _) \<Rightarrow> True
      | (Some n, Some m) \<Rightarrow> n = m
      | (Some _, None) \<Rightarrow> False)"

lemma matches_tags_iff:
  "matches_tags filters inst \<longleftrightarrow> fmlookup filters \<subseteq>\<^sub>m fmlookup (si_tags inst)"
  unfolding matches_tags_def fmpred_iff map_le_def dom_def by fastforce

lemma matches_version_iff:
  "matches_version v inst \<longleftrightarrow> v = None \<or> v = si_version inst"
  by (auto simp: matches_version_def split: option.split)

lemma matches_namespace_iff:
  "matches_namespace ns inst \<longleftrightarrow> ns = None \<or> ns = si_namespace inst"
  by (auto simp: matches_namespace_def split: option.split)

text \<open>What a query asks for, as every backend filters its instances: all given parts must match.\<close>

definition matches_query ::
    "string option \<Rightarrow> string option \<Rightarrow> tag_map option \<Rightarrow> service_instance \<Rightarrow> bool" where
  "matches_query ns ver tags inst \<longleftrightarrow>
     (case ns of None \<Rightarrow> True | Some _ \<Rightarrow> matches_namespace ns inst)
     \<and> (case ver of None \<Rightarrow> True | Some _ \<Rightarrow> matches_version ver inst)
     \<and> (case tags of None \<Rightarrow> True | Some t \<Rightarrow> matches_tags t inst)"

lemma matches_query_iff:
  "matches_query ns ver tags inst \<longleftrightarrow>
     (ns = None \<or> ns = si_namespace inst) \<and> (ver = None \<or> ver = si_version inst)
     \<and> (case tags of None \<Rightarrow> True | Some t \<Rightarrow> fmlookup t \<subseteq>\<^sub>m fmlookup (si_tags inst))"
  by (auto simp: matches_query_def matches_namespace_iff matches_version_iff matches_tags_iff
      split: option.split)

end
