(* ===== verification/Discover.thy ===== *)
theory Discover
  imports Discovery_Types
begin

text \<open>
  The service discoverer, \<^verbatim>\<open>transport/src/discovery/discover.rs\<close>: the instances that a backend reports
  are turned into changes for a load balancer, first once when the discoverer is created, then at
  every tick of a timer.

  A channel is known by the text it connects to; \<open>valid\<close> says which texts the client library takes
  as an endpoint. \<open>ds_sent\<close> holds the changes in the order in which they are given to the queue between the
  discoverer and the load balancer. The queue is bounded: while nobody receives, a change that does
  not fit waits for ever. The balancer takes the changes only after \<^verbatim>\<open>from_backend\<close> has returned.
\<close>

section \<open>State\<close>

datatype channel_service = ChannelService string

datatype service_change = ChangeInsert string channel_service | ChangeRemove string

record discover_state =
  ds_instances :: "(string, service_instance) fmap"
  ds_cache :: "string \<Rightarrow> channel_service option"
  ds_sent :: "service_change list"

definition discover_new :: discover_state where
  "discover_new = \<lparr>ds_instances = fmempty, ds_cache = Map.empty, ds_sent = []\<rparr>"

text \<open>What is asked of the backend.\<close>

definition tag_filters_to_map :: "discovery_config \<Rightarrow> tag_map option" where
  "tag_filters_to_map cfg =
     (let m = fold (\<lambda>f m. case tf_value f of Some v \<Rightarrow> fmupd (tf_key f) v m | None \<Rightarrow> m)
                (dc_tag_filters cfg) fmempty
      in if m = fmempty then None else Some m)"

record discover_query =
  dq_type :: string
  dq_namespace :: "string option"
  dq_version :: "string option"
  dq_tags :: "tag_map option"

definition query_of_config :: "discovery_config \<Rightarrow> discover_query" where
  "query_of_config cfg =
     \<lparr>dq_type = (case Option.bind (dc_backend_config cfg ''service_type'') as_str of
                   Some t \<Rightarrow> t | None \<Rightarrow> []),
      dq_namespace = Option.bind (dc_namespace cfg) ns_default,
      dq_version = Option.bind (dc_version cfg) ver_default,
      dq_tags = tag_filters_to_map cfg\<rparr>"

section \<open>The updater\<close>

definition create_channel_service ::
    "v6_show \<Rightarrow> (string \<Rightarrow> bool) \<Rightarrow> service_instance \<Rightarrow> discover_state
     \<Rightarrow> (string + channel_service) \<times> discover_state" where
  "create_channel_service show6 valid inst st =
     (let uri = to_grpc_uri show6 inst; k = si_id inst
      in case ds_cache st k of
           Some service \<Rightarrow> (Inr service, st)
         | None \<Rightarrow>
             if valid uri
             then (Inr (ChannelService uri), st\<lparr>ds_cache := (ds_cache st)(k \<mapsto> ChannelService uri)\<rparr>)
             else (Inl ''Invalid URI'', st))"

definition updater_insert :: "string \<Rightarrow> channel_service \<Rightarrow> discover_state \<Rightarrow> discover_state" where
  "updater_insert key service st =
     st\<lparr>ds_cache := (ds_cache st)(key \<mapsto> service), ds_sent := ds_sent st @ [ChangeInsert key service]\<rparr>"

definition updater_remove :: "string \<Rightarrow> discover_state \<Rightarrow> discover_state" where
  "updater_remove key st =
     st\<lparr>ds_cache := (ds_cache st)(key := None), ds_sent := ds_sent st @ [ChangeRemove key]\<rparr>"

section \<open>Creation\<close>

text \<open>
  The first discovery. The receiving end of the queue is part of the value under construction, so
  nothing is received: the result \<open>None\<close> is a send that waits for ever.
\<close>

definition DISCOVER_BUFFER :: nat where
  "DISCOVER_BUFFER = 16"

fun initial_loop ::
    "v6_show \<Rightarrow> (string \<Rightarrow> bool) \<Rightarrow> service_instance list \<Rightarrow> discover_state \<Rightarrow> discover_state option" where
  "initial_loop show6 valid [] st = Some st"
| "initial_loop show6 valid (inst # insts) st =
     (case create_channel_service show6 valid inst st of
        (Inr service, st1) \<Rightarrow>
          if length (ds_sent st1) < DISCOVER_BUFFER
          then (let st2 = updater_insert (si_id inst) service st1
                in initial_loop show6 valid insts
                     (st2\<lparr>ds_instances := fmupd (si_id inst) inst (ds_instances st2)\<rparr>))
          else None
      | (Inl err, st1) \<Rightarrow> initial_loop show6 valid insts st1)"

definition from_backend ::
    "v6_show \<Rightarrow> (string \<Rightarrow> bool) \<Rightarrow> (discover_query \<Rightarrow> string + service_instance list)
     \<Rightarrow> discovery_config \<Rightarrow> discover_state option" where
  "from_backend show6 valid backend cfg =
     (case backend (query_of_config cfg) of
        Inr new_instances \<Rightarrow> initial_loop show6 valid new_instances discover_new
      | Inl err \<Rightarrow> Some discover_new)"

section \<open>Refreshing\<close>

definition refresh_interval_secs :: "environment \<Rightarrow> discovery_config \<Rightarrow> u64" where
  "refresh_interval_secs env cfg =
     (case dc_refresh_interval cfg of
        Some i \<Rightarrow> i | None \<Rightarrow> default_discovery_refresh_interval_secs env)"

definition map_keys :: "(string, 'a) fmap \<Rightarrow> string list" where
  "map_keys m = sorted_list_of_fset (fmdom m)"

definition instance_map :: "service_instance list \<Rightarrow> (string, service_instance) fmap" where
  "instance_map insts = fold (\<lambda>i. fmupd (si_id i) i) insts fmempty"

definition put_instance ::
    "v6_show \<Rightarrow> (string \<Rightarrow> bool) \<Rightarrow> string \<Rightarrow> service_instance \<Rightarrow> discover_state \<Rightarrow> discover_state" where
  "put_instance show6 valid k inst st =
     (let st1 = (case create_channel_service show6 valid inst st of
                   (Inr service, st1) \<Rightarrow> updater_insert k service st1
                 | (Inl err, st1) \<Rightarrow> st1)
      in st1\<lparr>ds_instances := fmupd k inst (ds_instances st1)\<rparr>)"

definition refresh_one ::
    "v6_show \<Rightarrow> (string \<Rightarrow> bool) \<Rightarrow> (string, service_instance) fmap \<Rightarrow> string
     \<Rightarrow> discover_state \<Rightarrow> discover_state" where
  "refresh_one show6 valid new_map k st =
     (case fmlookup new_map k of
        None \<Rightarrow> st
      | Some new_inst \<Rightarrow>
          (case fmlookup (ds_instances st) k of
             Some old_inst \<Rightarrow>
               if old_inst \<noteq> new_inst then put_instance show6 valid k new_inst (updater_remove k st) else st
           | None \<Rightarrow> put_instance show6 valid k new_inst st))"

definition drop_gone ::
    "(string, service_instance) fmap \<Rightarrow> string \<Rightarrow> discover_state \<Rightarrow> discover_state" where
  "drop_gone new_map k st =
     (if fmlookup new_map k = None
      then (let st1 = updater_remove k st in st1\<lparr>ds_instances := fmdrop k (ds_instances st1)\<rparr>)
      else st)"

definition refresh_round ::
    "(string list \<Rightarrow> string list) \<Rightarrow> v6_show \<Rightarrow> (string \<Rightarrow> bool) \<Rightarrow> string + service_instance list
     \<Rightarrow> discover_state \<Rightarrow> discover_state" where
  "refresh_round ord show6 valid r st =
     (case r of
        Inl err \<Rightarrow> st
      | Inr new_instances \<Rightarrow>
          (let new_map = instance_map new_instances;
               st1 = fold (refresh_one show6 valid new_map) (ord (map_keys new_map)) st
           in fold (drop_gone new_map) (ord (map_keys (ds_instances st1))) st1))"

text \<open>The results of the backend at the ticks after the creation, in order.\<close>

definition refresh_task ::
    "(string list \<Rightarrow> string list) \<Rightarrow> v6_show \<Rightarrow> (string \<Rightarrow> bool) \<Rightarrow> (string + service_instance list) list
     \<Rightarrow> discover_state \<Rightarrow> discover_state" where
  "refresh_task ord show6 valid results st = fold (refresh_round ord show6 valid) results st"

section \<open>Queries\<close>

definition get_instances :: "(string list \<Rightarrow> string list) \<Rightarrow> discover_state \<Rightarrow> service_instance list" where
  "get_instances ord st =
     map (\<lambda>k. the (fmlookup (ds_instances st) k)) (ord (map_keys (ds_instances st)))"

definition passes_filter :: "tag_filter \<Rightarrow> service_instance \<Rightarrow> bool" where
  "passes_filter f inst \<longleftrightarrow>
     (case tf_value f of
        Some v \<Rightarrow> (case fmlookup (si_tags inst) (tf_key f) of Some w \<Rightarrow> w = v | None \<Rightarrow> False)
      | None \<Rightarrow> fmlookup (si_tags inst) (tf_key f) \<noteq> None)"

definition filter_by_tags ::
    "(string list \<Rightarrow> string list) \<Rightarrow> tag_filter list \<Rightarrow> discover_state \<Rightarrow> service_instance list" where
  "filter_by_tags ord filters st =
     filter (\<lambda>inst. list_all (\<lambda>f. passes_filter f inst) filters) (get_instances ord st)"

section \<open>The client\<close>

text \<open>
  The load balancer is a library: \<open>bl_ready\<close> waits until an endpoint is ready, \<open>bl_call\<close> takes it.
  \<^verbatim>\<open>get_channel\<close> asks for readiness twice, the loop around the first question ends in its first round;
  \<^verbatim>\<open>call_service\<close> does not ask.
\<close>

record 's balancer =
  bl_ready :: "'s \<Rightarrow> (string + unit) \<times> 's"
  bl_call :: "'s \<Rightarrow> (string + channel_service) \<times> 's"

definition call_service :: "'s balancer \<Rightarrow> 's \<Rightarrow> (string + channel_service) \<times> 's" where
  "call_service b s =
     (case bl_call b s of
        (Inr ch, s1) \<Rightarrow> (Inr ch, s1)
      | (Inl e, s1) \<Rightarrow> (Inl (''Service call error: '' @ e), s1))"

definition get_channel :: "'s balancer \<Rightarrow> 's \<Rightarrow> (string + channel_service) \<times> 's" where
  "get_channel b s =
     (case bl_ready b s of
        (Inl e, s1) \<Rightarrow> (Inl (''Service not ready: '' @ e), s1)
      | (Inr _, s1) \<Rightarrow>
          (case bl_ready b s1 of
             (Inl e, s2) \<Rightarrow> (Inl (''Service not ready after waiting: '' @ e), s2)
           | (Inr _, s2) \<Rightarrow> call_service b s2))"

section \<open>The endpoints of the load balancer\<close>

text \<open>What the changes add up to on the side of the load balancer.\<close>

fun apply_change :: "service_change \<Rightarrow> (string \<Rightarrow> channel_service option) \<Rightarrow> string \<Rightarrow> channel_service option" where
  "apply_change (ChangeInsert k ch) m = m(k \<mapsto> ch)"
| "apply_change (ChangeRemove k) m = m(k := None)"

definition endpoints_after :: "service_change list \<Rightarrow> string \<Rightarrow> channel_service option" where
  "endpoints_after cs = fold apply_change cs Map.empty"

text \<open>What they should add up to: one endpoint for every instance whose address is one.\<close>

definition channel_of :: "v6_show \<Rightarrow> (string \<Rightarrow> bool) \<Rightarrow> service_instance \<Rightarrow> channel_service option" where
  "channel_of show6 valid inst =
     (if valid (to_grpc_uri show6 inst) then Some (ChannelService (to_grpc_uri show6 inst)) else None)"

definition wanted_endpoints ::
    "v6_show \<Rightarrow> (string \<Rightarrow> bool) \<Rightarrow> service_instance list \<Rightarrow> string \<Rightarrow> channel_service option" where
  "wanted_endpoints show6 valid insts k =
     Option.bind (fmlookup (instance_map insts) k) (channel_of show6 valid)"

definition discover_inv :: "v6_show \<Rightarrow> (string \<Rightarrow> bool) \<Rightarrow> discover_state \<Rightarrow> bool" where
  "discover_inv show6 valid st \<longleftrightarrow>
     endpoints_after (ds_sent st) = ds_cache st
     \<and> (\<forall>k. ds_cache st k = Option.bind (fmlookup (ds_instances st) k) (channel_of show6 valid))
     \<and> (\<forall>k inst. fmlookup (ds_instances st) k = Some inst \<longrightarrow> si_id inst = k)"

lemma endpoints_after_snoc [simp]:
  "endpoints_after [] = Map.empty"
  "endpoints_after (cs @ [c]) = apply_change c (endpoints_after cs)"
  by (simp_all add: endpoints_after_def)

lemma updater_sel [simp]:
  "ds_cache (updater_insert k ch st) = (ds_cache st)(k \<mapsto> ch)"
  "ds_sent (updater_insert k ch st) = ds_sent st @ [ChangeInsert k ch]"
  "ds_instances (updater_insert k ch st) = ds_instances st"
  "ds_cache (updater_remove k st) = (ds_cache st)(k := None)"
  "ds_sent (updater_remove k st) = ds_sent st @ [ChangeRemove k]"
  "ds_instances (updater_remove k st) = ds_instances st"
  by (simp_all add: updater_insert_def updater_remove_def)

lemma discover_inv_new: "discover_inv show6 valid discover_new"
  by (simp add: discover_inv_def discover_new_def)

text \<open>Putting an instance under a key without a channel brings the key up to date, and no other.\<close>

lemma put_instance_fresh:
  assumes "ds_cache st (si_id inst) = None" and "k = si_id inst"
  shows "ds_instances (put_instance show6 valid k inst st) = fmupd k inst (ds_instances st)"
    and "ds_cache (put_instance show6 valid k inst st) = (ds_cache st)(k := channel_of show6 valid inst)"
    and "endpoints_after (ds_sent st) = ds_cache st \<Longrightarrow>
      endpoints_after (ds_sent (put_instance show6 valid k inst st))
        = ds_cache (put_instance show6 valid k inst st)"
  using assms
  by (auto simp: put_instance_def create_channel_service_def Let_def channel_of_def)

lemma instance_map_id: "fmlookup (instance_map insts) k = Some inst \<Longrightarrow> si_id inst = k"
proof -
  have "fmpred (\<lambda>k i. si_id i = k) m \<Longrightarrow>
      fmpred (\<lambda>k i. si_id i = k) (fold (\<lambda>i. fmupd (si_id i) i) insts m)" for m
    by (induction insts arbitrary: m) (simp_all add: fmpred_upd)
  then have "fmpred (\<lambda>k i. si_id i = k) (instance_map insts)" by (simp add: instance_map_def)
  then show "fmlookup (instance_map insts) k = Some inst \<Longrightarrow> si_id inst = k" by (rule fmpredD)
qed

lemma map_keys_set: "set (map_keys m) = fmdom' m"
  by (simp add: map_keys_def fmdom'_alt_def)

text \<open>The known instances after the steps of a refresh, whatever the channels are.\<close>

lemma put_instance_instances [simp]:
  "ds_instances (put_instance show6 valid k inst st) = fmupd k inst (ds_instances st)"
  by (simp add: put_instance_def create_channel_service_def Let_def split: option.split)

lemma refresh_one_instances:
  assumes "fmlookup new_map k = Some inst"
  shows "ds_instances (refresh_one show6 valid new_map k st) = fmupd k inst (ds_instances st)"
  using assms by (auto simp: refresh_one_def intro: fmap_ext split: option.split)

lemma refresh_fold_instances:
  "set ks \<subseteq> fmdom' new_map \<Longrightarrow>
   fmlookup (ds_instances (fold (refresh_one show6 valid new_map) ks st)) k
     = (if k \<in> set ks then fmlookup new_map k else fmlookup (ds_instances st) k)"
proof (induction ks arbitrary: st)
  case (Cons j ks)
  obtain inst where "fmlookup new_map j = Some inst"
    using Cons.prems by (auto simp: fmlookup_dom'_iff)
  with Cons show ?case by (auto simp: refresh_one_instances)
qed simp

lemma drop_fold_instances:
  "fmlookup (ds_instances (fold (drop_gone new_map) ks st)) j
     = (if j \<in> set ks \<and> fmlookup new_map j = None then None else fmlookup (ds_instances st) j)"
  by (induction ks arbitrary: st) (auto simp: drop_gone_def Let_def)

lemma refresh_round_instances:
  assumes "hash_order ord"
  shows "fmlookup (ds_instances (refresh_round ord show6 valid (Inr insts) st)) = fmlookup (instance_map insts)"
proof
  fix k
  have keys: "set (ord (map_keys m)) = fmdom' m" for m :: "(string, service_instance) fmap"
    by (simp add: hash_order_set [OF assms] map_keys_set)
  show "fmlookup (ds_instances (refresh_round ord show6 valid (Inr insts) st)) k = fmlookup (instance_map insts) k"
    using refresh_fold_instances [of "ord (map_keys (instance_map insts))" "instance_map insts" show6 valid st k]
    by (cases "fmlookup (instance_map insts) k")
      (auto simp: refresh_round_def Let_def drop_fold_instances keys fmlookup_dom'_iff)
qed

text \<open>Each step keeps the invariant.\<close>

lemma refresh_one_correct:
  assumes inv: "discover_inv show6 valid st" and new: "fmlookup new_map k = Some inst" and k: "si_id inst = k"
  shows "discover_inv show6 valid (refresh_one show6 valid new_map k st)"
proof (cases "fmlookup (ds_instances st) k")
  case None
  then have c: "ds_cache st (si_id inst) = None" using inv k by (simp add: discover_inv_def)
  note f = put_instance_fresh [OF c k [symmetric], of show6 valid]
  from None new have "refresh_one show6 valid new_map k st = put_instance show6 valid k inst st"
    by (simp add: refresh_one_def)
  with f inv k show ?thesis by (simp add: discover_inv_def)
next
  case (Some old)
  show ?thesis
  proof (cases "old = inst")
    case True
    with Some new inv show ?thesis by (simp add: refresh_one_def)
  next
    case False
    have c: "ds_cache (updater_remove k st) (si_id inst) = None" using k by simp
    note f = put_instance_fresh [OF c k [symmetric], of show6 valid]
    from Some False new have "refresh_one show6 valid new_map k st
        = put_instance show6 valid k inst (updater_remove k st)"
      by (simp add: refresh_one_def)
    with f inv k show ?thesis by (simp add: discover_inv_def)
  qed
qed

lemma refresh_fold_correct:
  assumes "discover_inv show6 valid st" and "set ks \<subseteq> fmdom' (instance_map insts)"
  shows "discover_inv show6 valid (fold (refresh_one show6 valid (instance_map insts)) ks st)"
  using assms
proof (induction ks arbitrary: st)
  case (Cons k ks)
  obtain inst where inst: "fmlookup (instance_map insts) k = Some inst"
    using Cons.prems(2) by (auto simp: fmlookup_dom'_iff)
  show ?case
    using Cons.IH [OF refresh_one_correct [OF Cons.prems(1) inst instance_map_id [OF inst]]] Cons.prems(2)
    by simp
qed simp

lemma drop_fold_correct:
  "discover_inv show6 valid st \<Longrightarrow> discover_inv show6 valid (fold (drop_gone new_map) ks st)"
proof (induction ks arbitrary: st)
  case (Cons k ks)
  have "discover_inv show6 valid (drop_gone new_map k st)"
    using Cons.prems by (auto simp: drop_gone_def Let_def discover_inv_def)
  with Cons.IH show ?case by simp
qed simp

text \<open>A refresh makes the known instances those of its result.\<close>

lemma refresh_round_correct:
  assumes inv: "discover_inv show6 valid st" and ord: "hash_order ord"
  shows "discover_inv show6 valid (refresh_round ord show6 valid r st)"
proof (cases r)
  case (Inl e)
  with inv show ?thesis by (simp add: refresh_round_def)
next
  case (Inr insts)
  have "set (ord (map_keys (instance_map insts))) \<subseteq> fmdom' (instance_map insts)"
    by (simp add: hash_order_set [OF ord] map_keys_set)
  from drop_fold_correct [OF refresh_fold_correct [OF inv this]] show ?thesis
    by (simp add: refresh_round_def Inr Let_def)
qed

lemma refresh_round_error [simp]: "refresh_round ord show6 valid (Inl e) st = st"
  by (simp add: refresh_round_def)

text \<open>A refresh that finds nothing new tells the load balancer nothing.\<close>

lemma refresh_idle:
  assumes "hash_order ord" and "fmlookup (instance_map insts) = fmlookup (ds_instances st)"
  shows "refresh_round ord show6 valid (Inr insts) st = st"
proof -
  have eq: "instance_map insts = ds_instances st" using assms(2) by (auto intro: fmap_ext)
  have "fold (refresh_one show6 valid (ds_instances st)) ks st = st" for ks
    by (induction ks) (auto simp: refresh_one_def split: option.split)
  moreover have "fold (drop_gone (ds_instances st)) ks st = st" if "set ks \<subseteq> fmdom' (ds_instances st)" for ks
    using that by (induction ks) (auto simp: drop_gone_def fmlookup_dom'_iff)
  ultimately show ?thesis
    by (simp add: refresh_round_def Let_def eq hash_order_set [OF assms(1)] map_keys_set)
qed

text \<open>The first discovery, for instances of different names.\<close>

lemma initial_loop_correct:
  assumes "initial_loop show6 valid insts st = Some st'" and "discover_inv show6 valid st"
    and "distinct (map si_id insts)" and "\<forall>inst \<in> set insts. fmlookup (ds_instances st) (si_id inst) = None"
  shows "discover_inv show6 valid st'
    \<and> (\<forall>k. ds_cache st' k = (case map_of (map (\<lambda>i. (si_id i, i)) insts) k of
          Some inst \<Rightarrow> channel_of show6 valid inst | None \<Rightarrow> ds_cache st k))"
  using assms
proof (induction insts arbitrary: st)
  case (Cons inst insts)
  have none: "ds_cache st (si_id inst) = None"
    using Cons.prems(2, 4) by (simp add: discover_inv_def)
  show ?case
  proof (cases "valid (to_grpc_uri show6 inst)")
    case True
    let ?st2 = "updater_insert (si_id inst) (ChannelService (to_grpc_uri show6 inst))
        (st\<lparr>ds_cache := (ds_cache st)(si_id inst \<mapsto> ChannelService (to_grpc_uri show6 inst))\<rparr>)"
    let ?st3 = "?st2\<lparr>ds_instances := fmupd (si_id inst) inst (ds_instances ?st2)\<rparr>"
    have step: "initial_loop show6 valid insts ?st3 = Some st'"
      using Cons.prems(1) none True
      by (simp add: create_channel_service_def Let_def split: if_splits)
    have inv: "discover_inv show6 valid ?st3"
      using Cons.prems(2) True by (auto simp: discover_inv_def channel_of_def)
    have "map_of (map (\<lambda>i. (si_id i, i)) insts) (si_id inst) = None"
      using Cons.prems(3) by (auto simp: map_of_eq_None_iff)
    moreover have "\<forall>i \<in> set insts. fmlookup (ds_instances ?st3) (si_id i) = None"
      using Cons.prems(3, 4) by auto
    moreover have "ds_cache ?st3 = (ds_cache st)(si_id inst \<mapsto> ChannelService (to_grpc_uri show6 inst))"
      by simp
    ultimately show ?thesis
      using Cons.IH [OF step inv] Cons.prems(3) True
      by (auto simp: channel_of_def cong: option.case_cong)
  next
    case False
    have step: "initial_loop show6 valid insts st = Some st'"
      using Cons.prems(1) none False by (simp add: create_channel_service_def Let_def)
    have "map_of (map (\<lambda>i. (si_id i, i)) insts) (si_id inst) = None"
      using Cons.prems(3) by (auto simp: map_of_eq_None_iff)
    with Cons.IH [OF step Cons.prems(2)] Cons.prems(3, 4) False none show ?thesis
      by (auto simp: channel_of_def)
  qed
qed simp

lemma instance_map_distinct:
  "distinct (map si_id insts) \<Longrightarrow>
   fmlookup (instance_map insts) = map_of (map (\<lambda>i. (si_id i, i)) insts)"
proof -
  have "distinct (map si_id insts) \<Longrightarrow>
      fmlookup (fold (\<lambda>i. fmupd (si_id i) i) insts m) k
        = (case map_of (map (\<lambda>i. (si_id i, i)) insts) k of Some i \<Rightarrow> Some i | None \<Rightarrow> fmlookup m k)" for m k
  proof (induction insts arbitrary: m)
    case (Cons i insts)
    have "map_of (map (\<lambda>i. (si_id i, i)) insts) (si_id i) = None"
      using Cons.prems by (auto simp: map_of_eq_None_iff)
    with Cons show ?case by (auto split: option.split)
  qed simp
  from this [of fmempty] show "distinct (map si_id insts) \<Longrightarrow> ?thesis"
    by (auto simp: instance_map_def split: option.split)
qed

section \<open>Properties\<close>

fun last_ok :: "('e + 'a list) list \<Rightarrow> 'a list \<Rightarrow> 'a list" where
  "last_ok [] xs = xs"
| "last_ok (Inl e # rs) xs = last_ok rs xs"
| "last_ok (Inr ys # rs) xs = last_ok rs ys"

lemma refresh_task_correct:
  assumes "discover_inv show6 valid st" and "hash_order ord"
    and "ds_cache st = wanted_endpoints show6 valid xs"
  shows "discover_inv show6 valid (refresh_task ord show6 valid results st)
    \<and> ds_cache (refresh_task ord show6 valid results st) = wanted_endpoints show6 valid (last_ok results xs)"
  using assms(1, 3)
proof (induction results arbitrary: st xs)
  case Nil
  then show ?case by (simp add: refresh_task_def)
next
  case (Cons r results)
  let ?st1 = "refresh_round ord show6 valid r st"
  note round = refresh_round_correct [OF Cons.prems(1) assms(2), of r]
  have step: "refresh_task ord show6 valid (r # results) st = refresh_task ord show6 valid results ?st1"
    by (simp add: refresh_task_def)
  show ?case
  proof (cases r)
    case (Inl e)
    with round Cons.IH [OF Cons.prems] step show ?thesis by simp
  next
    case (Inr insts)
    have "ds_cache ?st1 = wanted_endpoints show6 valid insts"
      using round Inr refresh_round_instances [OF assms(2), of show6 valid insts st]
      by (simp add: discover_inv_def wanted_endpoints_def fun_eq_iff)
    with round Cons.IH [of ?st1 insts] step Inr show ?thesis by simp
  qed
qed


text \<open>A backend that reports one instance, which then moves to another address and goes away.\<close>

definition sample_instance :: "u8 \<Rightarrow> service_instance" where
  "sample_instance d = service_instance_new ''chat'' ''chat-1'' \<lparr>sa_ip = V4 10 0 0 d, sa_port = 80\<rparr>"

definition sample_discovery :: discovery_config where
  "sample_discovery =
     \<lparr>dc_backend = Consul, dc_backend_config = Map.empty, dc_namespace = None, dc_version = None,
      dc_tag_filters = [], dc_load_balance = load_balance_default, dc_health_check = None,
      dc_refresh_interval = None\<rparr>"

lemma sample_instance_id [simp]: "si_id (sample_instance d) = ''chat-1''"
  by (simp add: sample_instance_def service_instance_new_def)


lemma from_backend_None_iff:
  assumes "\<And>inst. valid (to_grpc_uri show6 inst)"
  shows "from_backend show6 valid backend cfg = None \<longleftrightarrow>
    16 < length (last_ok [backend (query_of_config cfg)] [])"
proof -
  have "length (ds_sent st) \<le> DISCOVER_BUFFER \<Longrightarrow> initial_loop show6 valid insts st = None
      \<longleftrightarrow> DISCOVER_BUFFER < length (ds_sent st) + length insts" for insts st
  proof (induction insts arbitrary: st)
    case (Cons inst insts)
    obtain ch st1 where c: "create_channel_service show6 valid inst st = (Inr ch, st1)"
      "ds_sent st1 = ds_sent st"
      using assms by (cases "ds_cache st (si_id inst)") (auto simp: create_channel_service_def Let_def)
    show ?case
    proof (cases "length (ds_sent st) < DISCOVER_BUFFER")
      case True
      with c Cons.IH show ?thesis by (simp add: Let_def)
    next
      case False
      with c Cons.prems show ?thesis by simp
    qed
  qed simp
  from this [of discover_new] show ?thesis
    by (cases "backend (query_of_config cfg)")
      (simp_all add: from_backend_def discover_new_def DISCOVER_BUFFER_def)
qed

text \<open>
  The creation of a discoverer returns exactly when the first discovery fails or reports at
  most 16 instances, whatever their names are: with more, the seventeenth change waits for a place in a
  queue that nobody empties before the creation has returned.
\<close>

theorem from_backend_blocks_iff:
  assumes "\<And>inst. valid (to_grpc_uri show6 inst)"
  shows "from_backend show6 valid backend cfg = None \<longleftrightarrow>
    16 < length (last_ok [backend (query_of_config cfg)] [])"
  using assms by (rule from_backend_None_iff)

theorem from_backend_blocks_iff_witness:
  "from_backend (\<lambda>_. []) (\<lambda>_. True) (\<lambda>q. Inr (replicate 17 (sample_instance 1))) sample_discovery = None"
  using from_backend_blocks_iff [of "\<lambda>_. True" "\<lambda>_. []" "\<lambda>q. Inr (replicate 17 (sample_instance 1))"
      sample_discovery]
  by simp

text \<open>
  Two instances of one name in the first discovery: the balancer stays connected to the first one's
  address although the second one counts as known, and a refresh with the same result changes nothing.
\<close>

lemma duplicate_keeps_first_address:
  "\<exists>st. from_backend (\<lambda>_. []) (\<lambda>_. True) (\<lambda>q. Inr [sample_instance 1, sample_instance 2]) sample_discovery = Some st
    \<and> fmlookup (ds_instances st) ''chat-1'' = Some (sample_instance 2)
    \<and> endpoints_after (ds_sent st) ''chat-1'' = Some (ChannelService (to_grpc_uri (\<lambda>_. []) (sample_instance 1)))
    \<and> refresh_round remdups (\<lambda>_. []) (\<lambda>_. True) (Inr [sample_instance 1, sample_instance 2]) st = st"
proof -
  obtain st where st: "from_backend (\<lambda>_. []) (\<lambda>_. True)
        (\<lambda>q. Inr [sample_instance 1, sample_instance 2]) sample_discovery = Some st"
      "ds_instances st = fmupd ''chat-1'' (sample_instance 2) (fmupd ''chat-1'' (sample_instance 1) fmempty)"
      "endpoints_after (ds_sent st) ''chat-1'' = Some (ChannelService (to_grpc_uri (\<lambda>_. []) (sample_instance 1)))"
    by (simp add: from_backend_def create_channel_service_def discover_new_def Let_def
        DISCOVER_BUFFER_def endpoints_after_def)
  moreover have "refresh_round remdups (\<lambda>_. []) (\<lambda>_. True)
        (Inr [sample_instance 1, sample_instance 2]) st = st"
    by (rule refresh_idle) (auto simp: st(2) instance_map_def)
  ultimately show ?thesis by auto
qed

text \<open>The pattern of a filter is ignored: a filter asks for a tag, or for a tag with a value.\<close>

lemma filter_ignores_pattern: "passes_filter (f\<lparr>tf_pattern := p\<rparr>) inst = passes_filter f inst"
  by (simp add: passes_filter_def split: option.split)

lemma filter_by_tags_sound:
  assumes "hash_order ord"
  shows "inst \<in> set (filter_by_tags ord filters st) \<longleftrightarrow>
    (\<exists>k. fmlookup (ds_instances st) k = Some inst) \<and> (\<forall>f \<in> set filters. passes_filter f inst)"
proof -
  have "set (get_instances ord st) = (\<lambda>k. the (fmlookup (ds_instances st) k)) ` fmdom' (ds_instances st)"
    by (simp add: get_instances_def hash_order_set [OF assms] map_keys_set)
  also have "\<dots> = {inst. \<exists>k. fmlookup (ds_instances st) k = Some inst}"
    by (force simp: fmlookup_dom'_iff)
  finally show ?thesis by (simp add: filter_by_tags_def list_all_iff)
qed

end
