(* ===== verification/Consul_Backend.thy ===== *)
theory Consul_Backend
  imports Discovery_Types
begin

text \<open>
  The Consul backend, \<^verbatim>\<open>transport/src/discovery/backend/consul.rs\<close>, and the key-value store over it,
  \<^verbatim>\<open>infra/src/kv/\<close>. The agent is a parameter: a function from a request and its state to an answer (or an
  error of the connection), the time it took in milliseconds, and its next state. So are the readers
  and writers of JSON and base64 texts.
\<close>

section \<open>Requests and answers\<close>

datatype http_method = GET | PUT | DELETE

datatype http_body = NoBody | JsonBody json | TextBody string

record http_req =
  hq_method :: http_method
  hq_url :: string
  hq_query :: "(string \<times> string) list"
  hq_body :: http_body

text \<open>The body of an answer may fail to arrive.\<close>

record http_resp =
  hp_status :: nat
  hp_status_text :: string
  hp_body :: "string + string"

type_synonym 's agent = "http_req \<Rightarrow> 's \<Rightarrow> (string + http_resp) \<times> nat \<times> 's"

definition http_success :: "http_resp \<Rightarrow> bool" where
  "http_success r \<longleftrightarrow> 200 \<le> hp_status r \<and> hp_status r < 300"

record consul_backend =
  cb_url :: string
  cb_namespace :: string

definition consul_new :: "discovery_config \<Rightarrow> consul_backend" where
  "consul_new cfg =
     \<lparr>cb_url = (case Option.bind (dc_backend_config cfg ''url'') as_str of
                  Some u \<Rightarrow> u | None \<Rightarrow> ''http://localhost:8500''),
      cb_namespace = (case Option.bind (dc_namespace cfg) ns_default of
                        Some n \<Rightarrow> n | None \<Rightarrow> ''default'')\<rparr>"

section \<open>Registration\<close>

text \<open>An unspecified address is registered as the loop-back address.\<close>

definition consul_service_address :: "v6_show \<Rightarrow> ip_addr \<Rightarrow> string" where
  "consul_service_address show6 ip =
     (if is_unspecified ip then (if is_ipv4 ip then ''127.0.0.1'' else ''::1'') else show_ip show6 ip)"

definition consul_tags :: "(string list \<Rightarrow> string list) \<Rightarrow> service_instance \<Rightarrow> string list" where
  "consul_tags ord inst =
     map (\<lambda>k. k @ ''='' @ the (fmlookup (si_tags inst) k)) (ord (sorted_list_of_fset (fmdom (si_tags inst))))
     @ (case si_version inst of Some v \<Rightarrow> [''version='' @ v] | None \<Rightarrow> [])
     @ (case si_namespace inst of Some n \<Rightarrow> [''namespace='' @ n] | None \<Rightarrow> [])"

definition consul_ttl_seconds :: "environment \<Rightarrow> u64" where
  "consul_ttl_seconds env =
     (case Option.bind (env ''CONSUL_TTL_SECONDS'') parse_u64 of Some v \<Rightarrow> v | None \<Rightarrow> 45)"

definition check_id :: "string \<Rightarrow> string" where
  "check_id i = ''service:'' @ i"

definition consul_check :: "environment \<Rightarrow> v6_show \<Rightarrow> service_instance \<Rightarrow> json" where
  "consul_check env show6 inst =
     (if env ''CONSUL_USE_HTTP_CHECK'' \<noteq> None
      then JObject
        [(''HTTP'', JString (''http://'' @ consul_service_address show6 (sa_ip (si_address inst)) @ '':''
                              @ show_word (sa_port (si_address inst)) @ ''/health'')),
         (''Interval'', JString ''10s''), (''Timeout'', JString ''5s''),
         (''DeregisterCriticalServiceAfter'', JString ''90s'')]
      else
        (let ttl_seconds = consul_ttl_seconds env; deregister_seconds = ttl_seconds * 2
         in JObject
          [(''CheckID'', JString (check_id (si_id inst))),
           (''TTL'', JString (show_word ttl_seconds @ ''s'')),
           (''DeregisterCriticalServiceAfter'', JString (show_word deregister_seconds @ ''s''))]))"

definition register_payload ::
    "environment \<Rightarrow> (string list \<Rightarrow> string list) \<Rightarrow> v6_show \<Rightarrow> service_instance \<Rightarrow> json" where
  "register_payload env ord show6 inst =
     JObject
       [(''ID'', JString (si_id inst)), (''Name'', JString (si_type inst)),
        (''Tags'', JArray (map JString (consul_tags ord inst))),
        (''Address'', JString (consul_service_address show6 (sa_ip (si_address inst)))),
        (''Port'', JInt (int (unat (sa_port (si_address inst))))),
        (''Check'', consul_check env show6 inst)]"

text \<open>Sending a request and looking at nothing but whether it could be sent.\<close>

definition send_ignoring_status :: "'s agent \<Rightarrow> http_req \<Rightarrow> 's \<Rightarrow> (string + unit) \<times> 's" where
  "send_ignoring_status srv q s =
     (case srv q s of (Inl e, d, s1) \<Rightarrow> (Inl e, s1) | (Inr r, d, s1) \<Rightarrow> (Inr (), s1))"

definition put_req :: "string \<Rightarrow> http_body \<Rightarrow> http_req" where
  "put_req url b = \<lparr>hq_method = PUT, hq_url = url, hq_query = [], hq_body = b\<rparr>"

definition get_req :: "string \<Rightarrow> (string \<times> string) list \<Rightarrow> http_req" where
  "get_req url query = \<lparr>hq_method = GET, hq_url = url, hq_query = query, hq_body = NoBody\<rparr>"

definition consul_register ::
    "environment \<Rightarrow> (string list \<Rightarrow> string list) \<Rightarrow> v6_show \<Rightarrow> 's agent \<Rightarrow> consul_backend
     \<Rightarrow> service_instance \<Rightarrow> 's \<Rightarrow> (string + unit) \<times> 's" where
  "consul_register env ord show6 srv b inst s =
     send_ignoring_status srv
       (put_req (cb_url b @ ''/v1/agent/service/register'') (JsonBody (register_payload env ord show6 inst))) s"

definition consul_unregister ::
    "'s agent \<Rightarrow> consul_backend \<Rightarrow> string \<Rightarrow> 's \<Rightarrow> (string + unit) \<times> 's" where
  "consul_unregister srv b i s =
     send_ignoring_status srv (put_req (cb_url b @ ''/v1/agent/service/deregister/'' @ i) NoBody) s"

definition update_ttl_check ::
    "'s agent \<Rightarrow> consul_backend \<Rightarrow> string \<Rightarrow> string \<Rightarrow> 's \<Rightarrow> (string + unit) \<times> 's" where
  "update_ttl_check srv b cid status s =
     send_ignoring_status srv (put_req (cb_url b @ ''/v1/agent/check/'' @ status @ ''/'' @ cid) NoBody) s"

text \<open>The heartbeat waits for five seconds at most and looks at the status.\<close>

definition consul_heartbeat ::
    "'s agent \<Rightarrow> consul_backend \<Rightarrow> service_instance \<Rightarrow> 's \<Rightarrow> (string + unit) \<times> 's" where
  "consul_heartbeat srv b inst s =
     (case srv (put_req (cb_url b @ ''/v1/agent/check/pass/'' @ check_id (si_id inst)) NoBody) s of
        (r, d, s1) \<Rightarrow>
          (if 5000 < d then Inl ''Consul TTL update timeout (5s)''
           else case r of
             Inl e \<Rightarrow> Inl (''Consul TTL update request failed: '' @ e)
           | Inr resp \<Rightarrow>
               if http_success resp then Inr ()
               else Inl (''Consul TTL update failed with status: '' @ hp_status_text resp), s1))"

text \<open>
  The task of \<^verbatim>\<open>watch\<close> sends these requests, one after the other, given of each answer whether it came and
  its header \<^verbatim>\<open>X-Consul-Index\<close>. Nothing is ever handed over: the answers are dropped, and the sender
  of the channel is gone when \<^verbatim>\<open>watch\<close> returns.
\<close>

definition next_watch_index :: "string option option \<Rightarrow> u64 \<Rightarrow> u64" where
  "next_watch_index answer index =
     (case Option.bind (Option.bind answer id) parse_u64 of Some n \<Rightarrow> n | None \<Rightarrow> index)"

fun consul_watch :: "consul_backend \<Rightarrow> string \<Rightarrow> u64 \<Rightarrow> string option option list \<Rightarrow> http_req list" where
  "consul_watch b service_type index answers =
     get_req (cb_url b @ ''/v1/health/service/'' @ service_type)
       [(''passing'', ''true''), (''index'', show_word index), (''wait'', ''10s'')]
     # (case answers of
          [] \<Rightarrow> []
        | answer # rest \<Rightarrow> consul_watch b service_type (next_watch_index answer index) rest)"

declare consul_watch.simps [simp del]

section \<open>Discovery\<close>

text \<open>The first characters of a text: a byte \<open>10xxxxxx\<close> belongs to the character before it.\<close>

definition is_continuation :: "char \<Rightarrow> bool" where
  "is_continuation c = (let n = of_char c :: nat in 128 \<le> n \<and> n < 192)"

fun take_chars :: "nat \<Rightarrow> string \<Rightarrow> string" where
  "take_chars n [] = []"
| "take_chars n (c # cs) =
     (if is_continuation c then c # take_chars n cs
      else (case n of 0 \<Rightarrow> [] | Suc m \<Rightarrow> c # take_chars m cs))"

fun contains_text :: "string \<Rightarrow> string \<Rightarrow> bool" where
  "contains_text p [] = (p = [])"
| "contains_text p (c # cs) = (starts_with p (c # cs) \<or> contains_text p cs)"

definition response_is_rate_limited :: "nat \<Rightarrow> string \<Rightarrow> bool" where
  "response_is_rate_limited status body \<longleftrightarrow>
     status = 429 \<or> contains_text ''too many concurrent connections'' body \<or> contains_text ''rate limit'' body"

fun split_once :: "char \<Rightarrow> string \<Rightarrow> (string \<times> string) option" where
  "split_once sep [] = None"
| "split_once sep (c # cs) =
     (if c = sep then Some ([], cs) else map_option (\<lambda>(a, b). (c # a, b)) (split_once sep cs))"

definition add_consul_tag :: "json \<Rightarrow> service_instance \<Rightarrow> service_instance" where
  "add_consul_tag tag inst =
     (case as_str tag of
        None \<Rightarrow> inst
      | Some t \<Rightarrow>
          (case split_once CHR ''='' t of
             Some (k, v) \<Rightarrow> inst_with_tag k v inst
           | None \<Rightarrow> inst_with_tag t ''true'' inst))"

definition ok_or :: "'e \<Rightarrow> 'a option \<Rightarrow> 'e + 'a" where
  "ok_or e v = (case v of Some x \<Rightarrow> Inr x | None \<Rightarrow> Inl e)"

lemma ok_or_simps [simp]: "ok_or e (Some x) = Inr x" "ok_or e None = Inl e"
  by (simp_all add: ok_or_def)

definition consul_instance :: "v6_read \<Rightarrow> string \<Rightarrow> json \<Rightarrow> string + service_instance" where
  "consul_instance read6 service_type svc =
     bind_res (ok_or ''Invalid service format'' (json_get ''Service'' svc)) (\<lambda>service.
     bind_res (ok_or ''Missing address'' (Option.bind (json_get ''Address'' service) as_str)) (\<lambda>address.
     bind_res (ok_or ''Missing port'' (Option.bind (json_get ''Port'' service) as_u64)) (\<lambda>port.
     bind_res (ok_or ''Invalid address: invalid socket address syntax''
                 (read_socket read6 (address @ '':'' @ show_nat port))) (\<lambda>socket_addr.
       let instance_id = (case Option.bind (json_get ''ID'' service) as_str of
                            Some i \<Rightarrow> i | None \<Rightarrow> service_type @ ''-'' @ address);
           inst = service_instance_new service_type instance_id socket_addr
       in Inr (case Option.bind (json_get ''Tags'' service) as_array of
                 Some tags \<Rightarrow> fold add_consul_tag tags inst
               | None \<Rightarrow> inst)))))"

fun consul_instances ::
    "v6_read \<Rightarrow> string \<Rightarrow> string option \<Rightarrow> string option \<Rightarrow> tag_map option \<Rightarrow> json list
     \<Rightarrow> service_instance list \<Rightarrow> string + service_instance list" where
  "consul_instances read6 service_type ns ver tags [] acc = Inr acc"
| "consul_instances read6 service_type ns ver tags (svc # svcs) acc =
     bind_res (consul_instance read6 service_type svc) (\<lambda>inst.
       consul_instances read6 service_type ns ver tags svcs
         (if matches_query ns ver tags inst then acc @ [inst] else acc))"

definition discover_uncached ::
    "environment \<Rightarrow> v6_read \<Rightarrow> (string \<Rightarrow> string + json list) \<Rightarrow> 's agent \<Rightarrow> consul_backend \<Rightarrow> string
     \<Rightarrow> string option \<Rightarrow> string option \<Rightarrow> tag_map option \<Rightarrow> 's
     \<Rightarrow> (string + service_instance list) \<times> nat \<times> 's" where
  "discover_uncached env read6 parse srv b service_type ns ver tags s =
     (let passing_only = (env ''CONSUL_PASSING_ONLY'' = Some ''true'')
      in case srv (get_req (cb_url b @ ''/v1/health/service/'' @ service_type)
                     (if passing_only then [(''passing'', ''true'')] else [])) s of
           (Inl e, d, s1) \<Rightarrow> (Inl e, d, s1)
         | (Inr resp, d, s1) \<Rightarrow>
             (case hp_body resp of
                Inl e \<Rightarrow> (Inl (''Failed to read response body: '' @ e), d, s1)
              | Inr resp_text \<Rightarrow>
                  if response_is_rate_limited (hp_status resp) resp_text
                  then (Inl (''Consul rate limited (status='' @ hp_status_text resp @ ''): ''
                             @ take_chars 120 resp_text), d, s1)
                  else (case parse resp_text of
                          Inl e \<Rightarrow> (Inl (''error decoding response body: '' @ e @ '' (response preview: ''
                                         @ take_chars 200 resp_text @ '')''), d, s1)
                        | Inr services \<Rightarrow>
                            (consul_instances read6 service_type ns ver tags services [], d, s1))))"

section \<open>The cache of discoveries\<close>

text \<open>One map for the whole process, shared by all backends. Times are in milliseconds.\<close>

record discover_cache_entry =
  ce_instances :: "service_instance list"
  ce_fetched_at :: nat

type_synonym discover_cache = "string \<Rightarrow> discover_cache_entry option"

definition discover_cache_ttl :: "environment \<Rightarrow> nat" where
  "discover_cache_ttl env =
     1000 * unat (case Option.bind (env ''CONSUL_DISCOVER_CACHE_TTL_SECS'') parse_u64 of
                    Some v \<Rightarrow> if 0 < v then v else 15
                  | None \<Rightarrow> 15)"

definition discover_cache_key ::
    "string \<Rightarrow> string option \<Rightarrow> string option \<Rightarrow> tag_map option \<Rightarrow> string" where
  "discover_cache_key service_type ns ver tags =
     service_type @ ''|ns='' @ (case ns of Some n \<Rightarrow> n | None \<Rightarrow> [])
       @ ''|ver='' @ (case ver of Some v \<Rightarrow> v | None \<Rightarrow> [])
       @ (case tags of
            None \<Rightarrow> []
          | Some t \<Rightarrow> concat (map (\<lambda>(k, v). ''|'' @ k @ ''='' @ v) (sorted_list_of_fmap t)))"

definition consul_discover ::
    "environment \<Rightarrow> v6_read \<Rightarrow> (string \<Rightarrow> string + json list) \<Rightarrow> 's agent \<Rightarrow> consul_backend \<Rightarrow> nat \<Rightarrow> string
     \<Rightarrow> string option \<Rightarrow> string option \<Rightarrow> tag_map option \<Rightarrow> discover_cache \<times> 's
     \<Rightarrow> (string + service_instance list) \<times> discover_cache \<times> 's" where
  "consul_discover env read6 parse srv b now service_type ns ver tags cs =
     (let (cache, s) = cs;
          cache_key = discover_cache_key service_type ns ver tags;
          miss = (case discover_uncached env read6 parse srv b service_type ns ver tags s of
                    (Inr insts, d, s1) \<Rightarrow>
                      (Inr insts, cache(cache_key \<mapsto> \<lparr>ce_instances = insts, ce_fetched_at = now + d\<rparr>), s1)
                  | (Inl err, d, s1) \<Rightarrow>
                      (case cache cache_key of
                         Some entry \<Rightarrow> (Inr (ce_instances entry), cache, s1)
                       | None \<Rightarrow> (Inl err, cache, s1)))
      in case cache cache_key of
           Some entry \<Rightarrow>
             if now - ce_fetched_at entry < discover_cache_ttl env
             then (Inr (ce_instances entry), cache, s) else miss
         | None \<Rightarrow> miss)"

section \<open>The key-value store\<close>

text \<open>Values are lists of bytes.\<close>

record kv_entry =
  kv_key :: string
  kv_value :: string
  kv_version :: nat
  kv_create_revision :: nat
  kv_mod_revision :: nat
  kv_lease :: int

datatype kv_error =
  KvOperationFailed string | KvKeyNotFound string | KvInvalidArgument string | KvInternalError string

definition show_kv_error :: "kv_error \<Rightarrow> string" where
  "show_kv_error e = (case e of
     KvOperationFailed m \<Rightarrow> ''KV operation failed: '' @ m
   | KvKeyNotFound m \<Rightarrow> ''Key not found: '' @ m
   | KvInvalidArgument m \<Rightarrow> ''Invalid argument: '' @ m
   | KvInternalError m \<Rightarrow> ''Internal error: '' @ m)"

definition kv_url :: "consul_backend \<Rightarrow> string \<Rightarrow> string" where
  "kv_url b key = cb_url b @ ''/v1/kv/'' @ dropWhile (\<lambda>c. c = CHR ''/'') key"

definition or_default :: "'a \<Rightarrow> 'a option \<Rightarrow> 'a" where
  "or_default d v = (case v of Some x \<Rightarrow> x | None \<Rightarrow> d)"

definition kv_entry_of :: "json \<Rightarrow> string \<Rightarrow> kv_entry" where
  "kv_entry_of first value_bytes =
     \<lparr>kv_key = or_default [] (Option.bind (json_get ''Key'' first) as_str),
      kv_value = value_bytes,
      kv_version = or_default 0 (Option.bind (json_get ''Version'' first) as_u64),
      kv_create_revision = or_default 0 (Option.bind (json_get ''CreateIndex'' first) as_u64),
      kv_mod_revision = or_default 0 (Option.bind (json_get ''ModifyIndex'' first) as_u64),
      kv_lease = or_default 0 (Option.bind (json_get ''Lease'' first) as_i64)\<rparr>"

text \<open>A request whose answer counts only with a status of success.\<close>

definition kv_request ::
    "'s agent \<Rightarrow> string \<Rightarrow> http_req \<Rightarrow> 's \<Rightarrow> (kv_error + http_resp) \<times> 's" where
  "kv_request srv what q s =
     (case srv q s of
        (Inl e, d, s1) \<Rightarrow> (Inl (KvOperationFailed (what @ '': '' @ e)), s1)
      | (Inr resp, d, s1) \<Rightarrow>
          (if http_success resp then Inr resp
           else Inl (KvOperationFailed (what @ '', status: '' @ hp_status_text resp)), s1))"

definition parse_error :: "string \<Rightarrow> kv_error" where
  "parse_error e = KvOperationFailed (''Failed to parse consul response: '' @ e)"

definition kv_parse_body :: "(string \<Rightarrow> string + 'a) \<Rightarrow> http_resp \<Rightarrow> kv_error + 'a" where
  "kv_parse_body parse resp =
     (case bind_res (hp_body resp) parse of Inl e \<Rightarrow> Inl (parse_error e) | Inr x \<Rightarrow> Inr x)"

definition kv_read_entry ::
    "(string \<Rightarrow> string + string) \<Rightarrow> string \<Rightarrow> json list \<Rightarrow> kv_error + kv_entry option" where
  "kv_read_entry dec key body =
     (case body of
        [] \<Rightarrow> Inr None
      | first # _ \<Rightarrow>
          (case Option.bind (json_get ''Value'' first) as_str of
             None \<Rightarrow> Inl (KvKeyNotFound key)
           | Some value_base64 \<Rightarrow>
               (case dec value_base64 of
                  Inl e \<Rightarrow> Inl (KvOperationFailed (''Failed to decode base64 value from consul: '' @ e))
                | Inr value_bytes \<Rightarrow> Inr (Some (kv_entry_of first value_bytes)))))"

definition consul_kv_get ::
    "(string \<Rightarrow> string + json list) \<Rightarrow> (string \<Rightarrow> string + string) \<Rightarrow> 's agent \<Rightarrow> consul_backend
     \<Rightarrow> string \<Rightarrow> 's \<Rightarrow> (kv_error + kv_entry option) \<times> 's" where
  "consul_kv_get parse dec srv b key s =
     (case kv_request srv ''Failed to get key from consul'' (get_req (kv_url b key) []) s of
        (r, s1) \<Rightarrow> (bind_res r (\<lambda>resp. bind_res (kv_parse_body parse resp) (kv_read_entry dec key)), s1))"

definition consul_kv_put ::
    "(string \<Rightarrow> string) \<Rightarrow> 's agent \<Rightarrow> consul_backend \<Rightarrow> string \<Rightarrow> string \<Rightarrow> 's
     \<Rightarrow> (kv_error + unit) \<times> 's" where
  "consul_kv_put enc srv b key value s =
     (case kv_request srv ''Failed to put key to consul'' (put_req (kv_url b key) (TextBody (enc value))) s of
        (r, s1) \<Rightarrow> (bind_res r (\<lambda>_. Inr ()), s1))"

definition consul_kv_delete ::
    "'s agent \<Rightarrow> consul_backend \<Rightarrow> string \<Rightarrow> 's \<Rightarrow> (kv_error + bool) \<times> 's" where
  "consul_kv_delete srv b key s =
     (case kv_request srv ''Failed to delete key from consul''
             \<lparr>hq_method = DELETE, hq_url = kv_url b key, hq_query = [], hq_body = NoBody\<rparr> s of
        (r, s1) \<Rightarrow> (bind_res r (\<lambda>_. Inr True), s1))"

definition consul_prefix_keys ::
    "(string \<Rightarrow> string + string list) \<Rightarrow> 's agent \<Rightarrow> consul_backend \<Rightarrow> string \<Rightarrow> 's
     \<Rightarrow> (kv_error + string list) \<times> 's" where
  "consul_prefix_keys parse_keys srv b pre s =
     (case kv_request srv ''Failed to get prefix keys from consul'' (get_req (kv_url b pre @ ''?keys'') []) s of
        (r, s1) \<Rightarrow> (bind_res r (kv_parse_body parse_keys), s1))"

fun get_each ::
    "(string \<Rightarrow> 's \<Rightarrow> (kv_error + kv_entry option) \<times> 's) \<Rightarrow> string list \<Rightarrow> kv_entry list \<Rightarrow> 's
     \<Rightarrow> (kv_error + kv_entry list) \<times> 's" where
  "get_each get [] entries s = (Inr entries, s)"
| "get_each get (k # ks) entries s =
     (case get k s of
        (Inl e, s1) \<Rightarrow> (Inl e, s1)
      | (Inr (Some entry), s1) \<Rightarrow> get_each get ks (entries @ [entry]) s1
      | (Inr None, s1) \<Rightarrow> get_each get ks entries s1)"

definition consul_kv_get_range ::
    "(string \<Rightarrow> string + json list) \<Rightarrow> (string \<Rightarrow> string + string list) \<Rightarrow> (string \<Rightarrow> string + string)
     \<Rightarrow> 's agent \<Rightarrow> consul_backend \<Rightarrow> string \<Rightarrow> string \<Rightarrow> 's \<Rightarrow> (kv_error + kv_entry list) \<times> 's" where
  "consul_kv_get_range parse parse_keys dec srv b key range_end s =
     (case consul_prefix_keys parse_keys srv b key s of
        (Inl e, s1) \<Rightarrow> (Inl e, s1)
      | (Inr keys, s1) \<Rightarrow> get_each (consul_kv_get parse dec srv b) keys [] s1)"

fun delete_each ::
    "(string \<Rightarrow> 's \<Rightarrow> (kv_error + bool) \<times> 's) \<Rightarrow> string list \<Rightarrow> u64 \<Rightarrow> 's \<Rightarrow> (kv_error + u64) \<times> 's" where
  "delete_each del [] n s = (Inr n, s)"
| "delete_each del (k # ks) n s =
     (case del k s of
        (Inl e, s1) \<Rightarrow> (Inl e, s1)
      | (Inr b, s1) \<Rightarrow> delete_each del ks (if b then n + 1 else n) s1)"

definition consul_kv_delete_range ::
    "(string \<Rightarrow> string + string list) \<Rightarrow> 's agent \<Rightarrow> consul_backend \<Rightarrow> string \<Rightarrow> string \<Rightarrow> 's
     \<Rightarrow> (kv_error + u64) \<times> 's" where
  "consul_kv_delete_range parse_keys srv b key range_end s =
     (case consul_prefix_keys parse_keys srv b key s of
        (Inl e, s1) \<Rightarrow> (Inl e, s1)
      | (Inr keys, s1) \<Rightarrow> delete_each (consul_kv_delete srv b) keys 0 s1)"

text \<open>The store over any backend: it hands everything through, and reads and writes texts.\<close>

record 's kv_backend =
  kb_get :: "string \<Rightarrow> 's \<Rightarrow> (kv_error + kv_entry option) \<times> 's"
  kb_put :: "string \<Rightarrow> string \<Rightarrow> 's \<Rightarrow> (kv_error + unit) \<times> 's"
  kb_delete :: "string \<Rightarrow> 's \<Rightarrow> (kv_error + bool) \<times> 's"

definition kv_get_string ::
    "(string \<Rightarrow> string option) \<Rightarrow> 's kv_backend \<Rightarrow> string \<Rightarrow> 's \<Rightarrow> (kv_error + string option) \<times> 's" where
  "kv_get_string utf8_error kb key s =
     (case kb_get kb key s of
        (Inl e, s1) \<Rightarrow> (Inl e, s1)
      | (Inr None, s1) \<Rightarrow> (Inr None, s1)
      | (Inr (Some entry), s1) \<Rightarrow>
          (case utf8_error (kv_value entry) of
             None \<Rightarrow> Inr (Some (kv_value entry))
           | Some e \<Rightarrow> Inl (KvOperationFailed (''Failed to convert value to string: '' @ e)), s1))"

definition kv_put_string ::
    "'s kv_backend \<Rightarrow> string \<Rightarrow> string \<Rightarrow> 's \<Rightarrow> (kv_error + unit) \<times> 's" where
  "kv_put_string kb key value s = kb_put kb key value s"

definition consul_kv ::
    "(string \<Rightarrow> string + json list) \<Rightarrow> (string \<Rightarrow> string) \<Rightarrow> (string \<Rightarrow> string + string) \<Rightarrow> 's agent
     \<Rightarrow> consul_backend \<Rightarrow> 's kv_backend" where
  "consul_kv parse enc dec srv b =
     \<lparr>kb_get = consul_kv_get parse dec srv b, kb_put = consul_kv_put enc srv b,
      kb_delete = consul_kv_delete srv b\<rparr>"

section \<open>Instances read from Consul\<close>

lemma add_consul_tag_fields [simp]:
  "si_version (add_consul_tag t inst) = si_version inst"
  "si_namespace (add_consul_tag t inst) = si_namespace inst"
  by (simp_all add: add_consul_tag_def inst_with_tag_def split: option.split)

lemma fold_consul_tags_fields [simp]:
  "si_version (fold add_consul_tag ts inst) = si_version inst"
  "si_namespace (fold add_consul_tag ts inst) = si_namespace inst"
  by (induction ts arbitrary: inst) simp_all

text \<open>An instance read from the agent has neither a version nor a namespace.\<close>

lemma consul_instance_fields:
  "consul_instance read6 t svc = Inr inst \<Longrightarrow> si_version inst = None \<and> si_namespace inst = None"
  by (auto simp: consul_instance_def bind_res_Inr_iff Let_def service_instance_new_def
      split: option.splits)

lemma consul_instances_filtered:
  "consul_instances read6 t ns ver tags svcs acc = Inr insts \<Longrightarrow> ns \<noteq> None \<or> ver \<noteq> None \<Longrightarrow> insts = acc"
proof (induction svcs arbitrary: acc)
  case (Cons svc svcs)
  then obtain inst where inst: "consul_instance read6 t svc = Inr inst"
    by (auto simp: bind_res_Inr_iff)
  have "\<not> matches_query ns ver tags inst"
    using consul_instance_fields [OF inst] Cons.prems(2) by (auto simp: matches_query_iff)
  with Cons inst show ?case by simp
qed simp

lemma discover_uncached_instances:
  assumes "fst (discover_uncached env read6 parse srv b service_type ns ver tags s) = Inr insts"
  shows "\<exists>svcs. consul_instances read6 service_type ns ver tags svcs [] = Inr insts"
proof -
  obtain r d s1 where "srv (get_req (cb_url b @ ''/v1/health/service/'' @ service_type)
      (if env ''CONSUL_PASSING_ONLY'' = Some ''true'' then [(''passing'', ''true'')] else [])) s
      = (r, d, s1)" by (metis prod_cases3)
  with assms show ?thesis
    unfolding discover_uncached_def Let_def by (auto simp only: prod.case split: sum.splits) (auto split: if_splits)
qed

text \<open>
  A discovery that asks for a namespace or a version finds nothing, whatever is registered
  and whatever the agent answers: it fails or returns no instance.
\<close>

theorem consul_filters_find_nothing:
  "case fst (discover_uncached env read6 parse srv b service_type ns ver tags s) of
     Inl err \<Rightarrow> True
   | Inr insts \<Rightarrow> insts = [] \<or> (ns = None \<and> ver = None)"
proof (cases "fst (discover_uncached env read6 parse srv b service_type ns ver tags s)")
  case (Inr insts)
  obtain svcs where "consul_instances read6 service_type ns ver tags svcs [] = Inr insts"
    using discover_uncached_instances [OF Inr] by (elim exE)
  with consul_instances_filtered have "insts = [] \<or> (ns = None \<and> ver = None)" by blast
  with Inr show ?thesis by simp
qed simp

text \<open>How the agent lists a registered service: the fields of its registration.\<close>

definition service_entry :: "json \<Rightarrow> json" where
  "service_entry p =
     JObject [(''Service'', JObject (map (\<lambda>k. (k, or_default JNull (json_get k p)))
                             [''ID'', ''Address'', ''Port'', ''Tags'']))]"

definition reachable :: "ip_addr \<Rightarrow> ip_addr" where
  "reachable ip = (if is_unspecified ip then V4 127 0 0 1 else ip)"

definition set_opt :: "string \<Rightarrow> string option \<Rightarrow> tag_map \<Rightarrow> tag_map" where
  "set_opt k v m = (case v of Some x \<Rightarrow> fmupd k x m | None \<Rightarrow> m)"

lemma split_once_append: "sep \<notin> set k \<Longrightarrow> split_once sep (k @ sep # v) = Some (k, v)"
  by (induction k) auto

lemma add_key_value:
  "CHR ''='' \<notin> set k \<Longrightarrow> add_consul_tag (JString (k @ CHR ''='' # v)) inst = inst_with_tag k v inst"
  by (simp add: add_consul_tag_def split_once_append)

lemma fold_key_values:
  "\<forall>k \<in> set ks. CHR ''='' \<notin> set k \<Longrightarrow>
   fold add_consul_tag (map (\<lambda>k. JString (k @ ''='' @ f k)) ks) inst
     = inst\<lparr>si_tags := fold (\<lambda>k. fmupd k (f k)) ks (si_tags inst)\<rparr>"
  by (induction ks arbitrary: inst) (simp_all add: add_key_value inst_with_tag_def)

lemma fold_fmupd_lookup:
  "fmlookup (fold (\<lambda>k. fmupd k (f k)) ks m) j = (if j \<in> set ks then Some (f j) else fmlookup m j)"
  by (induction ks arbitrary: m) auto

lemma fold_fmupd_all:
  assumes "set ks = fmdom' m"
  shows "fold (\<lambda>k. fmupd k (the (fmlookup m k))) ks fmempty = m"
  by (rule fmap_ext) (auto simp: fold_fmupd_lookup assms fmlookup_dom'_iff)

lemma read_consul_tags:
  assumes "hash_order ord" and "\<forall>k \<in> fmdom' (si_tags inst). CHR ''='' \<notin> set k"
  shows "fold add_consul_tag (map JString (consul_tags ord inst)) (service_instance_new t i a)
    = (service_instance_new t i a)\<lparr>si_tags := set_opt ''namespace'' (si_namespace inst)
        (set_opt ''version'' (si_version inst) (si_tags inst))\<rparr>"
proof -
  let ?ks = "ord (sorted_list_of_fset (fmdom (si_tags inst)))"
  let ?new = "service_instance_new t i a"
  have ks: "set ?ks = fmdom' (si_tags inst)"
    by (simp add: hash_order_set [OF assms(1)] fmdom'_alt_def)
  have tags: "fold add_consul_tag
      (map JString (map (\<lambda>k. k @ ''='' @ the (fmlookup (si_tags inst) k)) ?ks)) ?new
    = ?new\<lparr>si_tags := si_tags inst\<rparr>"
    using fold_key_values [of ?ks "\<lambda>k. the (fmlookup (si_tags inst) k)" ?new] assms(2) ks
      fold_fmupd_all [OF ks]
    by (simp add: o_def service_instance_new_def)
  have ver: "fold add_consul_tag (map JString (case v of Some v \<Rightarrow> [''version='' @ v] | None \<Rightarrow> [])) inst'
      = inst'\<lparr>si_tags := set_opt ''version'' v (si_tags inst')\<rparr>" for v inst'
    using add_key_value [of "''version''"]
    by (cases v) (simp_all add: set_opt_def inst_with_tag_def)
  have ns: "fold add_consul_tag (map JString (case n of Some n \<Rightarrow> [''namespace='' @ n] | None \<Rightarrow> [])) inst'
      = inst'\<lparr>si_tags := set_opt ''namespace'' n (si_tags inst')\<rparr>" for n inst'
    using add_key_value [of "''namespace''"]
    by (cases n) (simp_all add: set_opt_def inst_with_tag_def)
  show ?thesis
    unfolding consul_tags_def map_append fold_append o_def tags ver ns by simp
qed

lemma loopback_text: "''127.0.0.1'' = show_ip show6 (V4 127 0 0 1)"
  by (simp add: show_ip_def show_word_def show_nat.simps digit_char_def char_of_def bit_simps)

lemma consul_instance_registered:
  assumes "hash_order ord" and "is_ipv4 (sa_ip (si_address inst))"
    and "\<forall>k \<in> fmdom' (si_tags inst). CHR ''='' \<notin> set k"
  shows "consul_instance read6 (si_type inst) (service_entry (register_payload env ord show6 inst))
    = Inr ((service_instance_new (si_type inst) (si_id inst)
              \<lparr>sa_ip = reachable (sa_ip (si_address inst)), sa_port = sa_port (si_address inst)\<rparr>)
             \<lparr>si_tags := set_opt ''namespace'' (si_namespace inst)
                (set_opt ''version'' (si_version inst) (si_tags inst))\<rparr>)"
proof -
  let ?ip = "sa_ip (si_address inst)" and ?port = "sa_port (si_address inst)"
  have v4: "is_ipv4 (reachable ?ip)" using assms(2) by (simp add: reachable_def is_ipv4_def)
  have "consul_service_address show6 ?ip = show_ip show6 (reachable ?ip)"
    using assms(2) loopback_text [of show6] by (simp add: consul_service_address_def reachable_def)
  then have addr: "read_socket read6 (consul_service_address show6 ?ip @ CHR '':'' # show_nat (unat ?port))
      = Some \<lparr>sa_ip = reachable ?ip, sa_port = ?port\<rparr>"
    using read_socket_show [of "\<lparr>sa_ip = reachable ?ip, sa_port = ?port\<rparr>" read6 show6] v4
    by (simp add: show_socket_def show_word_def)
  have "unat ?port < 65536" using unsigned_less [of ?port] by simp
  then have port: "as_u64 (JInt (int (unat ?port))) = Some (unat ?port)" by (intro as_u64_of_nat) simp
  show ?thesis
    by (simp add: consul_instance_def service_entry_def register_payload_def or_default_def port addr
        Let_def read_consul_tags [OF assms(1, 3)] del: of_nat_unat)
qed

text \<open>
  What is registered with Consul is read back, but not all of it: an instance with a version 4
  address comes back with its name, its port, its address (the loop-back address for the unspecified
  one) and its tags, to which its version and its namespace are added as tags; version, namespace,
  metadata, weight and health of the instance read are those of a new one.
\<close>

theorem consul_register_roundtrip:
  assumes "hash_order ord" and "is_ipv4 (sa_ip (si_address inst))"
    and "\<forall>k \<in> fmdom' (si_tags inst). CHR ''='' \<notin> set k"
  shows "consul_instance read6 (si_type inst) (service_entry (register_payload env ord show6 inst))
    = Inr ((service_instance_new (si_type inst) (si_id inst)
              \<lparr>sa_ip = reachable (sa_ip (si_address inst)), sa_port = sa_port (si_address inst)\<rparr>)
             \<lparr>si_tags := set_opt ''namespace'' (si_namespace inst)
                (set_opt ''version'' (si_version inst) (si_tags inst))\<rparr>)"
  using assms by (rule consul_instance_registered)

definition tagged_instance :: service_instance where
  "tagged_instance =
     inst_with_version ''v2'' (inst_with_weight 10 (inst_with_tag ''zone'' ''a''
       (service_instance_new ''chat'' ''chat-1'' \<lparr>sa_ip = V4 10 0 0 7, sa_port = 80\<rparr>)))"

lemma tagged_instance_sel:
  "si_type tagged_instance = ''chat''" "si_version tagged_instance = Some ''v2''"
  "si_namespace tagged_instance = None" "si_tags tagged_instance = fmupd ''zone'' ''a'' fmempty"
  "si_address tagged_instance = \<lparr>sa_ip = V4 10 0 0 7, sa_port = 80\<rparr>"
  by (simp_all add: tagged_instance_def inst_with_version_def inst_with_weight_def inst_with_tag_def
      service_instance_new_def)

theorem consul_register_roundtrip_witness:
  "\<exists>inst. consul_instance (\<lambda>_. None) ''chat''
      (service_entry (register_payload (\<lambda>_. None) remdups (\<lambda>_. []) tagged_instance)) = Inr inst
    \<and> si_address inst = si_address tagged_instance \<and> fmlookup (si_tags inst) ''zone'' = Some ''a''
    \<and> fmlookup (si_tags inst) ''version'' = Some ''v2'' \<and> si_version inst = None \<and> si_weight inst = 100"
  using consul_register_roundtrip [of remdups tagged_instance "\<lambda>_. None" "\<lambda>_. None" "\<lambda>_. []"]
  by (simp add: tagged_instance_sel is_ipv4_def reachable_def is_unspecified_def set_opt_def
      service_instance_new_def)

section \<open>What the cache does\<close>

lemma discover_cached_result:
  assumes "consul_discover env read6 parse srv b now t ns ver tags (cache, s) = (Inr insts, cache1, s1)"
    and "\<And>k entry. cache k = Some entry \<Longrightarrow> P k (ce_instances entry)"
    and "\<And>xs d s'. discover_uncached env read6 parse srv b t ns ver tags s = (Inr xs, d, s') \<Longrightarrow>
      P (discover_cache_key t ns ver tags) xs"
  shows "P (discover_cache_key t ns ver tags) insts
    \<and> (\<forall>k entry. cache1 k = Some entry \<longrightarrow> P k (ce_instances entry))
    \<and> cache1 (discover_cache_key t ns ver tags) \<noteq> None"
  using assms
  by (auto simp: consul_discover_def Let_def split: option.splits if_splits prod.splits sum.splits)

text \<open>
  The cache belongs to the process and its keys do not name the agent: for the lifetime of an
  entry every backend gets the instances that another backend, with another address, has fetched from
  its own agent, without asking; and when its agent fails it gets them at any later time.
\<close>

theorem consul_cache_crosses_agents:
  assumes "consul_discover env read6 parse srv1 b1 now1 t ns ver tags (Map.empty, s1) = (Inr insts, cache, s1')"
    and "discover_uncached env read6 parse srv2 b2 t ns ver tags s2 = (Inl err, d2, s2')"
  shows "\<exists>cache' s2''. consul_discover env read6 parse srv2 b2 now2 t ns ver tags (cache, s2)
    = (Inr insts, cache', s2'')"
proof -
  obtain entry where "cache (discover_cache_key t ns ver tags) = Some entry" "ce_instances entry = insts"
    using assms(1) by (auto simp: consul_discover_def Let_def split: prod.splits sum.splits)
  with assms(2) show ?thesis by (auto simp: consul_discover_def Let_def)
qed

text \<open>An agent that lists the given services, in the text of a document that a reader knows, or fails.\<close>

definition listing_agent :: "string \<Rightarrow> unit agent" where
  "listing_agent body q s =
     (if body = [] then Inl ''connection refused''
      else Inr \<lparr>hp_status = 200, hp_status_text = ''200 OK'', hp_body = Inr body\<rparr>, 1, ())"

definition chat_service :: json where
  "chat_service = service_entry (register_payload (\<lambda>_. None) remdups (\<lambda>_. []) tagged_instance)"

definition read_listing :: "string \<Rightarrow> string + json list" where
  "read_listing body = (if body = ''east'' then Inr [chat_service] else Inl ''expected value'')"

definition chat_query_result :: "(string + service_instance list) \<times> discover_cache \<times> unit" where
  "chat_query_result =
     consul_discover (\<lambda>_. None) (\<lambda>_. None) read_listing (listing_agent ''east'')
       \<lparr>cb_url = ''http://east:8500'', cb_namespace = ''default''\<rparr> 0 ''chat'' None None None (Map.empty, ())"

lemma chat_query_result:
  "\<exists>inst cache. chat_query_result = (Inr [inst], cache, ())"
proof -
  have "\<exists>inst. consul_instance (\<lambda>_. None) ''chat'' chat_service = Inr inst"
    using consul_instance_registered [of remdups tagged_instance "\<lambda>_. None" "\<lambda>_. None" "\<lambda>_. []"]
    by (simp add: chat_service_def tagged_instance_sel is_ipv4_def)
  then obtain inst where "consul_instance (\<lambda>_. None) ''chat'' chat_service = Inr inst" by blast
  then show ?thesis
    by (simp add: chat_query_result_def consul_discover_def Let_def discover_uncached_def listing_agent_def
        read_listing_def response_is_rate_limited_def matches_query_iff)
qed

theorem consul_cache_crosses_agents_witness:
  "\<exists>insts cache cache' s'. chat_query_result = (Inr insts, cache, ()) \<and> insts \<noteq> []
    \<and> consul_discover (\<lambda>_. None) (\<lambda>_. None) read_listing (listing_agent [])
        \<lparr>cb_url = ''http://west:8500'', cb_namespace = ''default''\<rparr> 3600000 ''chat'' None None None (cache, ())
      = (Inr insts, cache', s')"
proof -
  obtain inst cache where east: "chat_query_result = (Inr [inst], cache, ())"
    using chat_query_result by blast
  have west: "discover_uncached (\<lambda>_. None) (\<lambda>_. None) read_listing (listing_agent [])
      \<lparr>cb_url = ''http://west:8500'', cb_namespace = ''default''\<rparr> ''chat'' None None None ()
    = (Inl ''connection refused'', 1, ())"
    by (simp add: discover_uncached_def listing_agent_def Let_def)
  show ?thesis
    using consul_cache_crosses_agents [OF east [unfolded chat_query_result_def] west] east by blast
qed

text \<open>A query that has succeeded once is answered ever after, whatever becomes of the agent.\<close>

lemma discovery_survives:
  assumes "cache (discover_cache_key t ns ver tags) \<noteq> None"
  shows "\<exists>insts cache1 s1. consul_discover env read6 parse srv b now t ns ver tags (cache, s) = (Inr insts, cache1, s1)
    \<and> cache1 (discover_cache_key t ns ver tags) \<noteq> None"
  using assms by (auto simp: consul_discover_def Let_def split: prod.split sum.split)

text \<open>Two different queries with one key: a tag whose value looks like the next tag.\<close>

lemma cache_keys_collide:
  "discover_cache_key t ns ver (Some (fmupd ''a'' ''1|b=2'' fmempty))
     = discover_cache_key t ns ver (Some (fmupd ''b'' ''2'' (fmupd ''a'' ''1'' fmempty)))"
proof -
  have "{|''a'', ''b''|} = fset_of_list [''a'', ''b'']" by simp
  then have "sorted_list_of_fset {|''a'', ''b''|} = [''a'', ''b'']" "sorted_list_of_fset {|''a''|} = [''a'']"
    by (simp_all add: sorted_list_of_fset.rep_eq)
  moreover have "finsert ''b'' {|''a''|} = {|''a'', ''b''|}" by blast
  ultimately show ?thesis
    by (simp add: discover_cache_key_def sorted_list_of_fmap_def)
qed

section \<open>What the key-value store does\<close>

text \<open>The agent stores the body of a request as it is, and encodes the values it lists.\<close>

definition kv_documented ::
    "'s agent \<Rightarrow> (string \<Rightarrow> string + json list) \<Rightarrow> (string \<Rightarrow> string) \<Rightarrow> bool" where
  "kv_documented srv parse enc \<longleftrightarrow>
     (\<forall>url v s r d s1. srv (put_req url (TextBody v)) s = (Inr r, d, s1) \<and> http_success r \<longrightarrow>
        (\<exists>r2 d2 s2 body item. srv (get_req url []) s1 = (Inr r2, d2, s2) \<and> http_success r2
           \<and> hp_body r2 = Inr body \<and> parse body = Inr [item]
           \<and> json_get ''Value'' item = Some (JString (enc v))))"

text \<open>
  A value written to Consul's key-value store is read back encoded: the writer encodes the
  value that the agent encodes again when it lists it, and the reader decodes once.
\<close>

theorem consul_kv_double_encoding:
  assumes "kv_documented srv parse enc" and "\<forall>x. dec (enc x) = Inr x"
    and "consul_kv_put enc srv b key v s = (Inr (), s1)"
  shows "\<exists>entry s2. consul_kv_get parse dec srv b key s1 = (Inr (Some entry), s2) \<and> kv_value entry = enc v"
proof -
  obtain r d where put: "srv (put_req (kv_url b key) (TextBody (enc v))) s = (Inr r, d, s1)" "http_success r"
    using assms(3)
    by (auto simp: consul_kv_put_def kv_request_def split: prod.splits sum.splits if_splits)
  then obtain r2 d2 s2 body item where get: "srv (get_req (kv_url b key) []) s1 = (Inr r2, d2, s2)"
      "http_success r2" "hp_body r2 = Inr body" "parse body = Inr [item]"
      "json_get ''Value'' item = Some (JString (enc (enc v)))"
    using assms(1) unfolding kv_documented_def by metis
  then show ?thesis
    using assms(2)
    by (simp add: consul_kv_get_def kv_request_def kv_parse_body_def kv_read_entry_def kv_entry_of_def)
qed

definition toy_encode :: "string \<Rightarrow> string" where
  "toy_encode x = CHR ''!'' # x"

definition toy_kv_agent :: "(string \<Rightarrow> string) agent" where
  "toy_kv_agent q s =
     (let r = (\<lambda>t. Inr \<lparr>hp_status = 200, hp_status_text = ''200 OK'', hp_body = Inr t\<rparr>)
      in case hq_body q of
           TextBody v \<Rightarrow> (r ''true'', 1, s(hq_url q := v))
         | _ \<Rightarrow> (r (toy_encode (s (hq_url q))), 1, s))"

definition toy_parse :: "string \<Rightarrow> string + json list" where
  "toy_parse t = Inr [JObject [(''Value'', JString t)]]"

theorem consul_kv_double_encoding_witness:
  "\<exists>s1 entry s2. consul_kv_put toy_encode toy_kv_agent \<lparr>cb_url = [], cb_namespace = []\<rparr> ''k'' ''v'' (\<lambda>_. [])
      = (Inr (), s1)
    \<and> consul_kv_get toy_parse (\<lambda>x. Inr (tl x)) toy_kv_agent \<lparr>cb_url = [], cb_namespace = []\<rparr> ''k'' s1
      = (Inr (Some entry), s2) \<and> kv_value entry = ''!v''"
proof -
  have doc: "kv_documented toy_kv_agent toy_parse toy_encode"
    by (auto simp: kv_documented_def toy_kv_agent_def toy_parse_def put_req_def get_req_def Let_def
        http_success_def)
  obtain s1 where put: "consul_kv_put toy_encode toy_kv_agent \<lparr>cb_url = [], cb_namespace = []\<rparr>
      ''k'' ''v'' (\<lambda>_. []) = (Inr (), s1)"
    by (simp add: consul_kv_put_def kv_request_def toy_kv_agent_def put_req_def Let_def http_success_def)
  have dec: "\<forall>x. (\<lambda>x. Inr (tl x)) (toy_encode x) = Inr x" by (simp add: toy_encode_def)
  from consul_kv_double_encoding [OF doc dec put] put show ?thesis by (auto simp: toy_encode_def)
qed

end
