(* ===== verification/Store_Backends.thy ===== *)
theory Store_Backends
  imports Discovery_Types
begin

text \<open>
  The other discovery backends, \<^verbatim>\<open>transport/src/discovery/backend/\<close>: \<^verbatim>\<open>etcd.rs\<close>, where every instance is
  a key, and \<^verbatim>\<open>dns.rs\<close> and \<^verbatim>\<open>mesh.rs\<close>, which read addresses from the configuration.

  The etcd client is a parameter, a record of its calls; \<open>etcd_documented\<close> says what the server's
  documentation promises of them. The text of an instance is written by \<open>enc\<close> and read by \<open>dec\<close>.
\<close>

section \<open>The etcd backend\<close>

record 's etcd =
  et_get :: "string \<Rightarrow> 's \<Rightarrow> (string + (string \<times> string) list) \<times> 's"
  et_put :: "string \<Rightarrow> string \<Rightarrow> 's \<Rightarrow> (string + unit) \<times> 's"
  et_delete :: "string \<Rightarrow> 's \<Rightarrow> (string + unit) \<times> 's"

definition etcd_endpoints :: "discovery_config \<Rightarrow> string + string list" where
  "etcd_endpoints cfg =
     (case Option.bind (Option.bind (dc_backend_config cfg ''endpoints'') as_array)
             (\<lambda>arr. all_some (map as_str arr)) of
        Some es \<Rightarrow> Inr es
      | None \<Rightarrow> Inl ''etcd endpoints not configured'')"

definition etcd_default_namespace :: "discovery_config \<Rightarrow> string" where
  "etcd_default_namespace cfg =
     (case Option.bind (dc_namespace cfg) ns_default of Some n \<Rightarrow> n | None \<Rightarrow> ''flare'')"

text \<open>The new backend is known by its default namespace.\<close>

definition etcd_new :: "(string list \<Rightarrow> string + unit) \<Rightarrow> discovery_config \<Rightarrow> string + string" where
  "etcd_new connect cfg =
     bind_res (etcd_endpoints cfg) (\<lambda>es. bind_res (connect es) (\<lambda>_. Inr (etcd_default_namespace cfg)))"

definition service_key :: "string \<Rightarrow> string \<Rightarrow> string option \<Rightarrow> string option \<Rightarrow> string" where
  "service_key default_ns service_type instance_id ns =
     (let n = (case ns of Some n \<Rightarrow> n | None \<Rightarrow> default_ns)
      in case instance_id of
           Some i \<Rightarrow> n @ ''/services/'' @ service_type @ ''/'' @ i
         | None \<Rightarrow> n @ ''/services/'' @ service_type @ ''/'')"

definition etcd_prefixes :: "string \<Rightarrow> string \<Rightarrow> string option \<Rightarrow> string list" where
  "etcd_prefixes default_ns service_type ns =
     (case ns of
        Some n \<Rightarrow> [service_key default_ns service_type None (Some n)]
      | None \<Rightarrow> map (\<lambda>n. service_key default_ns service_type None (Some n))
                 [''flare'', ''flare-test'', ''default''])"

definition etcd_matching ::
    "(string \<Rightarrow> service_instance option) \<Rightarrow> string option \<Rightarrow> string option \<Rightarrow> tag_map option
     \<Rightarrow> (string \<times> string) list \<Rightarrow> service_instance list" where
  "etcd_matching dec ns ver tags kvs =
     concat (map (\<lambda>(k, v). case dec v of
                            Some inst \<Rightarrow> if matches_query ns ver tags inst then [inst] else []
                          | None \<Rightarrow> []) kvs)"

fun etcd_search ::
    "'s etcd \<Rightarrow> (string \<Rightarrow> service_instance option) \<Rightarrow> string option \<Rightarrow> string option \<Rightarrow> tag_map option
     \<Rightarrow> string list \<Rightarrow> service_instance list \<Rightarrow> 's \<Rightarrow> service_instance list \<times> 's" where
  "etcd_search et dec ns ver tags [] acc s = (acc, s)"
| "etcd_search et dec ns ver tags (p # ps) acc s =
     (case et_get et p s of
        (Inr kvs, s1) \<Rightarrow> etcd_search et dec ns ver tags ps (acc @ etcd_matching dec ns ver tags kvs) s1
      | (Inl err, s1) \<Rightarrow> etcd_search et dec ns ver tags ps acc s1)"

definition etcd_discover ::
    "'s etcd \<Rightarrow> (string \<Rightarrow> service_instance option) \<Rightarrow> string \<Rightarrow> string \<Rightarrow> string option \<Rightarrow> string option
     \<Rightarrow> tag_map option \<Rightarrow> 's \<Rightarrow> (string + service_instance list) \<times> 's" where
  "etcd_discover et dec default_ns service_type ns ver tags s =
     (case etcd_search et dec ns ver tags (etcd_prefixes default_ns service_type ns) [] s of
        (insts, s1) \<Rightarrow> (Inr insts, s1))"

definition registered_key :: "string \<Rightarrow> service_instance \<Rightarrow> string" where
  "registered_key default_ns inst =
     service_key default_ns (si_type inst) (Some (si_id inst))
       (Some (case si_namespace inst of Some n \<Rightarrow> n | None \<Rightarrow> ''flare''))"

definition etcd_register ::
    "'s etcd \<Rightarrow> (service_instance \<Rightarrow> string) \<Rightarrow> string \<Rightarrow> service_instance \<Rightarrow> 's \<Rightarrow> (string + unit) \<times> 's" where
  "etcd_register et enc default_ns inst s = et_put et (registered_key default_ns inst) (enc inst) s"

text \<open>The heartbeat is the default one of the interface: it registers again.\<close>

definition etcd_heartbeat ::
    "'s etcd \<Rightarrow> (service_instance \<Rightarrow> string) \<Rightarrow> string \<Rightarrow> service_instance \<Rightarrow> 's \<Rightarrow> (string + unit) \<times> 's" where
  "etcd_heartbeat et enc default_ns inst s = etcd_register et enc default_ns inst s"

definition find_key ::
    "(string \<Rightarrow> service_instance option) \<Rightarrow> string \<Rightarrow> (string \<times> string) list \<Rightarrow> string option" where
  "find_key dec i kvs =
     map_option fst (find (\<lambda>(k, v). case dec v of Some inst \<Rightarrow> si_id inst = i | None \<Rightarrow> False) kvs)"

fun unregister_in ::
    "'s etcd \<Rightarrow> (string \<Rightarrow> service_instance option) \<Rightarrow> string \<Rightarrow> string list \<Rightarrow> 's \<Rightarrow> (string + unit) \<times> 's" where
  "unregister_in et dec i [] s = (Inr (), s)"
| "unregister_in et dec i (n # nss) s =
     (case et_get et (n @ ''/services/'') s of
        (Inr kvs, s1) \<Rightarrow>
          (case find_key dec i kvs of
             Some key \<Rightarrow> et_delete et key s1
           | None \<Rightarrow> unregister_in et dec i nss s1)
      | (Inl err, s1) \<Rightarrow> unregister_in et dec i nss s1)"

definition etcd_unregister ::
    "'s etcd \<Rightarrow> (string \<Rightarrow> service_instance option) \<Rightarrow> string \<Rightarrow> string \<Rightarrow> 's \<Rightarrow> (string + unit) \<times> 's" where
  "etcd_unregister et dec default_ns i s =
     unregister_in et dec i
       (default_ns # filter (\<lambda>n. n \<noteq> default_ns) [''flare-test'', ''default'']) s"

section \<open>Watching\<close>

text \<open>
  What the task of \<^verbatim>\<open>watch\<close> meets each time it sets up a watcher: a failure, or a stream of messages,
  each a list of the values of its events, until the stream ends or fails. \<open>room\<close> is the number of
  instances the consumer takes before it goes away. The result is the pauses (in milliseconds) and the
  instances handed over.
\<close>

datatype watch_outcome = WatchFails | WatchStream "string option list list"

definition BACKOFF_MIN :: nat where "BACKOFF_MIN = 500"
definition BACKOFF_MAX :: nat where "BACKOFF_MAX = 30000"

definition stream_instances ::
    "(string \<Rightarrow> service_instance option) \<Rightarrow> string option list list \<Rightarrow> service_instance list" where
  "stream_instances dec msgs =
     concat (map (\<lambda>v. case Option.bind v dec of Some inst \<Rightarrow> [inst] | None \<Rightarrow> []) (concat msgs))"

fun etcd_watch ::
    "(string \<Rightarrow> service_instance option) \<Rightarrow> nat \<Rightarrow> nat \<Rightarrow> watch_outcome list \<Rightarrow> nat list \<times> service_instance list" where
  "etcd_watch dec backoff room [] = ([], [])"
| "etcd_watch dec backoff room (WatchFails # os) =
     (if room = 0 then ([], [])
      else (case etcd_watch dec (min (backoff * 2) BACKOFF_MAX) room os of
              (sleeps, insts) \<Rightarrow> (backoff # sleeps, insts)))"
| "etcd_watch dec backoff room (WatchStream msgs # os) =
     (if room = 0 then ([], [])
      else (let insts = stream_instances dec msgs
            in if room < length insts then ([], take room insts)
               else (case etcd_watch dec BACKOFF_MIN (room - length insts) os of
                       (sleeps, insts2) \<Rightarrow> (sleeps, insts @ insts2))))"

lemma watch_pauses_bounded:
  "backoff \<le> BACKOFF_MAX \<Longrightarrow> list_all (\<lambda>p. p \<le> BACKOFF_MAX) (fst (etcd_watch dec backoff room os))"
  by (induction dec backoff room os rule: etcd_watch.induct)
    (auto simp: Let_def BACKOFF_MIN_def BACKOFF_MAX_def split: prod.split)

text \<open>An event without a readable value, such as the removal of a key, hands over nothing.\<close>

lemma removals_not_watched: "stream_instances dec [[None]] = []"
  by (simp add: stream_instances_def)

section \<open>Addresses from the configuration\<close>

definition configured_addresses :: "v6_read \<Rightarrow> discovery_config \<Rightarrow> socket_addr list" where
  "configured_addresses read6 cfg =
     (case Option.bind (Option.bind (dc_backend_config cfg ''addresses'') as_array)
             (\<lambda>arr. all_some (map (\<lambda>v. Option.bind (as_str v) (read_socket read6)) arr)) of
        Some as \<Rightarrow> as
      | None \<Rightarrow> [])"

definition backend_namespace :: "discovery_config \<Rightarrow> string" where
  "backend_namespace cfg =
     (case Option.bind (dc_namespace cfg) ns_default of Some n \<Rightarrow> n | None \<Rightarrow> ''default'')"

definition numbered :: "string \<Rightarrow> nat \<times> socket_addr \<Rightarrow> service_instance" where
  "numbered service_type ia =
     (case ia of (idx, a) \<Rightarrow> service_instance_new service_type (service_type @ ''-'' @ show_nat idx) a)"

definition dns_discover ::
    "v6_read \<Rightarrow> discovery_config \<Rightarrow> string \<Rightarrow> string option \<Rightarrow> string option \<Rightarrow> tag_map option
     \<Rightarrow> string + service_instance list" where
  "dns_discover read6 cfg service_type ns ver tags =
     Inr (map (\<lambda>ia. inst_with_namespace (backend_namespace cfg) (numbered service_type ia))
           (List.enumerate 0 (configured_addresses read6 cfg)))"

definition dns_register :: "service_instance \<Rightarrow> string + unit" where
  "dns_register inst = Inl ''DNS backend does not support registration''"

definition dns_unregister :: "string \<Rightarrow> string + unit" where
  "dns_unregister i = Inl ''DNS backend does not support unregistration''"

text \<open>
  The task of \<^verbatim>\<open>watch\<close> asks at every tick and sends all instances each time, changed or not; \<open>listening\<close>
  says of each tick whether somebody receives. A failed sending is ignored, so the task never ends.
\<close>

definition dns_watch :: "v6_read \<Rightarrow> discovery_config \<Rightarrow> string \<Rightarrow> bool list \<Rightarrow> service_instance list" where
  "dns_watch read6 cfg service_type listening =
     concat (map (\<lambda>l. case dns_discover read6 cfg service_type None None None of
                        Inr insts \<Rightarrow> if l then insts else [] | Inl e \<Rightarrow> []) listening)"

definition mesh_discover ::
    "(string list \<Rightarrow> string list) \<Rightarrow> v6_read \<Rightarrow> discovery_config \<Rightarrow> string \<Rightarrow> string option \<Rightarrow> string option
     \<Rightarrow> tag_map option \<Rightarrow> string + service_instance list" where
  "mesh_discover ord read6 cfg service_type ns ver tags =
     Inr (map (\<lambda>ia.
            let i0 = inst_with_namespace (case ns of Some n \<Rightarrow> n | None \<Rightarrow> backend_namespace cfg)
                       (numbered service_type ia);
                i1 = (case ver of Some v \<Rightarrow> inst_with_version v i0 | None \<Rightarrow> i0)
            in case tags of
                 Some m \<Rightarrow> fold (\<lambda>k. inst_with_tag k (the (fmlookup m k)))
                             (ord (sorted_list_of_fset (fmdom m))) i1
               | None \<Rightarrow> i1)
           (List.enumerate 0 (configured_addresses read6 cfg)))"

definition mesh_register :: "service_instance \<Rightarrow> string + unit" where
  "mesh_register inst = Inr ()"

definition mesh_unregister :: "string \<Rightarrow> string + unit" where
  "mesh_unregister i = Inr ()"

section \<open>What etcd promises\<close>

definition etcd_documented :: "'s etcd \<Rightarrow> ('s \<Rightarrow> string \<Rightarrow> string option) \<Rightarrow> bool" where
  "etcd_documented et kv \<longleftrightarrow>
     (\<forall>p s. case et_get et p s of (r, s1) \<Rightarrow> kv s1 = kv s
        \<and> (case r of Inl e \<Rightarrow> True
            | Inr kvs \<Rightarrow> set kvs = {(k, v). kv s k = Some v \<and> prefix p k}))
     \<and> (\<forall>k v s. case et_put et k v s of (r, s1) \<Rightarrow>
          kv s1 = (kv s)(k \<mapsto> v) \<or> (r \<noteq> Inr () \<and> kv s1 = kv s))
     \<and> (\<forall>k s. case et_delete et k s of (r, s1) \<Rightarrow>
          kv s1 = (kv s)(k := None) \<or> (r \<noteq> Inr () \<and> kv s1 = kv s))"

text \<open>A server that answers.\<close>

definition etcd_reachable :: "'s etcd \<Rightarrow> bool" where
  "etcd_reachable et \<longleftrightarrow> (\<forall>p s. \<exists>kvs s1. et_get et p s = (Inr kvs, s1))"

lemma etcd_documentedD:
  assumes "etcd_documented et kv"
  shows etcd_getD: "et_get et p s = (Inr kvs, s1) \<Longrightarrow>
      kv s1 = kv s \<and> set kvs = {(k, v). kv s k = Some v \<and> prefix p k}"
    and etcd_putD: "et_put et k v s = (Inr (), s1) \<Longrightarrow> kv s1 = (kv s)(k \<mapsto> v)"
    and etcd_deleteD: "et_delete et k s = (Inr (), s1) \<Longrightarrow> kv s1 = (kv s)(k := None)"
proof -
  note doc = assms [unfolded etcd_documented_def]
  show "et_get et p s = (Inr kvs, s1) \<Longrightarrow>
      kv s1 = kv s \<and> set kvs = {(k, v). kv s k = Some v \<and> prefix p k}"
    using doc [THEN conjunct1, THEN spec [of _ p], THEN spec [of _ s]] by simp
  show "et_put et k v s = (Inr (), s1) \<Longrightarrow> kv s1 = (kv s)(k \<mapsto> v)"
    using doc [THEN conjunct2, THEN conjunct1, THEN spec [of _ k], THEN spec [of _ v], THEN spec [of _ s]] by simp
  show "et_delete et k s = (Inr (), s1) \<Longrightarrow> kv s1 = (kv s)(k := None)"
    using doc [THEN conjunct2, THEN conjunct2, THEN spec [of _ k], THEN spec [of _ s]] by simp
qed

lemma etcd_get_ok:
  assumes "etcd_documented et kv" and "etcd_reachable et"
  obtains kvs s1 where "et_get et p s = (Inr kvs, s1)" "kv s1 = kv s"
    "set kvs = {(k, v). kv s k = Some v \<and> prefix p k}"
  using assms(2) etcd_getD [OF assms(1), of p s] unfolding etcd_reachable_def by blast

lemma set_etcd_matching:
  "set (etcd_matching dec ns ver tags kvs)
     = {inst. \<exists>k v. (k, v) \<in> set kvs \<and> dec v = Some inst \<and> matches_query ns ver tags inst}"
  by (force simp: etcd_matching_def split: option.splits if_splits prod.splits)

lemma etcd_search_set:
  assumes "etcd_documented et kv" and "etcd_reachable et"
  shows "\<exists>insts s1. etcd_search et dec ns ver tags ps acc s = (insts, s1) \<and> kv s1 = kv s
    \<and> set insts = set acc \<union> {inst. \<exists>p \<in> set ps. \<exists>k v. kv s k = Some v \<and> prefix p k
        \<and> dec v = Some inst \<and> matches_query ns ver tags inst}"
proof (induction ps arbitrary: acc s)
  case (Cons p ps)
  obtain kvs s1 where g: "et_get et p s = (Inr kvs, s1)" "kv s1 = kv s"
    "set kvs = {(k, v). kv s k = Some v \<and> prefix p k}"
    using etcd_get_ok [OF assms] by blast
  obtain insts s2 where IH: "etcd_search et dec ns ver tags ps (acc @ etcd_matching dec ns ver tags kvs) s1
      = (insts, s2)" "kv s2 = kv s1"
    "set insts = set (acc @ etcd_matching dec ns ver tags kvs) \<union> {inst. \<exists>p \<in> set ps. \<exists>k v. kv s1 k = Some v
        \<and> prefix p k \<and> dec v = Some inst \<and> matches_query ns ver tags inst}"
    using Cons.IH by blast
  have "set (etcd_matching dec ns ver tags kvs) = {inst. \<exists>k v. kv s k = Some v \<and> prefix p k
      \<and> dec v = Some inst \<and> matches_query ns ver tags inst}"
    by (simp add: set_etcd_matching g(3))
  with IH g show ?case by auto
qed simp

text \<open>
  Claim C21. With a server that answers, a discovery over etcd returns exactly the readable instances
  stored under the searched prefixes that match the query, and changes nothing.
\<close>

theorem etcd_discover_exact:
  assumes "etcd_documented et kv" and "etcd_reachable et"
  shows "\<exists>insts s1. etcd_discover et dec default_ns service_type ns ver tags s = (Inr insts, s1)
    \<and> kv s1 = kv s
    \<and> set insts = {inst. \<exists>p \<in> set (etcd_prefixes default_ns service_type ns). \<exists>k v.
        kv s k = Some v \<and> prefix p k \<and> dec v = Some inst \<and> matches_query ns ver tags inst}"
  using etcd_search_set [OF assms, of dec ns ver tags "etcd_prefixes default_ns service_type ns" "[]" s]
  by (auto simp: etcd_discover_def)

text \<open>A server that is a list of keys and values, and instances whose text is their name.\<close>

definition toy_etcd :: "(string \<times> string) list etcd" where
  "toy_etcd =
     \<lparr>et_get = (\<lambda>p s. (Inr (filter (\<lambda>kv. prefix p (fst kv)) (AList.clearjunk s)), s)),
      et_put = (\<lambda>k v s. (Inr (), AList.update k v s)),
      et_delete = (\<lambda>k s. (Inr (), AList.delete k s))\<rparr>"

lemma toy_etcd_documented: "etcd_documented toy_etcd map_of" and toy_etcd_reachable: "etcd_reachable toy_etcd"
proof -
  have "set (filter (\<lambda>kv. prefix p (fst kv)) (AList.clearjunk s)) = {(k, v). map_of s k = Some v \<and> prefix p k}"
    for p :: string and s :: "(string \<times> string) list"
    by (force simp: map_of_clearjunk [of s, symmetric] distinct_clearjunk simp del: map_of_clearjunk
        dest: map_of_SomeD intro: map_of_is_SomeI)
  then show "etcd_documented toy_etcd map_of"
    by (simp add: etcd_documented_def toy_etcd_def)
  show "etcd_reachable toy_etcd" by (simp add: etcd_reachable_def toy_etcd_def)
qed

definition toy_instance :: "string \<Rightarrow> service_instance" where
  "toy_instance i = service_instance_new ''chat'' i \<lparr>sa_ip = V4 10 0 0 7, sa_port = 80\<rparr>"

theorem etcd_discover_exact_witness:
  "\<exists>insts s1. etcd_discover toy_etcd (\<lambda>v. Some (toy_instance v)) ''prod'' ''chat'' None None None
      [(''flare/services/chat/c1'', ''c1'')] = (Inr insts, s1) \<and> set insts = {toy_instance ''c1''}"
proof -
  have "{inst. \<exists>p \<in> set (etcd_prefixes ''prod'' ''chat'' None). \<exists>k v.
      map_of [(''flare/services/chat/c1'', ''c1'')] k = Some v \<and> prefix p k
      \<and> Some (toy_instance v) = Some inst \<and> matches_query None None None inst} = {toy_instance ''c1''}"
    by (auto simp: etcd_prefixes_def service_key_def matches_query_iff split: if_splits)
  with etcd_discover_exact [OF toy_etcd_documented toy_etcd_reachable, of "\<lambda>v. Some (toy_instance v)"
      "''prod''" "''chat''" None None None "[(''flare/services/chat/c1'', ''c1'')]"]
  show ?thesis by auto
qed

lemma first_segment:
  "prefix (a @ CHR ''/'' # x) (b @ CHR ''/'' # y) \<Longrightarrow> CHR ''/'' \<notin> set a \<Longrightarrow> CHR ''/'' \<notin> set b \<Longrightarrow> a = b"
proof (induction a arbitrary: b)
  case Nil
  then show ?case by (cases b) auto
next
  case (Cons c a)
  then show ?case by (cases b) auto
qed

lemma find_key_single:
  assumes "set kvs \<subseteq> {(key, v)}" and "dec v = Some inst"
  shows "find_key dec (si_id inst) kvs = (if kvs = [] then None else Some key)"
  using assms by (cases kvs) (auto simp: find_key_def)

lemma unregister_in_single:
  assumes doc: "etcd_documented et kv" "etcd_reachable et" and dec: "dec v = Some inst"
    and n: "CHR ''/'' \<notin> set n" and nss: "\<forall>m \<in> set nss. CHR ''/'' \<notin> set m"
    and kv: "kv s = [n @ ''/services/'' @ r \<mapsto> v]"
    and run: "unregister_in et dec (si_id inst) nss s = (Inr (), s1)"
  shows "kv s1 (n @ ''/services/'' @ r) = None \<longleftrightarrow> n \<in> set nss"
  using nss kv run
proof (induction nss arbitrary: s)
  case (Cons m nss)
  let ?key = "n @ ''/services/'' @ r"
  obtain kvs s2 where g: "et_get et (m @ ''/services/'') s = (Inr kvs, s2)" "kv s2 = kv s"
    "set kvs = {(k, v). kv s k = Some v \<and> prefix (m @ ''/services/'') k}"
    using etcd_get_ok [OF doc] by blast
  show ?case
  proof (cases "m = n")
    case True
    then have "set kvs = {(?key, v)}" using g(3) Cons.prems(2) by (auto split: if_splits)
    then have "find_key dec (si_id inst) kvs = Some ?key"
      using find_key_single [of kvs ?key v dec inst] dec by auto
    with Cons.prems(3) g have del: "et_delete et ?key s2 = (Inr (), s1)" by simp
    have "kv s1 = (kv s2)(?key := None)" by (rule etcd_deleteD [OF doc(1) del])
    with True show ?thesis by simp
  next
    case False
    then have "\<not> prefix (m @ ''/services/'') ?key"
      using first_segment [of m "''services/''" n "''services/'' @ r"] Cons.prems(1) n by auto
    then have "set kvs = {}" unfolding g(3) using Cons.prems(2) by (auto split: if_splits)
    then have "kvs = []" by (simp only: set_empty)
    then have "unregister_in et dec (si_id inst) nss s2 = (Inr (), s1)"
      using Cons.prems(3) g by (simp add: find_key_def)
    with Cons.IH [of s2] Cons.prems(1, 2) g(2) False show ?thesis by auto
  qed
qed simp



text \<open>The addresses of the configuration are taken only if all of them can be read.\<close>

lemma configured_addresses_all:
  assumes "dc_backend_config cfg ''addresses'' = Some (JArray arr)"
  shows "configured_addresses read6 cfg =
    (if \<forall>v \<in> set arr. Option.bind (as_str v) (read_socket read6) \<noteq> None
     then map (\<lambda>v. the (Option.bind (as_str v) (read_socket read6))) arr else [])"
proof -
  have "all_some (map f arr) = (if \<forall>v \<in> set arr. f v \<noteq> None then Some (map (\<lambda>v. the (f v)) arr) else None)"
    for f :: "json \<Rightarrow> socket_addr option"
  proof (induction arr)
    case (Cons a arr)
    then show ?case by (cases "f a") auto
  qed simp
  then show ?thesis by (auto simp add: configured_addresses_def assms)
qed

text \<open>
  A service mesh answers every query with instances that match it, since it writes what is asked for
  into them; the DNS backend looks at no part of the query.
\<close>

lemma fold_with_tag_sel [simp]:
  "si_namespace (fold (\<lambda>k. inst_with_tag k (f k)) ks i) = si_namespace i"
  "si_version (fold (\<lambda>k. inst_with_tag k (f k)) ks i) = si_version i"
  "fmlookup (si_tags (fold (\<lambda>k. inst_with_tag k (f k)) ks i)) j
     = (if j \<in> set ks then Some (f j) else fmlookup (si_tags i) j)"
  by (induction ks arbitrary: i) (auto simp: inst_with_tag_def)

lemma mesh_matches_any_query:
  assumes "hash_order ord" and "mesh_discover ord read6 cfg service_type ns ver tags = Inr insts"
    and "inst \<in> set insts"
  shows "matches_query ns ver tags inst"
proof -
  have tags: "fmlookup m \<subseteq>\<^sub>m fmlookup (si_tags (fold (\<lambda>k. inst_with_tag k (the (fmlookup m k)))
      (ord (sorted_list_of_fset (fmdom m))) i))" for m i
    by (auto simp: map_le_def hash_order_set [OF assms(1)] fmdom'_alt_def fmlookup_dom'_iff
        simp flip: fmdom'_alt_def)
  show ?thesis
    using assms(2, 3) tags
    by (auto simp: mesh_discover_def Let_def matches_query_iff inst_with_namespace_def inst_with_version_def
        split: option.splits)
qed

lemma dns_ignores_query:
  "dns_discover read6 cfg service_type ns ver tags = dns_discover read6 cfg service_type None None None"
  by (simp add: dns_discover_def)

end
