(* ===== verification/Discovery_Ops.thy ===== *)
theory Discovery_Ops
  imports Discover Consul_Backend Store_Backends
begin

text \<open>
  The backend interface of service discovery (\<^verbatim>\<open>transport/src/discovery/backend/mod.rs\<close>) and the four
  backends behind it. The locale \<open>filtering_backend\<close> is the contract of a backend that returns only what
  matches the query; it is interpreted on etcd, the mesh and the uncached Consul backend.
\<close>

section \<open>The interface\<close>

record 's discovery_backend =
  do_discover :: "discover_query \<Rightarrow> 's \<Rightarrow> (string + service_instance list) \<times> 's"
  do_register :: "service_instance \<Rightarrow> 's \<Rightarrow> (string + unit) \<times> 's"
  do_unregister :: "string \<Rightarrow> 's \<Rightarrow> (string + unit) \<times> 's"
  do_heartbeat :: "service_instance \<Rightarrow> 's \<Rightarrow> (string + unit) \<times> 's"

definition etcd_backend ::
    "'s etcd \<Rightarrow> (service_instance \<Rightarrow> string) \<Rightarrow> (string \<Rightarrow> service_instance option) \<Rightarrow> string
     \<Rightarrow> 's discovery_backend" where
  "etcd_backend et enc dec default_ns =
     \<lparr>do_discover = (\<lambda>q. etcd_discover et dec default_ns (dq_type q) (dq_namespace q) (dq_version q) (dq_tags q)),
      do_register = etcd_register et enc default_ns,
      do_unregister = etcd_unregister et dec default_ns,
      do_heartbeat = etcd_heartbeat et enc default_ns\<rparr>"

text \<open>The Consul backend without its cache, and with it; \<open>clock\<close> reads the time.\<close>

definition consul_uncached ::
    "environment \<Rightarrow> (string list \<Rightarrow> string list) \<Rightarrow> v6_show \<Rightarrow> v6_read \<Rightarrow> (string \<Rightarrow> string + json list)
     \<Rightarrow> 's agent \<Rightarrow> consul_backend \<Rightarrow> 's discovery_backend" where
  "consul_uncached env ord show6 read6 parse srv b =
     \<lparr>do_discover = (\<lambda>q s. case discover_uncached env read6 parse srv b (dq_type q) (dq_namespace q)
                                 (dq_version q) (dq_tags q) s of (r, d, s1) \<Rightarrow> (r, s1)),
      do_register = consul_register env ord show6 srv b,
      do_unregister = consul_unregister srv b,
      do_heartbeat = consul_heartbeat srv b\<rparr>"

definition consul_cached ::
    "environment \<Rightarrow> (string list \<Rightarrow> string list) \<Rightarrow> v6_show \<Rightarrow> v6_read \<Rightarrow> (string \<Rightarrow> string + json list)
     \<Rightarrow> 's agent \<Rightarrow> consul_backend \<Rightarrow> ('s \<Rightarrow> nat) \<Rightarrow> (discover_cache \<times> 's) discovery_backend" where
  "consul_cached env ord show6 read6 parse srv b clock =
     (let lift = (\<lambda>f (cache, s). case f s of (r, s1) \<Rightarrow> (r, (cache, s1)))
      in \<lparr>do_discover = (\<lambda>q cs. consul_discover env read6 parse srv b (clock (snd cs)) (dq_type q)
                               (dq_namespace q) (dq_version q) (dq_tags q) cs),
          do_register = (\<lambda>inst. lift (consul_register env ord show6 srv b inst)),
          do_unregister = (\<lambda>i. lift (consul_unregister srv b i)),
          do_heartbeat = (\<lambda>inst. lift (consul_heartbeat srv b inst))\<rparr>)"

definition dns_backend :: "v6_read \<Rightarrow> discovery_config \<Rightarrow> 's discovery_backend" where
  "dns_backend read6 cfg =
     \<lparr>do_discover = (\<lambda>q s. (dns_discover read6 cfg (dq_type q) (dq_namespace q) (dq_version q) (dq_tags q), s)),
      do_register = (\<lambda>inst s. (dns_register inst, s)),
      do_unregister = (\<lambda>i s. (dns_unregister i, s)),
      do_heartbeat = (\<lambda>inst s. (dns_register inst, s))\<rparr>"

definition mesh_backend ::
    "(string list \<Rightarrow> string list) \<Rightarrow> v6_read \<Rightarrow> discovery_config \<Rightarrow> 's discovery_backend" where
  "mesh_backend ord read6 cfg =
     \<lparr>do_discover = (\<lambda>q s.
        (mesh_discover ord read6 cfg (dq_type q) (dq_namespace q) (dq_version q) (dq_tags q), s)),
      do_register = (\<lambda>inst s. (mesh_register inst, s)),
      do_unregister = (\<lambda>i s. (mesh_unregister i, s)),
      do_heartbeat = (\<lambda>inst s. (mesh_register inst, s))\<rparr>"

section \<open>Backends that filter\<close>

definition query_matches :: "discover_query \<Rightarrow> service_instance \<Rightarrow> bool" where
  "query_matches q inst \<longleftrightarrow> matches_query (dq_namespace q) (dq_version q) (dq_tags q) inst"

locale filtering_backend =
  fixes discover :: "discover_query \<Rightarrow> 's \<Rightarrow> (string + service_instance list) \<times> 's"
  assumes only_matching: "discover q s = (Inr insts, s1) \<Longrightarrow> inst \<in> set insts \<Longrightarrow> query_matches q inst"
begin

text \<open>A result of the backend, in whatever state it was asked.\<close>

definition answers :: "discover_query \<Rightarrow> string + service_instance list \<Rightarrow> bool" where
  "answers q r \<longleftrightarrow> (\<exists>s s1. discover q s = (r, s1))"

lemma answers_match: "answers q (Inr insts) \<Longrightarrow> inst \<in> set insts \<Longrightarrow> query_matches q inst"
  unfolding answers_def using only_matching by blast

lemma map_of_instances: "fmlookup (instance_map insts) k = Some inst \<Longrightarrow> inst \<in> set insts"
proof -
  have "fmlookup (fold (\<lambda>i. fmupd (si_id i) i) insts m) k = Some inst \<Longrightarrow>
      inst \<in> set insts \<or> fmlookup m k = Some inst" for m
  proof (induction insts arbitrary: m)
    case (Cons i insts)
    then show ?case by (fastforce split: if_splits)
  qed simp
  from this [of fmempty] show "fmlookup (instance_map insts) k = Some inst \<Longrightarrow> inst \<in> set insts"
    by (simp add: instance_map_def)
qed

text \<open>Whatever a discoverer over such a backend knows matches its configuration.\<close>

lemma known_instances_match:
  assumes "hash_order ord"
    and "\<And>k inst. fmlookup (ds_instances st) k = Some inst \<Longrightarrow> query_matches q inst"
    and "list_all (answers q) results"
  shows "fmlookup (ds_instances (refresh_task ord show6 valid results st)) k = Some inst \<Longrightarrow> query_matches q inst"
  using assms(2, 3)
proof (induction results arbitrary: st)
  case (Cons r results)
  let ?st1 = "refresh_round ord show6 valid r st"
  have "fmlookup (ds_instances ?st1) k = Some inst \<Longrightarrow> query_matches q inst" for k inst
  proof (cases r)
    case (Inr insts)
    then have "answers q (Inr insts)" using Cons.prems(3) by simp
    then show "fmlookup (ds_instances ?st1) k = Some inst \<Longrightarrow> query_matches q inst"
      unfolding Inr refresh_round_instances [OF assms(1)] by (rule answers_match [OF _ map_of_instances])
  qed (use Cons.prems(2) in simp)
  with Cons.IH [of ?st1] Cons.prems(1, 3) show ?case by (simp add: refresh_task_def)
qed (simp add: refresh_task_def)

lemma initial_instances_match:
  assumes "initial_loop show6 valid insts st = Some st1"
    and "\<And>k inst. fmlookup (ds_instances st) k = Some inst \<Longrightarrow> query_matches q inst"
    and "\<And>inst. inst \<in> set insts \<Longrightarrow> query_matches q inst"
  shows "fmlookup (ds_instances st1) k = Some inst \<Longrightarrow> query_matches q inst"
  using assms
proof (induction insts arbitrary: st)
  case (Cons i insts)
  obtain r st2 where c: "create_channel_service show6 valid i st = (r, st2)" by (cases "create_channel_service show6 valid i st")
  then have same: "ds_instances st2 = ds_instances st"
    by (auto simp: create_channel_service_def Let_def split: option.splits if_splits)
  show ?case
  proof (cases r)
    case (Inl e)
    with c Cons.prems(2) have "initial_loop show6 valid insts st2 = Some st1" by simp
    then show ?thesis using Cons.IH [of st2] Cons.prems same by simp
  next
    case (Inr ch)
    let ?st3 = "(updater_insert (si_id i) ch st2)\<lparr>ds_instances := fmupd (si_id i) i (ds_instances st2)\<rparr>"
    from Inr c Cons.prems(2) have "initial_loop show6 valid insts ?st3 = Some st1"
      by (simp add: Let_def split: if_splits)
    moreover have "\<And>k inst. fmlookup (ds_instances ?st3) k = Some inst \<Longrightarrow> query_matches q inst"
      using Cons.prems(3, 4) same by (auto split: if_splits)
    ultimately show ?thesis using Cons.IH [of ?st3] Cons.prems(1, 4) by simp
  qed
qed simp

text \<open>The same for a discoverer that was just created from an answer.\<close>

lemma discoverer_knows_matching:
  assumes "from_backend show6 valid (\<lambda>_. r) cfg = Some st" and "hash_order ord"
    and "list_all (answers q) (r # results)"
  shows "fmlookup (ds_instances (refresh_task ord show6 valid results st)) k = Some inst \<Longrightarrow> query_matches q inst"
proof (rule known_instances_match [OF assms(2)])
  show "query_matches q inst" if "fmlookup (ds_instances st) k = Some inst" for k inst
  proof (cases r)
    case (Inl e)
    with assms(1) that show ?thesis by (auto simp: from_backend_def discover_new_def)
  next
    case (Inr insts)
    with assms(1) have "initial_loop show6 valid insts discover_new = Some st" by (simp add: from_backend_def)
    then show ?thesis
      by (rule initial_instances_match [OF _ _ _ that])
        (use assms(3) Inr answers_match in \<open>auto simp: discover_new_def\<close>)
  qed
qed (use assms(3) in simp_all)

end

lemma consul_instances_match:
  "consul_instances read6 t ns ver tags svcs acc = Inr insts \<Longrightarrow>
   (\<forall>inst \<in> set acc. matches_query ns ver tags inst) \<Longrightarrow> \<forall>inst \<in> set insts. matches_query ns ver tags inst"
proof (induction svcs arbitrary: acc)
  case (Cons svc svcs)
  then obtain inst where "consul_instances read6 t ns ver tags svcs
      (if matches_query ns ver tags inst then acc @ [inst] else acc) = Inr insts"
    by (auto simp: bind_res_Inr_iff)
  then show ?case by (rule Cons.IH) (use Cons.prems(2) in auto)
qed simp

interpretation consul_filter: filtering_backend
  "do_discover (consul_uncached env ord show6 read6 parse srv b)"
proof
  fix q :: discover_query and s :: 'a and insts s1 inst
  assume "do_discover (consul_uncached env ord show6 read6 parse srv b) q s = (Inr insts, s1)"
    and inst: "inst \<in> set insts"
  then have unc: "fst (discover_uncached env read6 parse srv b (dq_type q) (dq_namespace q) (dq_version q) (dq_tags q) s)
      = Inr insts"
    by (simp add: consul_uncached_def split: prod.splits)
  obtain svcs where "consul_instances read6 (dq_type q) (dq_namespace q) (dq_version q) (dq_tags q) svcs []
      = Inr insts"
    using discover_uncached_instances [OF unc] by (elim exE)
  then show "query_matches q inst"
    using consul_instances_match [of read6 _ _ _ _ svcs "[]" insts] inst by (simp add: query_matches_def)
qed

lemma etcd_search_match:
  "etcd_search et dec ns ver tags ps acc s = (insts, s1) \<Longrightarrow>
   (\<forall>inst \<in> set acc. matches_query ns ver tags inst) \<Longrightarrow> \<forall>inst \<in> set insts. matches_query ns ver tags inst"
proof (induction ps arbitrary: acc s)
  case (Cons p ps)
  have "\<forall>inst \<in> set (etcd_matching dec ns ver tags kvs). matches_query ns ver tags inst" for kvs
    by (auto simp: set_etcd_matching)
  moreover obtain r s2 where g: "et_get et p s = (r, s2)" by (cases "et_get et p s")
  ultimately show ?case using Cons.IH [of acc s2] Cons.IH [of "acc @ etcd_matching dec ns ver tags (projr r)" s2] Cons.prems
    by (cases r) auto
qed simp

interpretation etcd_filter: filtering_backend "do_discover (etcd_backend et enc dec default_ns)"
  using etcd_search_match [of et dec]
  by unfold_locales (fastforce simp: etcd_backend_def etcd_discover_def query_matches_def split: prod.splits)

interpretation mesh_filter: filtering_backend "do_discover (mesh_backend remdups read6 cfg)"
  using mesh_matches_any_query [OF hash_order_remdups]
  by unfold_locales (auto simp: mesh_backend_def query_matches_def)

end
