(* ===== verification/Registrar.thy ===== *)
theory Registrar
  imports Discovery_Ops
begin

text \<open>
  The factory of service discovery, \<^verbatim>\<open>transport/src/discovery/factory.rs\<close>: the configurations it builds,
  the choice of the backend, registration followed by discovery, and \<^verbatim>\<open>ServiceRegistry\<close>, whose heartbeat task runs
  beside the code that owns it. The two are a step function over events: which of them acts next is
  the run's choice. A call of the backend is one step; what the other side does between a call and the
  return to its caller is a step of its own.
\<close>

section \<open>What the factory is given\<close>

text \<open>
  The process and its libraries: the environment, an order of hash maps, the text of IPv6 addresses,
  the endpoints a client library takes, the text of an instance, the connection to etcd, the agent of
  Consul, the reader of its answers and the clock.
\<close>

record 's deployment =
  dp_env :: environment
  dp_order :: "string list \<Rightarrow> string list"
  dp_show6 :: v6_show
  dp_read6 :: v6_read
  dp_valid :: "string \<Rightarrow> bool"
  dp_enc :: "service_instance \<Rightarrow> string"
  dp_dec :: "string \<Rightarrow> service_instance option"
  dp_connect :: "string list \<Rightarrow> string + unit"
  dp_etcd :: "'s etcd"
  dp_agent :: "'s agent"
  dp_parse :: "string \<Rightarrow> string + json list"
  dp_clock :: "'s \<Rightarrow> nat"

text \<open>A backend beside the process-wide cache, which it does not touch.\<close>

definition beside_cache :: "'s discovery_backend \<Rightarrow> (discover_cache \<times> 's) discovery_backend" where
  "beside_cache be =
     (let lift = (\<lambda>f (cache, s). case f s of (r, s1) \<Rightarrow> (r, (cache, s1)))
      in \<lparr>do_discover = (\<lambda>q (cache, s). case do_discover be q s of (r, s1) \<Rightarrow> (r, (cache, s1))),
          do_register = (\<lambda>inst. lift (do_register be inst)),
          do_unregister = (\<lambda>i. lift (do_unregister be i)),
          do_heartbeat = (\<lambda>inst. lift (do_heartbeat be inst))\<rparr>)"

definition create_backend ::
    "'s deployment \<Rightarrow> discovery_config \<Rightarrow> string + (discover_cache \<times> 's) discovery_backend" where
  "create_backend dp cfg =
     (case dc_backend cfg of
        Etcd \<Rightarrow> bind_res (etcd_new (dp_connect dp) cfg)
                  (\<lambda>default_ns. Inr (beside_cache (etcd_backend (dp_etcd dp) (dp_enc dp) (dp_dec dp) default_ns)))
      | Consul \<Rightarrow> Inr (consul_cached (dp_env dp) (dp_order dp) (dp_show6 dp) (dp_read6 dp) (dp_parse dp)
                    (dp_agent dp) (consul_new cfg) (dp_clock dp))
      | Dns \<Rightarrow> Inr (beside_cache (dns_backend (dp_read6 dp) cfg))
      | Mesh \<Rightarrow> Inr (beside_cache (mesh_backend (dp_order dp) (dp_read6 dp) cfg)))"

section \<open>Configurations\<close>

definition env_u64_or :: "environment \<Rightarrow> string \<Rightarrow> u64 \<Rightarrow> u64" where
  "env_u64_or env name d =
     (case Option.bind (env name) parse_u64 of Some v \<Rightarrow> v | None \<Rightarrow> d)"

definition first_or :: "string list \<Rightarrow> string \<Rightarrow> string" where
  "first_or xs d = (case xs of [] \<Rightarrow> d | x # _ \<Rightarrow> x)"

definition json_texts :: "string list \<Rightarrow> json" where
  "json_texts xs = JArray (map JString xs)"

definition json_u64 :: "u64 \<Rightarrow> json" where
  "json_u64 w = JInt (uint w)"

definition defaults_backend_config ::
    "environment \<Rightarrow> backend_type \<Rightarrow> string list \<Rightarrow> string \<Rightarrow> string \<Rightarrow> json option" where
  "defaults_backend_config env kind backend_endpoints service_type =
     (case kind of
        Etcd \<Rightarrow> [''endpoints'' \<mapsto> json_texts backend_endpoints, ''service_type'' \<mapsto> JString service_type,
                 ''ttl'' \<mapsto> json_u64 (env_u64_or env ''ETCD_TTL_SECONDS'' 60)]
      | Consul \<Rightarrow> [''url'' \<mapsto> JString (first_or backend_endpoints ''http://localhost:8500''),
                   ''service_type'' \<mapsto> JString service_type]
      | Dns \<Rightarrow> [''domain'' \<mapsto> JString ''local'', ''service_type'' \<mapsto> JString service_type]
      | Mesh \<Rightarrow> [''xds_server'' \<mapsto> JString (first_or backend_endpoints ''http://localhost:8080''),
                 ''service_type'' \<mapsto> JString service_type])"

definition factory_config :: "environment \<Rightarrow> backend_type \<Rightarrow> (string \<Rightarrow> json option) \<Rightarrow> discovery_config" where
  "factory_config env kind backend_config =
     \<lparr>dc_backend = kind, dc_backend_config = backend_config, dc_namespace = None, dc_version = None,
      dc_tag_filters = [], dc_load_balance = ConsistentHash,
      dc_health_check = Some \<lparr>dh_interval = 10, dh_timeout = 5, dh_failure_threshold = 3,
                              dh_success_threshold = 2, dh_path = Some ''/health''\<rparr>,
      dc_refresh_interval = Some (default_discovery_refresh_interval_secs env)\<rparr>"

text \<open>Registration is only for etcd and Consul; etcd has another time to live here.\<close>

definition register_backend_config ::
    "backend_type \<Rightarrow> string list \<Rightarrow> string \<Rightarrow> string + (string \<Rightarrow> json option)" where
  "register_backend_config kind backend_endpoints service_type =
     (case kind of
        Etcd \<Rightarrow> Inr [''endpoints'' \<mapsto> json_texts backend_endpoints, ''service_type'' \<mapsto> JString service_type,
                     ''ttl'' \<mapsto> JInt 90]
      | Consul \<Rightarrow> Inr [''url'' \<mapsto> JString (first_or backend_endpoints ''http://localhost:8500''),
                       ''service_type'' \<mapsto> JString service_type]
      | _ \<Rightarrow> Inl ''DNS and Mesh backends do not support registration'')"

section \<open>Discoverers\<close>

text \<open>How a call of the factory ends: with a value, with an error, or not at all.\<close>

datatype 'a call_end = CallReturns 'a | CallFails string | CallHangs

definition discover_with ::
    "'s deployment \<Rightarrow> 'w discovery_backend \<Rightarrow> discovery_config \<Rightarrow> 'w \<Rightarrow> discover_state call_end \<times> 'w" where
  "discover_with dp be cfg s =
     (case do_discover be (query_of_config cfg) s of
        (r, s1) \<Rightarrow>
          ((case from_backend (dp_show6 dp) (dp_valid dp) (\<lambda>q. r) cfg of
              Some st \<Rightarrow> CallReturns st | None \<Rightarrow> CallHangs), s1))"

definition create_discover ::
    "'s deployment \<Rightarrow> discovery_config \<Rightarrow> discover_cache \<times> 's
     \<Rightarrow> discover_state call_end \<times> discover_cache \<times> 's" where
  "create_discover dp cfg s =
     (case create_backend dp cfg of
        Inl e \<Rightarrow> (CallFails e, s)
      | Inr be \<Rightarrow> discover_with dp be cfg s)"

definition create_with_defaults ::
    "'s deployment \<Rightarrow> backend_type \<Rightarrow> string list \<Rightarrow> string \<Rightarrow> discover_cache \<times> 's
     \<Rightarrow> discover_state call_end \<times> discover_cache \<times> 's" where
  "create_with_defaults dp kind backend_endpoints service_type s =
     create_discover dp
       (factory_config (dp_env dp) kind
          (defaults_backend_config (dp_env dp) kind backend_endpoints service_type)) s"

section \<open>The registry\<close>

text \<open>
  \<open>task_phase\<close>: before the first heartbeat, after a failed heartbeat and before the registration that
  follows it, at the \<^verbatim>\<open>select!\<close>, gone.

  \<open>owner_phase\<close>: the registry is in use; inside \<^verbatim>\<open>shutdown\<close>, asleep, then with the result of the removal;
  \<^verbatim>\<open>shutdown\<close> has returned; dropped, with a removal to come or not.
\<close>

datatype task_phase = FirstBeat | Reregister | AtSelect | TaskGone

datatype owner_phase =
  InUse
| Sleeping
| Unregistered "string + unit"
| ShutDown "string + unit"
| DropPending
| DropDone

text \<open>
  \<open>rg_sender\<close>: the field \<^verbatim>\<open>shutdown_tx\<close> is present. \<open>rg_signals\<close>: the messages in the channel. \<open>rg_rounds\<close> is
  a history for the proofs: whether each finished round of the task ended with the instance alive.
\<close>

record 'w service_registry =
  rg_instance :: service_instance
  rg_task_instance :: service_instance
  rg_interval :: u64
  rg_sender :: bool
  rg_signals :: nat
  rg_owner :: owner_phase
  rg_phase :: task_phase
  rg_failures :: nat
  rg_rounds :: "bool list"
  rg_world :: 'w

text \<open>A timer with period zero panics, in the task: then there is no task.\<close>

definition registry_new :: "service_instance \<Rightarrow> u64 \<Rightarrow> 'w \<Rightarrow> 'w service_registry" where
  "registry_new inst heartbeat_interval s =
     \<lparr>rg_instance = inst, rg_task_instance = inst, rg_interval = heartbeat_interval, rg_sender = True,
      rg_signals = 0, rg_owner = InUse,
      rg_phase = (if heartbeat_interval = 0 then TaskGone else FirstBeat), rg_failures = 0,
      rg_rounds = [], rg_world = s\<rparr>"

text \<open>One heartbeat of the task, and the registration after a failed one.\<close>

definition task_heartbeat :: "'w discovery_backend \<Rightarrow> 'w service_registry \<Rightarrow> 'w service_registry" where
  "task_heartbeat be st =
     (case do_heartbeat be (rg_task_instance st) (rg_world st) of
        (Inr u, s1) \<Rightarrow> st\<lparr>rg_failures := 0, rg_phase := AtSelect, rg_rounds := rg_rounds st @ [True], rg_world := s1\<rparr>
      | (Inl e, s1) \<Rightarrow> st\<lparr>rg_failures := rg_failures st + 1, rg_phase := Reregister, rg_world := s1\<rparr>)"

definition task_reregister :: "'w discovery_backend \<Rightarrow> 'w service_registry \<Rightarrow> 'w service_registry" where
  "task_reregister be st =
     (case do_register be (rg_task_instance st) (rg_world st) of
        (Inr u, s1) \<Rightarrow> st\<lparr>rg_failures := 0, rg_phase := AtSelect, rg_rounds := rg_rounds st @ [True], rg_world := s1\<rparr>
      | (Inl e, s1) \<Rightarrow> st\<lparr>rg_phase := AtSelect, rg_rounds := rg_rounds st @ [False], rg_world := s1\<rparr>)"

text \<open>
  The future of \<^verbatim>\<open>shutdown_tx.send(())\<close> is dropped and not awaited: nothing is put into the channel. The sender that
  \<^verbatim>\<open>shutdown\<close> took out of the field lives until \<^verbatim>\<open>shutdown\<close> returns.
\<close>

definition sender_alive :: "'w service_registry \<Rightarrow> bool" where
  "sender_alive st \<longleftrightarrow> rg_sender st \<or> (case rg_owner st of Sleeping \<Rightarrow> True | Unregistered r \<Rightarrow> True | _ \<Rightarrow> False)"

definition shutdown_call :: "'w service_registry \<Rightarrow> 'w service_registry" where
  "shutdown_call st =
     (if rg_sender st then st\<lparr>rg_sender := False, rg_owner := Sleeping\<rparr>
      else st\<lparr>rg_owner := ShutDown (Inr ())\<rparr>)"

definition owner_unregister :: "'w discovery_backend \<Rightarrow> 'w service_registry \<Rightarrow> 'w service_registry" where
  "owner_unregister be st =
     (case do_unregister be (si_id (rg_instance st)) (rg_world st) of
        (r, s1) \<Rightarrow> st\<lparr>rg_owner := Unregistered r, rg_world := s1\<rparr>)"

definition update_instance :: "'w discovery_backend \<Rightarrow> service_instance \<Rightarrow> 'w service_registry \<Rightarrow> 'w service_registry" where
  "update_instance be inst st =
     (case do_register be inst (rg_world st) of
        (r, s1) \<Rightarrow> st\<lparr>rg_instance := inst, rg_world := s1\<rparr>)"

definition manual_heartbeat :: "'w discovery_backend \<Rightarrow> 'w service_registry \<Rightarrow> 'w service_registry" where
  "manual_heartbeat be st = st\<lparr>rg_world := snd (do_heartbeat be (rg_instance st) (rg_world st))\<rparr>"

text \<open>Dropping: \<open>runtime\<close> says whether a runtime is there to run the removal.\<close>

definition drop_registry :: "bool \<Rightarrow> 'w service_registry \<Rightarrow> 'w service_registry" where
  "drop_registry runtime st =
     (if rg_sender st
      then st\<lparr>rg_sender := False, rg_signals := (if rg_phase st = TaskGone then rg_signals st else 1),
              rg_owner := (if runtime then DropPending else DropDone)\<rparr>
      else st\<lparr>rg_owner := DropDone\<rparr>)"

definition drop_unregister :: "'w discovery_backend \<Rightarrow> 'w service_registry \<Rightarrow> 'w service_registry" where
  "drop_unregister be st =
     st\<lparr>rg_owner := DropDone, rg_world := snd (do_unregister be (si_id (rg_instance st)) (rg_world st))\<rparr>"

section \<open>Runs\<close>

datatype registry_event =
  TaskGoesOn
| TimerTick
| TaskStops
| ShutdownCall
| ShutdownUnregister
| ShutdownReturn
| UpdateInstance service_instance
| ManualHeartbeat
| DropCall bool
| DropUnregister

definition owner_idle :: "'w service_registry \<Rightarrow> bool" where
  "owner_idle st \<longleftrightarrow> (case rg_owner st of InUse \<Rightarrow> True | ShutDown r \<Rightarrow> True | _ \<Rightarrow> False)"

fun registry_step :: "'w discovery_backend \<Rightarrow> registry_event \<Rightarrow> 'w service_registry \<Rightarrow> 'w service_registry option" where
  "registry_step be TaskGoesOn st =
     (case rg_phase st of
        FirstBeat \<Rightarrow> Some (task_heartbeat be st)
      | Reregister \<Rightarrow> Some (task_reregister be st)
      | _ \<Rightarrow> None)"
| "registry_step be TimerTick st = (if rg_phase st = AtSelect then Some (task_heartbeat be st) else None)"
| "registry_step be TaskStops st =
     (if rg_phase st = AtSelect \<and> (0 < rg_signals st \<or> \<not> sender_alive st)
      then Some (st\<lparr>rg_phase := TaskGone, rg_signals := rg_signals st - 1\<rparr>) else None)"
| "registry_step be ShutdownCall st = (if owner_idle st then Some (shutdown_call st) else None)"
| "registry_step be ShutdownUnregister st =
     (if rg_owner st = Sleeping then Some (owner_unregister be st) else None)"
| "registry_step be ShutdownReturn st =
     (case rg_owner st of Unregistered r \<Rightarrow> Some (st\<lparr>rg_owner := ShutDown r\<rparr>) | _ \<Rightarrow> None)"
| "registry_step be (UpdateInstance inst) st = (if owner_idle st then Some (update_instance be inst st) else None)"
| "registry_step be ManualHeartbeat st = (if owner_idle st then Some (manual_heartbeat be st) else None)"
| "registry_step be (DropCall runtime) st = (if owner_idle st then Some (drop_registry runtime st) else None)"
| "registry_step be DropUnregister st =
     (if rg_owner st = DropPending then Some (drop_unregister be st) else None)"

fun registry_run :: "'w discovery_backend \<Rightarrow> registry_event list \<Rightarrow> 'w service_registry \<Rightarrow> 'w service_registry option" where
  "registry_run be [] st = Some st"
| "registry_run be (e # es) st =
     (case registry_step be e st of Some st1 \<Rightarrow> registry_run be es st1 | None \<Rightarrow> None)"

inductive registry_reachable :: "'w discovery_backend \<Rightarrow> 'w service_registry \<Rightarrow> bool" for be where
  reach_new: "registry_reachable be (registry_new inst n s)"
| reach_step: "registry_reachable be st \<Longrightarrow> registry_step be e st = Some st1 \<Longrightarrow> registry_reachable be st1"

section \<open>Registration and discovery\<close>

definition register_with ::
    "'s deployment \<Rightarrow> 'w discovery_backend \<Rightarrow> discovery_config \<Rightarrow> service_instance \<Rightarrow> 'w
     \<Rightarrow> ('w service_registry \<times> discover_state) call_end \<times> 'w" where
  "register_with dp be cfg inst s =
     (case do_register be inst s of
        (Inl e, s1) \<Rightarrow> (CallFails e, s1)
      | (Inr u, s1) \<Rightarrow>
          (case discover_with dp be cfg s1 of
             (CallReturns st, s2) \<Rightarrow>
               (CallReturns (registry_new inst (env_u64_or (dp_env dp) ''SERVICE_HEARTBEAT_INTERVAL'' 20) s2, st), s2)
           | (CallFails e, s2) \<Rightarrow> (CallFails e, s2)
           | (CallHangs, s2) \<Rightarrow> (CallHangs, s2)))"

definition register_and_discover ::
    "'s deployment \<Rightarrow> backend_type \<Rightarrow> string list \<Rightarrow> string \<Rightarrow> service_instance \<Rightarrow> discover_cache \<times> 's
     \<Rightarrow> ((discover_cache \<times> 's) service_registry \<times> discover_state) call_end \<times> discover_cache \<times> 's" where
  "register_and_discover dp kind backend_endpoints service_type inst s =
     (case register_backend_config kind backend_endpoints service_type of
        Inl e \<Rightarrow> (CallFails e, s)
      | Inr backend_config \<Rightarrow>
          (let cfg = factory_config (dp_env dp) kind backend_config
           in case create_backend dp cfg of
                Inl e \<Rightarrow> (CallFails e, s)
              | Inr be \<Rightarrow> register_with dp be cfg inst s))"

section \<open>Invariants of a run\<close>

definition registry_inv :: "'w service_registry \<Rightarrow> bool" where
  "registry_inv st \<longleftrightarrow>
     (rg_sender st \<longleftrightarrow> rg_owner st = InUse)
     \<and> (rg_signals st = 0 \<or> rg_owner st = DropPending \<or> rg_owner st = DropDone)
     \<and> rg_failures st = trailing_failures (rg_rounds st) + (if rg_phase st = Reregister then 1 else 0)"

lemmas registry_defs =
  task_heartbeat_def task_reregister_def shutdown_call_def owner_unregister_def update_instance_def
  manual_heartbeat_def drop_registry_def drop_unregister_def

lemma registry_inv_new: "registry_inv (registry_new inst n s)"
  by (simp add: registry_inv_def registry_new_def)

lemma registry_inv_operations:
  "rg_phase st \<noteq> Reregister \<Longrightarrow> registry_inv st \<Longrightarrow> registry_inv (task_heartbeat be st)"
  "rg_phase st = Reregister \<Longrightarrow> registry_inv st \<Longrightarrow> registry_inv (task_reregister be st)"
  "owner_idle st \<Longrightarrow> registry_inv st \<Longrightarrow> registry_inv (shutdown_call st)"
  "rg_owner st = Sleeping \<Longrightarrow> registry_inv st \<Longrightarrow> registry_inv (owner_unregister be st)"
  "registry_inv st \<Longrightarrow> registry_inv (update_instance be inst st)"
  "registry_inv st \<Longrightarrow> registry_inv (manual_heartbeat be st)"
  "registry_inv st \<Longrightarrow> registry_inv (drop_registry runtime st)"
  "rg_owner st = DropPending \<Longrightarrow> registry_inv st \<Longrightarrow> registry_inv (drop_unregister be st)"
  by (simp_all add: registry_inv_def registry_defs owner_idle_def
      split: prod.split sum.split owner_phase.splits)

lemma registry_inv_step: "registry_step be e st = Some st1 \<Longrightarrow> registry_inv st \<Longrightarrow> registry_inv st1"
proof (cases e)
  case TaskGoesOn
  then show "registry_step be e st = Some st1 \<Longrightarrow> registry_inv st \<Longrightarrow> registry_inv st1"
    by (auto intro: registry_inv_operations split: task_phase.splits)
next
  case TaskStops
  then show "registry_step be e st = Some st1 \<Longrightarrow> registry_inv st \<Longrightarrow> registry_inv st1"
    by (auto simp: registry_inv_def split: if_splits)
next
  case ShutdownReturn
  then show "registry_step be e st = Some st1 \<Longrightarrow> registry_inv st \<Longrightarrow> registry_inv st1"
    by (auto simp: registry_inv_def split: owner_phase.splits)
qed (auto intro: registry_inv_operations split: if_splits)

lemma registry_reachable_inv: "registry_reachable be st \<Longrightarrow> registry_inv st"
  by (induction rule: registry_reachable.induct) (auto intro: registry_inv_new registry_inv_step)

lemma registry_reachable_run:
  "registry_run be es st = Some st1 \<Longrightarrow> registry_reachable be st \<Longrightarrow> registry_reachable be st1"
  by (induction es arbitrary: st) (auto split: option.splits intro: reach_step)

text \<open>
  The counter of failures is the number of rounds since the last one that ended with the
  instance alive, by a heartbeat or by a registration, with the round under way counted from its failed
  heartbeat on, in every reachable state.
\<close>

theorem failures_are_trailing_rounds:
  assumes "registry_reachable be st"
  shows "rg_failures st = trailing_failures (rg_rounds st) + (if rg_phase st = Reregister then 1 else 0)"
  using registry_reachable_inv [OF assms] by (simp add: registry_inv_def)

text \<open>A backend that answers nothing, and one that takes everything.\<close>

definition dead_backend :: "unit discovery_backend" where
  "dead_backend =
     \<lparr>do_discover = (\<lambda>q s. (Inl ''down'', s)), do_register = (\<lambda>inst s. (Inl ''down'', s)),
      do_unregister = (\<lambda>i s. (Inl ''down'', s)), do_heartbeat = (\<lambda>inst s. (Inl ''down'', s))\<rparr>"

definition mid_round :: "unit service_registry" where
  "mid_round =
     the (registry_run dead_backend [TaskGoesOn, TaskGoesOn, TimerTick] (registry_new (toy_instance ''c1'') 20 ()))"

lemma mid_round_reachable: "registry_reachable dead_backend mid_round"
proof -
  have "registry_run dead_backend [TaskGoesOn, TaskGoesOn, TimerTick] (registry_new (toy_instance ''c1'') 20 ())
      = Some mid_round"
    by (simp add: mid_round_def registry_new_def registry_defs dead_backend_def)
  then show ?thesis by (rule registry_reachable_run) (rule reach_new)
qed

lemma mid_round_state:
  "rg_phase mid_round = Reregister" "rg_rounds mid_round = [False]" "rg_owner mid_round = InUse"
  by (simp_all add: mid_round_def registry_new_def registry_defs dead_backend_def)

theorem failures_are_trailing_rounds_witness: "rg_failures mid_round = 2"
  using failures_are_trailing_rounds [OF mid_round_reachable] mid_round_state
    trailing_failures_snoc(2) [of "[]"] by simp

section \<open>Shutting down\<close>

text \<open>
  Claim C16. Inside \<^verbatim>\<open>shutdown\<close> the heartbeat task cannot be stopped: in no reachable state between the call
  and the return is the end of the task enabled, since nothing is ever put into the channel and the
  sender is still there. The pause before the removal waits for something that cannot happen.
\<close>

theorem shutdown_cannot_stop_heartbeats:
  assumes "registry_reachable be st" and "rg_owner st = Sleeping \<or> rg_owner st = Unregistered r"
  shows "registry_step be TaskStops st = None"
  using registry_reachable_inv [OF assms(1)] assms(2)
  by (auto simp: registry_inv_def sender_alive_def)

theorem shutdown_cannot_stop_heartbeats_witness:
  "\<exists>st. registry_run dead_backend [TaskGoesOn, TaskGoesOn, ShutdownCall, ShutdownUnregister]
      (registry_new (toy_instance ''c1'') 20 ()) = Some st \<and> registry_step dead_backend TaskStops st = None"
proof -
  obtain st where st: "registry_run dead_backend [TaskGoesOn, TaskGoesOn, ShutdownCall, ShutdownUnregister]
      (registry_new (toy_instance ''c1'') 20 ()) = Some st" "rg_owner st = Unregistered (Inl ''down'')"
    by (simp add: registry_new_def registry_defs dead_backend_def owner_idle_def)
  have "registry_step dead_backend TaskStops st = None"
    by (rule shutdown_cannot_stop_heartbeats [OF registry_reachable_run [OF st(1) reach_new]]) (use st in blast)
  with st show ?thesis by blast
qed

text \<open>A server whose writes succeed.\<close>

definition etcd_writes :: "'s etcd \<Rightarrow> bool" where
  "etcd_writes et \<longleftrightarrow> (\<forall>k v s. fst (et_put et k v s) = Inr ()) \<and> (\<forall>k s. fst (et_delete et k s) = Inr ())"

lemma etcd_register_ok:
  assumes "etcd_documented et kv" and "etcd_writes et"
  obtains s1 where "etcd_register et enc default_ns inst s = (Inr (), s1)"
    "kv s1 = (kv s)(registered_key default_ns inst \<mapsto> enc inst)"
proof -
  have "fst (etcd_register et enc default_ns inst s) = Inr ()"
    using assms(2) by (simp add: etcd_writes_def etcd_register_def)
  then obtain s1 where run: "etcd_register et enc default_ns inst s = (Inr (), s1)"
    by (metis prod.collapse)
  with etcd_putD [OF assms(1) run [unfolded etcd_register_def]] that show thesis by blast
qed

lemma unregister_in_ok:
  assumes "etcd_writes et"
  shows "fst (unregister_in et dec i nss s) = Inr ()"
proof (induction nss arbitrary: s)
  case (Cons n nss)
  have "fst (et_delete et k s) = Inr ()" for k s using assms by (simp add: etcd_writes_def)
  with Cons show ?case by (simp split: prod.split sum.split option.split)
qed simp

text \<open>
  A shutdown over etcd can succeed, and the task end, with the instance registered: its next
  heartbeat, which for etcd is a registration, may come after the removal and before the return.
\<close>

theorem heartbeat_outlives_shutdown:
  assumes "etcd_documented et kv" and "etcd_writes et" and "heartbeat_interval \<noteq> 0"
  shows "\<exists>st. registry_run (etcd_backend et enc dec default_ns)
      [TaskGoesOn, ShutdownCall, ShutdownUnregister, TimerTick, ShutdownReturn, TaskStops]
      (registry_new inst heartbeat_interval s) = Some st
    \<and> rg_owner st = ShutDown (Inr ()) \<and> rg_phase st = TaskGone
    \<and> kv (rg_world st) (registered_key default_ns inst) = Some (enc inst)"
proof -
  let ?be = "etcd_backend et enc dec default_ns"
  obtain s1 where s1: "etcd_register et enc default_ns inst s = (Inr (), s1)"
    using etcd_register_ok [OF assms(1, 2)] by blast
  obtain s2 where s2: "etcd_unregister et dec default_ns (si_id inst) s1 = (Inr (), s2)"
    using unregister_in_ok [OF assms(2)] unfolding etcd_unregister_def by (metis prod.collapse)
  obtain s3 where s3: "etcd_register et enc default_ns inst s2 = (Inr (), s3)"
    "kv s3 (registered_key default_ns inst) = Some (enc inst)"
    using etcd_register_ok [OF assms(1, 2), of enc default_ns inst s2] by (metis fun_upd_same)
  from s1 s2 s3 assms(3) show ?thesis
    by (simp add: registry_new_def registry_defs owner_idle_def sender_alive_def etcd_backend_def etcd_heartbeat_def)
qed

lemma toy_etcd_writes: "etcd_writes toy_etcd"
  by (simp add: etcd_writes_def toy_etcd_def)

theorem heartbeat_outlives_shutdown_witness:
  "\<exists>st. registry_run (etcd_backend toy_etcd si_id (\<lambda>v. Some (toy_instance v)) ''prod'')
      [TaskGoesOn, ShutdownCall, ShutdownUnregister, TimerTick, ShutdownReturn, TaskStops]
      (registry_new (toy_instance ''c1'') 20 []) = Some st
    \<and> rg_owner st = ShutDown (Inr ()) \<and> map_of (rg_world st) ''flare/services/chat/c1'' = Some ''c1''"
proof -
  have "registered_key ''prod'' (toy_instance ''c1'') = ''flare/services/chat/c1''"
    and "si_id (toy_instance ''c1'') = ''c1''"
    by (simp_all add: registered_key_def service_key_def toy_instance_def service_instance_new_def)
  with heartbeat_outlives_shutdown [OF toy_etcd_documented toy_etcd_writes, of 20 si_id
      "\<lambda>v. Some (toy_instance v)" "''prod''" "toy_instance ''c1''" "[]"]
  show ?thesis by auto
qed

text \<open>
  Once nobody holds the sender, the task can end after at most three steps of its own, the
  registration after a failed heartbeat included, in whatever state it is.
\<close>

theorem heartbeat_task_can_stop:
  assumes "\<not> sender_alive st"
  shows "\<exists>es st1. length es \<le> 3 \<and> set es \<subseteq> {TaskGoesOn, TaskStops}
    \<and> registry_run be es st = Some st1 \<and> rg_phase st1 = TaskGone"
proof -
  have stop: "registry_step be TaskStops st2 = Some (st2\<lparr>rg_phase := TaskGone, rg_signals := rg_signals st2 - 1\<rparr>)"
    if "rg_phase st2 = AtSelect" and "\<not> sender_alive st2" for st2
    using that by simp
  have alive: "sender_alive (task_heartbeat be st2) = sender_alive st2"
    "sender_alive (task_reregister be st2) = sender_alive st2" for st2
    by (simp_all add: sender_alive_def registry_defs split: prod.split sum.split)
  have phases: "rg_phase (task_heartbeat be st2) \<in> {AtSelect, Reregister}"
    "rg_phase (task_reregister be st2) = AtSelect" for st2
    by (simp_all add: registry_defs split: prod.split sum.split)
  have gone: ?thesis if "length es \<le> 2" "set es \<subseteq> {TaskGoesOn}" "registry_run be es st = Some st2"
    "rg_phase st2 = AtSelect" "\<not> sender_alive st2" for es st2
  proof -
    have "registry_run be (es @ fs) st = Option.bind (registry_run be es st) (registry_run be fs)" for fs
      by (induction es arbitrary: st) (auto split: option.split)
    with that stop [OF that(4, 5)] show ?thesis
      by (intro exI [of _ "es @ [TaskStops]"] exI [of _ "st2\<lparr>rg_phase := TaskGone, rg_signals := rg_signals st2 - 1\<rparr>"])
        auto
  qed
  show ?thesis
  proof (cases "rg_phase st")
    case FirstBeat
    then have run: "registry_run be [TaskGoesOn] st = Some (task_heartbeat be st)" by simp
    show ?thesis
    proof (cases "rg_phase (task_heartbeat be st) = AtSelect")
      case True
      show ?thesis by (rule gone [OF _ _ run True]) (simp_all add: alive assms)
    next
      case False
      then have "registry_run be [TaskGoesOn, TaskGoesOn] st = Some (task_reregister be (task_heartbeat be st))"
        using phases(1) [of st] FirstBeat by simp
      then show ?thesis by (rule gone [rotated 2]) (simp_all add: alive phases assms)
    qed
  next
    case Reregister
    then have run: "registry_run be [TaskGoesOn] st = Some (task_reregister be st)" by simp
    show ?thesis by (rule gone [OF _ _ run phases(2)]) (simp_all add: alive assms)
  next
    case AtSelect
    show ?thesis by (rule gone [of "[]", OF _ _ _ AtSelect assms]) simp_all
  next
    case TaskGone
    then show ?thesis by (intro exI [of _ "[]"] exI [of _ st]) simp
  qed
qed

theorem heartbeat_task_can_stop_witness:
  "\<exists>es st1. length es \<le> 3 \<and> registry_run dead_backend es (mid_round\<lparr>rg_sender := False, rg_owner := DropDone\<rparr>)
      = Some st1 \<and> rg_phase st1 = TaskGone"
  using heartbeat_task_can_stop [of "mid_round\<lparr>rg_sender := False, rg_owner := DropDone\<rparr>" dead_backend]
  by (auto simp: sender_alive_def)

section \<open>Updating\<close>

text \<open>
  An update of the instance over etcd does not last: whatever was written, the task's next
  heartbeat writes the instance of the start again, and the update is gone if both have one key.
\<close>

theorem heartbeat_undoes_update:
  assumes "etcd_documented et kv" and "etcd_writes et" and "rg_phase st = AtSelect" and "owner_idle st"
    and "registered_key default_ns new = registered_key default_ns (rg_task_instance st)"
  shows "\<exists>st1 st2. registry_run (etcd_backend et enc dec default_ns) [UpdateInstance new] st = Some st1
    \<and> kv (rg_world st1) (registered_key default_ns new) = Some (enc new)
    \<and> registry_run (etcd_backend et enc dec default_ns) [TimerTick] st1 = Some st2
    \<and> rg_instance st2 = new
    \<and> kv (rg_world st2) (registered_key default_ns new) = Some (enc (rg_task_instance st))"
proof -
  obtain s1 where s1: "etcd_register et enc default_ns new (rg_world st) = (Inr (), s1)"
    "kv s1 (registered_key default_ns new) = Some (enc new)"
    using etcd_register_ok [OF assms(1, 2), of enc default_ns new "rg_world st"] by (metis fun_upd_same)
  obtain s2 where s2: "etcd_register et enc default_ns (rg_task_instance st) s1 = (Inr (), s2)"
    "kv s2 (registered_key default_ns new) = Some (enc (rg_task_instance st))"
    using etcd_register_ok [OF assms(1, 2), of enc default_ns "rg_task_instance st" s1] assms(5) by (metis fun_upd_same)
  from s1 s2 assms(3, 4) show ?thesis
    by (simp add: registry_defs etcd_backend_def etcd_heartbeat_def)
qed

text \<open>The registry of ''c1'' on a fresh server, after its first heartbeat, moved to another address.\<close>

definition version_text :: "service_instance \<Rightarrow> string" where
  "version_text inst = (case si_version inst of Some v \<Rightarrow> v | None \<Rightarrow> [])"

definition toy_registry :: "string \<Rightarrow> (string \<times> string) list service_registry" where
  "toy_registry i = (registry_new (toy_instance i) 20 [])\<lparr>rg_phase := AtSelect\<rparr>"

theorem heartbeat_undoes_update_witness:
  "\<exists>st1 st2. registry_run (etcd_backend toy_etcd version_text (\<lambda>v. Some (toy_instance v)) ''prod'')
      [UpdateInstance (inst_with_version ''v2'' (toy_instance ''c1''))] (toy_registry ''c1'') = Some st1
    \<and> map_of (rg_world st1) ''flare/services/chat/c1'' = Some ''v2''
    \<and> registry_run (etcd_backend toy_etcd version_text (\<lambda>v. Some (toy_instance v)) ''prod'') [TimerTick] st1 = Some st2
    \<and> map_of (rg_world st2) ''flare/services/chat/c1'' = Some []"
proof -
  have "registered_key ''prod'' (inst_with_version ''v2'' (toy_instance ''c1'')) = ''flare/services/chat/c1''"
    and "registered_key ''prod'' (rg_task_instance (toy_registry ''c1'')) = ''flare/services/chat/c1''"
    and "rg_phase (toy_registry ''c1'') = AtSelect" and "owner_idle (toy_registry ''c1'')"
    and "version_text (inst_with_version ''v2'' (toy_instance ''c1'')) = ''v2''"
    and "version_text (rg_task_instance (toy_registry ''c1'')) = []"
    by (simp_all add: registered_key_def service_key_def toy_instance_def service_instance_new_def
        toy_registry_def registry_new_def inst_with_version_def version_text_def owner_idle_def)
  with heartbeat_undoes_update [OF toy_etcd_documented toy_etcd_writes, of "toy_registry ''c1''" "''prod''"
      "inst_with_version ''v2'' (toy_instance ''c1'')" version_text "\<lambda>v. Some (toy_instance v)"]
  show ?thesis by metis
qed

section \<open>The factory\<close>

text \<open>
  Claim C23. After a successful registration and a successful first discovery, \<^verbatim>\<open>register_and_discover\<close>
  never returns exactly when the discovery reports more than 16 instances: then the instance is registered
  and nobody sends its heartbeats. Otherwise the caller gets a registry for the instance, whose
  heartbeats are 20 seconds apart unless the environment says otherwise.
\<close>

theorem register_and_discover_returns_iff:
  assumes "\<And>i. dp_valid dp (to_grpc_uri (dp_show6 dp) i)"
    and "do_register be inst s = (Inr (), s1)"
    and "do_discover be (query_of_config cfg) s1 = (Inr insts, s2)"
  shows "if 16 < length insts then register_with dp be cfg inst s = (CallHangs, s2)
    else \<exists>st. register_with dp be cfg inst s
        = (CallReturns (registry_new inst (env_u64_or (dp_env dp) ''SERVICE_HEARTBEAT_INTERVAL'' 20) s2, st), s2)
      \<and> from_backend (dp_show6 dp) (dp_valid dp) (\<lambda>q. Inr insts) cfg = Some st"
  using from_backend_None_iff [of "dp_valid dp" "dp_show6 dp" "\<lambda>q. Inr insts" cfg, OF assms(1)] assms(2, 3)
  by (auto simp: register_with_def discover_with_def split: option.splits)

definition toy_deployment :: "(string \<times> string) list deployment" where
  "toy_deployment =
     \<lparr>dp_env = Map.empty, dp_order = remdups, dp_show6 = (\<lambda>_. []), dp_read6 = (\<lambda>_. None), dp_valid = (\<lambda>_. True),
      dp_enc = si_id, dp_dec = (\<lambda>v. Some (toy_instance v)), dp_connect = (\<lambda>es. Inr ()), dp_etcd = toy_etcd,
      dp_agent = (\<lambda>rq s. (Inl ''down'', 0, s)), dp_parse = (\<lambda>_. Inl ''no JSON''), dp_clock = (\<lambda>_. 0)\<rparr>"

text \<open>A backend that knows sixteen instances and the registered one.\<close>

definition crowded_backend :: "service_instance list discovery_backend" where
  "crowded_backend =
     \<lparr>do_discover = (\<lambda>q s. (Inr s, s)), do_register = (\<lambda>inst s. (Inr (), inst # s)),
      do_unregister = (\<lambda>i s. (Inr (), filter (\<lambda>inst. si_id inst \<noteq> i) s)),
      do_heartbeat = (\<lambda>inst s. (Inr (), s))\<rparr>"

theorem register_and_discover_returns_iff_witness:
  "register_with toy_deployment crowded_backend sample_discovery (toy_instance ''c1'')
     (replicate 16 (sample_instance 1)) = (CallHangs, toy_instance ''c1'' # replicate 16 (sample_instance 1))"
proof -
  have "dp_valid toy_deployment (to_grpc_uri (dp_show6 toy_deployment) i)" for i
    by (simp add: toy_deployment_def)
  from register_and_discover_returns_iff [of toy_deployment crowded_backend "toy_instance ''c1''"
      "replicate 16 (sample_instance 1)" _ sample_discovery, OF this]
  show ?thesis by (simp add: crowded_backend_def)
qed

text \<open>
  The factory's configurations say to the backends what the caller said: etcd gets all the
  endpoints and Consul the first one, with a default, and the query asks for the caller's service, whatever
  backend it is.
\<close>

theorem factory_config_understood:
  "etcd_endpoints (factory_config env Etcd (defaults_backend_config env Etcd es t)) = Inr es
   \<and> cb_url (consul_new (factory_config env Consul (defaults_backend_config env Consul es t)))
       = first_or es ''http://localhost:8500''
   \<and> query_of_config (factory_config env kind (defaults_backend_config env kind es t))
       = \<lparr>dq_type = t, dq_namespace = None, dq_version = None, dq_tags = None\<rparr>
   \<and> register_backend_config kind es t
       = (if kind = Etcd then Inr ((defaults_backend_config env kind es t)(''ttl'' \<mapsto> JInt 90))
          else if kind = Consul then Inr (defaults_backend_config env kind es t)
          else Inl ''DNS and Mesh backends do not support registration'')"
  by (cases kind)
    (simp_all add: etcd_endpoints_def consul_new_def query_of_config_def tag_filters_to_map_def factory_config_def
      defaults_backend_config_def register_backend_config_def json_texts_def comp_def fun_eq_iff)

text \<open>
  With the default configurations DNS and the mesh find nothing: the addresses they read are never
  put into the configuration, so every discovery of every such discoverer is empty.
\<close>

theorem address_backends_find_nothing:
  assumes "kind = Dns \<or> kind = Mesh"
  shows "fst (create_with_defaults dp kind es t s) = CallReturns discover_new
    \<and> (\<exists>be. create_backend dp (factory_config (dp_env dp) kind (defaults_backend_config (dp_env dp) kind es t)) = Inr be
        \<and> (\<forall>q w. do_discover be q w = (Inr [], w)))"
proof -
  let ?cfg = "factory_config (dp_env dp) kind (defaults_backend_config (dp_env dp) kind es t)"
  have none: "configured_addresses read6 ?cfg = []" for read6
    using assms by (auto simp: configured_addresses_def factory_config_def defaults_backend_config_def)
  have kind: "dc_backend ?cfg = kind" by (simp add: factory_config_def)
  obtain be where be: "create_backend dp ?cfg = Inr be" "\<forall>q w. do_discover be q w = (Inr [], w)"
  proof (cases "kind = Dns")
    case True
    with kind have "create_backend dp ?cfg = Inr (beside_cache (dns_backend (dp_read6 dp) ?cfg))"
      by (simp add: create_backend_def)
    then show thesis
      by (rule that) (simp add: beside_cache_def dns_backend_def dns_discover_def none split: prod.split)
  next
    case False
    with kind assms have "create_backend dp ?cfg = Inr (beside_cache (mesh_backend (dp_order dp) (dp_read6 dp) ?cfg))"
      by (simp add: create_backend_def)
    then show thesis
      by (rule that) (simp add: beside_cache_def mesh_backend_def mesh_discover_def none split: prod.split)
  qed
  then have "fst (create_with_defaults dp kind es t s) = CallReturns discover_new"
    by (cases s) (simp add: create_with_defaults_def create_discover_def discover_with_def from_backend_def)
  with be show ?thesis by blast
qed


theorem address_backends_find_nothing_witness:
  "fst (create_with_defaults toy_deployment Dns [''10.0.0.1:80''] ''chat'' (Map.empty, [])) = CallReturns discover_new"
  using address_backends_find_nothing [of Dns toy_deployment "[''10.0.0.1:80'']" "''chat''"] by simp

definition toy_config :: discovery_config where
  "toy_config = factory_config Map.empty Etcd (defaults_backend_config Map.empty Etcd [''10.0.0.2:2379''] ''chat'')"


end
