(* ===== verification/Serving.thy ===== *)
theory Serving
  imports Service_Runtime Limits Discovery_Types
begin

text \<open>
  The serving side of \<^verbatim>\<open>flare-core-transport\<close>: servers as tasks of the runtime (\<^verbatim>\<open>grpc/adapter.rs\<close>,
  \<^verbatim>\<open>http/adapter.rs\<close>; with the tasks of \<^verbatim>\<open>task/spawn.rs\<close> that
  take the shutdown channel, and \<^verbatim>\<open>registry/trait.rs\<close>), the statuses of the gRPC health service (\<^verbatim>\<open>grpc/health/mod.rs\<close>), the connection of a gRPC
  client (\<^verbatim>\<open>grpc/client/mod.rs\<close>) and the retry and time-limit layers (\<^verbatim>\<open>grpc/middleware/\<close>). The server
  is the function given to the adapter, the library of connections is a parameter.
\<close>

section \<open>Adapters\<close>

text \<open>
  \<open>server\<close> is the function that serves: from the end of the shutdown channel to how serving ended. It is
  gone when it has been taken.
\<close>

record 'rx server_adapter =
  ad_name :: string
  ad_address :: socket_addr
  ad_dependencies :: "string list"
  ad_critical :: bool
  ad_serve :: "('rx \<Rightarrow> string + unit) option"

definition grpc_adapter_new :: "string \<Rightarrow> socket_addr \<Rightarrow> ('rx \<Rightarrow> string + unit) \<Rightarrow> 'rx server_adapter" where
  "grpc_adapter_new n a server =
     \<lparr>ad_name = n, ad_address = a, ad_dependencies = [], ad_critical = True, ad_serve = Some server\<rparr>"

definition http_adapter_new :: "string \<Rightarrow> socket_addr \<Rightarrow> ('rx \<Rightarrow> string + unit) \<Rightarrow> 'rx server_adapter" where
  "http_adapter_new n a server =
     \<lparr>ad_name = n, ad_address = a, ad_dependencies = [], ad_critical = True, ad_serve = Some server\<rparr>"

definition server_with_dependencies :: "string list \<Rightarrow> 'rx server_adapter \<Rightarrow> 'rx server_adapter" where
  "server_with_dependencies ds ad = ad\<lparr>ad_dependencies := ds\<rparr>"

definition server_with_critical :: "bool \<Rightarrow> 'rx server_adapter \<Rightarrow> 'rx server_adapter" where
  "server_with_critical c ad = ad\<lparr>ad_critical := c\<rparr>"

text \<open>An adapter as a task: the priority is the default of the trait.\<close>

definition server_task :: "'rx server_adapter \<Rightarrow> task" where
  "server_task ad =
     \<lparr>task_name = ad_name ad, task_dependencies = ad_dependencies ad, task_priority = 0, task_critical = ad_critical ad\<rparr>"

definition server_run :: "'rx server_adapter \<Rightarrow> 'rx \<Rightarrow> string + unit" where
  "server_run ad rx = (case ad_serve ad of Some server \<Rightarrow> server rx | None \<Rightarrow> Inl ''serve_fn already consumed'')"

record server_builder =
  ab_name :: string
  ab_address :: socket_addr
  ab_dependencies :: "string list"
  ab_critical :: bool

definition server_builder_new :: "string \<Rightarrow> socket_addr \<Rightarrow> server_builder" where
  "server_builder_new n a = \<lparr>ab_name = n, ab_address = a, ab_dependencies = [], ab_critical = True\<rparr>"

definition server_builder_with_dependencies :: "string list \<Rightarrow> server_builder \<Rightarrow> server_builder" where
  "server_builder_with_dependencies ds b = b\<lparr>ab_dependencies := ds\<rparr>"

definition server_builder_with_critical :: "bool \<Rightarrow> server_builder \<Rightarrow> server_builder" where
  "server_builder_with_critical c b = b\<lparr>ab_critical := c\<rparr>"

definition server_build :: "('rx \<Rightarrow> string + unit) \<Rightarrow> server_builder \<Rightarrow> 'rx server_adapter" where
  "server_build server b =
     \<lparr>ad_name = ab_name b, ad_address = ab_address b, ad_dependencies = ab_dependencies b,
      ad_critical = ab_critical b, ad_serve = Some server\<rparr>"

text \<open>The builder and the adapter's own methods build the same adapter.\<close>

lemma server_builder_same:
  "server_build server (server_builder_with_critical c (server_builder_with_dependencies ds (server_builder_new n a))) =
   server_with_critical c (server_with_dependencies ds (grpc_adapter_new n a server))"
  by (simp add: server_build_def server_builder_with_critical_def server_builder_with_dependencies_def
      server_builder_new_def server_with_critical_def server_with_dependencies_def grpc_adapter_new_def)

section \<open>Tasks with a shutdown channel, and services in a registry\<close>

text \<open>A task of a function that takes the shutdown channel itself: the same task for the manager.\<close>

definition spawn_task_with_shutdown :: "string \<Rightarrow> task" where
  "spawn_task_with_shutdown n =
     \<lparr>task_name = n, task_dependencies = [], task_priority = 0, task_critical = False\<rparr>"

definition add_spawn_with_shutdown :: "string \<Rightarrow> 'reg service_runtime \<Rightarrow> 'reg service_runtime" where
  "add_spawn_with_shutdown n rt = rt_add_task (spawn_task_with_shutdown n) rt"

lemma spawn_with_shutdown_same: "add_spawn_with_shutdown n rt = add_spawn n rt"
  by (simp add: add_spawn_with_shutdown_def add_spawn_def spawn_task_with_shutdown_def spawn_task_def)

record service_info =
  svc_name :: string
  svc_id :: string
  svc_address :: socket_addr
  svc_metadata :: "string \<rightharpoonup> string"
  svc_ttl :: nat

definition service_info_new :: "string \<Rightarrow> string \<Rightarrow> socket_addr \<Rightarrow> service_info" where
  "service_info_new n i a = \<lparr>svc_name = n, svc_id = i, svc_address = a, svc_metadata = Map.empty, svc_ttl = 10000\<rparr>"

definition svc_with_metadata :: "string \<Rightarrow> string \<Rightarrow> service_info \<Rightarrow> service_info" where
  "svc_with_metadata k v s = s\<lparr>svc_metadata := (svc_metadata s)(k \<mapsto> v)\<rparr>"

definition svc_with_ttl :: "nat \<Rightarrow> service_info \<Rightarrow> service_info" where
  "svc_with_ttl t s = s\<lparr>svc_ttl := t\<rparr>"

section \<open>Health statuses\<close>

datatype serving_status = StatusUnknown | StatusServing | StatusNotServing

type_synonym health_service = "string \<rightharpoonup> serving_status"

definition health_service_new :: health_service where
  "health_service_new = Map.empty"

definition hs_set_status :: "string \<Rightarrow> serving_status \<Rightarrow> health_service \<Rightarrow> health_service" where
  "hs_set_status n st hs = hs(n \<mapsto> st)"

definition hs_get_status :: "string \<Rightarrow> health_service \<Rightarrow> serving_status" where
  "hs_get_status n hs = (case hs n of Some st \<Rightarrow> st | None \<Rightarrow> StatusUnknown)"

definition hs_set_serving :: "health_service \<Rightarrow> health_service" where
  "hs_set_serving hs = (\<lambda>n. map_option (\<lambda>_. StatusServing) (hs n))"

definition hs_set_not_serving :: "health_service \<Rightarrow> health_service" where
  "hs_set_not_serving hs = (\<lambda>n. map_option (\<lambda>_. StatusNotServing) (hs n))"

datatype health_call = SetStatus string serving_status | SetServing | SetNotServing

fun health_call_step :: "health_call \<Rightarrow> health_service \<Rightarrow> health_service" where
  "health_call_step (SetStatus n st) = hs_set_status n st"
| "health_call_step SetServing = hs_set_serving"
| "health_call_step SetNotServing = hs_set_not_serving"

text \<open>The last word on a service: the calls that concern it, those for all once it is known.\<close>

fun last_word :: "string \<Rightarrow> health_call list \<Rightarrow> serving_status option" where
  "last_word n [] = None"
| "last_word n (SetStatus m st # earlier) = (if m = n then Some st else last_word n earlier)"
| "last_word n (SetServing # earlier) = (if last_word n earlier = None then None else Some StatusServing)"
| "last_word n (SetNotServing # earlier) = (if last_word n earlier = None then None else Some StatusNotServing)"

lemma health_run:
  "fold health_call_step calls health_service_new n = last_word n (rev calls)"
proof (induction calls rule: rev_induct)
  case Nil
  then show ?case by (simp add: health_service_new_def)
next
  case (snoc c calls)
  then show ?case
    by (cases c) (auto simp: hs_set_status_def hs_set_serving_def hs_set_not_serving_def)
qed

text \<open>
  After any calls the status of a service is the last word on it; a service that was never set stays unknown,
  also when all services are set to serving or not serving.
\<close>

theorem health_status_is_last_word:
  "hs_get_status n (fold health_call_step calls health_service_new)
     = (case last_word n (rev calls) of Some st \<Rightarrow> st | None \<Rightarrow> StatusUnknown)"
  by (simp add: hs_get_status_def health_run)

section \<open>Clients\<close>

text \<open>Durations are milliseconds.\<close>

record client_config =
  cc_address :: string
  cc_connect_timeout :: nat
  cc_timeout :: nat
  cc_max_retries :: nat
  cc_tls_enabled :: bool

definition client_config_default :: client_config where
  "client_config_default =
     \<lparr>cc_address = ''http://localhost:50051'', cc_connect_timeout = 5000, cc_timeout = 30000,
      cc_max_retries = 3, cc_tls_enabled = False\<rparr>"

definition client_address :: "string \<Rightarrow> client_config \<Rightarrow> client_config" where
  "client_address a c = c\<lparr>cc_address := a\<rparr>"

definition client_connect_timeout :: "nat \<Rightarrow> client_config \<Rightarrow> client_config" where
  "client_connect_timeout d c = c\<lparr>cc_connect_timeout := d\<rparr>"

definition client_timeout :: "nat \<Rightarrow> client_config \<Rightarrow> client_config" where
  "client_timeout d c = c\<lparr>cc_timeout := d\<rparr>"

definition client_max_retries :: "nat \<Rightarrow> client_config \<Rightarrow> client_config" where
  "client_max_retries n c = c\<lparr>cc_max_retries := n\<rparr>"

text \<open>
  What the library does with an address, and with an address and the two time limits: an error, or a channel.
\<close>

record 'ch connector =
  co_endpoint :: "string \<Rightarrow> string option"
  co_connect :: "string \<Rightarrow> nat \<Rightarrow> nat \<Rightarrow> string + 'ch"

definition client_build :: "'ch connector \<Rightarrow> timestamp \<Rightarrow> client_config \<Rightarrow> flare_error + 'ch" where
  "client_build co now c =
     (case co_endpoint co (cc_address c) of
        Some e \<Rightarrow> Inl (connection_failed now (''Invalid address: '' @ e))
      | None \<Rightarrow>
          (case co_connect co (cc_address c) (cc_connect_timeout c) (cc_timeout c) of
             Inl e \<Rightarrow> Inl (connection_failed now (''Failed to connect: '' @ e))
           | Inr ch \<Rightarrow> Inr ch))"

text \<open>A client is built from parts of its configuration only; it keeps the rest.\<close>

definition grpc_client_new ::
    "'ch connector \<Rightarrow> timestamp \<Rightarrow> client_config \<Rightarrow> flare_error + ('ch \<times> client_config)" where
  "grpc_client_new co now c =
     (case client_build co now
             (client_timeout (cc_timeout c) (client_connect_timeout (cc_connect_timeout c)
               (client_address (cc_address c) client_config_default))) of
        Inl e \<Rightarrow> Inl e
      | Inr ch \<Rightarrow> Inr (ch, c))"

text \<open>The number of retries and the use of TLS of a client have no effect on its connection.\<close>

lemma client_ignores_retries_and_tls:
  "map_sum id fst (grpc_client_new co now (c\<lparr>cc_max_retries := n, cc_tls_enabled := b\<rparr>))
     = map_sum id fst (grpc_client_new co now c)"
  by (simp add: grpc_client_new_def client_build_def client_address_def client_timeout_def
      client_connect_timeout_def split: option.split sum.split)

section \<open>Layers\<close>

text \<open>The layers of the middleware: the retry layer keeps a number and hands the service through.\<close>

record retry_layer =
  rl_max_retries :: nat

definition retry_layer_new :: "nat \<Rightarrow> retry_layer" where
  "retry_layer_new n = \<lparr>rl_max_retries = n\<rparr>"

definition retry_layer_apply :: "retry_layer \<Rightarrow> 'svc \<Rightarrow> 'svc" where
  "retry_layer_apply l svc = svc"

record timeout_layer =
  tl_timeout :: nat

definition timeout_layer_new :: "nat \<Rightarrow> timeout_layer" where
  "timeout_layer_new d = \<lparr>tl_timeout = d\<rparr>"

text \<open>\<open>limit\<close> is what the library makes of a time limit and a service.\<close>

definition timeout_layer_apply :: "(nat \<Rightarrow> 'svc \<Rightarrow> 'lim) \<Rightarrow> timeout_layer \<Rightarrow> 'svc \<Rightarrow> 'lim" where
  "timeout_layer_apply limit l svc = limit (tl_timeout l) svc"

end
