(* ===== verification/Carriers.thy ===== *)
theory Carriers
  imports Kafka_Wire Grpc_Context
begin

text \<open>
  The ways in which a request context travels: string headers, messages over NATS and Kafka, and gRPC metadata.
  Services pass on the context they were called with, so a context makes many hops of different kinds.
  The locale \<open>context_carrier\<close> is what all of them promise; it is interpreted on the four of them.
\<close>

section \<open>The contract\<close>

text \<open>
  What a hop keeps: all identifiers and the actor, with an empty field as good as an absent one; the user is
  kept or replaced by the identifier of the actor.
\<close>

definition same_context :: "request_context \<Rightarrow> request_context \<Rightarrow> bool" where
  "same_context c c' \<longleftrightarrow>
     request_id c' = request_id c \<and> trace_id c' = trace_id c \<and> actor c' = actor c \<and>
     without_empty (tenant_id c') = without_empty (tenant_id c) \<and>
     without_empty (device_id c') = without_empty (device_id c) \<and>
     without_empty (platform c') = without_empty (platform c) \<and>
     without_empty (session_id c') = without_empty (session_id c) \<and>
     without_empty (user_id c') \<in> {without_empty (user_id c), without_empty (map_option actor_id (actor c))}"

lemma same_context_refl: "same_context c c"
  by (simp add: same_context_def)

lemma same_context_trans: "same_context a b \<Longrightarrow> same_context b c \<Longrightarrow> same_context a c"
  by (auto simp: same_context_def)

lemma without_empty_idem [simp]: "without_empty (without_empty v) = without_empty v"
  by (simp add: without_empty_def)

locale context_carrier =
  fixes carry :: "request_context \<Rightarrow> request_context" and portable :: "request_context \<Rightarrow> bool"
  assumes carried: "portable c \<Longrightarrow> same_context c (carry c)"
    and portable_same: "portable c \<Longrightarrow> same_context c c' \<Longrightarrow> portable c'"
begin

lemma carried_portable: "portable c \<Longrightarrow> portable (carry c)"
  using carried portable_same by blast

lemma relayed: "portable c \<Longrightarrow> same_context b c \<Longrightarrow> same_context b (carry c) \<and> portable (carry c)"
  using carried carried_portable same_context_trans by blast

end

section \<open>Carriers\<close>

text \<open>
  What the carriers' libraries take: texts and names of metadata, the reading of bytes as texts, and the
  order in which the attributes of an actor are iterated.
\<close>

record carrier_libs =
  cl_vis :: "string \<Rightarrow> bool"
  cl_mkey :: "string \<Rightarrow> string option"
  cl_ascii :: "string \<Rightarrow> bool"
  cl_lossy :: "string \<Rightarrow> string"
  cl_entries :: "actor_context \<Rightarrow> (string \<times> string) list"

definition entries_of :: "carrier_libs \<Rightarrow> request_context \<Rightarrow> (string \<times> string) list" where
  "entries_of L c = (case actor c of Some a \<Rightarrow> cl_entries L a | None \<Rightarrow> [])"

definition header_hop :: "string \<Rightarrow> request_context \<Rightarrow> request_context" where
  "header_hop fresh c = mq_headers_to_ctx fresh (ctx_to_mq_headers c)"

record publication =
  pb_subject :: string
  pb_key :: string
  pb_payload :: string
  pb_headers :: headers

definition nats_hop ::
    "string \<Rightarrow> string \<Rightarrow> nat \<Rightarrow> bool \<Rightarrow> publication \<Rightarrow> request_context \<Rightarrow> request_context" where
  "nats_hop i r now manual p c =
     msg_ctx (mctx (decode_message i r now manual
       (wire_message_of i c (pb_subject p) (Some (pb_key p)) (pb_payload p) (Some (pb_headers p)))))"

definition kafka_hop ::
    "carrier_libs \<Rightarrow> string \<Rightarrow> nat \<Rightarrow> int \<Rightarrow> int \<Rightarrow> publication \<Rightarrow> request_context \<Rightarrow> request_context" where
  "kafka_hop L fresh now part off p c =
     msg_ctx (mctx (kafka_decode (cl_lossy L) fresh now
       (record_of c (pb_subject p) (Some (pb_key p)) (pb_payload p) (Some (pb_headers p)) part off)))"

definition grpc_hop :: "carrier_libs \<Rightarrow> string \<Rightarrow> request_context \<Rightarrow> request_context" where
  "grpc_hop L fresh c =
     (case decode_context_from_metadata (cl_vis L) (cl_ascii L) fresh
             (encode_context_to_metadata (cl_vis L) (cl_mkey L) (entries_of L c) c no_metadata) of
        Some c' \<Rightarrow> c' | None \<Rightarrow> root)"

definition portable_context :: "carrier_libs \<Rightarrow> request_context \<Rightarrow> bool" where
  "portable_context L c \<longleftrightarrow>
     request_id c \<noteq> [] \<and> (\<exists>a. actor c = Some a \<and> portable_actor a) \<and>
     sendable (cl_vis L) (cl_mkey L) (cl_ascii L) (entries_of L c) c"

lemma vis_same:
  "without_empty v' = without_empty v \<Longrightarrow> v \<noteq> None \<longrightarrow> vis (the v) \<Longrightarrow> vis [] \<Longrightarrow> v' \<noteq> None \<longrightarrow> vis (the v')"
  by (cases v; cases v') (auto simp: without_empty_def split: if_splits)

lemma portable_context_same:
  assumes "portable_context L c" and same: "same_context c c'" and "cl_vis L []"
  shows "portable_context L c'"
proof -
  note vs = vis_same [where vis = "cl_vis L", OF _ _ assms(3)]
  from assms(1) obtain a where a: "actor c = Some a" "portable_actor a" and r: "request_id c \<noteq> []"
    and s: "sendable (cl_vis L) (cl_mkey L) (cl_ascii L) (cl_entries L a) c"
    by (auto simp: portable_context_def entries_of_def)
  from same a have a': "actor c' = Some a" and r': "request_id c' = request_id c" "trace_id c' = trace_id c"
    by (simp_all add: same_context_def)
  have opt: "\<forall>v \<in> {tenant_id c', user_id c', device_id c', platform c', session_id c'}. v \<noteq> None \<longrightarrow> cl_vis L (the v)"
  proof -
    have "user_id c' \<noteq> None \<longrightarrow> cl_vis L (the (user_id c'))"
    proof (cases "without_empty (user_id c') = without_empty (user_id c)")
      case True
      then show ?thesis using vs [OF True] s by (simp add: sendable_def)
    next
      case False
      with same a have "without_empty (user_id c') = without_empty (Some (actor_id a))" by (simp add: same_context_def)
      from vs [OF this] s a show ?thesis by (simp add: sendable_def)
    qed
    then show ?thesis using same s vs by (simp add: sendable_def same_context_def)
  qed
  with s a a' r' have "sendable (cl_vis L) (cl_mkey L) (cl_ascii L) (cl_entries L a) c'"
    by (simp add: sendable_def)
  with a a' r r' show ?thesis by (simp add: portable_context_def entries_of_def)
qed

lemma header_hop_same:
  assumes "portable_context L c"
  shows "same_context c (header_hop fresh c)"
proof -
  from assms obtain a where "actor c = Some a" "portable_actor a" "request_id c \<noteq> []"
    by (auto simp: portable_context_def)
  from this ctx_roundtrip [OF this, of fresh] show ?thesis
    by (auto simp: same_context_def header_hop_def mq_headers_to_ctx_def ctx_to_mq_headers_def Let_def
        without_empty_def split: option.splits if_splits)
qed

lemma nats_hop_same:
  assumes "portable_context L c" and "\<not> carries_context (pb_headers p)"
  shows "same_context c (nats_hop i r now manual p c)"
proof -
  from assms(1) obtain a where a: "actor c = Some a" "portable_actor a" "request_id c \<noteq> []"
    by (auto simp: portable_context_def)
  from nats_message_decoded [OF a(3) _ assms(2), of i r now manual i "pb_subject p" "pb_key p" "pb_payload p"] a
  show ?thesis by (simp add: same_context_def nats_hop_def Let_def)
qed

lemma kafka_hop_header_hop:
  assumes "\<And>v. cl_lossy L v = v" and "\<not> carries_context (pb_headers p)"
  shows "kafka_hop L fresh now part off p c = header_hop fresh c"
proof -
  have "record_header_map (cl_lossy L) (Some (build_headers c (Some (pb_key p)) (Some (pb_headers p))))
      = merged_headers c (Some (pb_key p)) (Some (pb_headers p))"
    by (rule record_header_map_built) (rule assms(1))
  then show ?thesis
    using merged_headers_context [OF assms(2), of fresh c "Some (pb_key p)"]
    by (simp add: kafka_hop_def header_hop_def kafka_decode_def record_of_def Let_def message_new_def
        with_ack_handle_def mq_headers_to_ctx_def ctx_to_mq_headers_def)
qed

lemma grpc_hop_same:
  assumes "portable_context L c"
  shows "same_context c (grpc_hop L fresh c)"
proof -
  let ?md = "encode_context_to_metadata (cl_vis L) (cl_mkey L) (entries_of L c) c no_metadata"
  obtain c' where c': "decode_context_from_metadata (cl_vis L) (cl_ascii L) fresh ?md = Some c'"
    using decode_never_None by fast
  from assms grpc_context_decoded [OF _ c'] show ?thesis
    by (auto simp: portable_context_def same_context_def grpc_hop_def c' split: if_splits)
qed


section \<open>The contract on the carriers\<close>

text \<open>The hypotheses of the carriers: empty text is text, and texts are read as themselves.\<close>

definition libs_documented :: "carrier_libs \<Rightarrow> bool" where
  "libs_documented L \<longleftrightarrow> cl_vis L [] \<and> (\<forall>v. cl_lossy L v = v)"

definition own_headers_only :: "publication \<Rightarrow> bool" where
  "own_headers_only p \<longleftrightarrow> \<not> carries_context (pb_headers p)"

interpretation header_carrier: context_carrier "header_hop fresh" "\<lambda>c. libs_documented L \<and> portable_context L c"
  by unfold_locales (auto simp: header_hop_same libs_documented_def dest: portable_context_same)

interpretation grpc_carrier: context_carrier "grpc_hop L fresh" "\<lambda>c. libs_documented L \<and> portable_context L c"
  by unfold_locales (auto simp: grpc_hop_same libs_documented_def dest: portable_context_same)

interpretation nats_carrier: context_carrier "nats_hop i r now manual p"
    "\<lambda>c. own_headers_only p \<and> libs_documented L \<and> portable_context L c"
  by unfold_locales (auto simp: nats_hop_same libs_documented_def own_headers_only_def dest: portable_context_same)

interpretation kafka_carrier: context_carrier "kafka_hop L fresh now part off p"
    "\<lambda>c. own_headers_only p \<and> libs_documented L \<and> portable_context L c"
  by unfold_locales
    (auto simp: kafka_hop_header_hop header_hop_same libs_documented_def own_headers_only_def
      dest: portable_context_same)

section \<open>Journeys\<close>

datatype hop =
  ByHeaders string
| ByNats string string nat bool publication
| ByKafka string nat int int publication
| ByGrpc string

fun take_hop :: "carrier_libs \<Rightarrow> hop \<Rightarrow> request_context \<Rightarrow> request_context" where
  "take_hop L (ByHeaders fresh) = header_hop fresh"
| "take_hop L (ByNats i r now manual p) = nats_hop i r now manual p"
| "take_hop L (ByKafka fresh now part off p) = kafka_hop L fresh now part off p"
| "take_hop L (ByGrpc fresh) = grpc_hop L fresh"

definition proper_hop :: "hop \<Rightarrow> bool" where
  "proper_hop h = (case h of
     ByNats i r now manual p \<Rightarrow> own_headers_only p
   | ByKafka fresh now part off p \<Rightarrow> own_headers_only p
   | _ \<Rightarrow> True)"

lemma hop_relayed:
  assumes "proper_hop h" and "libs_documented L \<and> portable_context L c" and "same_context b c"
  shows "same_context b (take_hop L h c) \<and> portable_context L (take_hop L h c)"
proof (cases h)
  case (ByHeaders fresh)
  with header_carrier.relayed [OF assms(2,3)] show ?thesis by simp
next
  case (ByNats i r now manual p)
  with nats_carrier.relayed [of p L c b i r now manual] assms show ?thesis by (simp add: proper_hop_def)
next
  case (ByKafka fresh now part off p)
  with kafka_carrier.relayed [of p L c b fresh now part off] assms show ?thesis by (simp add: proper_hop_def)
next
  case (ByGrpc fresh)
  with grpc_carrier.relayed [OF assms(2,3)] show ?thesis by simp
qed

lemma journey_relayed:
  "list_all proper_hop hs \<Longrightarrow> libs_documented L \<Longrightarrow> portable_context L c \<Longrightarrow> same_context b c \<Longrightarrow>
   same_context b (fold (take_hop L) hs c)"
  by (induction hs arbitrary: c) (auto dest: hop_relayed)


definition plain_libs :: carrier_libs where
  "plain_libs = \<lparr>cl_vis = any_text, cl_mkey = any_key, cl_ascii = any_text, cl_lossy = id,
                 cl_entries = (\<lambda>a. [(''zone'', ''eu'')])\<rparr>"

definition courier :: actor_context where
  "courier = \<lparr>actor_id = ''a1'', actor_type = User, roles = [''ops'', ''dev''], attributes = [''zone'' \<mapsto> ''eu'']\<rparr>"

definition courier_context :: request_context where
  "courier_context = with_actor courier (with_tenant_id ''t1'' (with_request_id ''r1''))"

definition plain_publication :: publication where
  "plain_publication = \<lparr>pb_subject = ''orders'', pb_key = ''k'', pb_payload = ''body'', pb_headers = Map.empty\<rparr>"


end
