(* ===== verification/Observability.thy ===== *)
theory Observability
  imports Prelude
begin

text \<open>
  What a process tells about itself (\<^verbatim>\<open>infra/src/metrics/mod.rs\<close>, \<^verbatim>\<open>infra/src/telemetry/mod.rs\<close>): the counters
  of requests with the durations of the last ones, and the installation of the subscriber of a process,
  with or without the export of traces. The library of subscribers is a parameter: the parser of filters
  and the exporter. What is installed is the state of the process.
\<close>

section \<open>Metrics of requests\<close>

record request_metrics =
  requests_total :: u64
  requests_success :: u64
  requests_failed :: u64
  request_duration_ms :: "u64 list"

definition metrics_collector_new :: request_metrics where
  "metrics_collector_new =
     \<lparr>requests_total = 0, requests_success = 0, requests_failed = 0, request_duration_ms = []\<rparr>"

text \<open>The durations are milliseconds; the conversion to 64 bits cuts them. Counters wrap as in a release build.\<close>

definition record_request :: "bool \<Rightarrow> nat \<Rightarrow> request_metrics \<Rightarrow> request_metrics" where
  "record_request success ms m =
     (let m1 = m\<lparr>requests_total := requests_total m + 1\<rparr>;
          m2 = (if success then m1\<lparr>requests_success := requests_success m1 + 1\<rparr>
                else m1\<lparr>requests_failed := requests_failed m1 + 1\<rparr>);
          ds = request_duration_ms m2 @ [of_nat ms]
      in m2\<lparr>request_duration_ms := (if length ds > 1000 then tl ds else ds)\<rparr>)"

definition get_metrics :: "request_metrics \<Rightarrow> request_metrics" where
  "get_metrics m = m"

text \<open>The interceptor returns the request as it is and counts nothing.\<close>

definition metrics_intercept :: "'req \<Rightarrow> 'req" where
  "metrics_intercept req = req"

definition metrics_interceptor_collector :: "request_metrics \<Rightarrow> request_metrics" where
  "metrics_interceptor_collector m = m"

section \<open>The subscriber of a process\<close>

record logging_options =
  lo_level :: string
  lo_with_target :: bool
  lo_with_thread_ids :: bool
  lo_with_file :: bool
  lo_with_line_number :: bool
  lo_with_ansi :: "bool option"

definition logging_options_default :: logging_options where
  "logging_options_default =
     \<lparr>lo_level = ''debug'', lo_with_target = False, lo_with_thread_ids = True, lo_with_file = True,
      lo_with_line_number = True, lo_with_ansi = None\<rparr>"

record otlp_options =
  otlp_service :: string
  otlp_endpoint :: string

definition otlp_options_new :: "string \<Rightarrow> string \<Rightarrow> otlp_options" where
  "otlp_options_new s e = \<lparr>otlp_service = s, otlp_endpoint = e\<rparr>"

definition otlp_enabled :: "otlp_options \<Rightarrow> bool" where
  "otlp_enabled o' \<longleftrightarrow> trim (otlp_service o') \<noteq> [] \<and> trim (otlp_endpoint o') \<noteq> []"

definition default_env_filter :: "(string \<Rightarrow> 'f option) \<Rightarrow> (string \<Rightarrow> 'f) \<Rightarrow> string \<Rightarrow> 'f" where
  "default_env_filter try_new lossy app_level =
     (case try_new (app_level @
        '',hyper=warn,reqwest=warn,h2=warn,rdkafka=warn,tower=warn,tokio=warn,sqlx=warn,tantivy=warn,async_nats=warn,tonic=warn,redis=warn'')
      of Some f \<Rightarrow> f | None \<Rightarrow> lossy app_level)"

text \<open>A subscriber: its filter, the layer that writes and the service whose traces it exports, if any.\<close>

record 'f subscriber =
  sub_filter :: 'f
  sub_ansi :: bool
  sub_target :: bool
  sub_thread_ids :: bool
  sub_file :: bool
  sub_line_number :: bool
  sub_tracer :: "string option"

text \<open>The globals of a process: its subscriber, and the service and exporter of its provider of traces.\<close>

record ('f, 'x) telemetry =
  global_subscriber :: "'f subscriber option"
  global_provider :: "(string \<times> 'x) option"

definition try_init :: "'f subscriber \<Rightarrow> ('f, 'x) telemetry \<Rightarrow> ('f, 'x) telemetry" where
  "try_init s t =
     (case global_subscriber t of None \<Rightarrow> t\<lparr>global_subscriber := Some s\<rparr> | Some _ \<Rightarrow> t)"

definition subscriber_of :: "logging_options \<Rightarrow> 'f \<Rightarrow> bool \<Rightarrow> string option \<Rightarrow> 'f subscriber" where
  "subscriber_of opts f use_ansi tracer =
     \<lparr>sub_filter = f, sub_ansi = use_ansi, sub_target = lo_with_target opts,
      sub_thread_ids = lo_with_thread_ids opts, sub_file = lo_with_file opts,
      sub_line_number = lo_with_line_number opts, sub_tracer = tracer\<rparr>"

text \<open>\<open>exporter\<close> builds an exporter for an endpoint.\<close>

definition init_subscriber_with_otlp ::
    "(string \<Rightarrow> string + 'x) \<Rightarrow> logging_options \<Rightarrow> 'f \<Rightarrow> bool \<Rightarrow> otlp_options \<Rightarrow> ('f, 'x) telemetry
       \<Rightarrow> (string + unit) \<times> ('f, 'x) telemetry" where
  "init_subscriber_with_otlp exporter opts f use_ansi otlp t =
     (case exporter (trim (otlp_endpoint otlp)) of
        Inl e \<Rightarrow> (Inl e, t)
      | Inr x \<Rightarrow>
          (let service = trim (otlp_service otlp)
           in (Inr (), try_init (subscriber_of opts f use_ansi (Some service))
                         (t\<lparr>global_provider := Some (service, x)\<rparr>))))"

text \<open>Without the feature \<^verbatim>\<open>otel\<close> traces are not exported; a warning is written.\<close>

definition init_subscriber_without_otel ::
    "logging_options \<Rightarrow> 'f \<Rightarrow> bool \<Rightarrow> otlp_options \<Rightarrow> ('f, 'x) telemetry \<Rightarrow> (string + unit) \<times> ('f, 'x) telemetry" where
  "init_subscriber_without_otel opts f use_ansi otlp t =
     (Inr (), try_init (subscriber_of opts f use_ansi None) t)"

text \<open>What the process is built with and runs in.\<close>

record ('f, 'x) tracing_env =
  te_otel :: bool
  te_env_filter :: "'f option"
  te_try_new :: "string \<Rightarrow> 'f option"
  te_lossy :: "string \<Rightarrow> 'f"
  te_terminal :: bool
  te_exporter :: "string \<Rightarrow> string + 'x"

definition init_tracing_subscriber ::
    "('f, 'x) tracing_env \<Rightarrow> logging_options option \<Rightarrow> otlp_options option \<Rightarrow> ('f, 'x) telemetry
       \<Rightarrow> (string + unit) \<times> ('f, 'x) telemetry" where
  "init_tracing_subscriber env options otlp t =
     (let opts = (case options of Some o' \<Rightarrow> o' | None \<Rightarrow> logging_options_default);
          f = (case te_env_filter env of
                 Some f \<Rightarrow> f
               | None \<Rightarrow> default_env_filter (te_try_new env) (te_lossy env) (lo_level opts));
          use_ansi = (case lo_with_ansi opts of Some a \<Rightarrow> a | None \<Rightarrow> te_terminal env);
          plain = (Inr (), try_init (subscriber_of opts f use_ansi None) t)
      in case otlp of
           None \<Rightarrow> plain
         | Some o' \<Rightarrow>
             if otlp_enabled o' then
               (if te_otel env then init_subscriber_with_otlp (te_exporter env) opts f use_ansi o' t
                else init_subscriber_without_otel opts f use_ansi o' t)
             else plain)"

definition init_fmt_subscriber ::
    "('f, 'x) tracing_env \<Rightarrow> logging_options option \<Rightarrow> ('f, 'x) telemetry \<Rightarrow> ('f, 'x) telemetry" where
  "init_fmt_subscriber env options t = snd (init_tracing_subscriber env options None t)"

section \<open>Properties\<close>

fun record_all :: "(bool \<times> nat) list \<Rightarrow> request_metrics \<Rightarrow> request_metrics" where
  "record_all [] m = m"
| "record_all ((ok, ms) # rs) m = record_all rs (record_request ok ms m)"

abbreviation keep_last :: "nat \<Rightarrow> 'a list \<Rightarrow> 'a list" where
  "keep_last n xs \<equiv> drop (length xs - n) xs"

lemma keep_last_snoc:
  assumes "ds = keep_last n xs" "0 < n"
  shows "(if length (ds @ [x]) > n then tl (ds @ [x]) else ds @ [x]) = keep_last n (xs @ [x])"
proof (cases "length xs < n")
  case True
  then show ?thesis using assms by simp
next
  case False
  then have "length ds = n" using assms by simp
  moreover have "Suc (length xs) - n = Suc (length xs - n)" using False by simp
  ultimately show ?thesis using assms False by (simp add: tl_append2 drop_Suc drop_tl flip: length_greater_0_conv)
qed

lemma record_all_snoc: "record_all (rs @ [r]) m = record_request (fst r) (snd r) (record_all rs m)"
  by (induction rs m rule: record_all.induct) (cases r, simp_all)

lemma durations_of_all:
  "request_duration_ms (record_all rs metrics_collector_new) = keep_last 1000 (map (\<lambda>r. of_nat (snd r)) rs)"
proof (induction rs rule: rev_induct)
  case Nil
  then show ?case by (simp add: metrics_collector_new_def)
next
  case (snoc r rs)
  have "request_duration_ms (record_all (rs @ [r]) metrics_collector_new) =
        (let ds = request_duration_ms (record_all rs metrics_collector_new) @ [of_nat (snd r)]
         in if length ds > 1000 then tl ds else ds)"
    by (simp add: record_all_snoc record_request_def Let_def)
  then show ?case
    using keep_last_snoc [OF snoc.IH, of "of_nat (snd r)"] by (simp only: Let_def map_append list.map)
qed

text \<open>
  After any requests the counters add up, each counts its requests up to its width, and the durations
  kept are those of the last thousand requests, in their order.
\<close>

lemma metrics_count_requests:
  "let m = record_all rs metrics_collector_new in
     requests_total m = of_nat (length rs) \<and>
     requests_success m = of_nat (length (filter fst rs)) \<and>
     requests_total m = requests_success m + requests_failed m \<and>
     request_duration_ms m = keep_last 1000 (map (\<lambda>r. of_nat (snd r)) rs)"
proof -
  have "requests_total (record_all rs metrics_collector_new) = of_nat (length rs) \<and>
        requests_success (record_all rs metrics_collector_new) = of_nat (length (filter fst rs)) \<and>
        requests_failed (record_all rs metrics_collector_new) = of_nat (length rs) - of_nat (length (filter fst rs))"
    by (induction rs rule: rev_induct)
      (simp_all add: metrics_collector_new_def record_all_snoc record_request_def Let_def)
  then show ?thesis by (simp add: durations_of_all Let_def)
qed

text \<open>Once a subscriber is installed no later call changes it, whatever it asks for.\<close>

lemma first_subscriber_stays:
  assumes "global_subscriber t = Some s"
  shows "global_subscriber (snd (init_tracing_subscriber env options otlp t)) = Some s"
  using assms
  by (auto simp: init_tracing_subscriber_def init_subscriber_with_otlp_def init_subscriber_without_otel_def
        try_init_def Let_def split: option.splits sum.splits)

text \<open>
  A process that first installs the plain subscriber and then asks for the export of traces gets
  success and a provider, but its subscriber still exports nothing.
\<close>

lemma late_export_succeeds_and_exports_nothing:
  assumes "global_subscriber t = None" "te_otel env" "otlp_enabled o'"
    "te_exporter env (trim (otlp_endpoint o')) = Inr x"
  shows "let t1 = init_fmt_subscriber env options1 t;
             (r, t2) = init_tracing_subscriber env options2 (Some o') t1
         in r = Inr () \<and> global_provider t2 = Some (trim (otlp_service o'), x) \<and>
            map_option sub_tracer (global_subscriber t2) = Some None"
  using assms
  by (simp add: init_fmt_subscriber_def init_tracing_subscriber_def init_subscriber_with_otlp_def
        try_init_def subscriber_of_def Let_def split: option.splits)

text \<open>The initialisation fails exactly when traces are asked for and the exporter cannot be built.\<close>

lemma init_tracing_fails_iff:
  "(\<exists>e. fst (init_tracing_subscriber env options otlp t) = Inl e) \<longleftrightarrow>
   te_otel env \<and> (\<exists>o' e. otlp = Some o' \<and> otlp_enabled o' \<and> te_exporter env (trim (otlp_endpoint o')) = Inl e)"
  by (auto simp: init_tracing_subscriber_def init_subscriber_with_otlp_def init_subscriber_without_otel_def
        Let_def split: option.splits sum.splits)

end
