(* ===== verification/Jwt_Hmac.thy ===== *)
theory Jwt_Hmac
  imports Prelude
begin

text \<open>
  The signing of tokens (\<^verbatim>\<open>infra/src/auth/token.rs\<close>): the provider of signers and verifiers that a token
  service installs for the JWT library. The message authentication codes and the keys belong to
  libraries: a code is a state that takes the message in, and a key either has a secret or an error says
  that it is of another kind.
\<close>

datatype jwt_algorithm = HS256 | HS384 | HS512 | OtherAlgorithm string

datatype jwt_error = InvalidKeyFormat | InvalidAlgorithm | KeyError string

datatype sha = Sha256 | Sha384 | Sha512

record 'm mac_lib =
  mac_new :: "sha \<Rightarrow> string \<Rightarrow> 'm option"
  mac_update :: "'m \<Rightarrow> string \<Rightarrow> 'm"
  mac_finalize :: "'m \<Rightarrow> string"
  mac_verify_slice :: "'m \<Rightarrow> string \<Rightarrow> bool"

text \<open>What is verified is exactly what is computed.\<close>

definition mac_documented :: "'m mac_lib \<Rightarrow> bool" where
  "mac_documented L \<longleftrightarrow> (\<forall>m sig. mac_verify_slice L m sig \<longleftrightarrow> sig = mac_finalize L m)"

type_synonym jwt_key = "jwt_error + string"

record 'm hmac_signer =
  sg_algorithm :: jwt_algorithm
  sg_inner :: 'm

definition hmac_signer_new :: "'m mac_lib \<Rightarrow> jwt_algorithm \<Rightarrow> sha \<Rightarrow> jwt_key \<Rightarrow> jwt_error + 'm hmac_signer" where
  "hmac_signer_new L alg h key =
     (case key of
        Inl e \<Rightarrow> Inl e
      | Inr secret \<Rightarrow>
          (case mac_new L h secret of
             None \<Rightarrow> Inl InvalidKeyFormat
           | Some m \<Rightarrow> Inr \<lparr>sg_algorithm = alg, sg_inner = m\<rparr>))"

definition try_sign :: "'m mac_lib \<Rightarrow> 'm hmac_signer \<Rightarrow> string \<Rightarrow> string" where
  "try_sign L s msg = mac_finalize L (mac_update L (sg_inner s) msg)"

record 'm hmac_verifier =
  vf_algorithm :: jwt_algorithm
  vf_inner :: 'm

definition hmac_verifier_new :: "'m mac_lib \<Rightarrow> jwt_algorithm \<Rightarrow> sha \<Rightarrow> jwt_key \<Rightarrow> jwt_error + 'm hmac_verifier" where
  "hmac_verifier_new L alg h key =
     (case key of
        Inl e \<Rightarrow> Inl e
      | Inr secret \<Rightarrow>
          (case mac_new L h secret of
             None \<Rightarrow> Inl InvalidKeyFormat
           | Some m \<Rightarrow> Inr \<lparr>vf_algorithm = alg, vf_inner = m\<rparr>))"

definition verify_signature :: "'m mac_lib \<Rightarrow> 'm hmac_verifier \<Rightarrow> string \<Rightarrow> string \<Rightarrow> bool" where
  "verify_signature L v msg sig \<longleftrightarrow> mac_verify_slice L (mac_update L (vf_inner v) msg) sig"

fun hmac_signer_factory :: "'m mac_lib \<Rightarrow> jwt_algorithm \<Rightarrow> jwt_key \<Rightarrow> jwt_error + 'm hmac_signer" where
  "hmac_signer_factory L HS256 key = hmac_signer_new L HS256 Sha256 key"
| "hmac_signer_factory L HS384 key = hmac_signer_new L HS384 Sha384 key"
| "hmac_signer_factory L HS512 key = hmac_signer_new L HS512 Sha512 key"
| "hmac_signer_factory L (OtherAlgorithm _) key = Inl InvalidAlgorithm"

fun hmac_verifier_factory :: "'m mac_lib \<Rightarrow> jwt_algorithm \<Rightarrow> jwt_key \<Rightarrow> jwt_error + 'm hmac_verifier" where
  "hmac_verifier_factory L HS256 key = hmac_verifier_new L HS256 Sha256 key"
| "hmac_verifier_factory L HS384 key = hmac_verifier_new L HS384 Sha384 key"
| "hmac_verifier_factory L HS512 key = hmac_verifier_new L HS512 Sha512 key"
| "hmac_verifier_factory L (OtherAlgorithm _) key = Inl InvalidAlgorithm"

record 'm crypto_provider =
  signer_factory :: "jwt_algorithm \<Rightarrow> jwt_key \<Rightarrow> jwt_error + 'm hmac_signer"
  verifier_factory :: "jwt_algorithm \<Rightarrow> jwt_key \<Rightarrow> jwt_error + 'm hmac_verifier"

definition HMAC_ONLY_JWT_PROVIDER :: "'m mac_lib \<Rightarrow> 'm crypto_provider" where
  "HMAC_ONLY_JWT_PROVIDER L =
     \<lparr>signer_factory = hmac_signer_factory L, verifier_factory = hmac_verifier_factory L\<rparr>"

text \<open>The provider of the process is set once; later installations fail, and the failure is ignored.\<close>

definition install_hmac_jwt_provider :: "'m mac_lib \<Rightarrow> 'm crypto_provider option \<Rightarrow> 'm crypto_provider option" where
  "install_hmac_jwt_provider L installed =
     (case installed of None \<Rightarrow> Some (HMAC_ONLY_JWT_PROVIDER L) | Some p \<Rightarrow> Some p)"

section \<open>Properties\<close>

text \<open>A signer can be had exactly where a verifier can, with the same error otherwise, and for the same algorithm.\<close>

lemma factories_agree:
  "map_sum id (\<lambda>s. (sg_algorithm s, sg_inner s)) (hmac_signer_factory L alg key) =
   map_sum id (\<lambda>v. (vf_algorithm v, vf_inner v)) (hmac_verifier_factory L alg key)"
  by (cases alg) (simp_all add: hmac_signer_new_def hmac_verifier_new_def split: sum.splits option.splits)

text \<open>
  What the signer of a key signs is what the verifier of that key accepts, for every algorithm that
  the provider knows, and nothing else is accepted.
\<close>

lemma signed_iff_verified:
  assumes "mac_documented L" "hmac_signer_factory L alg key = Inr s" "hmac_verifier_factory L alg key = Inr v"
  shows "verify_signature L v msg sig \<longleftrightarrow> sig = try_sign L s msg"
proof -
  have "sg_inner s = vf_inner v" using factories_agree [of L alg key] assms(2,3) by simp
  then show ?thesis using assms(1) by (simp add: verify_signature_def try_sign_def mac_documented_def)
qed

text \<open>Algorithms outside the three are refused, whatever the key.\<close>

lemma only_hmac_algorithms:
  "hmac_signer_factory L alg key = Inr s \<Longrightarrow> alg \<in> {HS256, HS384, HS512} \<and> sg_algorithm s = alg"
  by (cases alg) (auto simp: hmac_signer_new_def split: sum.splits option.splits)

text \<open>Installing twice is installing once, and a provider of the application is kept.\<close>

lemma install_is_idempotent:
  "install_hmac_jwt_provider L (install_hmac_jwt_provider L' p) = install_hmac_jwt_provider L' p"
  by (simp add: install_hmac_jwt_provider_def split: option.splits)

end
