(* ===== verification/Spec2Isabelle.thy ===== *)
theory Spec2Isabelle
  imports Prelude Topology Task_State Runtime_Config Task_Manager Health Hooks Service_Runtime
    Context_Core Mq_Types Mq_Failure Mq_Dispatcher Mq_Runtime Mq_Loop Mq_Scheduler Nats_Subject Nats_Wire
    Snowflake Error_Codes Error_Values Auth_Store Auth_Token Http_Api Limits Grpc_Context Context_Tokens Json
    Kafka_Wire Event_Bus Settings Discovery_Types Discover Consul_Backend Store_Backends Discovery_Ops Registrar
    Serving Carriers Observability Jwt_Hmac
begin

text \<open>
  A model of \<^verbatim>\<open>flare-server-core\<close>, a Rust workspace for building services, and the theorems that make
  its core correct.

  \<^bold>\<open>The program.\<close> The workspace has five crates with logic of their own. \<^verbatim>\<open>flare-core-runtime\<close> starts,
  watches and stops the tasks of a service. \<^verbatim>\<open>flare-core-messaging\<close> consumes messages from a broker:
  it finds a handler for the topic, skips messages handled before, and settles, retries or buries
  messages whose handler failed. \<^verbatim>\<open>flare-core-base\<close> has the request context that is carried along
  calls and messages, errors, identifiers, settings and translations. \<^verbatim>\<open>flare-core-infra\<close> issues, checks and
  revokes tokens and has a key-value store, and \<^verbatim>\<open>flare-core-transport\<close> carries contexts and errors over HTTP
  and gRPC, authenticates and limits requests and registers and finds services.

  \<^bold>\<open>Theories and sources.\<close>
  \<^item> \<open>Prelude\<close>: integer widths, Rust string functions, results as sums, iteration order of hash maps.
  \<^item> \<open>Topology\<close>: \<^verbatim>\<open>runtime/src/utils/topology.rs\<close>, Kahn's algorithm.
  \<^item> \<open>Task_State\<close>: \<^verbatim>\<open>task/state.rs\<close>, \<^verbatim>\<open>state/event.rs\<close>, \<^verbatim>\<open>state/tracker.rs\<close>; the tracker's contract is the
    locale \<open>state_store\<close>, interpreted on the model of the tracker.
  \<^item> \<open>Runtime_Config\<close>: \<^verbatim>\<open>config.rs\<close>, \<^verbatim>\<open>error.rs\<close>.
  \<^item> \<open>Task_Manager\<close>: \<^verbatim>\<open>task/manager.rs\<close>, \<^verbatim>\<open>task/trait.rs\<close>, \<^verbatim>\<open>task/spawn.rs\<close>. The loop of \<^verbatim>\<open>start_all\<close> runs
    concurrently with the bodies of the tasks it has spawned: the step relation \<open>start_step\<close> with the
    reachable states \<open>start_reach\<close>.
  \<^item> \<open>Health\<close>: \<^verbatim>\<open>health/checker.rs\<close> and the monitor loop of \<^verbatim>\<open>runtime.rs\<close>.
  \<^item> \<open>Hooks\<close>: \<^verbatim>\<open>middleware/\<close>, \<^verbatim>\<open>plugin/\<close>.
  \<^item> \<open>Service_Runtime\<close>: \<^verbatim>\<open>signal/\<close>, \<^verbatim>\<open>runtime.rs\<close>; a run is the list of its phases and its result.
  \<^item> \<open>Context_Core\<close>: \<^verbatim>\<open>base/src/context/\<close>, \<^verbatim>\<open>base/src/utils/context.rs\<close>, \<^verbatim>\<open>messaging/src/mq/context.rs\<close>.
  \<^item> \<open>Context_Tokens\<close>: the cancellation tokens and deadlines of \<^verbatim>\<open>base/src/context/core.rs\<close>. A run derives
    contexts, cancels some and lets the sleeping tasks of deadlines fire, in any order.
  \<^item> \<open>Mq_Types\<close>, \<open>Mq_Failure\<close>, \<open>Mq_Dispatcher\<close>, \<open>Mq_Runtime\<close>: \<^verbatim>\<open>messaging/src/mq/consumer/\<close> (\<^verbatim>\<open>types.rs\<close>,
    \<^verbatim>\<open>failure.rs\<close>, \<^verbatim>\<open>dispatcher.rs\<close> with \<^verbatim>\<open>handler.rs\<close>, \<^verbatim>\<open>runtime.rs\<close>). \<open>Mq_Runtime\<close> threads a world (the
    log of all calls, the store of consumed keys, the state of the handlers) through the ports of the
    runtime. The idempotency store is the locale \<open>idempotency_store\<close>, extended by
    \<open>exact_idempotency_store\<close> and interpreted on the two stores of the code.
  \<^item> \<open>Mq_Loop\<close>, \<open>Mq_Scheduler\<close>: the rest of \<^verbatim>\<open>runtime.rs\<close>, with \<^verbatim>\<open>adapter.rs\<close> and \<^verbatim>\<open>task.rs\<close>. The fetching loop
    and the tasks it spawns are the step relation \<open>consumer_step\<close>: any task may move at any time, so
    its theorems hold for every interleaving.
  \<^item> \<open>Nats_Subject\<close>, \<open>Nats_Wire\<close>: \<^verbatim>\<open>messaging/src/mq/nats/\<close> (\<^verbatim>\<open>config.rs\<close>, \<^verbatim>\<open>consumer.rs\<close>, \<^verbatim>\<open>producer.rs\<close>): streams,
    subjects and consumer tasks; publishing, headers, decoding and settling.
  \<^item> \<open>Kafka_Wire\<close>: \<^verbatim>\<open>messaging/src/mq/kafka/\<close>: settings, records, decoding and the commit of offsets.
  \<^item> \<open>Event_Bus\<close>: \<^verbatim>\<open>messaging/src/eventbus/\<close>, with the readers of messages and the producers' types.
  \<^item> \<open>Snowflake\<close>: \<^verbatim>\<open>base/src/id/snowflake.rs\<close>, with words of 64 bits.
  \<^item> \<open>Error_Codes\<close>, \<open>Error_Values\<close>: \<^verbatim>\<open>base/src/error/\<close>.
  \<^item> \<open>Json\<close>, \<open>Settings\<close>: values of documents; \<^verbatim>\<open>base/src/config/\<close> and \<^verbatim>\<open>base/src/i18n/\<close>.
  \<^item> \<open>Auth_Store\<close>, \<open>Auth_Token\<close>: \<^verbatim>\<open>infra/src/auth/\<close>: the store of tokens as commands to a server; tokens,
    trusted issuers, scopes and providers.
  \<^item> \<open>Http_Api\<close>, \<open>Limits\<close>, \<open>Grpc_Context\<close>: \<^verbatim>\<open>transport/src/http/\<close> and \<^verbatim>\<open>transport/src/grpc/\<close>: headers and
    metadata as maps to lists of texts, authentication, responses, rate limits, interceptors.
  \<^item> \<open>Discovery_Types\<close>, \<open>Discover\<close>: \<^verbatim>\<open>transport/src/discovery/\<close> (\<^verbatim>\<open>config.rs\<close>, \<^verbatim>\<open>instance.rs\<close>, \<^verbatim>\<open>discover.rs\<close>): what
    a backend reports becomes changes for a load balancer.
  \<^item> \<open>Consul_Backend\<close>, \<open>Store_Backends\<close>, \<open>Discovery_Ops\<close>: \<^verbatim>\<open>discovery/backend/\<close> and \<^verbatim>\<open>infra/src/kv/\<close>. The four
    backends behind one record of operations; the locale \<open>filtering_backend\<close> is the contract of those that
    return only what was asked for, interpreted on etcd, the mesh and Consul.
  \<^item> \<open>Registrar\<close>: \<^verbatim>\<open>discovery/factory.rs\<close>. The heartbeat task and the owner of a registry are a step
    function over events, so the theorems hold for every interleaving.
  \<^item> \<open>Serving\<close>: servers as tasks (\<^verbatim>\<open>transport/src/grpc/adapter.rs\<close>, \<^verbatim>\<open>http/adapter.rs\<close>, \<^verbatim>\<open>runtime/src/registry/trait.rs\<close>),
    \<^verbatim>\<open>grpc/health/\<close>, the connection of a client (\<^verbatim>\<open>grpc/client/mod.rs\<close>), the retry and time-limit layers.
  \<^item> \<open>Jwt_Hmac\<close>: the signers and verifiers of \<^verbatim>\<open>infra/src/auth/token.rs\<close> for the JWT library.
  \<^item> \<open>Observability\<close>: \<^verbatim>\<open>infra/src/metrics/\<close> and \<^verbatim>\<open>infra/src/telemetry/\<close>.
  \<^item> \<open>Carriers\<close>: no code of its own: the locale \<open>context_carrier\<close> is what string headers, NATS, Kafka and gRPC
    metadata do to a context, interpreted on all four; a journey is a list of them.

  \<^bold>\<open>Conventions.\<close> A \<^verbatim>\<open>Result<T, E>\<close> is \<open>E + T\<close>. Unknown code (task bodies, handlers, health checks,
  middleware, producers, the broker) is an argument of the definitions that call it; a theorem
  about all of them assumes nothing of what they answer unless its statement says so. Durations are
  milliseconds as natural numbers and points in time are natural numbers; counters of the code keep
  their width. A hash map that the code iterates is read in an order \<open>ord\<close> of which only
  \<open>hash_order ord\<close> is known.

  \<^bold>\<open>Parameters.\<close> Code outside the repository is an argument with named laws where a theorem needs some:
  the Redis server (\<open>redis_documented\<close>: answers of the documented commands, or errors), the JWT library
  (\<open>jwt_documented\<close>: what is encoded with a key and an issuer is decoded with them until a minute after
  its expiry), the library of message authentication codes (\<open>mac_documented\<close>: what it verifies is what it computes),
  the clock (\<open>clock\<close>: any sequence of readings and failures), the conversion of elapsed
  time to tokens (\<open>earn\<close>, no law), the header library (\<open>vis\<close>, \<open>ascii\<close>, \<open>mkey\<close>: which texts and names
  it takes), the encoding of protocol messages (\<open>encode\<close>, \<open>decode\<close>; \<open>codec_documented\<close>: what is written is read
  back), cancellation tokens (\<open>tokens_documented\<close>: a token cancels its descendants and nothing else), the
  commit of Kafka offsets (\<open>commits_documented\<close>: an accepted commit sets the offset of its partition), the etcd
  client (\<open>etcd_documented\<close>: it reads and writes one map of keys), the agent of Consul (a function from
  requests to answers; \<open>kv_documented\<close> for its key-value store), the texts of IPv6 addresses, and the subscribers and exporters of traces, the readers of
  TOML, JSON and base64 texts. Witnesses instantiate all of them with concrete functions.

  \<^bold>\<open>What the theorems show.\<close>
  \<^item> Settlement (\<open>Mq_Runtime\<close>): every message and every batch settles each handle at most once, and on
    success exactly once; acknowledgements and terminations are justified by what happened before;
    with the in-memory store handlers succeed once per key. The proofs go through \<open>message_trace\<close>, the
    language of the logs that one message can leave.
  \<^item> Retries (\<open>Mq_Failure\<close>): the number of republications is bounded by the policy; a retry message comes
    home to its topic.
  \<^item> Routing (\<open>Mq_Dispatcher\<close>): exact topics, patterns, the batch algorithm.
  \<^item> Start order (\<open>Topology\<close>, \<open>Task_Manager\<close>): soundness and completeness of the sort, the invariant of the
    starting loop, readiness and stopping within their time limits.
  \<^item> States and health (\<open>Task_State\<close>, \<open>Health\<close>): chains of valid transitions; the callback fires on runs
    of failures.
  \<^item> Runs (\<open>Service_Runtime\<close>): the life cycle of a registered run, and that a failed task ends the service.
  \<^item> Context (\<open>Context_Core\<close>, \<open>Nats_Wire\<close>, \<open>Grpc_Context\<close>): the round trips through string headers, broker
    messages and gRPC metadata; over any journey of them (\<open>Carriers\<close>) nothing but the user can change.
  \<^item> Cancellation (\<open>Context_Tokens\<close>): only deadlines cancel what nobody cancels, and how far a cancellation
    reaches.
  \<^item> Brokers and events (\<open>Kafka_Wire\<close>, \<open>Event_Bus\<close>): what is published reaches the handler, over either
    broker; the committed offset; what the protobuf form of an envelope cannot say.
  \<^item> Discovery (\<open>Discover\<close>, \<open>Store_Backends\<close>, \<open>Consul_Backend\<close>, \<open>Registrar\<close>): the endpoints follow the backend,
    what a discovery returns, which removals remove, and what heartbeats, updates and shutdowns do to each other.
  \<^item> Consumption (\<open>Mq_Scheduler\<close>): every fetched message belongs to a task or is dropped, keys exclude each
    other, nothing runs when the consumer has returned.
  \<^item> Identity (\<open>Auth_Store\<close>, \<open>Auth_Token\<close>, \<open>Http_Api\<close>, \<open>Grpc_Context\<close>): revoked tokens are rejected; over HTTP
    the identity is that of the token, over gRPC it is not.
  \<^item> Identifiers, errors and limits (\<open>Snowflake\<close>, \<open>Error_Codes\<close>, \<open>Error_Values\<close>, \<open>Limits\<close>): uniqueness,
    numbers and codes, what survives a crossing of gRPC, how many requests are admitted.
  Some theorems pin down behaviour that a reader would not expect from the names and comments of the
  code (for instance \<open>finished_task_still_running\<close>, \<open>failed_forward_loses_origin\<close>,
  \<open>shutdown_cannot_stop_heartbeats\<close>); their text says so.

  \<^bold>\<open>Fuel and bounds.\<close> \<open>ready_loop\<close> runs on fuel: \<open>timeout div 100 + 2\<close> rounds are enough, since every
  round sleeps 100 ms (\<open>wait_for_ready_decides\<close>). \<open>kahn\<close> terminates by a measure on the keys still to
  be processed and the length of the queue. \<open>wait_next_millis\<close> may not end: it is a partial function,
  and \<open>next_id_hangs_iff\<close> says exactly when. Monitor rounds and batches are structural recursions
  over what the environment supplies.

  \<^bold>\<open>Not modelled.\<close> The asynchronous executor as such (concurrency is modelled where the code relies on
  it, as in \<open>start_step\<close>, \<open>consumer_step\<close> and \<open>registry_step\<close>), spans and log lines, the durations of
  broker calls, the text of external formats (JSON, protobuf, TOML), the clients of brokers, registries and databases, the HTTP
  and gRPC frameworks, the success rate of a consumer (a floating-point number),
  and code without behaviour of its own: interfaces, re-exports and examples. \<^verbatim>\<open>transport/src/grpc/server/\<close>,
  \<^verbatim>\<open>grpc/fixed.rs\<close> and \<^verbatim>\<open>grpc/exponential.rs\<close> repeat files that are modelled in \<open>Grpc_Context\<close> and \<open>Limits\<close>.
\<close>

end
